(* ===== verification/Prelude.thy ===== *)
theory Prelude
  imports Main "HOL-Library.List_Lexorder" "HOL-Library.Product_Lexorder"
begin

text \<open>
  What every theory of the development shares:
  \<^item> JavaScript strings as lists of UTF-16 code units, with the string operations the backend calls
    (\<^verbatim>\<open>trim\<close>, \<^verbatim>\<open>length\<close>, \<^verbatim>\<open>Array.from\<close>, \<^verbatim>\<open>Buffer.byteLength\<close>, \<^verbatim>\<open>toUpperCase\<close>, ...);
  \<^item> the errors the backend throws, as values;
  \<^item> requests as state-passing programs that return an error or a result, with exceptions,
    \<^verbatim>\<open>try/catch\<close> and database transactions (an error inside rolls the state back);
  \<^item> SQL statements on a table held as a list of rows, and the facts about them.
\<close>

section \<open>Collections of facts\<close>

named_theorems prog_simps \<open>one-step evaluation of programs\<close>
named_theorems preserves_intros \<open>composition rules for invariants of programs\<close>
named_theorems atomic_intros \<open>composition rules for programs whose errors leave no trace\<close>
named_theorems success_simps \<open>what the success of a program says of its parts\<close>
named_theorems eval_simps \<open>definitions unfolded to run a program on concrete data\<close>

section \<open>JavaScript strings\<close>

text \<open>A string is the list of its UTF-16 code units, which is what \<^verbatim>\<open>length\<close>, \<^verbatim>\<open>slice\<close> and the
  comparison operators of JavaScript see.\<close>

type_synonym jsstring = "nat list"

definition js :: "string \<Rightarrow> jsstring" where
  "js s = map of_char s"

text \<open>The code units \<^verbatim>\<open>trim\<close> removes: ECMAScript white space and line terminators.\<close>

definition isWhiteSpace :: "nat \<Rightarrow> bool" where
  "isWhiteSpace c \<longleftrightarrow> (9 \<le> c \<and> c \<le> 13) \<or> (8192 \<le> c \<and> c \<le> 8202) \<or>
     List.member [32, 160, 5760, 8232, 8233, 8239, 8287, 12288, 65279] c"

definition trim :: "jsstring \<Rightarrow> jsstring" where
  "trim s = rev (dropWhile isWhiteSpace (rev (dropWhile isWhiteSpace s)))"

text \<open>\<^verbatim>\<open>Array.from\<close> splits a string at code points: a surrogate pair is one element.\<close>

definition isHighSurrogate :: "nat \<Rightarrow> bool" where
  "isHighSurrogate c \<longleftrightarrow> 55296 \<le> c \<and> c \<le> 56319"

definition isLowSurrogate :: "nat \<Rightarrow> bool" where
  "isLowSurrogate c \<longleftrightarrow> 56320 \<le> c \<and> c \<le> 57343"

fun arrayFrom :: "jsstring \<Rightarrow> jsstring list" where
  "arrayFrom [] = []"
| "arrayFrom [c] = [[c]]"
| "arrayFrom (c # d # s) =
     (if isHighSurrogate c \<and> isLowSurrogate d then [c, d] # arrayFrom s
      else [c] # arrayFrom (d # s))"

text \<open>\<^verbatim>\<open>Buffer.byteLength(s, "utf8")\<close>: one to four bytes for each code point, three for the
  replacement character that stands for a lone surrogate.\<close>

fun utf8Bytes :: "jsstring \<Rightarrow> nat" where
  "utf8Bytes [c] = (if c < 128 then 1 else if c < 2048 then 2 else 3)"
| "utf8Bytes _ = 4"

definition byteLength :: "jsstring \<Rightarrow> nat" where
  "byteLength s = sum_list (map utf8Bytes (arrayFrom s))"

definition isDigit :: "nat \<Rightarrow> bool" where
  "isDigit c \<longleftrightarrow> 48 \<le> c \<and> c \<le> 57"

definition isHexDigit :: "nat \<Rightarrow> bool" where
  "isHexDigit c \<longleftrightarrow> isDigit c \<or> (97 \<le> c \<and> c \<le> 102) \<or> (65 \<le> c \<and> c \<le> 70)"

definition asciiLower :: "nat \<Rightarrow> nat" where
  "asciiLower c = (if 65 \<le> c \<and> c \<le> 90 then c + 32 else c)"

text \<open>\<^verbatim>\<open>toUpperCase\<close> and \<^verbatim>\<open>toLowerCase\<close>. The sources compare the results with ASCII literals only, so
  the mapping is exact for every character that has an ASCII result (the dotless i, the long s, the
  sharp s, the f ligatures and the Kelvin sign among them) and leaves the others alone.\<close>

definition upperUnit :: "nat \<Rightarrow> jsstring" where
  "upperUnit c =
     (if 97 \<le> c \<and> c \<le> 122 then [c - 32]
      else if c = 305 then [73] else if c = 383 then [83] else if c = 223 then [83, 83]
      else if c = 64256 then [70, 70] else if c = 64257 then [70, 73]
      else if c = 64258 then [70, 76] else if c = 64259 then [70, 70, 73]
      else if c = 64260 then [70, 70, 76] else if c = 64261 \<or> c = 64262 then [83, 84]
      else [c])"

definition toUpperCase :: "jsstring \<Rightarrow> jsstring" where
  "toUpperCase s = concat (map upperUnit s)"

definition lowerUnit :: "nat \<Rightarrow> jsstring" where
  "lowerUnit c =
     (if 65 \<le> c \<and> c \<le> 90 then [c + 32]
      else if c = 304 then [105, 775] else if c = 8490 then [107] else [c])"

definition toLowerCase :: "jsstring \<Rightarrow> jsstring" where
  "toLowerCase s = concat (map lowerUnit s)"

text \<open>\<^verbatim>\<open>split\<close> with a separator of one character: \<^verbatim>\<open>n\<close> separators make \<^verbatim>\<open>n + 1\<close> parts.\<close>

fun splitOn :: "nat \<Rightarrow> jsstring \<Rightarrow> jsstring list" where
  "splitOn c [] = [[]]"
| "splitOn c (x # s) =
     (if x = c then [] # splitOn c s
      else case splitOn c s of [] \<Rightarrow> [[x]] | p # ps \<Rightarrow> (x # p) # ps)"

text \<open>\<^verbatim>\<open>join\<close> with a separator of one character.\<close>

fun joinWith :: "nat \<Rightarrow> jsstring list \<Rightarrow> jsstring" where
  "joinWith c [] = []"
| "joinWith c [s] = s"
| "joinWith c (s # t # rest) = s @ [c] @ joinWith c (t # rest)"

text \<open>A regular expression that is a fixed sequence of character classes matches a string of the
  same length, class by class.\<close>

definition matchesClasses :: "(nat \<Rightarrow> bool) list \<Rightarrow> jsstring \<Rightarrow> bool" where
  "matchesClasses ps s \<longleftrightarrow> list_all2 (\<lambda>p c. p c) ps s"

text \<open>The UUID pattern the services test identifiers with, case-insensitively:
  \<^verbatim>\<open>/^[0-9a-f]{8}-[0-9a-f]{4}-[1-5][0-9a-f]{3}-[89ab][0-9a-f]{3}-[0-9a-f]{12}$/i\<close>.\<close>

definition uuidClasses :: "(nat \<Rightarrow> bool) list" where
  "uuidClasses =
     replicate 8 isHexDigit @ [\<lambda>c. c = 45] @ replicate 4 isHexDigit @ [\<lambda>c. c = 45] @
     [\<lambda>c. 49 \<le> c \<and> c \<le> 53] @ replicate 3 isHexDigit @ [\<lambda>c. c = 45] @
     [\<lambda>c. List.member [56, 57, 65, 66, 97, 98] c] @ replicate 3 isHexDigit @ [\<lambda>c. c = 45] @
     replicate 12 isHexDigit"

definition uuidRegex :: "jsstring \<Rightarrow> bool" where
  "uuidRegex s \<longleftrightarrow> matchesClasses uuidClasses s"

text \<open>A string compared with or stored in a \<^verbatim>\<open>uuid\<close> column is cast by the database, which keeps
  the canonical lower-case text. Two strings that differ in case are different in JavaScript and
  the same in the database.\<close>

definition pgUuid :: "jsstring \<Rightarrow> jsstring" where
  "pgUuid s = map asciiLower s"

definition canonicalUuid :: "jsstring \<Rightarrow> bool" where
  "canonicalUuid s \<longleftrightarrow> pgUuid s = s"

section \<open>Errors\<close>

text \<open>The SQLSTATE classes of a rejected write.\<close>

datatype sqlstate = UniqueViolation | ForeignKeyViolation | CheckViolation

text \<open>What a request can throw: a plain \<^verbatim>\<open>Error\<close> with its code, the HTTP exceptions, a database
  error, and the two marker classes of \<^verbatim>\<open>auth.repository.ts\<close>. Messages taken from an enum are
  named by the enum's member.\<close>

datatype app_error =
    ErrorCode string
  | BadRequest string
  | Unauthorized string
  | NotFound string
  | Conflict string
  | TooManyRequests string
  | ServiceUnavailable string
  | NotImplemented string
  | PgError sqlstate
  | PhoneVerificationTokenConsumeFailedError
  | KakaoPhoneVerificationTokenConsumeFailedError

section \<open>Programs\<close>

text \<open>A program runs on a state and ends in an error or a result, and in the state it left behind:
  an exception does not undo the writes made before it unless they are in a transaction.\<close>

type_synonym ('s, 'a) prog = "'s \<Rightarrow> (app_error + 'a) \<times> 's"

definition ret :: "'a \<Rightarrow> ('s, 'a) prog" where
  "ret x s = (Inr x, s)"

definition throw :: "app_error \<Rightarrow> ('s, 'a) prog" where
  "throw e s = (Inl e, s)"

definition andThen :: "('s, 'a) prog \<Rightarrow> ('a \<Rightarrow> ('s, 'b) prog) \<Rightarrow> ('s, 'b) prog" where
  "andThen m f s = (case m s of (Inl e, t) \<Rightarrow> (Inl e, t) | (Inr x, t) \<Rightarrow> f x t)"

definition query :: "('s \<Rightarrow> 'a) \<Rightarrow> ('s, 'a) prog" where
  "query f s = (Inr (f s), s)"

definition modify :: "('s \<Rightarrow> 's) \<Rightarrow> ('s, unit) prog" where
  "modify f s = (Inr (), f s)"

definition throwIf :: "bool \<Rightarrow> app_error \<Rightarrow> ('s, unit) prog" where
  "throwIf b e = (if b then throw e else ret ())"

definition tryCatch :: "('s, 'a) prog \<Rightarrow> (app_error \<Rightarrow> ('s, 'a) prog) \<Rightarrow> ('s, 'a) prog" where
  "tryCatch m h s = (case m s of (Inl e, t) \<Rightarrow> h e t | (Inr x, t) \<Rightarrow> (Inr x, t))"

definition transaction :: "('s, 'a) prog \<Rightarrow> ('s, 'a) prog" where
  "transaction m s = (case m s of (Inl e, t) \<Rightarrow> (Inl e, s) | (Inr x, t) \<Rightarrow> (Inr x, t))"

fun forEach :: "'a list \<Rightarrow> ('a \<Rightarrow> ('s, unit) prog) \<Rightarrow> ('s, unit) prog" where
  "forEach [] f = ret ()"
| "forEach (x # xs) f = andThen (f x) (\<lambda>_. forEach xs f)"

text \<open>A program keeps \<open>I\<close> if it leads from a state with \<open>I\<close> to a state with \<open>I\<close>, whether it
  returns or throws.\<close>

definition preserves :: "('s \<Rightarrow> bool) \<Rightarrow> ('s, 'a) prog \<Rightarrow> bool" where
  "preserves I m \<longleftrightarrow> (\<forall>s. I s \<longrightarrow> I (snd (m s)))"

text \<open>A program reads if it never changes the state, is atomic if it changes nothing when it throws, and
  is total if it never throws.\<close>

definition reads :: "('s, 'a) prog \<Rightarrow> bool" where
  "reads m \<longleftrightarrow> (\<forall>s. snd (m s) = s)"

definition atomic :: "('s, 'a) prog \<Rightarrow> bool" where
  "atomic m \<longleftrightarrow> (\<forall>s e t. m s = (Inl e, t) \<longrightarrow> t = s)"

definition neverThrows :: "('s, 'a) prog \<Rightarrow> bool" where
  "neverThrows m \<longleftrightarrow> (\<forall>s e t. m s \<noteq> (Inl e, t))"

section \<open>Tables\<close>

text \<open>A table is the list of its rows. The order of the list is the order a scan without
  \<^verbatim>\<open>ORDER BY\<close> happens to return, so theorems quantify over it.\<close>

type_synonym 'row table = "'row list"

definition findFirst :: "('row \<Rightarrow> bool) \<Rightarrow> 'row table \<Rightarrow> 'row option" where
  "findFirst P t = List.find P t"

definition firstBy :: "('row \<Rightarrow> 'k::linorder) \<Rightarrow> ('row \<Rightarrow> bool) \<Rightarrow> 'row table \<Rightarrow> 'row option" where
  "firstBy k P t = (case sort_key k (filter P t) of [] \<Rightarrow> None | r # _ \<Rightarrow> Some r)"

definition updateWhere :: "('row \<Rightarrow> bool) \<Rightarrow> ('row \<Rightarrow> 'row) \<Rightarrow> 'row table \<Rightarrow> 'row table" where
  "updateWhere P f t = map (\<lambda>r. if P r then f r else r) t"

text \<open>\<^verbatim>\<open>UPDATE ... RETURNING\<close> gives the rows as they are after the update.\<close>

definition returning :: "('row \<Rightarrow> bool) \<Rightarrow> ('row \<Rightarrow> 'row) \<Rightarrow> 'row table \<Rightarrow> 'row list" where
  "returning P f t = map f (filter P t)"

definition deleteWhere :: "('row \<Rightarrow> bool) \<Rightarrow> 'row table \<Rightarrow> 'row table" where
  "deleteWhere P t = filter (\<lambda>r. \<not> P r) t"

definition insertRow :: "'row \<Rightarrow> 'row table \<Rightarrow> 'row table" where
  "insertRow r t = t @ [r]"

definition countWhere :: "('row \<Rightarrow> bool) \<Rightarrow> 'row table \<Rightarrow> nat" where
  "countWhere P t = length (filter P t)"

definition headOption :: "'a list \<Rightarrow> 'a option" where
  "headOption xs = (case xs of [] \<Rightarrow> None | x # _ \<Rightarrow> Some x)"

definition existsRow :: "('row \<Rightarrow> bool) \<Rightarrow> 'row table \<Rightarrow> bool" where
  "existsRow P t \<longleftrightarrow> list_ex P t"

text \<open>A primary key or unique constraint: no two rows with the same key.\<close>

definition uniqueKey :: "('row \<Rightarrow> 'k) \<Rightarrow> 'row table \<Rightarrow> bool" where
  "uniqueKey k t \<longleftrightarrow> distinct (map k t)"

definition keyTaken :: "('row \<Rightarrow> 'k) \<Rightarrow> 'k \<Rightarrow> 'row table \<Rightarrow> bool" where
  "keyTaken k v t \<longleftrightarrow> existsRow (\<lambda>r. k r = v) t"

text \<open>A unique constraint on a nullable column: no two rows with the same value.\<close>

definition uniqueSome :: "('row \<Rightarrow> 'k option) \<Rightarrow> 'row table \<Rightarrow> bool" where
  "uniqueSome k t \<longleftrightarrow> distinct (List.map_filter k t)"

section \<open>Evaluating programs\<close>

lemma ret_apply [simp, prog_simps]: "ret x s = (Inr x, s)"
  by (simp add: ret_def)

lemma throw_apply [simp, prog_simps]: "throw e s = (Inl e, s)"
  by (simp add: throw_def)

lemma query_apply [simp, prog_simps]: "query f s = (Inr (f s), s)"
  by (simp add: query_def)

lemma modify_apply [simp, prog_simps]: "modify f s = (Inr (), f s)"
  by (simp add: modify_def)

lemma throwIf_apply [prog_simps]: "throwIf b e s = (if b then Inl e else Inr (), s)"
  by (simp add: throwIf_def)

lemma andThen_Inl [simp]: "m s = (Inl e, t) \<Longrightarrow> andThen m f s = (Inl e, t)"
  by (simp add: andThen_def)

lemma andThen_Inr [simp]: "m s = (Inr x, t) \<Longrightarrow> andThen m f s = f x t"
  by (simp add: andThen_def)

lemma andThen_ret [simp, prog_simps]: "andThen (ret x) f s = f x s"
  by (simp add: andThen_def)

lemma andThen_throw [simp, prog_simps]: "andThen (throw e) f s = (Inl e, s)"
  by (simp add: andThen_def)

lemma andThen_query [simp, prog_simps]: "andThen (query g) f s = f (g s) s"
  by (simp add: andThen_def)

lemma andThen_modify [simp, prog_simps]: "andThen (modify g) f s = f () (g s)"
  by (simp add: andThen_def)

lemma andThen_throwIf [simp, prog_simps]:
  "andThen (throwIf b e) f s = (if b then (Inl e, s) else f () s)"
  by (simp add: throwIf_def)

lemma andThen_assoc: "andThen (andThen m f) g s = andThen m (\<lambda>x. andThen (f x) g) s"
  by (simp add: andThen_def split: prod.splits sum.splits)

lemma andThen_Inr_iff:
  "andThen m f s = (Inr y, u) \<longleftrightarrow> (\<exists>x t. m s = (Inr x, t) \<and> f x t = (Inr y, u))"
  by (auto simp: andThen_def split: prod.splits sum.splits)

lemma andThen_Inl_iff:
  "andThen m f s = (Inl e, u) \<longleftrightarrow>
     m s = (Inl e, u) \<or> (\<exists>x t. m s = (Inr x, t) \<and> f x t = (Inl e, u))"
  by (auto simp: andThen_def split: prod.splits sum.splits)

lemma tryCatch_Inl [simp]: "m s = (Inl e, t) \<Longrightarrow> tryCatch m h s = h e t"
  by (simp add: tryCatch_def)

lemma tryCatch_Inr [simp]: "m s = (Inr x, t) \<Longrightarrow> tryCatch m h s = (Inr x, t)"
  by (simp add: tryCatch_def)

lemma transaction_Inr_iff: "transaction m s = (Inr x, t) \<longleftrightarrow> m s = (Inr x, t)"
  by (auto simp: transaction_def split: prod.splits sum.splits)

lemma transaction_Inl_iff:
  "transaction m s = (Inl e, t) \<longleftrightarrow> t = s \<and> (\<exists>u. m s = (Inl e, u))"
  by (auto simp: transaction_def split: prod.splits sum.splits)

lemma transaction_Inr [simp]: "m s = (Inr x, t) \<Longrightarrow> transaction m s = (Inr x, t)"
  by (simp add: transaction_def)

lemma transaction_Inl [simp]: "m s = (Inl e, t) \<Longrightarrow> transaction m s = (Inl e, s)"
  by (simp add: transaction_def)

text \<open>A transaction that throws leaves the state as it was.\<close>

lemma transaction_rolls_back: "transaction m s = (Inl e, t) \<Longrightarrow> t = s"
  by (simp add: transaction_Inl_iff)

lemma snd_transaction:
  "snd (transaction m s) = (case m s of (Inl e, t) \<Rightarrow> s | (Inr x, t) \<Rightarrow> t)"
  by (simp add: transaction_def split: prod.splits sum.splits)

lemma transaction_keeps: "I s \<Longrightarrow> I (snd (m s)) \<Longrightarrow> I (snd (transaction m s))"
  by (cases "m s"; cases "fst (m s)") (simp_all add: transaction_def)

lemma fst_transaction [simp]: "fst (transaction m s) = fst (m s)"
  by (simp add: transaction_def split: prod.splits sum.splits)

lemma andThen_if [prog_simps]:
  "andThen (if b then m else n) f s = (if b then andThen m f s else andThen n f s)"
  by simp

text \<open>What a run that returned says of its parts.\<close>

lemma success_basic [success_simps]:
  "andThen m f s = (Inr y, u) \<longleftrightarrow> (\<exists>x t. m s = (Inr x, t) \<and> f x t = (Inr y, u))"
  "transaction n s = (Inr y, u) \<longleftrightarrow> n s = (Inr y, u)"
  "ret v s = (Inr y, u) \<longleftrightarrow> y = v \<and> u = s"
  "throw e s = (Inr y, u) \<longleftrightarrow> False"
  "query g s = (Inr y, u) \<longleftrightarrow> y = g s \<and> u = s"
  "modify h s = (Inr z, u) \<longleftrightarrow> u = h s"
  "throwIf b e s = (Inr z, u) \<longleftrightarrow> \<not> b \<and> u = s"
  by (auto simp: andThen_Inr_iff transaction_Inr_iff throwIf_apply split: if_splits)

lemma success_if [success_simps]:
  "(if b then (Inl e, s) else r) = (Inr y, u) \<longleftrightarrow> \<not> b \<and> r = (Inr y, u)"
  by simp

lemma success_option [success_simps]:
  "(case x of None \<Rightarrow> m | Some z \<Rightarrow> f z) s = (Inr y, u) \<longleftrightarrow>
   (x = None \<and> m s = (Inr y, u)) \<or> (\<exists>z. x = Some z \<and> f z s = (Inr y, u))"
  by (cases x) auto

lemma success_case_prod [success_simps]:
  "(case p of (x, y) \<Rightarrow> f x y) d = (Inr z, u) \<longleftrightarrow> (\<exists>x y. p = (x, y) \<and> f x y d = (Inr z, u))"
  by (cases p) simp

lemma success_rethrow [success_simps]:
  "(\<And>e t. \<exists>e'. h e t = (Inl e', t)) \<Longrightarrow> tryCatch m h s = (Inr y, u) \<longleftrightarrow> m s = (Inr y, u)"
  by (auto simp: tryCatch_def split: prod.splits sum.splits) (metis Inl_Inr_False prod.inject)

text \<open>To run a program on concrete data, the simplifier must not enter the parts that are not
  reached: these congruence rules keep it at the head of the program.\<close>

lemma run_congs:
  "s = s' \<Longrightarrow> andThen m f s = andThen m f s'"
  "s = s' \<Longrightarrow> transaction m s = transaction m s'"
  "s = s' \<Longrightarrow> tryCatch m h s = tryCatch m h s'"
  "s = s' \<Longrightarrow> modify g s = modify g s'"
  "s = s' \<Longrightarrow> query q s = query q s'"
  by simp_all

lemmas run_simps [eval_simps] = andThen_def transaction_def tryCatch_def throwIf_def Let_def

lemmas table_simps [eval_simps] = existsRow_def keyTaken_def insertRow_def updateWhere_def
  deleteWhere_def returning_def countWhere_def uniqueKey_def firstBy_def

lemmas string_simps [eval_simps] = js_def pgUuid_def asciiLower_def trim_def isWhiteSpace_def
  toLowerCase_def lowerUnit_def toUpperCase_def upperUnit_def

section \<open>Invariants of programs\<close>

lemma preservesI: "(\<And>s. I s \<Longrightarrow> I (snd (m s))) \<Longrightarrow> preserves I m"
  by (simp add: preserves_def)

lemma preservesD: "preserves I m \<Longrightarrow> I s \<Longrightarrow> m s = (r, t) \<Longrightarrow> I t"
  by (auto simp: preserves_def dest: spec [where x = s])

lemma preserves_ret [preserves_intros]: "preserves I (ret x)"
  by (simp add: preserves_def)

lemma preserves_throw [preserves_intros]: "preserves I (throw e)"
  by (simp add: preserves_def)

lemma preserves_query [preserves_intros]: "preserves I (query f)"
  by (simp add: preserves_def)

lemma preserves_throwIf [preserves_intros]: "preserves I (throwIf b e)"
  by (simp add: preserves_def throwIf_def)

lemma preserves_modify: "(\<And>s. I s \<Longrightarrow> I (f s)) \<Longrightarrow> preserves I (modify f)"
  by (simp add: preserves_def)

lemma preserves_andThen [preserves_intros]:
  "preserves I m \<Longrightarrow> (\<And>x. preserves I (f x)) \<Longrightarrow> preserves I (andThen m f)"
  by (simp add: preserves_def andThen_def split: prod.splits sum.splits) (metis snd_conv)

text \<open>Two writes in a row count as one: the state between them need not have the invariant.\<close>

lemma preserves_modify_andThen:
  "(\<And>s. I s \<Longrightarrow> I (snd (m (f s)))) \<Longrightarrow> preserves I (andThen (modify f) (\<lambda>_. m))"
  by (simp add: preserves_def)

lemma preserves_conj:
  "preserves I m \<Longrightarrow> preserves J m \<Longrightarrow> preserves (\<lambda>s. I s \<and> J s) m"
  by (simp add: preserves_def)

lemma preserves_Let [preserves_intros]: "preserves I (f x) \<Longrightarrow> preserves I (let y = x in f y)"
  by simp

lemma preserves_case_prod [preserves_intros]:
  "(\<And>x y. p = (x, y) \<Longrightarrow> preserves I (f x y)) \<Longrightarrow> preserves I (case p of (x, y) \<Rightarrow> f x y)"
  by (cases p) simp

lemma preserves_tryCatch [preserves_intros]:
  "preserves I m \<Longrightarrow> (\<And>e. preserves I (h e)) \<Longrightarrow> preserves I (tryCatch m h)"
  by (simp add: preserves_def tryCatch_def split: prod.splits sum.splits) (metis snd_conv)

lemma preserves_transaction [preserves_intros]:
  "preserves I m \<Longrightarrow> preserves I (transaction m)"
  by (simp add: preserves_def transaction_def split: prod.splits sum.splits) (metis snd_conv)

lemma preserves_forEach [preserves_intros]:
  "(\<And>x. x \<in> set xs \<Longrightarrow> preserves I (f x)) \<Longrightarrow> preserves I (forEach xs f)"
  by (induction xs) (auto intro: preserves_intros)

lemma preserves_if [preserves_intros]:
  "(b \<Longrightarrow> preserves I m) \<Longrightarrow> (\<not> b \<Longrightarrow> preserves I n) \<Longrightarrow> preserves I (if b then m else n)"
  by simp

lemma preserves_case_option [preserves_intros]:
  "(x = None \<Longrightarrow> preserves I m) \<Longrightarrow> (\<And>y. x = Some y \<Longrightarrow> preserves I (f y)) \<Longrightarrow>
   preserves I (case x of None \<Rightarrow> m | Some y \<Rightarrow> f y)"
  by (cases x) simp_all

section \<open>Programs that read, atomic programs\<close>

lemma reads_preserves: "reads m \<longleftrightarrow> (\<forall>d. preserves (\<lambda>x. x = d) m)"
  by (auto simp: reads_def preserves_def)

lemma readsI: "(\<And>d. preserves (\<lambda>x. x = d) m) \<Longrightarrow> reads m"
  by (simp add: reads_preserves)

lemma readsD: "reads m \<Longrightarrow> m s = (r, t) \<Longrightarrow> t = s"
  by (auto simp: reads_def dest: spec [where x = s])

lemma preserves_reads: "reads m \<Longrightarrow> preserves I m"
  by (simp add: reads_def preserves_def)

lemma atomicD: "atomic m \<Longrightarrow> m s = (Inl e, t) \<Longrightarrow> t = s"
  by (auto simp: atomic_def)

lemma atomic_basic [atomic_intros]:
  "atomic (ret x)" "atomic (throw e)" "atomic (query f)" "atomic (throwIf b e)" "atomic (modify g)"
  "atomic (transaction m)"
  by (auto simp: atomic_def throwIf_def transaction_Inl_iff)

lemma atomic_reads: "reads m \<Longrightarrow> (\<And>x. atomic (f x)) \<Longrightarrow> atomic (andThen m f)"
  by (auto simp: atomic_def andThen_Inl_iff dest: readsD)

lemma atomic_total: "atomic m \<Longrightarrow> (\<And>x. neverThrows (f x)) \<Longrightarrow> atomic (andThen m f)"
  by (auto simp: atomic_def neverThrows_def andThen_Inl_iff)

lemma atomic_if [atomic_intros]: "atomic m \<Longrightarrow> atomic n \<Longrightarrow> atomic (if b then m else n)"
  by simp

lemma atomic_case_option [atomic_intros]:
  "atomic m \<Longrightarrow> (\<And>y. atomic (f y)) \<Longrightarrow> atomic (case x of None \<Rightarrow> m | Some y \<Rightarrow> f y)"
  by (cases x) simp_all

lemma atomic_case_prod [atomic_intros]:
  "(\<And>x y. atomic (f x y)) \<Longrightarrow> atomic (case p of (x, y) \<Rightarrow> f x y)"
  by (cases p) simp

lemma neverThrows_Inr:
  assumes "neverThrows m"
  obtains x d' where "m d = (Inr x, d')"
  using assms by (metis neverThrows_def old.sum.exhaust surj_pair)

lemma neverThrows_basic [atomic_intros]:
  "neverThrows (ret x)" "neverThrows (query f)" "neverThrows (modify g)"
  by (simp_all add: neverThrows_def)

lemma neverThrows_andThen [atomic_intros]:
  "neverThrows m \<Longrightarrow> (\<And>x. neverThrows (f x)) \<Longrightarrow> neverThrows (andThen m f)"
  by (auto simp: neverThrows_def andThen_Inl_iff)

lemma neverThrows_tryCatch [atomic_intros]:
  "(\<And>e. neverThrows (h e)) \<Longrightarrow> neverThrows (tryCatch m h)"
  by (auto simp: neverThrows_def tryCatch_def split: prod.splits sum.splits)

lemma neverThrows_if [atomic_intros]:
  "neverThrows m \<Longrightarrow> neverThrows n \<Longrightarrow> neverThrows (if b then m else n)"
  by simp

lemma neverThrows_case_option [atomic_intros]:
  "neverThrows m \<Longrightarrow> (\<And>y. neverThrows (f y)) \<Longrightarrow> neverThrows (case x of None \<Rightarrow> m | Some y \<Rightarrow> f y)"
  by (cases x) simp_all

lemma neverThrows_forEach [atomic_intros]:
  assumes "\<And>x. neverThrows (f x)"
  shows "neverThrows (forEach xs f)"
proof (induction xs)
  case Nil
  show ?case unfolding forEach.simps by (rule neverThrows_basic)
next
  case (Cons x xs)
  with assms show ?case unfolding forEach.simps by (intro neverThrows_andThen)
qed

text \<open>A check that reads, before a program that keeps the invariant whenever the check passed.\<close>

lemma preserves_checked:
  assumes "reads m" and "\<And>x d. m d = (Inr x, d) \<Longrightarrow> I d \<Longrightarrow> I (snd (f x d))"
  shows "preserves I (andThen m f)"
proof (rule preservesI)
  fix d
  assume "I d"
  obtain r where run: "m d = (r, d)"
    using readsD [OF assms(1)] by (metis surj_pair)
  with \<open>I d\<close> assms(2) show "I (snd (andThen m f d))"
    by (cases r) simp_all
qed

section \<open>Rows\<close>

lemma findFirst_SomeD: "findFirst P t = Some r \<Longrightarrow> r \<in> set t \<and> P r"
  by (auto simp: findFirst_def find_Some_iff)

lemma findFirst_None_iff: "findFirst P t = None \<longleftrightarrow> (\<forall>r \<in> set t. \<not> P r)"
  by (auto simp: findFirst_def find_None_iff)

lemma findFirst_Cons [simp]:
  "findFirst P [] = None" "findFirst P (r # t) = (if P r then Some r else findFirst P t)"
  by (simp_all add: findFirst_def)

lemma findFirst_append:
  "findFirst P (t @ u) = (case findFirst P t of None \<Rightarrow> findFirst P u | Some r \<Rightarrow> Some r)"
  by (induction t) simp_all

lemma findFirst_cong: "(\<And>r. r \<in> set t \<Longrightarrow> P r = Q r) \<Longrightarrow> findFirst P t = findFirst Q t"
  by (induction t) auto

lemma uniqueKey_inj:
  "uniqueKey k t \<Longrightarrow> r \<in> set t \<Longrightarrow> r' \<in> set t \<Longrightarrow> k r = k r' \<Longrightarrow> r = r'"
  by (auto simp: uniqueKey_def distinct_map inj_on_def)

text \<open>A row found by its key is the only one with that key.\<close>

lemma findFirst_unique:
  assumes "uniqueKey k t" and "r \<in> set t" and "P r" and "\<And>r'. r' \<in> set t \<Longrightarrow> P r' \<Longrightarrow> k r' = k r"
  shows "findFirst P t = Some r"
proof -
  have "findFirst P t \<noteq> None"
    using assms(2,3) by (auto simp: findFirst_None_iff)
  then obtain q where q: "findFirst P t = Some q"
    by blast
  from findFirst_SomeD [OF this] have mem: "q \<in> set t" and "P q"
    by simp_all
  from assms(4) [OF this] have "k q = k r" .
  then have "q = r"
    by (rule uniqueKey_inj [OF assms(1) mem assms(2)])
  with q show ?thesis by simp
qed

lemma uniqueKey_Nil [simp]: "uniqueKey k []"
  by (simp add: uniqueKey_def)

lemma uniqueKey_insertRow [simp]:
  "uniqueKey k (insertRow r t) \<longleftrightarrow> uniqueKey k t \<and> k r \<notin> k ` set t"
  by (auto simp: uniqueKey_def insertRow_def)

lemma set_updateWhere: "set (updateWhere P f t) = (\<lambda>r. if P r then f r else r) ` set t"
  by (auto simp: updateWhere_def)

lemma updateWhere_none: "(\<And>r. r \<in> set t \<Longrightarrow> \<not> P r) \<Longrightarrow> updateWhere P f t = t"
  by (induction t) (auto simp: updateWhere_def)

lemma updateWhere_bex:
  "r \<in> set t \<Longrightarrow> Q (if P r then f r else r) \<Longrightarrow> \<exists>r' \<in> set (updateWhere P f t). Q r'"
  unfolding set_updateWhere by blast

lemma map_updateWhere:
  "(\<And>r. r \<in> set t \<Longrightarrow> P r \<Longrightarrow> g (f r) = g r) \<Longrightarrow> map g (updateWhere P f t) = map g t"
  by (induction t) (auto simp: updateWhere_def)

lemma uniqueKey_updateWhere:
  "(\<And>r. P r \<Longrightarrow> k (f r) = k r) \<Longrightarrow> uniqueKey k (updateWhere P f t) = uniqueKey k t"
  by (simp add: uniqueKey_def map_updateWhere)

text \<open>Giving the one row with identifier \<open>a\<close> a key that no row has keeps the key unique.\<close>

lemma uniqueKey_rekey:
  assumes "uniqueKey i t" and "uniqueKey k t" and "c \<notin> k ` set t" and "\<And>r. k (f r) = c"
  shows "uniqueKey k (updateWhere (\<lambda>r. i r = a) f t)"
  using assms
proof (induction t)
  case (Cons r t)
  have tail: "i q \<noteq> a" if "i r = a" "q \<in> set t" for q
    using Cons.prems(1) that by (auto simp: uniqueKey_def image_iff)
  have "k r \<notin> k ` set (updateWhere (\<lambda>r. i r = a) f t)"
    using Cons.prems by (auto simp: uniqueKey_def set_updateWhere)
  moreover have "c \<notin> k ` set (updateWhere (\<lambda>r. i r = a) f t)" if "i r = a"
    using Cons.prems(3) tail [OF that] by (auto simp: set_updateWhere)
  ultimately show ?case
    using Cons by (auto simp: uniqueKey_def updateWhere_def)
qed (simp add: updateWhere_def)

text \<open>Changing one row changes a sum over the table by the difference of the row.\<close>

lemma sum_list_updateWhere:
  fixes g :: "'row \<Rightarrow> int"
  assumes "uniqueKey k t" and "c \<in> set t"
  shows "sum_list (map g (updateWhere (\<lambda>r. k r = k c) f t)) = sum_list (map g t) - g c + g (f c)"
  using assms
proof (induction t)
  case (Cons r t)
  show ?case
  proof (cases "k r = k c")
    case True
    then have "r = c"
      using uniqueKey_inj [OF Cons.prems(1)] Cons.prems(2) by auto
    moreover have "updateWhere (\<lambda>r. k r = k c) f t = t"
      using Cons.prems(1) True by (intro updateWhere_none) (auto simp: uniqueKey_def image_iff)
    ultimately show ?thesis
      by (simp add: updateWhere_def)
  next
    case False
    with Cons show ?thesis
      by (auto simp: updateWhere_def uniqueKey_def)
  qed
qed simp

lemma uniqueKey_deleteWhere: "uniqueKey k t \<Longrightarrow> uniqueKey k (deleteWhere P t)"
  by (auto simp: uniqueKey_def deleteWhere_def distinct_map inj_on_def)

lemma set_insertRow [simp]: "set (insertRow r t) = insert r (set t)"
  by (auto simp: insertRow_def)

lemma set_deleteWhere [simp]: "set (deleteWhere P t) = {r \<in> set t. \<not> P r}"
  by (auto simp: deleteWhere_def)

lemma length_updateWhere [simp]: "length (updateWhere P f t) = length t"
  by (simp add: updateWhere_def)

lemma findFirst_updateWhere:
  assumes "\<And>r. r \<in> set t \<Longrightarrow> P r \<Longrightarrow> Q (f r) = Q r"
  shows "findFirst Q (updateWhere P f t) = map_option (\<lambda>r. if P r then f r else r) (findFirst Q t)"
  using assms by (induction t) (auto simp: updateWhere_def)

lemma findFirst_updateWhere_other:
  "(\<And>x. Q x \<Longrightarrow> \<not> P x \<and> \<not> P (f x)) \<Longrightarrow> findFirst P (updateWhere Q f t) = findFirst P t"
  by (induction t) (auto simp: updateWhere_def)

lemma findFirst_insertRow:
  "findFirst P (insertRow r t) =
     (case findFirst P t of None \<Rightarrow> if P r then Some r else None | Some q \<Rightarrow> Some q)"
  by (simp add: insertRow_def findFirst_append split: option.splits)

lemma existsRow_iff: "existsRow P t \<longleftrightarrow> (\<exists>r \<in> set t. P r)"
  by (simp add: existsRow_def list_ex_iff)

lemma keyTaken_iff: "keyTaken k v t \<longleftrightarrow> v \<in> k ` set t"
  by (auto simp: keyTaken_def existsRow_iff)

lemma countWhere_insertRow [simp]:
  "countWhere P (insertRow r t) = countWhere P t + (if P r then 1 else 0)"
  by (simp add: countWhere_def insertRow_def)

lemma countWhere_Nil [simp]: "countWhere P [] = 0"
  by (simp add: countWhere_def)

lemma headOption_simps [simp]: "headOption [] = None" "headOption (x # xs) = Some x"
  by (simp_all add: headOption_def)

lemma headOption_None [simp]: "headOption xs = None \<longleftrightarrow> xs = []"
  by (cases xs) simp_all

lemma headOption_SomeD: "headOption xs = Some x \<Longrightarrow> x \<in> set xs"
  by (cases xs) simp_all

lemma firstBy_None_iff: "firstBy k P t = None \<longleftrightarrow> (\<forall>r \<in> set t. \<not> P r)"
proof -
  have "sort_key k (filter P t) = [] \<longleftrightarrow> filter P t = []"
    by (metis set_empty set_sort)
  then show ?thesis
    by (auto simp: firstBy_def filter_empty_conv split: list.splits)
qed

lemma firstBy_SomeD:
  assumes "firstBy k P t = Some r"
  shows "r \<in> set t" and "P r" and "\<And>r'. r' \<in> set t \<Longrightarrow> P r' \<Longrightarrow> k r \<le> k r'"
proof -
  from assms obtain rs where rs: "sort_key k (filter P t) = r # rs"
    by (auto simp: firstBy_def split: list.splits)
  then have "set (r # rs) = {x \<in> set t. P x}"
    by (metis set_filter set_sort)
  moreover have "sorted (map k (r # rs))"
    using sorted_sort_key [of k "filter P t"] rs by simp
  ultimately show "r \<in> set t" "P r" "\<And>r'. r' \<in> set t \<Longrightarrow> P r' \<Longrightarrow> k r \<le> k r'"
    by auto
qed

lemma set_map_filter: "set (List.map_filter f xs) = {y. \<exists>x \<in> set xs. f x = Some y}"
  by (induction xs) (auto simp: map_filter_simps split: option.splits)

lemma uniqueSome_simps [simp]:
  "uniqueSome k []"
  "uniqueSome k (r # t) \<longleftrightarrow> uniqueSome k t \<and> (k r \<noteq> None \<longrightarrow> (\<forall>q \<in> set t. k q \<noteq> k r))"
  by (auto simp: uniqueSome_def map_filter_simps set_map_filter split: option.splits)

lemma uniqueSome_inj:
  "uniqueSome k t \<Longrightarrow> r \<in> set t \<Longrightarrow> q \<in> set t \<Longrightarrow> k r = Some v \<Longrightarrow> k q = Some v \<Longrightarrow> r = q"
  by (induction t) auto

lemma uniqueSome_insertRow:
  "uniqueSome k t \<Longrightarrow> (\<And>q. q \<in> set t \<Longrightarrow> k r \<noteq> None \<Longrightarrow> k q \<noteq> k r) \<Longrightarrow> uniqueSome k (insertRow r t)"
  by (induction t) (auto simp: insertRow_def)

lemma uniqueSome_updateWhere:
  "(\<And>r. r \<in> set t \<Longrightarrow> P r \<Longrightarrow> k (f r) = k r \<or> k (f r) = None) \<Longrightarrow> uniqueSome k t \<Longrightarrow> uniqueSome k (updateWhere P f t)"
  by (induction t) (auto simp: updateWhere_def, (metis option.distinct(1))+)

text \<open>Giving the rows of one key a value that no other row has.\<close>

lemma uniqueSome_set:
  assumes "uniqueKey i t" and "uniqueSome k t"
    and "\<And>r. r \<in> set t \<Longrightarrow> i r \<noteq> a \<Longrightarrow> k r \<noteq> Some v" and "\<And>r. k (f r) = Some v" and "\<And>r. P r \<Longrightarrow> i r = a"
  shows "uniqueSome k (updateWhere P f t)"
  using assms
proof (induction t)
  case (Cons r t)
  have "\<not> P q" if "i r = a" "q \<in> set t" for q
    using Cons.prems(1) Cons.prems(5) [of q] that by (auto simp: uniqueKey_def image_iff)
  moreover have "i r = a" if "P r \<or> k r = Some v"
    using Cons.prems(3) [of r] Cons.prems(5) [of r] that by auto
  moreover have "i q = a" if "q \<in> set t" "k q = Some v" for q
    using Cons.prems(3) [of q] that by auto
  moreover have "uniqueSome k (updateWhere P f t)"
    using Cons by (simp add: uniqueKey_def)
  moreover have "i q \<noteq> i r" if "q \<in> set t" for q
    using Cons.prems(1) that by (auto simp: uniqueKey_def image_iff)
  ultimately show ?case
    using Cons.prems(2,4) by (auto simp: updateWhere_def split: if_splits)
qed (simp add: updateWhere_def)

lemma image_updateWhere:
  "(\<And>r. P r \<Longrightarrow> g (f r) = g r) \<Longrightarrow> g ` set (updateWhere P f t) = g ` set t"
  by (metis list.set_map map_updateWhere)

lemma list_all_updateWhere:
  "list_all Q t \<Longrightarrow> (\<And>x. x \<in> set t \<Longrightarrow> Q x \<Longrightarrow> P x \<Longrightarrow> Q (f x)) \<Longrightarrow> list_all Q (updateWhere P f t)"
  by (auto simp: list_all_iff set_updateWhere)

lemma image_except: "g ` {r \<in> S. g r \<noteq> a} = g ` S - {a}"
  by auto

lemma list_all_insertRow [simp]: "list_all P (insertRow r t) \<longleftrightarrow> list_all P t \<and> P r"
  by (auto simp: insertRow_def)

lemma filter_eq_only: "distinct t \<Longrightarrow> v \<in> set t \<Longrightarrow> filter (\<lambda>w. w = v) t = [v]"
proof (induction t)
  case (Cons w t)
  show ?case
  proof (cases "w = v")
    case True
    with Cons.prems have "filter (\<lambda>w. w = v) t = []"
      by (intro filter_False) auto
    with True show ?thesis by simp
  qed (use Cons in simp)
qed simp

lemma filter_only:
  assumes "distinct t" and "v \<in> set t" and "\<And>w. w \<in> set t \<Longrightarrow> P w \<Longrightarrow> w = v"
  shows "filter P t = (if P v then [v] else [])"
proof -
  have "filter P t = filter (\<lambda>w. w = v \<and> P v) t"
    using assms(3) by (intro filter_cong) auto
  with assms(1,2) show ?thesis
    by (simp add: filter_eq_only)
qed

lemma deleteWhere_insertRow_fresh:
  "c \<notin> k ` set t \<Longrightarrow> k r = c \<Longrightarrow> deleteWhere (\<lambda>x. k x = c) (insertRow r t) = t"
  by (auto simp: deleteWhere_def insertRow_def image_iff intro!: filter_True)

section \<open>Pages of a sorted list\<close>

text \<open>In a list with strictly increasing keys, the rows beyond a row are the rest of the list, and the
  rows before it are the start of the list.\<close>

lemma filter_beyond_nth:
  assumes "sorted_wrt (<) (map k xs)" and "n < length xs"
  shows "filter (\<lambda>x. k (xs ! n) < (k x :: 'k::linorder)) xs = drop (Suc n) xs"
    and "filter (\<lambda>x. k x < k (xs ! n)) xs = take n xs"
  using assms
proof (induction xs arbitrary: n)
  case (Cons x xs)
  {
    case 1
    with Cons.IH(1) show ?case
      by (cases n) (auto simp: less_not_sym intro!: filter_True)
  next
    case 2
    with Cons.IH(2) show ?case
      by (cases n) (auto simp: less_not_sym intro!: filter_False)
  }
qed simp_all

lemma rev_take_rev: "rev (take n (rev xs)) = drop (length xs - n) xs"
  by (simp add: take_rev)

lemma strict_sort_key:
  "distinct (map k xs) \<Longrightarrow> sorted_wrt (<) (map k (sort_key k xs))"
  by (simp add: strict_sorted_iff distinct_map)

section \<open>Strings\<close>

lemma length_trim_le: "length (trim s) \<le> length s"
  by (metis length_dropWhile_le length_rev order_trans trim_def)

lemma dropWhile_idem: "dropWhile P (dropWhile P xs) = dropWhile P xs"
  by (induction xs) auto

lemma trim_ends:
  assumes "trim s \<noteq> []"
  shows "\<not> isWhiteSpace (hd (trim s))" and "\<not> isWhiteSpace (last (trim s))"
proof -
  let ?t = "dropWhile isWhiteSpace s"
  let ?u = "dropWhile isWhiteSpace (rev ?t)"
  have ne: "?u \<noteq> []" using assms by (simp add: trim_def)
  then show "\<not> isWhiteSpace (last (trim s))"
    by (simp add: trim_def last_rev hd_dropWhile)
  obtain pre where pre: "rev ?t = pre @ ?u"
    by (metis takeWhile_dropWhile_id)
  then have "last ?u = last (rev ?t)"
    using ne by (metis last_appendR)
  moreover have "rev ?t \<noteq> []"
    using pre ne by (metis Nil_is_append_conv)
  then have "\<not> isWhiteSpace (last (rev ?t))"
    by (simp add: last_rev hd_dropWhile)
  ultimately show "\<not> isWhiteSpace (hd (trim s))"
    using ne by (simp add: trim_def hd_rev)
qed

lemma trim_fixed:
  assumes "s = [] \<or> \<not> isWhiteSpace (hd s) \<and> \<not> isWhiteSpace (last s)"
  shows "trim s = s"
proof (cases s)
  case Nil
  then show ?thesis by (simp add: trim_def)
next
  case (Cons c cs)
  then have "dropWhile isWhiteSpace s = s"
    using assms by auto
  moreover have "dropWhile isWhiteSpace (rev s) = rev s"
    using assms Cons by (metis dropWhile_eq_self_iff hd_rev list.distinct(1))
  ultimately show ?thesis
    by (simp add: trim_def)
qed

lemma trim_trim [simp]: "trim (trim s) = trim s"
  using trim_ends [of s] by (intro trim_fixed) blast

lemma pgUuid_idem [simp]: "pgUuid (pgUuid s) = pgUuid s"
  by (auto simp: pgUuid_def asciiLower_def)

lemma canonical_pgUuid [simp]: "canonicalUuid (pgUuid s)"
  by (simp add: canonicalUuid_def)

lemma pgUuid_canonical [simp]: "canonicalUuid s \<Longrightarrow> pgUuid s = s"
  by (simp add: canonicalUuid_def)

lemma length_uuid: "uuidRegex s \<Longrightarrow> length s = 36"
  by (auto simp: uuidRegex_def matchesClasses_def uuidClasses_def dest: list_all2_lengthD)

lemma concat_arrayFrom: "concat (arrayFrom s) = s"
  by (induction s rule: arrayFrom.induct) simp_all

lemma length_arrayFrom_le: "length (arrayFrom s) \<le> length s"
  by (induction s rule: arrayFrom.induct) auto

lemma length_le_byteLength: "length (arrayFrom s) \<le> byteLength s"
  by (induction s rule: arrayFrom.induct) (auto simp: byteLength_def)

end
