(* ===== verification/Schema.thy ===== *)
theory Schema
  imports Prelude
begin

text \<open>
  The database of the backend: one record for the rows of each table of
  \<^verbatim>\<open>src/modules/database/schema.ts\<close>, and the record \<open>db\<close> of all tables. Columns keep their names
  behind a prefix for the table. A nullable column is an option, a timestamp is the number of
  milliseconds since the epoch, an enumerated column is a datatype, a \<^verbatim>\<open>uuid\<close> column holds the
  canonical text of the identifier. The foreign keys with \<^verbatim>\<open>ON DELETE\<close> actions are the delete
  operations at the end.
\<close>

type_synonym uuid = jsstring
type_synonym timestamp = int

section \<open>Enumerated columns\<close>

datatype gender = Male | Female
datatype interestedGender = InterestedMale | InterestedFemale | Everyone
datatype profileUploadStatus = Pending | Processing | Verified | Failed
datatype notificationType = LikeN | MatchN | MessageN | CommentN | PurchaseN
datatype pushOutboxStatus =
    Queued | Sending | ReceiptPending | ReceiptChecking | Delivered | FailedPermanent | Exhausted
  | Cancelled
datatype transactionState = Granted | Refunded
datatype subscriptionStatus = Active | Canceled | Expired
datatype matchActionKind = Skip | Like | Superlike

definition isGender :: "jsstring \<Rightarrow> bool" where
  "isGender v \<longleftrightarrow> List.member [js ''male'', js ''female''] v"

definition isInterestedGender :: "jsstring \<Rightarrow> bool" where
  "isInterestedGender v \<longleftrightarrow> List.member [js ''male'', js ''female'', js ''everyone''] v"

section \<open>Rows\<close>

record user =
  u_userId :: uuid
  u_email :: jsstring
  u_phone :: "jsstring option"
  u_password :: jsstring
  u_userName :: jsstring
  u_gender :: gender
  u_intro :: jsstring
  u_birthDate :: "jsstring option"
  u_region :: "jsstring option"
  u_interestedGender :: "interestedGender option"
  u_profileCompletedAt :: "timestamp option"
  u_hiddenAt :: "timestamp option"
  u_deletionScheduledAt :: "timestamp option"
  u_deletionLeaseExpiresAt :: "timestamp option"
  u_deletionAttempts :: int
  u_deletedAt :: "timestamp option"
  u_createdAt :: timestamp
  u_updatedAt :: timestamp

record profileUpload =
  pu_id :: uuid
  pu_userId :: uuid
  pu_status :: profileUploadStatus
  pu_stagingKey :: jsstring
  pu_finalKey :: "jsstring option"
  pu_expectedContentType :: jsstring
  pu_expectedSizeBytes :: int
  pu_finalContentType :: "jsstring option"
  pu_finalSizeBytes :: "int option"
  pu_publicUrl :: "jsstring option"
  pu_expiresAt :: timestamp
  pu_processingLeaseExpiresAt :: "timestamp option"
  pu_cleanupLeaseExpiresAt :: "timestamp option"
  pu_cleanupAttempts :: int
  pu_failureCode :: "string option"
  pu_stagingDeletedAt :: "timestamp option"
  pu_finalDeletionPendingAt :: "timestamp option"
  pu_finalDeletedAt :: "timestamp option"
  pu_verifiedAt :: "timestamp option"
  pu_createdAt :: timestamp
  pu_updatedAt :: timestamp

record userProfilePhoto =
  pp_id :: uuid
  pp_userId :: uuid
  pp_uploadId :: "uuid option"
  pp_url :: jsstring
  pp_position :: int
  pp_createdAt :: timestamp

record refreshToken =
  rt_id :: uuid
  rt_userId :: uuid
  rt_deviceId :: jsstring
  rt_refreshToken :: jsstring
  rt_refreshTokenExp :: timestamp
  rt_createdAt :: timestamp
  rt_updatedAt :: timestamp

record authIdentity =
  ai_id :: uuid
  ai_userId :: uuid
  ai_provider :: jsstring
  ai_providerUserId :: jsstring
  ai_createdAt :: timestamp

record phoneVerification =
  pv_id :: uuid
  pv_phoneE164 :: jsstring
  pv_codeHash :: jsstring
  pv_purpose :: jsstring
  pv_expiresAt :: timestamp
  pv_verifiedAt :: "timestamp option"
  pv_attemptCount :: int
  pv_requestIpHash :: "jsstring option"
  pv_userAgentHash :: "jsstring option"
  pv_createdAt :: timestamp

record phoneVerificationToken =
  pt_tokenHash :: jsstring
  pt_phoneE164 :: jsstring
  pt_verificationId :: uuid
  pt_expiresAt :: timestamp
  pt_usedAt :: "timestamp option"
  pt_createdAt :: timestamp

record kakaoPhoneVerificationToken =
  kt_tokenHash :: jsstring
  kt_userId :: "uuid option"
  kt_providerUserId :: jsstring
  kt_email :: "jsstring option"
  kt_expiresAt :: timestamp
  kt_usedAt :: "timestamp option"
  kt_createdAt :: timestamp

record room =
  r_id :: uuid
  r_name :: jsstring
  r_createdAt :: timestamp
  r_updatedAt :: timestamp

record roomMember =
  rm_roomId :: uuid
  rm_userId :: uuid
  rm_joinedAt :: timestamp

record message =
  m_id :: uuid
  m_roomId :: uuid
  m_senderUserId :: "uuid option"
  m_text :: jsstring
  m_idempotencyKey :: "jsstring option"
  m_deletedAt :: "timestamp option"
  m_createdAt :: timestamp
  m_updatedAt :: timestamp

record readReceipt =
  rr_roomId :: uuid
  rr_userId :: uuid
  rr_lastReadMessageId :: "uuid option"
  rr_readAt :: timestamp

record userBlock =
  ub_blockerUserId :: uuid
  ub_blockedUserId :: uuid
  ub_createdAt :: timestamp

record messageReport =
  mr_id :: uuid
  mr_messageId :: uuid
  mr_reporterUserId :: uuid
  mr_reason :: jsstring
  mr_createdAt :: timestamp

record userLike =
  ul_likerUserId :: uuid
  ul_likedUserId :: uuid
  ul_createdAt :: timestamp

record userLikedMeAccess =
  la_userId :: uuid
  la_periodStart :: timestamp
  la_viewedCount :: int
  la_updatedAt :: timestamp

record userSubscription =
  us_id :: uuid
  us_userId :: uuid
  us_planId :: jsstring
  us_status :: subscriptionStatus
  us_provider :: "jsstring option"
  us_providerCustomerId :: "jsstring option"
  us_providerProductId :: "jsstring option"
  us_providerEventTimestampMs :: "int option"
  us_currentPeriodStartsAt :: "timestamp option"
  us_currentPeriodEndsAt :: "timestamp option"
  us_createdAt :: timestamp
  us_updatedAt :: timestamp

record userConsumableBalance =
  cb_userId :: uuid
  cb_superLikeCredits :: int
  cb_boostCredits :: int
  cb_updatedAt :: timestamp

record userBoost =
  bo_id :: uuid
  bo_userId :: uuid
  bo_source :: jsstring
  bo_startsAt :: timestamp
  bo_endsAt :: timestamp
  bo_createdAt :: timestamp

record matchAction =
  ma_id :: uuid
  ma_actorUserId :: uuid
  ma_targetUserId :: uuid
  ma_action :: matchActionKind
  ma_revertedAt :: "timestamp option"
  ma_createdAt :: timestamp

record notification =
  n_id :: uuid
  n_userId :: uuid
  n_type :: notificationType
  n_title :: jsstring
  n_body :: jsstring
  n_route :: "jsstring option"
  n_sourceId :: "jsstring option"
  n_readAt :: "timestamp option"
  n_createdAt :: timestamp

record pushToken =
  tk_id :: uuid
  tk_userId :: uuid
  tk_deviceId :: uuid
  tk_token :: jsstring
  tk_platform :: jsstring
  tk_updatedAt :: timestamp
  tk_createdAt :: timestamp

record pushOutbox =
  po_id :: uuid
  po_notificationId :: uuid
  po_pushTokenId :: "uuid option"
  po_tokenSnapshot :: jsstring
  po_title :: jsstring
  po_body :: jsstring
  po_route :: "jsstring option"
  po_status :: pushOutboxStatus
  po_ticketId :: "jsstring option"
  po_sendAttempts :: int
  po_receiptAttempts :: int
  po_nextAttemptAt :: timestamp
  po_receiptAvailableAt :: "timestamp option"
  po_leaseExpiresAt :: "timestamp option"
  po_lastErrorCode :: "jsstring option"
  po_lastErrorMessage :: "jsstring option"
  po_sentAt :: "timestamp option"
  po_completedAt :: "timestamp option"
  po_createdAt :: timestamp
  po_updatedAt :: timestamp

record billingEvent =
  be_id :: uuid
  be_providerEventId :: jsstring
  be_provider :: jsstring
  be_payloadHash :: jsstring
  be_receivedAt :: timestamp

record revenueCatTransaction =
  rc_id :: uuid
  rc_provider :: jsstring
  rc_providerTransactionId :: jsstring
  rc_originalTransactionId :: jsstring
  rc_userId :: uuid
  rc_canonicalProductId :: jsstring
  rc_providerProductId :: jsstring
  rc_superLikeUnits :: int
  rc_boostUnits :: int
  rc_state :: transactionState
  rc_stateEventTimestampMs :: int
  rc_createdAt :: timestamp
  rc_updatedAt :: timestamp

record revenueCatTransactionLedgerEntry =
  rl_id :: uuid
  rl_providerEventId :: jsstring
  rl_revenuecatTransactionId :: uuid
  rl_eventTimestampMs :: int
  rl_requestedState :: transactionState
  rl_effectiveState :: transactionState
  rl_superLikeDelta :: int
  rl_boostDelta :: int
  rl_applied :: bool
  rl_createdAt :: timestamp

record matchRow =
  mt_userLowId :: uuid
  mt_userHighId :: uuid
  mt_roomId :: uuid
  mt_createdAt :: timestamp

record communityPost =
  cp_id :: uuid
  cp_authorUserId :: uuid
  cp_title :: jsstring
  cp_body :: jsstring
  cp_deletedAt :: "timestamp option"
  cp_createdAt :: timestamp
  cp_updatedAt :: timestamp

record communityProfile =
  cf_userId :: uuid
  cf_name :: jsstring
  cf_createdAt :: timestamp
  cf_updatedAt :: timestamp

record communityComment =
  cc_id :: uuid
  cc_postId :: uuid
  cc_authorUserId :: uuid
  cc_body :: jsstring
  cc_deletedAt :: "timestamp option"
  cc_createdAt :: timestamp
  cc_updatedAt :: timestamp

record communityPostReport =
  pr_id :: uuid
  pr_postId :: uuid
  pr_reporterUserId :: uuid
  pr_reason :: jsstring
  pr_createdAt :: timestamp

record communityCommentReport =
  cr_id :: uuid
  cr_commentId :: uuid
  cr_reporterUserId :: uuid
  cr_reason :: jsstring
  cr_createdAt :: timestamp

section \<open>The database\<close>

record db =
  users :: "user table"
  profileUploads :: "profileUpload table"
  userProfilePhotos :: "userProfilePhoto table"
  refreshTokens :: "refreshToken table"
  authIdentities :: "authIdentity table"
  phoneVerifications :: "phoneVerification table"
  phoneVerificationTokens :: "phoneVerificationToken table"
  kakaoPhoneVerificationTokens :: "kakaoPhoneVerificationToken table"
  rooms :: "room table"
  roomMembers :: "roomMember table"
  messages :: "message table"
  readReceipts :: "readReceipt table"
  userBlocks :: "userBlock table"
  messageReports :: "messageReport table"
  userLikes :: "userLike table"
  userLikedMeAccesses :: "userLikedMeAccess table"
  userSubscriptions :: "userSubscription table"
  userConsumableBalances :: "userConsumableBalance table"
  userBoosts :: "userBoost table"
  matchActions :: "matchAction table"
  notifications :: "notification table"
  pushTokens :: "pushToken table"
  pushOutboxes :: "pushOutbox table"
  billingEvents :: "billingEvent table"
  revenueCatTransactions :: "revenueCatTransaction table"
  revenueCatTransactionLedger :: "revenueCatTransactionLedgerEntry table"
  matchesTable :: "matchRow table"
  communityPosts :: "communityPost table"
  communityProfiles :: "communityProfile table"
  communityComments :: "communityComment table"
  communityPostReports :: "communityPostReport table"
  communityCommentReports :: "communityCommentReport table"

type_synonym 'a dbprog = "(db, 'a) prog"

definition emptyDb :: db where
  "emptyDb = \<lparr>users = [], profileUploads = [], userProfilePhotos = [], refreshTokens = [],
     authIdentities = [], phoneVerifications = [], phoneVerificationTokens = [],
     kakaoPhoneVerificationTokens = [], rooms = [], roomMembers = [], messages = [],
     readReceipts = [], userBlocks = [], messageReports = [], userLikes = [],
     userLikedMeAccesses = [], userSubscriptions = [], userConsumableBalances = [],
     userBoosts = [], matchActions = [], notifications = [], pushTokens = [], pushOutboxes = [],
     billingEvents = [], revenueCatTransactions = [], revenueCatTransactionLedger = [],
     matchesTable = [], communityPosts = [], communityProfiles = [], communityComments = [],
     communityPostReports = [], communityCommentReports = []\<rparr>"

section \<open>Reads shared by the repositories\<close>

definition findUserRow :: "jsstring \<Rightarrow> db \<Rightarrow> user option" where
  "findUserRow userId d = findFirst (\<lambda>u. u_userId u = pgUuid userId) (users d)"

definition userExists :: "uuid \<Rightarrow> db \<Rightarrow> bool" where
  "userExists userId d = existsRow (\<lambda>u. u_userId u = userId) (users d)"

section \<open>Deletes with their cascades\<close>

text \<open>A deleted push token is taken out of the outbox rows that refer to it
  (\<^verbatim>\<open>ON DELETE SET NULL\<close>).\<close>

definition deletePushTokens :: "(pushToken \<Rightarrow> bool) \<Rightarrow> db \<Rightarrow> db" where
  "deletePushTokens P d =
     (let gone = map tk_id (filter P (pushTokens d))
      in d\<lparr>pushTokens := deleteWhere P (pushTokens d),
           pushOutboxes := updateWhere
             (\<lambda>x. case po_pushTokenId x of None \<Rightarrow> False | Some i \<Rightarrow> List.member gone i)
             (\<lambda>x. x\<lparr>po_pushTokenId := None\<rparr>) (pushOutboxes d)\<rparr>)"

text \<open>A deleted notification takes its outbox rows with it (\<^verbatim>\<open>ON DELETE CASCADE\<close>).\<close>

definition deleteNotifications :: "(notification \<Rightarrow> bool) \<Rightarrow> db \<Rightarrow> db" where
  "deleteNotifications P d =
     (let gone = map n_id (filter P (notifications d))
      in d\<lparr>notifications := deleteWhere P (notifications d),
           pushOutboxes := deleteWhere (\<lambda>x. List.member gone (po_notificationId x)) (pushOutboxes d)\<rparr>)"

text \<open>A deleted room takes its members, its messages with their reports, its read receipts and its
  match with it; a receipt that points at a deleted message loses the pointer.\<close>

definition deleteRooms :: "(room \<Rightarrow> bool) \<Rightarrow> db \<Rightarrow> db" where
  "deleteRooms P d =
     (let gone = map r_id (filter P (rooms d));
          goneMessages = map m_id (filter (\<lambda>m. List.member gone (m_roomId m)) (messages d))
      in d\<lparr>rooms := deleteWhere P (rooms d),
           roomMembers := deleteWhere (\<lambda>r. List.member gone (rm_roomId r)) (roomMembers d),
           messages := deleteWhere (\<lambda>m. List.member gone (m_roomId m)) (messages d),
           messageReports := deleteWhere (\<lambda>r. List.member goneMessages (mr_messageId r)) (messageReports d),
           readReceipts := updateWhere
             (\<lambda>r. case rr_lastReadMessageId r of None \<Rightarrow> False | Some i \<Rightarrow> List.member goneMessages i)
             (\<lambda>r. r\<lparr>rr_lastReadMessageId := None\<rparr>)
             (deleteWhere (\<lambda>r. List.member gone (rr_roomId r)) (readReceipts d)),
           matchesTable := deleteWhere (\<lambda>m. List.member gone (mt_roomId m)) (matchesTable d)\<rparr>)"

section \<open>Sample rows\<close>

text \<open>Concrete rows on which the theorems are instantiated.\<close>

definition sampleUser :: "uuid \<Rightarrow> user" where
  "sampleUser i = \<lparr>u_userId = i, u_email = i @ js ''@chattea.kr'', u_phone = None, u_password = [],
     u_userName = js ''tea'', u_gender = Female, u_intro = [], u_birthDate = None, u_region = None,
     u_interestedGender = None, u_profileCompletedAt = Some 0, u_hiddenAt = None,
     u_deletionScheduledAt = None, u_deletionLeaseExpiresAt = None, u_deletionAttempts = 0,
     u_deletedAt = None, u_createdAt = 0, u_updatedAt = 0\<rparr>"

definition sampleDb :: db where
  "sampleDb = emptyDb\<lparr>users := [sampleUser (js ''a1''), sampleUser (js ''b2''), sampleUser (js ''c3'')]\<rparr>"

lemmas schema_simps [eval_simps] = sampleDb_def sampleUser_def emptyDb_def findUserRow_def
  userExists_def deletePushTokens_def deleteNotifications_def deleteRooms_def

end
