(* ===== verification/Contracts.thy ===== *)
theory Contracts
  imports Prelude
begin

text \<open>
  The contracts that several components of the backend share, as locales:
  \<^item> \<open>guarded_machine\<close>: a deterministic machine whose admissible steps keep an invariant, and
    \<open>invariant_machine\<close>, where every step is admissible;
  \<^item> \<open>lease_queue\<close>: rows of a table that workers claim in batches under a lease (the push outbox
    twice, the staging cleanup and the account deletions);
  \<^item> \<open>single_use_token\<close>: rows that a request may consume once and before they expire;
  \<^item> \<open>keyed_create\<close>: rows a client creates under a key of its own, so that it may repeat the request.
  Each is interpreted, on the definitions of the model, in the theory of the component that
  provides it.
\<close>

section \<open>Claiming a batch of rows\<close>

text \<open>The transaction the repositories share: select the due rows in the order of a key, at most
  \<open>limit\<close> of them; update exactly those by their identifier and return them.\<close>

definition claimRows ::
  "('row \<Rightarrow> 'id) \<Rightarrow> ('row \<Rightarrow> 'k::linorder) \<Rightarrow> ('row \<Rightarrow> bool) \<Rightarrow> ('row \<Rightarrow> 'row) \<Rightarrow> nat \<Rightarrow>
   'row table \<Rightarrow> 'row list \<times> 'row table" where
  "claimRows rid key due claim limit t =
     (let ids = map rid (take limit (sort_key key (filter due t)))
      in (returning (\<lambda>r. List.member ids (rid r)) claim t,
          updateWhere (\<lambda>r. List.member ids (rid r)) claim t))"

section \<open>Machines that keep an invariant\<close>

locale guarded_machine =
  fixes step :: "'s \<Rightarrow> 'e \<Rightarrow> 's"
    and inv :: "'s \<Rightarrow> bool"
    and ok :: "'e \<Rightarrow> bool"
  assumes guarded_step: "inv s \<Longrightarrow> ok e \<Longrightarrow> inv (step s e)"
begin

lemma guarded_run: "inv s \<Longrightarrow> list_all ok es \<Longrightarrow> inv (foldl step s es)"
  by (induction es arbitrary: s) (simp_all add: guarded_step)

end

locale invariant_machine =
  fixes step :: "'s \<Rightarrow> 'e \<Rightarrow> 's"
    and inv :: "'s \<Rightarrow> bool"
  assumes step_inv: "inv s \<Longrightarrow> inv (step s e)"

sublocale invariant_machine \<subseteq> guarded_machine step inv "\<lambda>_. True"
  by unfold_locales (rule step_inv)

context invariant_machine
begin

lemma run_inv: "inv s \<Longrightarrow> inv (foldl step s es)"
  by (rule guarded_run) (simp_all add: list_all_iff)

end

section \<open>Leased jobs\<close>

locale lease_queue =
  fixes rid :: "'row \<Rightarrow> 'id"
    and key :: "'row \<Rightarrow> 'k::linorder"
    and due :: "int \<Rightarrow> 'row \<Rightarrow> bool"
    and claim :: "int \<Rightarrow> int \<Rightarrow> 'row \<Rightarrow> 'row"
  assumes rid_claim: "rid (claim now lease r) = rid r"
    and claim_hides: "due now r \<Longrightarrow> t < lease \<Longrightarrow> \<not> due t (claim now lease r)"
    and claim_expires: "due now r \<Longrightarrow> now \<le> lease \<Longrightarrow> lease \<le> t \<Longrightarrow> due t (claim now lease r)"
begin

definition batch :: "int \<Rightarrow> int \<Rightarrow> nat \<Rightarrow> 'row table \<Rightarrow> 'row list \<times> 'row table" where
  "batch now lease limit t = claimRows rid key (due now) (claim now lease) limit t"

definition ids :: "int \<Rightarrow> nat \<Rightarrow> 'row table \<Rightarrow> 'id list" where
  "ids now limit t = map rid (take limit (sort_key key (filter (due now) t)))"

lemma batch_eq:
  "batch now lease limit t =
     (returning (\<lambda>r. rid r \<in> set (ids now limit t)) (claim now lease) t,
      updateWhere (\<lambda>r. rid r \<in> set (ids now limit t)) (claim now lease) t)"
  by (simp add: batch_def claimRows_def ids_def Let_def)

lemma batch_empty: "fst (batch now lease limit t) = [] \<Longrightarrow> snd (batch now lease limit t) = t"
  by (auto simp: batch_eq returning_def filter_empty_conv intro!: updateWhere_none)

lemma batch_update: "snd (batch now lease limit t) =
    updateWhere (\<lambda>r. rid r \<in> set (ids now limit t)) (claim now lease) t"
  by (simp add: batch_eq)

lemma ids_due:
  assumes "uniqueKey rid t" and "r \<in> set t" and "rid r \<in> set (ids now limit t)"
  shows "due now r"
proof -
  from assms(3) obtain q where "q \<in> set (sort_key key (filter (due now) t))" "rid q = rid r"
    by (auto simp: ids_def dest: in_set_takeD)
  then have "q \<in> set t" "due now q" "rid q = rid r"
    by simp_all
  with assms(1,2) show ?thesis
    using uniqueKey_inj by metis
qed

lemma batch_jobs_due:
  assumes "uniqueKey rid t" and "j \<in> set (fst (batch now lease limit t))"
  obtains r where "r \<in> set t" "due now r" "j = claim now lease r"
  using assms ids_due by (auto simp: batch_eq returning_def)

lemma length_ids: "length (ids now limit t) \<le> limit"
  by (simp add: ids_def)

text \<open>A batch holds at most \<open>limit\<close> jobs.\<close>

lemma batch_bounded:
  assumes "uniqueKey rid t"
  shows "length (fst (batch now lease limit t)) \<le> limit"
proof -
  let ?js = "filter (\<lambda>r. rid r \<in> set (ids now limit t)) t"
  have "distinct (map rid ?js)"
    using assms by (auto simp: uniqueKey_def distinct_map inj_on_def)
  then have "length ?js = card (rid ` set ?js)"
    by (metis distinct_card length_map set_map)
  also have "\<dots> \<le> card (set (ids now limit t))"
    by (rule card_mono) auto
  also have "\<dots> \<le> limit"
    using card_length length_ids order_trans by blast
  finally show ?thesis
    by (simp add: batch_eq returning_def)
qed

text \<open>Claiming changes no identifier.\<close>

lemma batch_rids: "map rid (snd (batch now lease limit t)) = map rid t"
  by (simp add: batch_eq map_updateWhere rid_claim)

lemma batch_unique: "uniqueKey rid t \<Longrightarrow> uniqueKey rid (snd (batch now lease limit t))"
  by (simp add: uniqueKey_def batch_rids)

text \<open>No job of a batch is claimed a second time before its lease ends.\<close>

lemma batch_exclusive:
  assumes "uniqueKey rid t" and "now' < lease"
    and "j \<in> set (fst (batch now lease limit t))"
    and "j' \<in> set (fst (batch now' lease' limit' (snd (batch now lease limit t))))"
  shows "rid j \<noteq> rid j'"
proof
  assume same: "rid j = rid j'"
  let ?t = "snd (batch now lease limit t)"
  have u: "uniqueKey rid ?t"
    using assms(1) by (rule batch_unique)
  from assms(4) obtain q where q: "q \<in> set ?t" "due now' q" "j' = claim now' lease' q"
    by (rule batch_jobs_due [OF u])
  from assms(1,3) obtain r where r: "r \<in> set t" "due now r" "j = claim now lease r"
    by (rule batch_jobs_due)
  have "rid j \<in> set (ids now limit t)"
    using assms(3) by (auto simp: batch_eq returning_def rid_claim)
  then have "rid r \<in> set (ids now limit t)"
    by (simp add: r(3) rid_claim)
  with r(1,3) have "j \<in> set ?t"
    by (auto simp: batch_eq set_updateWhere)
  then have "q = j"
    using uniqueKey_inj [OF u q(1)] same q(3) by (simp add: rid_claim)
  with q(2) r(2,3) assms(2) show False
    by (simp add: claim_hides)
qed

text \<open>A job whose worker never reports back is claimable again once the lease has ended.\<close>

lemma batch_redelivered:
  assumes "uniqueKey rid t" and "now \<le> lease" and "lease \<le> now'"
    and "j \<in> set (fst (batch now lease limit t))"
  shows "due now' j"
proof -
  from assms(1,4) obtain r where "due now r" "j = claim now lease r"
    by (rule batch_jobs_due)
  with assms(2,3) show ?thesis
    by (simp add: claim_expires)
qed

text \<open>A limit that covers the due rows leaves none of them due before the lease ends.\<close>

lemma batch_drains:
  assumes "uniqueKey rid t" and "length (filter (due now) t) \<le> limit" and "now < lease"
    and "q \<in> set (snd (batch now lease limit t))"
  shows "\<not> due now q"
proof -
  have "take limit (sort_key key (filter (due now) t)) = sort_key key (filter (due now) t)"
    using assms(2) by simp
  then have all: "rid r \<in> set (ids now limit t)" if "r \<in> set t" "due now r" for r
    using that by (simp add: ids_def)
  from assms(4) obtain r where r: "r \<in> set t"
    "q = (if rid r \<in> set (ids now limit t) then claim now lease r else r)"
    by (auto simp: batch_eq set_updateWhere)
  show ?thesis
  proof (cases "due now r")
    case True
    with all r assms(3) show ?thesis
      by (simp add: claim_hides)
  next
    case False
    with ids_due [OF assms(1) r(1)] r(2) show ?thesis
      by auto
  qed
qed

end

section \<open>Tokens that may be used once\<close>

locale single_use_token =
  fixes hash :: "'row \<Rightarrow> jsstring"
    and usedAt :: "'row \<Rightarrow> int option"
    and expiresAt :: "'row \<Rightarrow> int"
    and markUsed :: "int \<Rightarrow> 'row \<Rightarrow> 'row"
  assumes hash_markUsed: "hash (markUsed now r) = hash r"
    and usedAt_markUsed: "usedAt (markUsed now r) = Some now"
begin

definition live :: "int \<Rightarrow> jsstring \<Rightarrow> 'row \<Rightarrow> bool" where
  "live now h r \<longleftrightarrow> hash r = h \<and> usedAt r = None \<and> now < expiresAt r"

lemma live_markUsed [simp]: "\<not> live now h (markUsed now' r)"
  by (simp add: live_def usedAt_markUsed)

text \<open>What a consuming update returns is the token a lookup finds, marked as used.\<close>

lemma consume_returns:
  "headOption (returning (live now h) (markUsed now) t) =
     map_option (markUsed now) (findFirst (live now h) t)"
  by (induction t) (simp_all add: returning_def)

text \<open>After a consuming update, no lookup and no consuming update finds the token, at any time.\<close>

lemma consumed_gone:
  assumes "uniqueKey hash t" and "findFirst (live now h) t = Some r"
  shows "findFirst (live now' h) (updateWhere (live now h) (markUsed now) t) = None"
proof -
  have r: "r \<in> set t" "live now h r"
    using findFirst_SomeD [OF assms(2)] by simp_all
  have "\<not> live now' h q" if q: "q \<in> set (updateWhere (live now h) (markUsed now) t)" for q
  proof -
    from q obtain p where p: "p \<in> set t" "q = (if live now h p then markUsed now p else p)"
      by (auto simp: set_updateWhere)
    show ?thesis
    proof (cases "hash p = h")
      case True
      then have "p = r"
        using uniqueKey_inj [OF assms(1) p(1) r(1)] r(2) by (simp add: live_def)
      with p(2) r(2) show ?thesis by simp
    next
      case False
      with p(2) show ?thesis by (simp add: live_def)
    qed
  qed
  then show ?thesis
    by (simp add: findFirst_None_iff)
qed

text \<open>Other tokens are not touched.\<close>

lemma consume_frame:
  "h' \<noteq> h \<Longrightarrow>
   findFirst (live now' h') (updateWhere (live now h) (markUsed now) t) = findFirst (live now' h') t"
  by (induction t) (auto simp: updateWhere_def live_def hash_markUsed)

lemma consume_unique:
  "uniqueKey hash t \<Longrightarrow> uniqueKey hash (updateWhere (live now h) (markUsed now) t)"
  by (simp add: uniqueKey_updateWhere hash_markUsed)

end

section \<open>Rows created under a key of the client\<close>

text \<open>A repeated request finds the row of the first one and answers with it. \<open>fits\<close> says which repetitions
  the provider accepts as the same request.\<close>

locale keyed_create =
  fixes lookup :: "'k \<Rightarrow> 's \<Rightarrow> 'r option"
    and fits :: "'v \<Rightarrow> 'r \<Rightarrow> bool"
    and create :: "'k \<Rightarrow> 'v \<Rightarrow> ('s, 'r \<times> bool) prog"
  assumes create_found: "lookup k s = Some r \<Longrightarrow> fits v r \<Longrightarrow> create k v s = (Inr (r, False), s)"
    and create_refused: "lookup k s = Some r \<Longrightarrow> \<not> fits v r \<Longrightarrow> \<exists>e. create k v s = (Inl e, s)"
    and create_new: "lookup k s = None \<Longrightarrow> create k v s = (Inr (r, c), s') \<Longrightarrow>
      c \<and> lookup k s' = Some r \<and> fits v r"
begin

lemma create_stores:
  assumes "create k v s = (Inr (r, c), s')"
  shows "lookup k s' = Some r" and "fits v r" and "c \<longleftrightarrow> lookup k s = None" and "\<not> c \<Longrightarrow> s' = s"
proof -
  have "lookup k s' = Some r \<and> fits v r \<and> (c \<longleftrightarrow> lookup k s = None) \<and> (\<not> c \<longrightarrow> s' = s)"
  proof (cases "lookup k s")
    case None
    with create_new [OF None assms] show ?thesis by simp
  next
    case (Some q)
    with create_found [OF Some] create_refused [OF Some] assms show ?thesis
      by (cases "fits v q") fastforce+
  qed
  then show "lookup k s' = Some r" "fits v r" "c \<longleftrightarrow> lookup k s = None" "\<not> c \<Longrightarrow> s' = s"
    by simp_all
qed

text \<open>Repeating a request that succeeded gives the same row and changes nothing; a different request
  under the key is refused and changes nothing.\<close>

lemma create_again:
  assumes "create k v s = (Inr (r, c), s')"
  shows "fits w r \<Longrightarrow> create k w s' = (Inr (r, False), s')"
    and "\<not> fits w r \<Longrightarrow> \<exists>e. create k w s' = (Inl e, s')"
  using create_stores(1) [OF assms] by (simp_all add: create_found create_refused)

end

end
