(* ===== verification/Notification.thy ===== *)
theory Notification
  imports Schema Contracts
begin

text \<open>
  The notification component (\<^verbatim>\<open>src/modules/notification\<close>): the in-app notifications, the push tokens
  of the devices and the push outbox with its delivery state machine. The repository's
  operations come first, then the mapping of the Expo gateway, then the service. The Expo SDK
  is a parameter: its token test, its send call and its receipt call, either of which may fail.
  The operations that generate identifiers take them as an argument (\<open>ids\<close>, one per
  \<^verbatim>\<open>gen_random_uuid()\<close>), the ones that read the clock take the time.
\<close>

section \<open>Constants and data\<close>

definition MAX_EXPO_MESSAGES_PER_REQUEST :: int where
  "MAX_EXPO_MESSAGES_PER_REQUEST = 100"

definition EXPO_RECEIPT_DELAY_MS :: int where
  "EXPO_RECEIPT_DELAY_MS = 15 * 60 * 1000"

definition PUSH_LEASE_MS :: int where
  "PUSH_LEASE_MS = 60 * 1000"

definition MAX_PUSH_SEND_ATTEMPTS :: int where
  "MAX_PUSH_SEND_ATTEMPTS = 5"

definition MAX_PUSH_RECEIPT_ATTEMPTS :: int where
  "MAX_PUSH_RECEIPT_ATTEMPTS = 8"

record batchResult =
  br_claimed :: nat
  br_succeeded :: nat
  br_retryScheduled :: nat
  br_permanentlyFailed :: nat
  br_hasMore :: bool

definition EMPTY_BATCH :: batchResult where
  "EMPTY_BATCH = \<lparr>br_claimed = 0, br_succeeded = 0, br_retryScheduled = 0,
     br_permanentlyFailed = 0, br_hasMore = False\<rparr>"

record pushClaimBatch =
  pc_jobs :: "pushOutbox list"
  pc_hasMore :: bool

record createNotificationInput =
  ni_userId :: jsstring
  ni_type :: notificationType
  ni_title :: jsstring
  ni_body :: jsstring
  ni_route :: "jsstring option"
  ni_sourceId :: "jsstring option"

datatype sendKind = Accepted | SendRetry | SendPermanent | SendExhausted
datatype receiptKind = ReceiptDelivered | ReceiptRetry | ReceiptPermanent | ReceiptExhausted

record pushSendResult =
  sr_id :: uuid
  sr_attempt :: int
  sr_kind :: sendKind
  sr_ticketId :: "jsstring option"
  sr_receiptAvailableAt :: "timestamp option"
  sr_nextAttemptAt :: "timestamp option"
  sr_errorCode :: "jsstring option"
  sr_errorMessage :: "jsstring option"
  sr_invalidatePushTokenId :: "uuid option"

record pushReceiptResult =
  rs_id :: uuid
  rs_attempt :: int
  rs_kind :: receiptKind
  rs_nextAttemptAt :: "timestamp option"
  rs_errorCode :: "jsstring option"
  rs_errorMessage :: "jsstring option"
  rs_invalidatePushTokenId :: "uuid option"

datatype expoGatewayTicket = TicketOk jsstring | TicketError jsstring "jsstring option"
datatype expoGatewayReceipt = GatewayReceiptOk | GatewayReceiptError jsstring "jsstring option"

record expoPushMessage =
  em_to :: jsstring
  em_title :: jsstring
  em_body :: jsstring
  em_route :: "jsstring option"

definition OPEN_PUSH_STATUSES :: "pushOutboxStatus list" where
  "OPEN_PUSH_STATUSES = [Queued, Sending, ReceiptPending, ReceiptChecking]"

definition IN_FLIGHT_PUSH_STATUSES :: "pushOutboxStatus list" where
  "IN_FLIGHT_PUSH_STATUSES = [Sending, ReceiptPending, ReceiptChecking]"

text \<open>A string that JavaScript takes for true: present and not empty.\<close>

definition truthy :: "jsstring option \<Rightarrow> bool" where
  "truthy x = (case x of None \<Rightarrow> False | Some s \<Rightarrow> s \<noteq> [])"

text \<open>An update ignores a column whose new value is \<^verbatim>\<open>undefined\<close>.\<close>

definition orKeep :: "'a option \<Rightarrow> 'a option \<Rightarrow> 'a option" where
  "orKeep new old = (case new of None \<Rightarrow> old | Some v \<Rightarrow> Some v)"

section \<open>Repository\<close>

definition repoList :: "jsstring \<Rightarrow> db \<Rightarrow> notification list" where
  "repoList userId d =
     take 100 (sort_key (\<lambda>n. - n_createdAt n)
       (filter (\<lambda>n. n_userId n = pgUuid userId) (notifications d)))"

definition newNotification ::
  "uuid \<Rightarrow> timestamp \<Rightarrow> createNotificationInput \<Rightarrow> notification" where
  "newNotification i now input =
     \<lparr>n_id = i, n_userId = pgUuid (ni_userId input), n_type = ni_type input,
      n_title = ni_title input, n_body = ni_body input, n_route = ni_route input,
      n_sourceId = ni_sourceId input, n_readAt = None, n_createdAt = now\<rparr>"

definition newOutbox ::
  "uuid \<Rightarrow> timestamp \<Rightarrow> uuid \<Rightarrow> createNotificationInput \<Rightarrow> pushToken \<Rightarrow> pushOutbox" where
  "newOutbox i now notificationId input token =
     \<lparr>po_id = i, po_notificationId = notificationId, po_pushTokenId = Some (tk_id token),
      po_tokenSnapshot = tk_token token, po_title = ni_title input, po_body = ni_body input,
      po_route = ni_route input, po_status = Queued, po_ticketId = None, po_sendAttempts = 0,
      po_receiptAttempts = 0, po_nextAttemptAt = now, po_receiptAvailableAt = None,
      po_leaseExpiresAt = None, po_lastErrorCode = None, po_lastErrorMessage = None,
      po_sentAt = None, po_completedAt = None, po_createdAt = now, po_updatedAt = now\<rparr>"

text \<open>The inserts check the primary keys and the reference to the user. The notification is new, so
  the unique constraint on notification and token follows from the primary keys.\<close>

definition createWithPushOutbox ::
  "(nat \<Rightarrow> uuid) \<Rightarrow> timestamp \<Rightarrow> createNotificationInput \<Rightarrow> bool \<Rightarrow> notification dbprog" where
  "createWithPushOutbox ids now input enqueuePush = transaction (
     let n = newNotification (ids 0) now input in
     andThen (query (\<lambda>d. keyTaken n_id (n_id n) (notifications d))) (\<lambda>duplicate.
     andThen (throwIf duplicate (PgError UniqueViolation)) (\<lambda>_.
     andThen (query (userExists (n_userId n))) (\<lambda>exists.
     andThen (throwIf (\<not> exists) (PgError ForeignKeyViolation)) (\<lambda>_.
     andThen (modify (\<lambda>d. d\<lparr>notifications := insertRow n (notifications d)\<rparr>)) (\<lambda>_.
     if \<not> enqueuePush then ret n
     else
       andThen (query (\<lambda>d. filter (\<lambda>t. tk_userId t = pgUuid (ni_userId input)) (pushTokens d)))
         (\<lambda>tokens.
       let rows = map (\<lambda>(k, token). newOutbox (ids (Suc k)) now (n_id n) input token)
             (enumerate 0 tokens) in
       andThen (query (\<lambda>d. uniqueKey po_id (pushOutboxes d @ rows))) (\<lambda>unique.
       andThen (throwIf (\<not> unique) (PgError UniqueViolation)) (\<lambda>_.
       andThen (modify (\<lambda>d. d\<lparr>pushOutboxes := pushOutboxes d @ rows\<rparr>)) (\<lambda>_.
       ret n))))))))))"

definition repoMarkRead :: "timestamp \<Rightarrow> jsstring \<Rightarrow> jsstring \<Rightarrow> bool dbprog" where
  "repoMarkRead now userId notificationId =
     (let P = (\<lambda>n. n_id n = pgUuid notificationId \<and> n_userId n = pgUuid userId \<and> n_readAt n = None)
      in andThen (query (\<lambda>d. existsRow P (notifications d))) (\<lambda>found.
         andThen (modify (\<lambda>d. d\<lparr>notifications :=
             updateWhere P (\<lambda>n. n\<lparr>n_readAt := Some now\<rparr>) (notifications d)\<rparr>)) (\<lambda>_.
         ret found)))"

text \<open>The update that cancels outbox rows, which five operations share.\<close>

definition cancelRow :: "timestamp \<Rightarrow> pushOutbox \<Rightarrow> pushOutbox" where
  "cancelRow now x = x\<lparr>po_status := Cancelled, po_completedAt := Some now,
     po_leaseExpiresAt := None, po_updatedAt := now\<rparr>"

definition cancelOpen :: "timestamp \<Rightarrow> (pushOutbox \<Rightarrow> bool) \<Rightarrow> db \<Rightarrow> db" where
  "cancelOpen now P d = d\<lparr>pushOutboxes :=
     updateWhere (\<lambda>x. P x \<and> List.member OPEN_PUSH_STATUSES (po_status x)) (cancelRow now)
       (pushOutboxes d)\<rparr>"

definition insertPushToken :: "pushToken \<Rightarrow> unit dbprog" where
  "insertPushToken t =
     andThen (query pushTokens) (\<lambda>rows.
     andThen (throwIf (keyTaken tk_id (tk_id t) rows \<or> keyTaken tk_token (tk_token t) rows \<or>
         keyTaken (\<lambda>r. (tk_userId r, tk_deviceId r)) (tk_userId t, tk_deviceId t) rows)
       (PgError UniqueViolation)) (\<lambda>_.
     andThen (query (userExists (tk_userId t))) (\<lambda>exists.
     andThen (throwIf (\<not> exists) (PgError ForeignKeyViolation)) (\<lambda>_.
     modify (\<lambda>d. d\<lparr>pushTokens := insertRow t (pushTokens d)\<rparr>)))))"

text \<open>Dropping the row that holds the requested token: its open jobs are cancelled first.\<close>

definition dropPushToken :: "timestamp \<Rightarrow> pushToken \<Rightarrow> db \<Rightarrow> db" where
  "dropPushToken now q d =
     deletePushTokens (\<lambda>t. tk_id t = tk_id q)
       (cancelOpen now (\<lambda>x. po_pushTokenId x = Some (tk_id q)) d)"

definition refreshDeviceToken :: "timestamp \<Rightarrow> pushToken \<Rightarrow> jsstring \<Rightarrow> db \<Rightarrow> db" where
  "refreshDeviceToken now v platform d = d\<lparr>pushTokens := updateWhere (\<lambda>t. tk_id t = tk_id v)
     (\<lambda>t. t\<lparr>tk_platform := platform, tk_updatedAt := now\<rparr>) (pushTokens d)\<rparr>"

text \<open>A device that presents a new token: queued jobs go to the new one, jobs in flight are
  cancelled, the row is changed.\<close>

definition replaceDeviceToken ::
  "timestamp \<Rightarrow> pushToken \<Rightarrow> jsstring \<Rightarrow> jsstring \<Rightarrow> db \<Rightarrow> db" where
  "replaceDeviceToken now v token platform d =
     (let t1 = updateWhere (\<lambda>x. po_pushTokenId x = Some (tk_id v) \<and> po_status x = Queued)
            (\<lambda>x. x\<lparr>po_tokenSnapshot := token, po_updatedAt := now\<rparr>) (pushOutboxes d);
          t2 = updateWhere (\<lambda>x. po_pushTokenId x = Some (tk_id v) \<and>
              List.member IN_FLIGHT_PUSH_STATUSES (po_status x)) (cancelRow now) t1
      in d\<lparr>pushOutboxes := t2,
           pushTokens := updateWhere (\<lambda>t. tk_id t = tk_id v)
             (\<lambda>t. t\<lparr>tk_token := token, tk_platform := platform, tk_updatedAt := now\<rparr>)
             (pushTokens d)\<rparr>)"

text \<open>The identifiers read back from the table are canonical; the ones of the request are compared
  with them as strings, in JavaScript.\<close>

definition repoRegisterPushToken ::
  "uuid \<Rightarrow> timestamp \<Rightarrow> jsstring \<Rightarrow> jsstring \<Rightarrow> jsstring \<Rightarrow> jsstring \<Rightarrow> unit dbprog" where
  "repoRegisterPushToken i now userId deviceId token platform = transaction (
     andThen (query (\<lambda>d. filter (\<lambda>t. tk_token t = token \<or>
         tk_userId t = pgUuid userId \<and> tk_deviceId t = pgUuid deviceId) (pushTokens d)))
       (\<lambda>existing.
     let deviceToken = findFirst (\<lambda>t. tk_userId t = userId \<and> tk_deviceId t = deviceId) existing;
         requestedToken = findFirst (\<lambda>t. tk_token t = token) existing;
         dropRequested = (case requestedToken of None \<Rightarrow> ret ()
           | Some q \<Rightarrow> modify (dropPushToken now q))
     in
     andThen (throwIf (case requestedToken of None \<Rightarrow> False | Some q \<Rightarrow> tk_deviceId q \<noteq> deviceId)
       (Conflict ''PUSH_TOKEN_DEVICE_CONFLICT'')) (\<lambda>_.
     case deviceToken of
       Some v \<Rightarrow>
         if tk_token v = token then modify (refreshDeviceToken now v platform)
         else andThen dropRequested (\<lambda>_. modify (replaceDeviceToken now v token platform))
     | None \<Rightarrow>
         andThen dropRequested (\<lambda>_.
         insertPushToken \<lparr>tk_id = i, tk_userId = pgUuid userId, tk_deviceId = pgUuid deviceId,
           tk_token = token, tk_platform = platform, tk_updatedAt = now, tk_createdAt = now\<rparr>))))"

definition repoUnregisterPushToken ::
  "timestamp \<Rightarrow> jsstring \<Rightarrow> jsstring \<Rightarrow> bool dbprog" where
  "repoUnregisterPushToken now userId deviceId = transaction (
     andThen (query (\<lambda>d. filter (\<lambda>t. tk_deviceId t = pgUuid deviceId) (pushTokens d))) (\<lambda>tokens.
     let tokenIds = map tk_id (filter (\<lambda>t. tk_userId t = userId) tokens) in
     if tokenIds = [] then ret (tokens = [])
     else
       andThen (modify (cancelOpen now (\<lambda>x. case po_pushTokenId x of None \<Rightarrow> False
           | Some k \<Rightarrow> List.member tokenIds k))) (\<lambda>_.
       andThen (modify (deletePushTokens (\<lambda>t. List.member tokenIds (tk_id t)))) (\<lambda>_.
       ret True))))"

definition sendDue :: "timestamp \<Rightarrow> pushOutbox \<Rightarrow> bool" where
  "sendDue now x \<longleftrightarrow> po_status x = Queued \<and> po_nextAttemptAt x \<le> now \<or>
     po_status x = Sending \<and> (case po_leaseExpiresAt x of None \<Rightarrow> False | Some l \<Rightarrow> l \<le> now)"

definition receiptDue :: "timestamp \<Rightarrow> pushOutbox \<Rightarrow> bool" where
  "receiptDue now x \<longleftrightarrow>
     po_status x = ReceiptPending \<and>
       (case po_receiptAvailableAt x of None \<Rightarrow> False | Some a \<Rightarrow> a \<le> now) \<and>
       po_nextAttemptAt x \<le> now \<or>
     po_status x = ReceiptChecking \<and>
       (case po_leaseExpiresAt x of None \<Rightarrow> False | Some l \<Rightarrow> l \<le> now)"

text \<open>In an ascending \<^verbatim>\<open>ORDER BY\<close> the nulls come last.\<close>

definition nullsLast :: "int option \<Rightarrow> bool \<times> int" where
  "nullsLast x = (case x of None \<Rightarrow> (True, 0) | Some v \<Rightarrow> (False, v))"

definition sendKey :: "pushOutbox \<Rightarrow> int \<times> int \<times> jsstring" where
  "sendKey x = (po_nextAttemptAt x, po_createdAt x, po_id x)"

definition receiptKey :: "pushOutbox \<Rightarrow> (bool \<times> int) \<times> int \<times> jsstring" where
  "receiptKey x = (nullsLast (po_receiptAvailableAt x), po_createdAt x, po_id x)"

definition claimSend :: "timestamp \<Rightarrow> timestamp \<Rightarrow> pushOutbox \<Rightarrow> pushOutbox" where
  "claimSend now lease x = x\<lparr>po_status := Sending, po_sendAttempts := po_sendAttempts x + 1,
     po_leaseExpiresAt := Some lease, po_updatedAt := now\<rparr>"

definition claimReceipt :: "timestamp \<Rightarrow> timestamp \<Rightarrow> pushOutbox \<Rightarrow> pushOutbox" where
  "claimReceipt now lease x = x\<lparr>po_status := ReceiptChecking,
     po_receiptAttempts := po_receiptAttempts x + 1,
     po_leaseExpiresAt := Some lease, po_updatedAt := now\<rparr>"

definition claimSendBatch :: "timestamp \<Rightarrow> timestamp \<Rightarrow> nat \<Rightarrow> pushClaimBatch dbprog" where
  "claimSendBatch now lease limit = transaction (
     andThen (query (\<lambda>d. claimRows po_id sendKey (sendDue now) (claimSend now lease) limit
         (pushOutboxes d))) (\<lambda>(jobs, t).
     if jobs = [] then ret \<lparr>pc_jobs = [], pc_hasMore = False\<rparr>
     else
       andThen (modify (\<lambda>d. d\<lparr>pushOutboxes := t\<rparr>)) (\<lambda>_.
       andThen (query (\<lambda>d. existsRow (sendDue now) (pushOutboxes d))) (\<lambda>more.
       ret \<lparr>pc_jobs = jobs, pc_hasMore = more\<rparr>))))"

definition claimReceiptBatch :: "timestamp \<Rightarrow> timestamp \<Rightarrow> nat \<Rightarrow> pushClaimBatch dbprog" where
  "claimReceiptBatch now lease limit = transaction (
     andThen (query (\<lambda>d. claimRows po_id receiptKey (receiptDue now) (claimReceipt now lease) limit
         (pushOutboxes d))) (\<lambda>(jobs, t).
     if jobs = [] then ret \<lparr>pc_jobs = [], pc_hasMore = False\<rparr>
     else
       andThen (modify (\<lambda>d. d\<lparr>pushOutboxes := t\<rparr>)) (\<lambda>_.
       andThen (query (\<lambda>d. existsRow (receiptDue now) (pushOutboxes d))) (\<lambda>more.
       ret \<lparr>pc_jobs = jobs, pc_hasMore = more\<rparr>))))"

text \<open>The values a result writes, as an update of the row.\<close>

definition sendResultValues ::
  "pushSendResult \<Rightarrow> timestamp \<Rightarrow> app_error + (pushOutbox \<Rightarrow> pushOutbox)" where
  "sendResultValues res now =
     (case sr_kind res of
        Accepted \<Rightarrow>
          (case sr_receiptAvailableAt res of
             None \<Rightarrow> Inl (ErrorCode ''EXPO_PUSH_TICKET_INVALID'')
           | Some at \<Rightarrow>
               if \<not> truthy (sr_ticketId res) then Inl (ErrorCode ''EXPO_PUSH_TICKET_INVALID'')
               else Inr (\<lambda>x. x\<lparr>po_status := ReceiptPending, po_ticketId := sr_ticketId res,
                 po_receiptAvailableAt := Some at, po_nextAttemptAt := at, po_sentAt := Some now,
                 po_leaseExpiresAt := None, po_lastErrorCode := None, po_lastErrorMessage := None,
                 po_updatedAt := now\<rparr>))
      | SendRetry \<Rightarrow>
          (case sr_nextAttemptAt res of
             None \<Rightarrow> Inl (ErrorCode ''EXPO_PUSH_RETRY_TIME_REQUIRED'')
           | Some at \<Rightarrow> Inr (\<lambda>x. x\<lparr>po_status := Queued, po_nextAttemptAt := at,
               po_leaseExpiresAt := None,
               po_lastErrorCode := orKeep (sr_errorCode res) (po_lastErrorCode x),
               po_lastErrorMessage := orKeep (sr_errorMessage res) (po_lastErrorMessage x),
               po_updatedAt := now\<rparr>))
      | k \<Rightarrow> Inr (\<lambda>x. x\<lparr>po_status := (if k = SendExhausted then Exhausted else FailedPermanent),
          po_completedAt := Some now, po_leaseExpiresAt := None,
          po_lastErrorCode := orKeep (sr_errorCode res) (po_lastErrorCode x),
          po_lastErrorMessage := orKeep (sr_errorMessage res) (po_lastErrorMessage x),
          po_updatedAt := now\<rparr>))"

definition receiptResultValues ::
  "pushReceiptResult \<Rightarrow> timestamp \<Rightarrow> app_error + (pushOutbox \<Rightarrow> pushOutbox)" where
  "receiptResultValues res now =
     (case rs_kind res of
        ReceiptDelivered \<Rightarrow> Inr (\<lambda>x. x\<lparr>po_status := Delivered, po_completedAt := Some now,
          po_leaseExpiresAt := None, po_lastErrorCode := None, po_lastErrorMessage := None,
          po_updatedAt := now\<rparr>)
      | ReceiptRetry \<Rightarrow>
          (case rs_nextAttemptAt res of
             None \<Rightarrow> Inl (ErrorCode ''EXPO_PUSH_RETRY_TIME_REQUIRED'')
           | Some at \<Rightarrow> Inr (\<lambda>x. x\<lparr>po_status := ReceiptPending, po_nextAttemptAt := at,
               po_leaseExpiresAt := None,
               po_lastErrorCode := orKeep (rs_errorCode res) (po_lastErrorCode x),
               po_lastErrorMessage := orKeep (rs_errorMessage res) (po_lastErrorMessage x),
               po_updatedAt := now\<rparr>))
      | k \<Rightarrow> Inr (\<lambda>x. x\<lparr>po_status := (if k = ReceiptExhausted then Exhausted else FailedPermanent),
          po_completedAt := Some now, po_leaseExpiresAt := None,
          po_lastErrorCode := orKeep (rs_errorCode res) (po_lastErrorCode x),
          po_lastErrorMessage := orKeep (rs_errorMessage res) (po_lastErrorMessage x),
          po_updatedAt := now\<rparr>))"

definition invalidatePushToken :: "uuid \<Rightarrow> uuid \<Rightarrow> timestamp \<Rightarrow> db \<Rightarrow> db" where
  "invalidatePushToken pushTokenId currentJobId now d =
     deletePushTokens (\<lambda>t. tk_id t = pushTokenId)
       (cancelOpen now (\<lambda>x. po_pushTokenId x = Some pushTokenId \<and> po_id x \<noteq> currentJobId) d)"

text \<open>One result of a batch. The guard on the status and the attempt number drops the result of a
  worker whose lease was taken over; the unique index on the ticket rejects a ticket that another
  row holds.\<close>

definition applySendResult :: "timestamp \<Rightarrow> pushSendResult \<Rightarrow> unit dbprog" where
  "applySendResult now res =
     (case sendResultValues res now of
        Inl e \<Rightarrow> throw e
      | Inr f \<Rightarrow>
          let P = (\<lambda>x. po_id x = sr_id res \<and> po_status x = Sending \<and>
                po_sendAttempts x = sr_attempt res)
          in andThen (query (\<lambda>d. existsRow P (pushOutboxes d))) (\<lambda>updated.
             andThen (query (\<lambda>d. existsRow (\<lambda>x. po_id x \<noteq> sr_id res \<and>
                 po_ticketId x = sr_ticketId res) (pushOutboxes d))) (\<lambda>taken.
             andThen (throwIf (updated \<and> sr_kind res = Accepted \<and> taken) (PgError UniqueViolation))
               (\<lambda>_.
             andThen (modify (\<lambda>d. d\<lparr>pushOutboxes := updateWhere P f (pushOutboxes d)\<rparr>)) (\<lambda>_.
             case sr_invalidatePushTokenId res of
               None \<Rightarrow> ret ()
             | Some k \<Rightarrow> if updated then modify (invalidatePushToken k (sr_id res) now)
                         else ret ())))))"

definition applySendResults :: "timestamp \<Rightarrow> pushSendResult list \<Rightarrow> unit dbprog" where
  "applySendResults now results = transaction (forEach results (applySendResult now))"

definition applyReceiptResult :: "timestamp \<Rightarrow> pushReceiptResult \<Rightarrow> unit dbprog" where
  "applyReceiptResult now res =
     (case receiptResultValues res now of
        Inl e \<Rightarrow> throw e
      | Inr f \<Rightarrow>
          let P = (\<lambda>x. po_id x = rs_id res \<and> po_status x = ReceiptChecking \<and>
                po_receiptAttempts x = rs_attempt res)
          in andThen (query (\<lambda>d. existsRow P (pushOutboxes d))) (\<lambda>updated.
             andThen (modify (\<lambda>d. d\<lparr>pushOutboxes := updateWhere P f (pushOutboxes d)\<rparr>)) (\<lambda>_.
             case rs_invalidatePushTokenId res of
               None \<Rightarrow> ret ()
             | Some k \<Rightarrow> if updated then modify (invalidatePushToken k (rs_id res) now)
                         else ret ())))"

definition applyReceiptResults :: "timestamp \<Rightarrow> pushReceiptResult list \<Rightarrow> unit dbprog" where
  "applyReceiptResults now results = transaction (forEach results (applyReceiptResult now))"

section \<open>The Expo gateway\<close>

text \<open>What the Expo SDK answers, and the gateway's view of it: an error code is kept only when it is
  not empty.\<close>

datatype expoTicket = ExpoOk jsstring | ExpoError jsstring "jsstring option"

definition gatewayTicket :: "expoTicket \<Rightarrow> expoGatewayTicket" where
  "gatewayTicket t =
     (case t of
        ExpoOk i \<Rightarrow> TicketOk i
      | ExpoError m e \<Rightarrow> TicketError m (if truthy e then e else None))"

definition gatewayReceipt :: "expoTicket \<Rightarrow> expoGatewayReceipt" where
  "gatewayReceipt t =
     (case t of
        ExpoOk _ \<Rightarrow> GatewayReceiptOk
      | ExpoError m e \<Rightarrow> GatewayReceiptError m (if truthy e then e else None))"

text \<open>The SDK's calls: the answer, or the failure with the message of its \<^verbatim>\<open>Error\<close>, if it is one.\<close>

type_synonym expoSend = "expoPushMessage list \<Rightarrow> jsstring option + expoTicket list"
type_synonym expoReceipts = "jsstring list \<Rightarrow> jsstring option + (jsstring \<times> expoTicket) list"

definition gatewaySend ::
  "expoSend \<Rightarrow> expoPushMessage list \<Rightarrow> jsstring option + expoGatewayTicket list" where
  "gatewaySend sdk ms = (case sdk ms of Inl e \<Rightarrow> Inl e | Inr ts \<Rightarrow> Inr (map gatewayTicket ts))"

definition gatewayGetReceipts ::
  "expoReceipts \<Rightarrow> jsstring list \<Rightarrow> jsstring option + (jsstring \<times> expoGatewayReceipt) list" where
  "gatewayGetReceipts sdk is =
     (case sdk is of Inl e \<Rightarrow> Inl e
      | Inr rs \<Rightarrow> Inr (map (\<lambda>(k, r). (k, gatewayReceipt r)) rs))"

section \<open>Service\<close>

definition notify ::
  "(nat \<Rightarrow> uuid) \<Rightarrow> timestamp \<Rightarrow> bool \<Rightarrow> createNotificationInput \<Rightarrow> notification dbprog" where
  "notify ids now pushEnabled input = createWithPushOutbox ids now input pushEnabled"

definition registerPushToken ::
  "(jsstring \<Rightarrow> bool) \<Rightarrow> uuid \<Rightarrow> timestamp \<Rightarrow> jsstring \<Rightarrow> jsstring \<Rightarrow> jsstring \<Rightarrow> jsstring \<Rightarrow>
   bool dbprog" where
  "registerPushToken isExpoPushToken i now userId deviceId inputToken inputPlatform =
     (let token = trim inputToken; platform = toLowerCase (trim inputPlatform) in
      andThen (throwIf (\<not> isExpoPushToken token) (ErrorCode ''PUSH_TOKEN_INVALID'')) (\<lambda>_.
      andThen (throwIf (platform \<noteq> js ''ios'' \<and> platform \<noteq> js ''android'')
        (ErrorCode ''PUSH_PLATFORM_INVALID'')) (\<lambda>_.
      andThen (repoRegisterPushToken i now userId deviceId token platform) (\<lambda>_.
      ret True))))"

definition validateBatchLimit :: "int \<Rightarrow> nat dbprog" where
  "validateBatchLimit limit =
     (if limit < 1 \<or> limit > MAX_EXPO_MESSAGES_PER_REQUEST
      then throw (ErrorCode ''PUSH_BATCH_LIMIT_INVALID'') else ret (nat limit))"

definition retryAt :: "timestamp \<Rightarrow> int \<Rightarrow> timestamp" where
  "retryAt now attempt = now + min (30000 * 2 ^ nat (max 0 (attempt - 1))) (60 * 60 * 1000)"

definition sendResult :: "pushOutbox \<Rightarrow> sendKind \<Rightarrow> pushSendResult" where
  "sendResult job k = \<lparr>sr_id = po_id job, sr_attempt = po_sendAttempts job, sr_kind = k,
     sr_ticketId = None, sr_receiptAvailableAt = None, sr_nextAttemptAt = None,
     sr_errorCode = None, sr_errorMessage = None, sr_invalidatePushTokenId = None\<rparr>"

definition retrySendResult ::
  "pushOutbox \<Rightarrow> timestamp \<Rightarrow> jsstring \<Rightarrow> jsstring option \<Rightarrow> pushSendResult" where
  "retrySendResult job now errorCode errorMessage =
     (if MAX_PUSH_SEND_ATTEMPTS \<le> po_sendAttempts job
      then (sendResult job SendExhausted)\<lparr>sr_errorCode := Some errorCode,
        sr_errorMessage := errorMessage\<rparr>
      else (sendResult job SendRetry)\<lparr>sr_nextAttemptAt := Some (retryAt now (po_sendAttempts job)),
        sr_errorCode := Some errorCode, sr_errorMessage := errorMessage\<rparr>)"

definition ticketResult ::
  "pushOutbox \<Rightarrow> expoGatewayTicket option \<Rightarrow> timestamp \<Rightarrow> pushSendResult" where
  "ticketResult job ticket now =
     (case ticket of
        None \<Rightarrow> retrySendResult job now (js ''ExpoTicketMissing'') None
      | Some (TicketOk i) \<Rightarrow> (sendResult job Accepted)\<lparr>sr_ticketId := Some i,
          sr_receiptAvailableAt := Some (now + EXPO_RECEIPT_DELAY_MS)\<rparr>
      | Some (TicketError m e) \<Rightarrow>
          if e = Some (js ''MessageRateExceeded'') \<or> e = Some (js ''ProviderError'')
          then retrySendResult job now (the e) (Some m)
          else (sendResult job SendPermanent)\<lparr>
            sr_errorCode := Some (case e of None \<Rightarrow> js ''ExpoTicketRejected'' | Some c \<Rightarrow> c),
            sr_errorMessage := Some m,
            sr_invalidatePushTokenId :=
              (if e = Some (js ''DeviceNotRegistered'') then po_pushTokenId job else None)\<rparr>)"

definition receiptRow :: "pushOutbox \<Rightarrow> receiptKind \<Rightarrow> pushReceiptResult" where
  "receiptRow job k = \<lparr>rs_id = po_id job, rs_attempt = po_receiptAttempts job, rs_kind = k,
     rs_nextAttemptAt = None, rs_errorCode = None, rs_errorMessage = None,
     rs_invalidatePushTokenId = None\<rparr>"

definition retryReceiptResult ::
  "pushOutbox \<Rightarrow> timestamp \<Rightarrow> jsstring \<Rightarrow> jsstring option \<Rightarrow> pushReceiptResult" where
  "retryReceiptResult job now errorCode errorMessage =
     (if MAX_PUSH_RECEIPT_ATTEMPTS \<le> po_receiptAttempts job
      then (receiptRow job ReceiptExhausted)\<lparr>rs_errorCode := Some errorCode,
        rs_errorMessage := errorMessage\<rparr>
      else (receiptRow job ReceiptRetry)\<lparr>
        rs_nextAttemptAt := Some (retryAt now (po_receiptAttempts job)),
        rs_errorCode := Some errorCode, rs_errorMessage := errorMessage\<rparr>)"

definition receiptResult ::
  "pushOutbox \<Rightarrow> expoGatewayReceipt option \<Rightarrow> timestamp \<Rightarrow> pushReceiptResult" where
  "receiptResult job receipt now =
     (case receipt of
        None \<Rightarrow> retryReceiptResult job now (js ''ExpoReceiptMissing'') None
      | Some GatewayReceiptOk \<Rightarrow> receiptRow job ReceiptDelivered
      | Some (GatewayReceiptError m e) \<Rightarrow> (receiptRow job ReceiptPermanent)\<lparr>
          rs_errorCode := Some (case e of None \<Rightarrow> js ''ExpoReceiptRejected'' | Some c \<Rightarrow> c),
          rs_errorMessage := Some m,
          rs_invalidatePushTokenId :=
            (if e = Some (js ''DeviceNotRegistered'') then po_pushTokenId job else None)\<rparr>)"

definition summarizeSendResults :: "pushSendResult list \<Rightarrow> bool \<Rightarrow> batchResult" where
  "summarizeSendResults results hasMore =
     \<lparr>br_claimed = length results,
      br_succeeded = countWhere (\<lambda>r. sr_kind r = Accepted) results,
      br_retryScheduled = countWhere (\<lambda>r. sr_kind r = SendRetry) results,
      br_permanentlyFailed =
        countWhere (\<lambda>r. sr_kind r = SendPermanent \<or> sr_kind r = SendExhausted) results,
      br_hasMore = hasMore\<rparr>"

definition summarizeReceiptResults :: "pushReceiptResult list \<Rightarrow> bool \<Rightarrow> batchResult" where
  "summarizeReceiptResults results hasMore =
     \<lparr>br_claimed = length results,
      br_succeeded = countWhere (\<lambda>r. rs_kind r = ReceiptDelivered) results,
      br_retryScheduled = countWhere (\<lambda>r. rs_kind r = ReceiptRetry) results,
      br_permanentlyFailed =
        countWhere (\<lambda>r. rs_kind r = ReceiptPermanent \<or> rs_kind r = ReceiptExhausted) results,
      br_hasMore = hasMore\<rparr>"

text \<open>The middle of the two batch jobs: what the gateway's answer says of each claimed job.\<close>

definition sendResults :: "expoSend \<Rightarrow> timestamp \<Rightarrow> pushOutbox list \<Rightarrow> pushSendResult list" where
  "sendResults sdk now jobs =
     (case gatewaySend sdk (map (\<lambda>job. \<lparr>em_to = po_tokenSnapshot job, em_title = po_title job,
            em_body = po_body job,
            em_route = (if truthy (po_route job) then po_route job else None)\<rparr>) jobs) of
        Inl e \<Rightarrow> map (\<lambda>job. retrySendResult job now (js ''ExpoRequestFailed'')
          (Some (case e of None \<Rightarrow> js ''EXPO_PUSH_SEND_FAILED'' | Some m \<Rightarrow> m))) jobs
      | Inr tickets \<Rightarrow>
          if length tickets = length jobs
          then map (\<lambda>(job, ticket). ticketResult job (Some ticket) now) (zip jobs tickets)
          else map (\<lambda>job. retrySendResult job now (js ''ExpoTicketCountMismatch'') None) jobs)"

definition receiptResults ::
  "expoReceipts \<Rightarrow> timestamp \<Rightarrow> pushOutbox list \<Rightarrow> pushReceiptResult list" where
  "receiptResults sdk now jobs =
     (let ticketIds = concat (map (\<lambda>job. if truthy (po_ticketId job)
            then [the (po_ticketId job)] else []) jobs)
      in if length ticketIds \<noteq> length jobs
         then map (\<lambda>job. if truthy (po_ticketId job)
             then retryReceiptResult job now (js ''ExpoReceiptBatchInvalid'') None
             else (receiptRow job ReceiptPermanent)\<lparr>rs_errorCode := Some (js ''ExpoTicketMissing'')\<rparr>)
           jobs
         else (case gatewayGetReceipts sdk ticketIds of
             Inl e \<Rightarrow> map (\<lambda>job. retryReceiptResult job now (js ''ExpoReceiptRequestFailed'')
               (Some (case e of None \<Rightarrow> js ''EXPO_PUSH_RECEIPT_FAILED'' | Some m \<Rightarrow> m))) jobs
           | Inr receipts \<Rightarrow> map (\<lambda>job. receiptResult job
               (map_of receipts (case po_ticketId job of None \<Rightarrow> [] | Some k \<Rightarrow> k)) now) jobs))"

definition processPushOutboxBatch ::
  "expoSend \<Rightarrow> bool \<Rightarrow> timestamp \<Rightarrow> int \<Rightarrow> batchResult dbprog" where
  "processPushOutboxBatch sdk pushEnabled now inputLimit =
     (if \<not> pushEnabled then ret EMPTY_BATCH
      else
        andThen (validateBatchLimit inputLimit) (\<lambda>limit.
        andThen (claimSendBatch now (now + PUSH_LEASE_MS) limit) (\<lambda>claimed.
        if pc_jobs claimed = [] then ret (EMPTY_BATCH\<lparr>br_hasMore := pc_hasMore claimed\<rparr>)
        else
          let results = sendResults sdk now (pc_jobs claimed) in
          andThen (applySendResults now results) (\<lambda>_.
          ret (summarizeSendResults results (pc_hasMore claimed))))))"

definition processPushReceiptBatch ::
  "expoReceipts \<Rightarrow> bool \<Rightarrow> timestamp \<Rightarrow> int \<Rightarrow> batchResult dbprog" where
  "processPushReceiptBatch sdk pushEnabled now inputLimit =
     (if \<not> pushEnabled then ret EMPTY_BATCH
      else
        andThen (validateBatchLimit inputLimit) (\<lambda>limit.
        andThen (claimReceiptBatch now (now + PUSH_LEASE_MS) limit) (\<lambda>claimed.
        if pc_jobs claimed = [] then ret (EMPTY_BATCH\<lparr>br_hasMore := pc_hasMore claimed\<rparr>)
        else
          let results = receiptResults sdk now (pc_jobs claimed) in
          andThen (applyReceiptResults now results) (\<lambda>_.
          ret (summarizeReceiptResults results (pc_hasMore claimed))))))"

text \<open>The delegating members of the service.\<close>

definition markRead :: "timestamp \<Rightarrow> jsstring \<Rightarrow> jsstring \<Rightarrow> bool dbprog" where
  "markRead now userId notificationId = repoMarkRead now userId notificationId"

definition unregisterPushToken :: "timestamp \<Rightarrow> jsstring \<Rightarrow> jsstring \<Rightarrow> bool dbprog" where
  "unregisterPushToken now userId deviceId = repoUnregisterPushToken now userId deviceId"

definition listNotifications :: "jsstring \<Rightarrow> notification list dbprog" where
  "listNotifications userId = query (repoList userId)"

section \<open>The push outbox as leased queues\<close>

interpretation sends: lease_queue po_id sendKey sendDue claimSend
  by unfold_locales (auto simp: sendDue_def claimSend_def)

interpretation receipts: lease_queue po_id receiptKey receiptDue claimReceipt
  by unfold_locales (auto simp: receiptDue_def claimReceipt_def)

lemma claimSendBatch_eq:
  "claimSendBatch now lease limit d =
     (let (jobs, t) = sends.batch now lease limit (pushOutboxes d)
      in if jobs = [] then (Inr \<lparr>pc_jobs = [], pc_hasMore = False\<rparr>, d)
         else (Inr \<lparr>pc_jobs = jobs, pc_hasMore = existsRow (sendDue now) t\<rparr>, d\<lparr>pushOutboxes := t\<rparr>))"
  by (simp add: claimSendBatch_def sends.batch_def transaction_def split: prod.splits)

lemma claimReceiptBatch_eq:
  "claimReceiptBatch now lease limit d =
     (let (jobs, t) = receipts.batch now lease limit (pushOutboxes d)
      in if jobs = [] then (Inr \<lparr>pc_jobs = [], pc_hasMore = False\<rparr>, d)
         else (Inr \<lparr>pc_jobs = jobs, pc_hasMore = existsRow (receiptDue now) t\<rparr>,
               d\<lparr>pushOutboxes := t\<rparr>))"
  by (simp add: claimReceiptBatch_def receipts.batch_def transaction_def split: prod.splits)

section \<open>The invariant of the component\<close>

definition pushOpen :: "pushOutbox \<Rightarrow> bool" where
  "pushOpen x \<longleftrightarrow> List.member OPEN_PUSH_STATUSES (po_status x)"

text \<open>What the columns of an outbox row say in each status.\<close>

definition outboxRowOk :: "pushOutbox \<Rightarrow> bool" where
  "outboxRowOk x =
     (case po_status x of
        Queued \<Rightarrow> po_sendAttempts x < MAX_PUSH_SEND_ATTEMPTS \<and> po_receiptAttempts x = 0 \<and>
          po_leaseExpiresAt x = None
      | Sending \<Rightarrow> po_receiptAttempts x = 0 \<and> po_leaseExpiresAt x \<noteq> None
      | ReceiptPending \<Rightarrow> truthy (po_ticketId x) \<and> po_receiptAvailableAt x \<noteq> None \<and>
          po_receiptAttempts x < MAX_PUSH_RECEIPT_ATTEMPTS \<and> po_leaseExpiresAt x = None
      | ReceiptChecking \<Rightarrow> truthy (po_ticketId x) \<and> po_receiptAvailableAt x \<noteq> None \<and>
          po_leaseExpiresAt x \<noteq> None
      | _ \<Rightarrow> po_completedAt x \<noteq> None \<and> po_leaseExpiresAt x = None)"

text \<open>The row is addressed to a registered device of the notification's recipient.\<close>

definition deliversToRecipient :: "db \<Rightarrow> pushOutbox \<Rightarrow> bool" where
  "deliversToRecipient d x \<longleftrightarrow>
     existsRow (\<lambda>t. po_pushTokenId x = Some (tk_id t) \<and> po_tokenSnapshot x = tk_token t \<and>
       existsRow (\<lambda>n. n_id n = po_notificationId x \<and> n_userId n = tk_userId t) (notifications d))
     (pushTokens d)"

definition notificationKeys :: "db \<Rightarrow> bool" where
  "notificationKeys d \<longleftrightarrow> uniqueKey n_id (notifications d) \<and> uniqueKey po_id (pushOutboxes d)"

definition pushTokenKeys :: "db \<Rightarrow> bool" where
  "pushTokenKeys d \<longleftrightarrow> uniqueKey tk_id (pushTokens d) \<and> uniqueKey tk_token (pushTokens d) \<and>
     uniqueKey (\<lambda>t. (tk_userId t, tk_deviceId t)) (pushTokens d)"

definition outboxRowsOk :: "db \<Rightarrow> bool" where
  "outboxRowsOk d \<longleftrightarrow> list_all outboxRowOk (pushOutboxes d)"

definition outboxAddressed :: "db \<Rightarrow> bool" where
  "outboxAddressed d \<longleftrightarrow> list_all (\<lambda>x. pushOpen x \<longrightarrow> deliversToRecipient d x) (pushOutboxes d)"

definition notificationInv :: "db \<Rightarrow> bool" where
  "notificationInv d \<longleftrightarrow>
     notificationKeys d \<and> pushTokenKeys d \<and> outboxRowsOk d \<and> outboxAddressed d"

section \<open>The component as a machine\<close>

text \<open>Every call the service makes on the component's tables, in any order and with any arguments. A
  worker's claim and its report are separate steps, so that everything else may happen between
  them; the report carries whatever jobs the worker claimed, however long ago.\<close>

datatype notificationStep =
    Notify "nat \<Rightarrow> uuid" timestamp bool createNotificationInput
  | MarkRead timestamp jsstring jsstring
  | RegisterToken "jsstring \<Rightarrow> bool" uuid timestamp jsstring jsstring jsstring jsstring
  | UnregisterToken timestamp jsstring jsstring
  | ClaimSends timestamp timestamp nat
  | ReportSends expoSend timestamp "pushOutbox list"
  | ClaimReceipts timestamp timestamp nat
  | ReportReceipts expoReceipts timestamp "pushOutbox list"

fun stepNotification :: "db \<Rightarrow> notificationStep \<Rightarrow> db" where
  "stepNotification d (Notify ids now enabled input) = snd (notify ids now enabled input d)"
| "stepNotification d (MarkRead now userId i) = snd (markRead now userId i d)"
| "stepNotification d (RegisterToken valid i now userId deviceId token platform) =
     snd (registerPushToken valid i now userId deviceId token platform d)"
| "stepNotification d (UnregisterToken now userId deviceId) =
     snd (unregisterPushToken now userId deviceId d)"
| "stepNotification d (ClaimSends now lease limit) = snd (claimSendBatch now lease limit d)"
| "stepNotification d (ReportSends sdk now jobs) =
     snd (applySendResults now (sendResults sdk now jobs) d)"
| "stepNotification d (ClaimReceipts now lease limit) = snd (claimReceiptBatch now lease limit d)"
| "stepNotification d (ReportReceipts sdk now jobs) =
     snd (applyReceiptResults now (receiptResults sdk now jobs) d)"

lemmas open_simps = pushOpen_def OPEN_PUSH_STATUSES_def IN_FLIGHT_PUSH_STATUSES_def

lemma deliversToRecipient_iff:
  "deliversToRecipient d x \<longleftrightarrow> (\<exists>t \<in> set (pushTokens d). \<exists>n \<in> set (notifications d).
     po_pushTokenId x = Some (tk_id t) \<and> po_tokenSnapshot x = tk_token t \<and>
     n_id n = po_notificationId x \<and> n_userId n = tk_userId t)"
  by (auto simp: deliversToRecipient_def existsRow_iff)

lemma outboxAddressedI:
  "(\<And>x. x \<in> set (pushOutboxes d) \<Longrightarrow> pushOpen x \<Longrightarrow> deliversToRecipient d x) \<Longrightarrow> outboxAddressed d"
  by (simp add: outboxAddressed_def list_all_iff)

lemma outboxAddressedD:
  "outboxAddressed d \<Longrightarrow> x \<in> set (pushOutboxes d) \<Longrightarrow> pushOpen x \<Longrightarrow> deliversToRecipient d x"
  by (simp add: outboxAddressed_def list_all_iff)

subsection \<open>Updates of the outbox\<close>

text \<open>An update that keeps the address of a row and opens no closed one.\<close>

lemma outboxAddressed_update:
  assumes inv: "outboxAddressed d"
    and keep: "\<And>x. po_pushTokenId (f x) = po_pushTokenId x \<and>
      po_tokenSnapshot (f x) = po_tokenSnapshot x \<and> po_notificationId (f x) = po_notificationId x"
    and closed: "\<And>x. x \<in> set (pushOutboxes d) \<Longrightarrow> P x \<Longrightarrow> pushOpen (f x) \<Longrightarrow> pushOpen x"
  shows "outboxAddressed (d\<lparr>pushOutboxes := updateWhere P f (pushOutboxes d)\<rparr>)"
proof (rule outboxAddressedI)
  fix y
  assume "y \<in> set (pushOutboxes (d\<lparr>pushOutboxes := updateWhere P f (pushOutboxes d)\<rparr>))"
    and y: "pushOpen y"
  then obtain x where x: "x \<in> set (pushOutboxes d)" "y = (if P x then f x else x)"
    by (auto simp: set_updateWhere)
  then have "pushOpen x"
    using y closed by (auto split: if_splits)
  with inv x(1) have "deliversToRecipient d x"
    by (rule outboxAddressedD)
  with x(2) keep show "deliversToRecipient (d\<lparr>pushOutboxes := updateWhere P f (pushOutboxes d)\<rparr>) y"
    by (auto simp: deliversToRecipient_iff)
qed

lemma not_open_cancelRow [simp]: "\<not> pushOpen (cancelRow now x)"
  by (simp add: open_simps cancelRow_def)

lemma outboxAddressed_cancelOpen: "outboxAddressed d \<Longrightarrow> outboxAddressed (cancelOpen now P d)"
  unfolding cancelOpen_def by (rule outboxAddressed_update) (auto, simp_all add: cancelRow_def)

text \<open>Cancelling the open rows of the tokens that go keeps the others addressed.\<close>

lemma outboxAddressed_deletePushTokens:
  assumes inv: "outboxAddressed d"
    and none: "\<And>x t. x \<in> set (pushOutboxes d) \<Longrightarrow> t \<in> set (pushTokens d) \<Longrightarrow> P t \<Longrightarrow>
      po_pushTokenId x = Some (tk_id t) \<Longrightarrow> \<not> pushOpen x"
  shows "outboxAddressed (deletePushTokens P d)"
proof (rule outboxAddressedI)
  let ?gone = "\<lambda>x. case po_pushTokenId x of None \<Rightarrow> False
    | Some i \<Rightarrow> List.member (map tk_id (filter P (pushTokens d))) i"
  fix y assume "y \<in> set (pushOutboxes (deletePushTokens P d))" and y: "pushOpen y"
  then obtain x where x: "x \<in> set (pushOutboxes d)"
    "y = (if ?gone x then x\<lparr>po_pushTokenId := None\<rparr> else x)"
    by (auto simp: deletePushTokens_def Let_def set_updateWhere)
  have opn: "pushOpen x"
    using x(2) y by (auto simp: pushOpen_def split: if_splits)
  then have "\<not> ?gone x"
    using none [OF x(1)] by (auto split: option.splits)
  moreover have "deliversToRecipient d x"
    using inv x(1) opn by (rule outboxAddressedD)
  ultimately show "deliversToRecipient (deletePushTokens P d) y"
    using x(2) none [OF x(1)] opn
    by (fastforce simp: deliversToRecipient_iff deletePushTokens_def Let_def)
qed

lemma pushTokens_deletePushTokens [simp]:
  "pushTokens (deletePushTokens P d) = deleteWhere P (pushTokens d)"
  by (simp add: deletePushTokens_def Let_def)

lemma cancelOpen_simps [simp]:
  "pushTokens (cancelOpen now P d) = pushTokens d"
  "notifications (cancelOpen now P d) = notifications d"
  by (simp_all add: cancelOpen_def)

lemma cancelOpen_closed:
  "x \<in> set (pushOutboxes (cancelOpen now P d)) \<Longrightarrow> (\<And>y. P (cancelRow now y) = P y) \<Longrightarrow> P x \<Longrightarrow>
   \<not> pushOpen x"
  by (auto simp: cancelOpen_def set_updateWhere pushOpen_def [symmetric] split: if_splits)
     (auto simp: pushOpen_def)


subsection \<open>Primary keys\<close>

lemma notificationKeys_update:
  "notificationKeys d \<Longrightarrow> (\<And>x. po_id (f x) = po_id x) \<Longrightarrow>
   notificationKeys (d\<lparr>pushOutboxes := updateWhere P f (pushOutboxes d)\<rparr>)"
  by (simp add: notificationKeys_def uniqueKey_updateWhere)

lemma notificationKeys_cancelOpen: "notificationKeys d \<Longrightarrow> notificationKeys (cancelOpen now P d)"
  unfolding cancelOpen_def by (rule notificationKeys_update) (simp_all add: cancelRow_def)

lemma notificationKeys_deletePushTokens:
  "notificationKeys d \<Longrightarrow> notificationKeys (deletePushTokens P d)"
  by (simp add: deletePushTokens_def Let_def notificationKeys_def uniqueKey_updateWhere)

lemma notificationKeys_pushTokens [simp]:
  "notificationKeys (d\<lparr>pushTokens := t\<rparr>) = notificationKeys d"
  by (simp add: notificationKeys_def)

lemma sendResultValues_id: "sendResultValues res now = Inr f \<Longrightarrow> po_id (f x) = po_id x"
  by (auto simp: sendResultValues_def split: sendKind.splits option.splits if_splits)

lemma receiptResultValues_id: "receiptResultValues res now = Inr f \<Longrightarrow> po_id (f x) = po_id x"
  by (auto simp: receiptResultValues_def split: receiptKind.splits option.splits if_splits)

lemmas key_rules = notificationKeys_update notificationKeys_cancelOpen
  notificationKeys_deletePushTokens preserves_modify preserves_intros

lemma createWithPushOutbox_keys:
  "preserves notificationKeys (createWithPushOutbox ids now input enabled)"
  unfolding createWithPushOutbox_def Let_def
  by (rule preserves_transaction)
     (auto simp: preserves_def notificationKeys_def keyTaken_iff andThen_def throwIf_apply query_def
       modify_def split: prod.splits sum.splits)

text \<open>An invariant that includes the unique tokens is kept by a registration if its three
  writes keep it. The replacing and the inserting write see a table without the token.\<close>

lemma repoRegisterPushToken_preserves:
  assumes keys: "\<And>d. I d \<Longrightarrow> uniqueKey tk_id (pushTokens d) \<and> uniqueKey tk_token (pushTokens d)"
    and drp: "\<And>d q. I d \<Longrightarrow> I (dropPushToken now q d)"
    and rfr: "\<And>d v. I d \<Longrightarrow> I (refreshDeviceToken now v platform d)"
    and rpl: "\<And>d v. I d \<Longrightarrow> token \<notin> tk_token ` set (pushTokens d) \<Longrightarrow>
        I (replaceDeviceToken now v token platform d)"
    and ins: "\<And>d t. I d \<Longrightarrow> I (snd (insertPushToken t d))"
  shows "preserves I (repoRegisterPushToken i now userId deviceId token platform)"
proof (rule preservesI)
  fix d assume inv: "I d"
  define existing where "existing = filter (\<lambda>t. tk_token t = token \<or>
         tk_userId t = pgUuid userId \<and> tk_deviceId t = pgUuid deviceId) (pushTokens d)"
  define d1 where "d1 = (case findFirst (\<lambda>t. tk_token t = token) existing of None \<Rightarrow> d
    | Some q \<Rightarrow> dropPushToken now q d)"
  have free: "token \<notin> tk_token ` set (pushTokens d1)"
  proof (cases "findFirst (\<lambda>t. tk_token t = token) existing")
    case None
    then have "d1 = d"
      by (simp add: d1_def)
    with None show ?thesis
      by (auto simp: existing_def findFirst_None_iff)
  next
    case (Some q)
    then have "q \<in> set (pushTokens d)" "tk_token q = token"
      using findFirst_SomeD [OF Some] by (auto simp: existing_def)
    then show ?thesis
      using Some keys [OF inv] by (auto simp: d1_def dropPushToken_def dest: uniqueKey_inj)
  qed
  have d1: "I d1"
    using inv drp by (simp add: d1_def split: option.split)
  have run: "andThen (case findFirst (\<lambda>t. tk_token t = token) existing of None \<Rightarrow> ret ()
       | Some q \<Rightarrow> modify (dropPushToken now q)) f d = f () d1" for f :: "unit \<Rightarrow> unit dbprog"
    by (simp add: d1_def split: option.split)
  show "I (snd (repoRegisterPushToken i now userId deviceId token platform d))"
    unfolding repoRegisterPushToken_def
    by (rule transaction_keeps [where I = I];
        cases "findFirst (\<lambda>t. tk_userId t = userId \<and> tk_deviceId t = deviceId) existing")
       (simp_all add: existing_def [symmetric] Let_def run inv rfr [OF inv] rpl [OF d1 free] ins [OF d1])
qed

lemma applySendResult_keys: "preserves notificationKeys (applySendResult now res)"
  unfolding applySendResult_def
  by (cases "sendResultValues res now"; simp only: sum.case; intro key_rules)
     (simp_all add: key_rules invalidatePushToken_def sendResultValues_id)

lemma applyReceiptResult_keys: "preserves notificationKeys (applyReceiptResult now res)"
  unfolding applyReceiptResult_def
  by (cases "receiptResultValues res now"; simp only: sum.case; intro key_rules)
     (simp_all add: key_rules invalidatePushToken_def receiptResultValues_id)


lemma snd_claimSendBatch:
  "snd (claimSendBatch now lease limit d) =
     d\<lparr>pushOutboxes := updateWhere (\<lambda>x. po_id x \<in> set (sends.ids now limit (pushOutboxes d)))
       (claimSend now lease) (pushOutboxes d)\<rparr>"
proof (cases "fst (sends.batch now lease limit (pushOutboxes d)) = []")
  case True
  then have "snd (sends.batch now lease limit (pushOutboxes d)) = pushOutboxes d"
    by (rule sends.batch_empty)
  then show ?thesis
    using True by (simp add: claimSendBatch_eq case_prod_beta sends.batch_update)
next
  case False
  then show ?thesis
    by (simp add: claimSendBatch_eq case_prod_beta sends.batch_update)
qed

lemma snd_claimReceiptBatch:
  "snd (claimReceiptBatch now lease limit d) =
     d\<lparr>pushOutboxes := updateWhere (\<lambda>x. po_id x \<in> set (receipts.ids now limit (pushOutboxes d)))
       (claimReceipt now lease) (pushOutboxes d)\<rparr>"
proof (cases "fst (receipts.batch now lease limit (pushOutboxes d)) = []")
  case True
  then have "snd (receipts.batch now lease limit (pushOutboxes d)) = pushOutboxes d"
    by (rule receipts.batch_empty)
  then show ?thesis
    using True by (simp add: claimReceiptBatch_eq case_prod_beta receipts.batch_update)
next
  case False
  then show ?thesis
    by (simp add: claimReceiptBatch_eq case_prod_beta receipts.batch_update)
qed

lemma claimSendBatch_keys: "preserves notificationKeys (claimSendBatch now lease limit)"
  by (rule preservesI) (simp add: snd_claimSendBatch notificationKeys_update claimSend_def)

lemma claimReceiptBatch_keys: "preserves notificationKeys (claimReceiptBatch now lease limit)"
  by (rule preservesI) (simp add: snd_claimReceiptBatch notificationKeys_update claimReceipt_def)

lemma repoMarkRead_keys: "preserves notificationKeys (repoMarkRead now userId i)"
  unfolding repoMarkRead_def Let_def
  by (intro key_rules) (simp add: notificationKeys_def uniqueKey_updateWhere)

lemma repoUnregisterPushToken_keys:
  "preserves notificationKeys (repoUnregisterPushToken now userId deviceId)"
  unfolding repoUnregisterPushToken_def Let_def by (intro key_rules) (simp_all add: key_rules)

subsection \<open>Push tokens\<close>

lemma pushTokenKeys_frame [simp]:
  "pushTokenKeys (d\<lparr>pushOutboxes := t\<rparr>) = pushTokenKeys d"
  "pushTokenKeys (d\<lparr>notifications := u\<rparr>) = pushTokenKeys d"
  "pushTokenKeys (cancelOpen now P d) = pushTokenKeys d"
  by (simp_all add: pushTokenKeys_def cancelOpen_def)

lemma pushTokenKeys_deletePushTokens: "pushTokenKeys d \<Longrightarrow> pushTokenKeys (deletePushTokens P d)"
  by (simp add: pushTokenKeys_def uniqueKey_deleteWhere)

lemma insertPushToken_tokenKeys: "preserves pushTokenKeys (insertPushToken t)"
  by (rule preservesI)
     (auto simp: insertPushToken_def pushTokenKeys_def keyTaken_iff throwIf_apply)



lemma pushTokenKeys_drop: "pushTokenKeys d \<Longrightarrow> pushTokenKeys (dropPushToken now q d)"
  by (simp add: dropPushToken_def pushTokenKeys_deletePushTokens)

lemma pushTokenKeys_refresh: "pushTokenKeys d \<Longrightarrow> pushTokenKeys (refreshDeviceToken now v platform d)"
  by (simp add: refreshDeviceToken_def pushTokenKeys_def uniqueKey_updateWhere)

lemma pushTokenKeys_replace:
  "pushTokenKeys d \<Longrightarrow> token \<notin> tk_token ` set (pushTokens d) \<Longrightarrow>
   pushTokenKeys (replaceDeviceToken now v token platform d)"
  by (simp add: replaceDeviceToken_def Let_def pushTokenKeys_def uniqueKey_updateWhere
      uniqueKey_rekey)

lemmas token_rules = pushTokenKeys_deletePushTokens preserves_modify preserves_intros

lemma createWithPushOutbox_tokenKeys:
  "preserves pushTokenKeys (createWithPushOutbox ids now input enabled)"
  unfolding createWithPushOutbox_def Let_def by (intro token_rules) simp_all

lemma applySendResult_tokenKeys: "preserves pushTokenKeys (applySendResult now res)"
  unfolding applySendResult_def
  by (cases "sendResultValues res now"; simp only: sum.case; intro token_rules)
     (simp_all add: invalidatePushToken_def pushTokenKeys_deletePushTokens)

lemma applyReceiptResult_tokenKeys: "preserves pushTokenKeys (applyReceiptResult now res)"
  unfolding applyReceiptResult_def
  by (cases "receiptResultValues res now"; simp only: sum.case; intro token_rules)
     (simp_all add: invalidatePushToken_def pushTokenKeys_deletePushTokens)

lemma repoUnregisterPushToken_tokenKeys:
  "preserves pushTokenKeys (repoUnregisterPushToken now userId deviceId)"
  unfolding repoUnregisterPushToken_def Let_def
  by (intro token_rules) (simp_all add: pushTokenKeys_deletePushTokens)

subsection \<open>Rows\<close>

lemma outboxRowsOk_frame [simp]:
  "outboxRowsOk (d\<lparr>pushTokens := t\<rparr>) = outboxRowsOk d"
  "outboxRowsOk (d\<lparr>notifications := u\<rparr>) = outboxRowsOk d"
  by (simp_all add: outboxRowsOk_def)

lemma outboxRowsOk_update:
  "outboxRowsOk d \<Longrightarrow> (\<And>x. x \<in> set (pushOutboxes d) \<Longrightarrow> outboxRowOk x \<Longrightarrow> P x \<Longrightarrow> outboxRowOk (f x)) \<Longrightarrow>
   outboxRowsOk (d\<lparr>pushOutboxes := updateWhere P f (pushOutboxes d)\<rparr>)"
  by (simp add: outboxRowsOk_def list_all_updateWhere)

lemma outboxRowOk_cancelRow [simp]: "outboxRowOk (cancelRow now x)"
  by (simp add: outboxRowOk_def cancelRow_def)

lemma outboxRowsOk_cancelOpen: "outboxRowsOk d \<Longrightarrow> outboxRowsOk (cancelOpen now P d)"
  unfolding cancelOpen_def by (rule outboxRowsOk_update) simp_all

lemma outboxRowOk_keep:
  "outboxRowOk (x\<lparr>po_pushTokenId := i\<rparr>) = outboxRowOk x"
  "outboxRowOk (x\<lparr>po_tokenSnapshot := s, po_updatedAt := now\<rparr>) = outboxRowOk x"
  by (simp_all add: outboxRowOk_def cong: pushOutboxStatus.case_cong)

lemma outboxRowsOk_deletePushTokens: "outboxRowsOk d \<Longrightarrow> outboxRowsOk (deletePushTokens P d)"
  by (simp add: deletePushTokens_def Let_def outboxRowsOk_def list_all_updateWhere outboxRowOk_keep)

lemma outboxRowsOk_replace:
  "outboxRowsOk d \<Longrightarrow> outboxRowsOk (replaceDeviceToken now v token platform d)"
  by (simp add: replaceDeviceToken_def Let_def outboxRowsOk_def list_all_updateWhere outboxRowOk_keep)

text \<open>A retry that the service asks for has attempts left.\<close>

definition sendResultOk :: "pushSendResult \<Rightarrow> bool" where
  "sendResultOk res \<longleftrightarrow>
     (sr_kind res = SendRetry \<longrightarrow> sr_attempt res < MAX_PUSH_SEND_ATTEMPTS) \<and>
     (sr_invalidatePushTokenId res \<noteq> None \<longrightarrow> sr_kind res = SendPermanent)"

definition receiptResultOk :: "pushReceiptResult \<Rightarrow> bool" where
  "receiptResultOk res \<longleftrightarrow>
     (rs_kind res = ReceiptRetry \<longrightarrow> rs_attempt res < MAX_PUSH_RECEIPT_ATTEMPTS) \<and>
     (rs_invalidatePushTokenId res \<noteq> None \<longrightarrow> rs_kind res = ReceiptPermanent)"

lemma retrySendResult_ok: "sendResultOk (retrySendResult job now c m)"
  by (simp add: retrySendResult_def sendResultOk_def sendResult_def)

lemma ticketResult_ok: "sendResultOk (ticketResult job ticket now)"
  using retrySendResult_ok
  by (auto simp: ticketResult_def split: option.split expoGatewayTicket.split)
     (simp_all add: sendResultOk_def sendResult_def)

lemma sendResults_ok: "res \<in> set (sendResults sdk now jobs) \<Longrightarrow> sendResultOk res"
  by (auto simp: sendResults_def retrySendResult_ok ticketResult_ok split: sum.splits if_splits)

lemma retryReceiptResult_ok: "receiptResultOk (retryReceiptResult job now c m)"
  by (simp add: retryReceiptResult_def receiptResultOk_def receiptRow_def)

lemma receiptResult_ok: "receiptResultOk (receiptResult job receipt now)"
  using retryReceiptResult_ok
  by (auto simp: receiptResult_def split: option.split expoGatewayReceipt.split)
     (simp_all add: receiptResultOk_def receiptRow_def)

lemma receiptResults_ok: "res \<in> set (receiptResults sdk now jobs) \<Longrightarrow> receiptResultOk res"
  by (auto simp: receiptResults_def Let_def retryReceiptResult_ok receiptResult_ok
      split: sum.splits if_splits)
     (simp_all add: receiptResultOk_def receiptRow_def)

lemma sendResultValues_rowOk:
  assumes "sendResultValues res now = Inr f" and "sendResultOk res" and "outboxRowOk x"
    and "po_status x = Sending" and "po_sendAttempts x = sr_attempt res"
  shows "outboxRowOk (f x)"
  using assms by (auto simp: MAX_PUSH_RECEIPT_ATTEMPTS_def sendResultValues_def sendResultOk_def outboxRowOk_def
      split: sendKind.splits option.splits if_splits)

lemma receiptResultValues_rowOk:
  assumes "receiptResultValues res now = Inr f" and "receiptResultOk res" and "outboxRowOk x"
    and "po_status x = ReceiptChecking" and "po_receiptAttempts x = rs_attempt res"
  shows "outboxRowOk (f x)"
  using assms by (auto simp: receiptResultValues_def receiptResultOk_def outboxRowOk_def
      split: receiptKind.splits option.splits if_splits)

lemma createWithPushOutbox_rows:
  "preserves outboxRowsOk (createWithPushOutbox ids now input enabled)"
  unfolding createWithPushOutbox_def Let_def
  by (intro preserves_modify preserves_intros)
     (auto simp: outboxRowsOk_def list_all_iff newOutbox_def outboxRowOk_def
       MAX_PUSH_SEND_ATTEMPTS_def)

lemma applySendResult_rows:
  assumes "sendResultOk res"
  shows "preserves outboxRowsOk (applySendResult now res)"
proof (cases "sendResultValues res now")
  case (Inr f)
  have "outboxRowsOk (d\<lparr>pushOutboxes := updateWhere (\<lambda>x. po_id x = sr_id res \<and>
      po_status x = Sending \<and> po_sendAttempts x = sr_attempt res) f (pushOutboxes d)\<rparr>)"
    if "outboxRowsOk d" for d
    using that by (rule outboxRowsOk_update) (simp add: sendResultValues_rowOk [OF Inr assms])
  with Inr show ?thesis
    unfolding applySendResult_def
    by (simp add: Let_def, intro preserves_modify preserves_intros)
       (simp_all add: invalidatePushToken_def outboxRowsOk_deletePushTokens outboxRowsOk_cancelOpen)
qed (simp add: applySendResult_def preserves_throw)

lemma applyReceiptResult_rows:
  assumes "receiptResultOk res"
  shows "preserves outboxRowsOk (applyReceiptResult now res)"
proof (cases "receiptResultValues res now")
  case (Inr f)
  have "outboxRowsOk (d\<lparr>pushOutboxes := updateWhere (\<lambda>x. po_id x = rs_id res \<and>
      po_status x = ReceiptChecking \<and> po_receiptAttempts x = rs_attempt res) f (pushOutboxes d)\<rparr>)"
    if "outboxRowsOk d" for d
    using that by (rule outboxRowsOk_update) (simp add: receiptResultValues_rowOk [OF Inr assms])
  with Inr show ?thesis
    unfolding applyReceiptResult_def
    by (simp add: Let_def, intro preserves_modify preserves_intros)
       (simp_all add: invalidatePushToken_def outboxRowsOk_deletePushTokens outboxRowsOk_cancelOpen)
qed (simp add: applyReceiptResult_def preserves_throw)

lemma repoUnregisterPushToken_rows:
  "preserves outboxRowsOk (repoUnregisterPushToken now userId deviceId)"
  unfolding repoUnregisterPushToken_def Let_def
  by (intro preserves_modify preserves_intros)
     (simp_all add: outboxRowsOk_deletePushTokens outboxRowsOk_cancelOpen)

subsection \<open>Addresses\<close>

lemma outboxAddressed_more:
  assumes "outboxAddressed d" and "set (notifications d) \<subseteq> set (notifications d')"
    and "set (pushTokens d) \<subseteq> set (pushTokens d')"
    and "\<And>x. x \<in> set (pushOutboxes d') \<Longrightarrow> x \<notin> set (pushOutboxes d) \<Longrightarrow> deliversToRecipient d' x"
  shows "outboxAddressed d'"
  using assms by (fastforce simp: outboxAddressed_def list_all_iff deliversToRecipient_iff)

lemma in_set_enumerate: "(k, t) \<in> set (enumerate i ts) \<Longrightarrow> t \<in> set ts"
  by (auto simp: enumerate_eq_zip dest: set_zip_rightD)

lemma createWithPushOutbox_addressed:
  "preserves outboxAddressed (createWithPushOutbox ids now input enabled)"
proof (rule preservesI)
  fix d assume inv: "outboxAddressed d"
  let ?n = "newNotification (ids 0) now input"
  let ?rows = "map (\<lambda>(k, token). newOutbox (ids (Suc k)) now (n_id ?n) input token)
    (enumerate 0 (filter (\<lambda>t. tk_userId t = pgUuid (ni_userId input)) (pushTokens d)))"
  let ?d1 = "d\<lparr>notifications := insertRow ?n (notifications d)\<rparr>"
  have 1: "outboxAddressed ?d1"
    by (rule outboxAddressed_more [OF inv]) auto
  have 2: "outboxAddressed (?d1\<lparr>pushOutboxes := pushOutboxes ?d1 @ ?rows\<rparr>)"
  proof (rule outboxAddressed_more [OF inv])
    fix x assume "x \<in> set (pushOutboxes (?d1\<lparr>pushOutboxes := pushOutboxes ?d1 @ ?rows\<rparr>))"
      and "x \<notin> set (pushOutboxes d)"
    then obtain k t where t: "t \<in> set (pushTokens d)" "tk_userId t = pgUuid (ni_userId input)"
      and x: "x = newOutbox (ids (Suc k)) now (n_id ?n) input t"
      by (auto dest!: in_set_enumerate)
    have "po_pushTokenId x = Some (tk_id t) \<and> po_tokenSnapshot x = tk_token t \<and>
        n_id ?n = po_notificationId x \<and> n_userId ?n = tk_userId t"
      by (simp add: x t(2) newOutbox_def newNotification_def)
    with t(1) show "deliversToRecipient (?d1\<lparr>pushOutboxes := pushOutboxes ?d1 @ ?rows\<rparr>) x"
      unfolding deliversToRecipient_iff by auto
  qed auto
  show "outboxAddressed (snd (createWithPushOutbox ids now input enabled d))"
    unfolding createWithPushOutbox_def
    by (rule transaction_keeps [where I = outboxAddressed]) (simp_all add: inv 1 [simplified] 2 [simplified] Let_def)
qed


lemma outboxAddressed_cancel_delete:
  assumes "outboxAddressed d" and "\<And>x. P (cancelRow now x) = P x"
    and "\<And>x t. Q t \<Longrightarrow> po_pushTokenId x = Some (tk_id t) \<Longrightarrow> P x"
  shows "outboxAddressed (deletePushTokens Q (cancelOpen now P d))"
proof (rule outboxAddressed_deletePushTokens [OF outboxAddressed_cancelOpen [OF assms(1)]])
  fix x t
  assume "x \<in> set (pushOutboxes (cancelOpen now P d))" "Q t" "po_pushTokenId x = Some (tk_id t)"
  then show "\<not> pushOpen x"
    using cancelOpen_closed [where P = P, OF _ assms(2)] assms(3) by blast
qed

lemma outboxAddressed_drop: "outboxAddressed d \<Longrightarrow> outboxAddressed (dropPushToken now q d)"
  unfolding dropPushToken_def by (rule outboxAddressed_cancel_delete) (simp_all add: cancelRow_def)

text \<open>Other columns of tokens and notifications do not matter.\<close>

lemma outboxAddressed_columns:
  assumes inv: "outboxAddressed d" and outbox: "pushOutboxes d' = pushOutboxes d"
    and tokens: "\<And>t. t \<in> set (pushTokens d) \<Longrightarrow> \<exists>t' \<in> set (pushTokens d').
      tk_id t' = tk_id t \<and> tk_token t' = tk_token t \<and> tk_userId t' = tk_userId t"
    and notifs: "\<And>n. n \<in> set (notifications d) \<Longrightarrow> \<exists>n' \<in> set (notifications d').
      n_id n' = n_id n \<and> n_userId n' = n_userId n"
  shows "outboxAddressed d'"
proof (rule outboxAddressedI)
  fix x assume "x \<in> set (pushOutboxes d')" "pushOpen x"
  then have "deliversToRecipient d x"
    using inv outbox by (simp add: outboxAddressedD)
  then obtain t n where t: "t \<in> set (pushTokens d)" "n \<in> set (notifications d)"
    "po_pushTokenId x = Some (tk_id t)" "po_tokenSnapshot x = tk_token t"
    "n_id n = po_notificationId x" "n_userId n = tk_userId t"
    by (auto simp: deliversToRecipient_iff)
  from tokens [OF t(1)] notifs [OF t(2)] t(3-) show "deliversToRecipient d' x"
    unfolding deliversToRecipient_iff by metis
qed

lemma outboxAddressed_refresh:
  "outboxAddressed d \<Longrightarrow> outboxAddressed (refreshDeviceToken now v platform d)"
  unfolding refreshDeviceToken_def
  by (erule outboxAddressed_columns) (auto intro: updateWhere_bex)

lemma outboxAddressed_markRead:
  "outboxAddressed d \<Longrightarrow>
   outboxAddressed (d\<lparr>notifications := updateWhere P (\<lambda>n. n\<lparr>n_readAt := r\<rparr>) (notifications d)\<rparr>)"
  by (erule outboxAddressed_columns) (auto intro: updateWhere_bex)

lemma outboxAddressed_replace:
  assumes inv: "outboxAddressed d"
  shows "outboxAddressed (replaceDeviceToken now v token platform d)"
proof (rule outboxAddressedI)
  let ?d = "replaceDeviceToken now v token platform d"
  let ?f = "\<lambda>t. t\<lparr>tk_token := token, tk_platform := platform, tk_updatedAt := now\<rparr>"
  fix y assume y: "y \<in> set (pushOutboxes ?d)" "pushOpen y"
  define move where "move = (\<lambda>x :: pushOutbox. if po_pushTokenId x = Some (tk_id v) \<and> po_status x = Queued
    then x\<lparr>po_tokenSnapshot := token, po_updatedAt := now\<rparr> else x)"
  from y(1) obtain x where x: "x \<in> set (pushOutboxes d)"
    and y': "y = (if po_pushTokenId (move x) = Some (tk_id v) \<and>
        List.member IN_FLIGHT_PUSH_STATUSES (po_status (move x)) then cancelRow now (move x) else move x)"
    by (auto simp: replaceDeviceToken_def Let_def set_updateWhere move_def)
  have status: "po_status (move x) = po_status x" "po_pushTokenId (move x) = po_pushTokenId x"
    by (simp_all add: move_def)
  have opn: "pushOpen x" and queued: "po_pushTokenId x = Some (tk_id v) \<Longrightarrow> po_status x = Queued"
    and "y = move x"
    using y(2) y' status by (auto simp: open_simps cancelRow_def split: if_splits)
  then have yx: "y = (if po_pushTokenId x = Some (tk_id v)
      then x\<lparr>po_tokenSnapshot := token, po_updatedAt := now\<rparr> else x)"
    by (simp add: move_def)
  from outboxAddressedD [OF inv x opn] obtain t n where t: "t \<in> set (pushTokens d)"
    "n \<in> set (notifications d)" "po_pushTokenId x = Some (tk_id t)"
    "po_tokenSnapshot x = tk_token t" "n_id n = po_notificationId x" "n_userId n = tk_userId t"
    by (auto simp: deliversToRecipient_iff)
  let ?t = "if tk_id t = tk_id v then ?f t else t"
  have "?t \<in> set (pushTokens ?d)" "n \<in> set (notifications ?d)"
    using t by (auto simp: replaceDeviceToken_def Let_def set_updateWhere)
  moreover have "po_pushTokenId y = Some (tk_id ?t)" "po_tokenSnapshot y = tk_token ?t"
    "n_id n = po_notificationId y" "n_userId n = tk_userId ?t"
    using t yx by auto
  ultimately show "deliversToRecipient ?d y"
    unfolding deliversToRecipient_iff by blast
qed

lemma outboxAddressed_insert:
  "outboxAddressed d \<Longrightarrow> outboxAddressed (snd (insertPushToken t d))"
  by (auto simp: insertPushToken_def throwIf_apply elim: outboxAddressed_more)

lemma repoUnregisterPushToken_addressed:
  "preserves outboxAddressed (repoUnregisterPushToken now userId deviceId)"
proof -
  have "outboxAddressed (deletePushTokens (\<lambda>t. List.member is (tk_id t))
      (cancelOpen now (\<lambda>x. case po_pushTokenId x of None \<Rightarrow> False | Some k \<Rightarrow> List.member is k) d))"
    if "outboxAddressed d" for "is" d
    using that by (rule outboxAddressed_cancel_delete) (simp_all add: cancelRow_def)
  then show ?thesis
    unfolding repoUnregisterPushToken_def Let_def
    by (intro preserves_transaction preserves_andThen [OF preserves_query] preserves_if preserves_ret
        preserves_modify_andThen) (simp only: andThen_modify ret_apply snd_conv)
qed

lemma sendResultValues_keep:
  "sendResultValues res now = Inr f \<Longrightarrow> po_pushTokenId (f x) = po_pushTokenId x \<and>
     po_tokenSnapshot (f x) = po_tokenSnapshot x \<and> po_notificationId (f x) = po_notificationId x"
  by (auto simp: sendResultValues_def split: sendKind.splits option.splits if_splits)

lemma receiptResultValues_keep:
  "receiptResultValues res now = Inr f \<Longrightarrow> po_pushTokenId (f x) = po_pushTokenId x \<and>
     po_tokenSnapshot (f x) = po_tokenSnapshot x \<and> po_notificationId (f x) = po_notificationId x"
  by (auto simp: receiptResultValues_def split: receiptKind.splits option.splits if_splits)

lemma sendPermanent_closes:
  "sendResultValues res now = Inr f \<Longrightarrow> sr_kind res = SendPermanent \<Longrightarrow> \<not> pushOpen (f x)"
  by (auto simp: sendResultValues_def open_simps)

lemma receiptPermanent_closes:
  "receiptResultValues res now = Inr f \<Longrightarrow> rs_kind res = ReceiptPermanent \<Longrightarrow> \<not> pushOpen (f x)"
  by (auto simp: receiptResultValues_def open_simps)

text \<open>Invalidating the token of a job that is already closed leaves no open row without a token.\<close>

lemma outboxAddressed_invalidate:
  assumes "outboxAddressed d"
    and "\<And>x. x \<in> set (pushOutboxes d) \<Longrightarrow> po_id x = j \<Longrightarrow> \<not> pushOpen x"
  shows "outboxAddressed (invalidatePushToken k j now d)"
  unfolding invalidatePushToken_def
proof (rule outboxAddressed_deletePushTokens [OF outboxAddressed_cancelOpen [OF assms(1)]])
  let ?P = "\<lambda>x. po_pushTokenId x = Some k \<and> po_id x \<noteq> j"
  fix x t assume x: "x \<in> set (pushOutboxes (cancelOpen now ?P d))" and "tk_id t = k"
    and "po_pushTokenId x = Some (tk_id t)"
  show "\<not> pushOpen x"
  proof (cases "po_id x = j")
    case True
    with x assms(2) show ?thesis
      by (auto simp: cancelOpen_def set_updateWhere cancelRow_def split: if_splits)
  next
    case False
    with \<open>tk_id t = k\<close> \<open>po_pushTokenId x = Some (tk_id t)\<close> show ?thesis
      by (intro cancelOpen_closed [where P = ?P, OF x]) (simp_all add: cancelRow_def)
  qed
qed

lemma uniqueKey_updated:
  assumes "uniqueKey k t" and "\<And>r. k (f r) = k r" and "existsRow (\<lambda>r. k r = i \<and> Q r) t"
    and "q \<in> set (updateWhere (\<lambda>r. k r = i \<and> Q r) f t)" and "k q = i"
  obtains r where "r \<in> set t" "k r = i" "Q r" "q = f r"
proof -
  from assms(3) obtain r where r: "r \<in> set t" "k r = i" "Q r"
    by (auto simp: existsRow_iff)
  from assms(4) obtain p where p: "p \<in> set t" "q = (if k p = i \<and> Q p then f p else p)"
    by (auto simp: set_updateWhere)
  then have "k p = i"
    using assms(2,5) by (auto split: if_splits)
  then have "p = r"
    using uniqueKey_inj [OF assms(1) p(1) r(1)] r(2) by simp
  with p r that show ?thesis
    by simp
qed

lemma applySendResult_addressed:
  assumes ok: "sendResultOk res"
  shows "preserves (\<lambda>d. notificationKeys d \<and> outboxAddressed d) (applySendResult now res)"
proof (cases "sendResultValues res now")
  case (Inr f)
  let ?Q = "\<lambda>x. po_status x = Sending \<and> po_sendAttempts x = sr_attempt res"
  let ?P = "\<lambda>x. po_id x = sr_id res \<and> ?Q x"
  note f = sendResultValues_keep [OF Inr] sendResultValues_id [OF Inr]
  have "outboxAddressed (snd (applySendResult now res d))"
    if inv: "notificationKeys d" "outboxAddressed d" for d
  proof -
    let ?d = "d\<lparr>pushOutboxes := updateWhere ?P f (pushOutboxes d)\<rparr>"
    have addressed: "outboxAddressed ?d"
      by (rule outboxAddressed_update [OF inv(2)]) (auto simp: f open_simps)
    have "outboxAddressed (invalidatePushToken k (sr_id res) now ?d)"
      if ex: "existsRow ?P (pushOutboxes d)" and perm: "sr_kind res = SendPermanent" for k
    proof (rule outboxAddressed_invalidate [OF addressed])
      fix q assume "q \<in> set (pushOutboxes ?d)" "po_id q = sr_id res"
      moreover have "uniqueKey po_id (pushOutboxes d)"
        using inv(1) by (simp add: notificationKeys_def)
      ultimately obtain r where "q = f r"
        using uniqueKey_updated [OF _ f(2) ex] by auto
      with sendPermanent_closes [OF Inr perm] show "\<not> pushOpen q"
        by simp
    qed
    with addressed inv ok Inr show ?thesis
      by (simp add: applySendResult_def Let_def sendResultOk_def split: option.split)
  qed
  moreover have "notificationKeys (snd (applySendResult now res d))" if "notificationKeys d" for d
    using applySendResult_keys that by (simp add: preserves_def)
  ultimately show ?thesis
    by (simp add: preserves_def)
qed (simp add: applySendResult_def preserves_throw)

lemma applyReceiptResult_addressed:
  assumes ok: "receiptResultOk res"
  shows "preserves (\<lambda>d. notificationKeys d \<and> outboxAddressed d) (applyReceiptResult now res)"
proof (cases "receiptResultValues res now")
  case (Inr f)
  let ?Q = "\<lambda>x. po_status x = ReceiptChecking \<and> po_receiptAttempts x = rs_attempt res"
  let ?P = "\<lambda>x. po_id x = rs_id res \<and> ?Q x"
  note f = receiptResultValues_keep [OF Inr] receiptResultValues_id [OF Inr]
  have "outboxAddressed (snd (applyReceiptResult now res d))"
    if inv: "notificationKeys d" "outboxAddressed d" for d
  proof -
    let ?d = "d\<lparr>pushOutboxes := updateWhere ?P f (pushOutboxes d)\<rparr>"
    have addressed: "outboxAddressed ?d"
      by (rule outboxAddressed_update [OF inv(2)]) (auto simp: f open_simps)
    have "outboxAddressed (invalidatePushToken k (rs_id res) now ?d)"
      if ex: "existsRow ?P (pushOutboxes d)" and perm: "rs_kind res = ReceiptPermanent" for k
    proof (rule outboxAddressed_invalidate [OF addressed])
      fix q assume "q \<in> set (pushOutboxes ?d)" "po_id q = rs_id res"
      moreover have "uniqueKey po_id (pushOutboxes d)"
        using inv(1) by (simp add: notificationKeys_def)
      ultimately obtain r where "q = f r"
        using uniqueKey_updated [OF _ f(2) ex] by auto
      with receiptPermanent_closes [OF Inr perm] show "\<not> pushOpen q"
        by simp
    qed
    with addressed inv ok Inr show ?thesis
      by (simp add: applyReceiptResult_def Let_def receiptResultOk_def split: option.split)
  qed
  moreover have "notificationKeys (snd (applyReceiptResult now res d))" if "notificationKeys d" for d
    using applyReceiptResult_keys that by (simp add: preserves_def)
  ultimately show ?thesis
    by (simp add: preserves_def)
qed (simp add: applyReceiptResult_def preserves_throw)


subsection \<open>Every step keeps the invariant\<close>

lemma preserves_notificationInv:
  assumes "preserves notificationKeys m" and "preserves pushTokenKeys m"
    and "preserves outboxRowsOk m" and "preserves (\<lambda>d. notificationKeys d \<and> outboxAddressed d) m"
  shows "preserves notificationInv m"
  using assms by (simp add: preserves_def notificationInv_def)

lemma preserves_addressed:
  "preserves notificationKeys m \<Longrightarrow> preserves outboxAddressed m \<Longrightarrow>
   preserves (\<lambda>d. notificationKeys d \<and> outboxAddressed d) m"
  by (rule preserves_conj)

text \<open>What does not mention the notifications and the outbox, a notification leaves alone.\<close>

lemma notify_frame:
  assumes "\<And>d x. I d \<Longrightarrow> I (d\<lparr>notifications := x\<rparr>)" and "\<And>d x. I d \<Longrightarrow> I (d\<lparr>pushOutboxes := x\<rparr>)"
  shows "preserves I (notify ids now enabled input)"
  unfolding notify_def createWithPushOutbox_def Let_def
  by (intro preserves_intros preserves_modify) (simp_all add: assms)

lemma notify_inv: "preserves notificationInv (notify ids now enabled input)"
  unfolding notify_def
  by (intro preserves_notificationInv preserves_addressed createWithPushOutbox_keys
      createWithPushOutbox_tokenKeys createWithPushOutbox_rows createWithPushOutbox_addressed)

lemma markRead_inv: "preserves notificationInv (markRead now userId i)"
  unfolding markRead_def repoMarkRead_def Let_def
  by (intro preserves_modify preserves_intros)
     (simp add: notificationInv_def notificationKeys_def uniqueKey_updateWhere
      outboxAddressed_markRead)

lemma repoRegisterPushToken_inv:
  "preserves notificationInv (repoRegisterPushToken i now userId deviceId token platform)"
proof (rule repoRegisterPushToken_preserves)
  show "notificationInv d \<Longrightarrow> notificationInv (dropPushToken now q d)" for d q
    by (simp add: notificationInv_def outboxAddressed_drop pushTokenKeys_drop)
       (simp add: dropPushToken_def notificationKeys_deletePushTokens notificationKeys_cancelOpen
        outboxRowsOk_deletePushTokens outboxRowsOk_cancelOpen)
  show "notificationInv d \<Longrightarrow> notificationInv (refreshDeviceToken now v platform d)" for d v
    by (simp add: notificationInv_def outboxAddressed_refresh pushTokenKeys_refresh)
       (simp add: refreshDeviceToken_def)
  show "notificationInv d \<Longrightarrow> token \<notin> tk_token ` set (pushTokens d) \<Longrightarrow>
      notificationInv (replaceDeviceToken now v token platform d)" for d v
    by (simp add: notificationInv_def outboxAddressed_replace pushTokenKeys_replace
        outboxRowsOk_replace)
       (simp add: replaceDeviceToken_def notificationKeys_def Let_def uniqueKey_updateWhere
        cancelRow_def)
  show "notificationInv d \<Longrightarrow> notificationInv (snd (insertPushToken t d))" for d t
    using insertPushToken_tokenKeys [of t] outboxAddressed_insert [of d t]
    by (auto simp: notificationInv_def preserves_def)
       (simp_all add: insertPushToken_def throwIf_apply)
qed (simp add: notificationInv_def pushTokenKeys_def)

lemma registerPushToken_inv:
  "preserves notificationInv (registerPushToken valid i now userId deviceId token platform)"
  unfolding registerPushToken_def Let_def
  by (intro repoRegisterPushToken_inv preserves_intros)

lemma unregisterPushToken_inv: "preserves notificationInv (unregisterPushToken now userId deviceId)"
  unfolding unregisterPushToken_def
  by (intro preserves_notificationInv preserves_addressed repoUnregisterPushToken_keys
      repoUnregisterPushToken_tokenKeys repoUnregisterPushToken_rows
      repoUnregisterPushToken_addressed)

lemma applySendResults_inv: "preserves notificationInv (applySendResults now (sendResults sdk now' jobs))"
  unfolding applySendResults_def
  by (intro preserves_transaction preserves_forEach preserves_notificationInv applySendResult_keys
      applySendResult_tokenKeys applySendResult_rows applySendResult_addressed)
     (simp_all add: sendResults_ok)

lemma applyReceiptResults_inv:
  "preserves notificationInv (applyReceiptResults now (receiptResults sdk now' jobs))"
  unfolding applyReceiptResults_def
  by (intro preserves_transaction preserves_forEach preserves_notificationInv
      applyReceiptResult_keys applyReceiptResult_tokenKeys applyReceiptResult_rows
      applyReceiptResult_addressed)
     (simp_all add: receiptResults_ok)

lemma claimSend_row:
  "sendDue now x \<Longrightarrow> outboxRowOk x \<Longrightarrow> outboxRowOk (claimSend now lease x)"
  "sendDue now x \<Longrightarrow> pushOpen x"
  by (auto simp: sendDue_def outboxRowOk_def claimSend_def open_simps)

lemma claimReceipt_row:
  "receiptDue now x \<Longrightarrow> outboxRowOk x \<Longrightarrow> outboxRowOk (claimReceipt now lease x)"
  "receiptDue now x \<Longrightarrow> pushOpen x"
  by (auto simp: receiptDue_def outboxRowOk_def claimReceipt_def open_simps)

lemma claimSend_keep:
  "po_pushTokenId (claimSend now lease x) = po_pushTokenId x"
  "po_tokenSnapshot (claimSend now lease x) = po_tokenSnapshot x"
  "po_notificationId (claimSend now lease x) = po_notificationId x"
  by (simp_all add: claimSend_def)

lemma claimReceipt_keep:
  "po_pushTokenId (claimReceipt now lease x) = po_pushTokenId x"
  "po_tokenSnapshot (claimReceipt now lease x) = po_tokenSnapshot x"
  "po_notificationId (claimReceipt now lease x) = po_notificationId x"
  by (simp_all add: claimReceipt_def)

lemma claimSendBatch_inv: "preserves notificationInv (claimSendBatch now lease limit)"
proof (rule preservesI)
  fix d assume inv: "notificationInv d"
  let ?P = "\<lambda>x. po_id x \<in> set (sends.ids now limit (pushOutboxes d))"
  let ?d = "d\<lparr>pushOutboxes := updateWhere ?P (claimSend now lease) (pushOutboxes d)\<rparr>"
  have due: "sendDue now x" if "x \<in> set (pushOutboxes d)" "?P x" for x
    using inv by (intro sends.ids_due [OF _ that]) (simp add: notificationInv_def notificationKeys_def)
  have "outboxRowsOk ?d"
    by (rule outboxRowsOk_update)
       (use inv due in \<open>simp_all add: notificationInv_def claimSend_row\<close>)
  moreover have "outboxAddressed ?d"
    by (rule outboxAddressed_update)
       (use inv due in \<open>auto simp: notificationInv_def claimSend_keep intro: claimSend_row(2)\<close>)
  moreover have "notificationKeys ?d" "pushTokenKeys ?d"
    using inv by (simp_all add: notificationInv_def notificationKeys_update claimSend_def)
  ultimately show "notificationInv (snd (claimSendBatch now lease limit d))"
    by (simp add: snd_claimSendBatch notificationInv_def)
qed

lemma claimReceiptBatch_inv: "preserves notificationInv (claimReceiptBatch now lease limit)"
proof (rule preservesI)
  fix d assume inv: "notificationInv d"
  let ?P = "\<lambda>x. po_id x \<in> set (receipts.ids now limit (pushOutboxes d))"
  let ?d = "d\<lparr>pushOutboxes := updateWhere ?P (claimReceipt now lease) (pushOutboxes d)\<rparr>"
  have due: "receiptDue now x" if "x \<in> set (pushOutboxes d)" "?P x" for x
    using inv by (intro receipts.ids_due [OF _ that]) (simp add: notificationInv_def notificationKeys_def)
  have "outboxRowsOk ?d"
    by (rule outboxRowsOk_update)
       (use inv due in \<open>simp_all add: notificationInv_def claimReceipt_row\<close>)
  moreover have "outboxAddressed ?d"
    by (rule outboxAddressed_update)
       (use inv due in \<open>auto simp: notificationInv_def claimReceipt_keep intro: claimReceipt_row(2)\<close>)
  moreover have "notificationKeys ?d" "pushTokenKeys ?d"
    using inv by (simp_all add: notificationInv_def notificationKeys_update claimReceipt_def)
  ultimately show "notificationInv (snd (claimReceiptBatch now lease limit d))"
    by (simp add: snd_claimReceiptBatch notificationInv_def)
qed

lemmas notification_invs = notify_inv markRead_inv registerPushToken_inv unregisterPushToken_inv
  claimSendBatch_inv applySendResults_inv claimReceiptBatch_inv applyReceiptResults_inv

interpretation notifications: invariant_machine stepNotification notificationInv
proof
  fix d s assume "notificationInv d"
  then show "notificationInv (stepNotification d s)"
    using notification_invs by (cases s) (simp_all add: preserves_def)
qed


section \<open>Closed jobs stay closed\<close>

text \<open>A row of the outbox with the given outcome.\<close>

definition closedAs :: "uuid \<Rightarrow> pushOutboxStatus \<Rightarrow> timestamp option \<Rightarrow> db \<Rightarrow> bool" where
  "closedAs i s c d \<longleftrightarrow> \<not> List.member OPEN_PUSH_STATUSES s \<and>
     existsRow (\<lambda>x. po_id x = i \<and> po_status x = s \<and> po_completedAt x = c) (pushOutboxes d)"

lemma closedAs_update:
  assumes "closedAs i s c d"
    and "\<And>x. x \<in> set (pushOutboxes d) \<Longrightarrow> P x \<Longrightarrow> pushOpen x \<or>
      po_id (f x) = po_id x \<and> po_status (f x) = po_status x \<and> po_completedAt (f x) = po_completedAt x"
  shows "closedAs i s c (d\<lparr>pushOutboxes := updateWhere P f (pushOutboxes d)\<rparr>)"
proof -
  from assms(1) obtain x where x: "x \<in> set (pushOutboxes d)" "po_id x = i" "po_status x = s"
    "po_completedAt x = c" and s: "\<not> List.member OPEN_PUSH_STATUSES s"
    by (auto simp: closedAs_def existsRow_iff)
  with assms(2) [OF x(1)] show ?thesis
    by (auto simp: closedAs_def existsRow_iff pushOpen_def intro!: updateWhere_bex)
qed

lemma closedAs_frame [simp]:
  "closedAs i s c (d\<lparr>pushTokens := t\<rparr>) = closedAs i s c d"
  "closedAs i s c (d\<lparr>notifications := u\<rparr>) = closedAs i s c d"
  by (simp_all add: closedAs_def)

lemma closedAs_append: "closedAs i s c d \<Longrightarrow> closedAs i s c (d\<lparr>pushOutboxes := pushOutboxes d @ r\<rparr>)"
  by (auto simp: closedAs_def existsRow_def)

lemma closedAs_cancelOpen: "closedAs i s c d \<Longrightarrow> closedAs i s c (cancelOpen now P d)"
  unfolding cancelOpen_def by (rule closedAs_update) (auto simp: pushOpen_def)

lemma closedAs_deletePushTokens:
  assumes "closedAs i s c d" shows "closedAs i s c (deletePushTokens P d)"
proof -
  have "closedAs i s c (d\<lparr>pushOutboxes := updateWhere Q (\<lambda>x. x\<lparr>po_pushTokenId := None\<rparr>)
      (pushOutboxes d)\<rparr>)" for Q
    using assms by (rule closedAs_update) auto
  then show ?thesis
    by (simp add: deletePushTokens_def Let_def closedAs_def)
qed

lemma closedAs_replace:
  assumes "closedAs i s c d" shows "closedAs i s c (replaceDeviceToken now v token platform d)"
proof -
  let ?P = "\<lambda>x. po_pushTokenId x = Some (tk_id v) \<and> po_status x = Queued"
  let ?f = "\<lambda>x. x\<lparr>po_tokenSnapshot := token, po_updatedAt := now\<rparr>"
  let ?Q = "\<lambda>x. po_pushTokenId x = Some (tk_id v) \<and>
    List.member IN_FLIGHT_PUSH_STATUSES (po_status x)"
  let ?d = "d\<lparr>pushOutboxes := updateWhere ?P ?f (pushOutboxes d)\<rparr>"
  have 1: "closedAs i s c ?d"
    using assms by (rule closedAs_update) auto
  have "closedAs i s c (?d\<lparr>pushOutboxes := updateWhere ?Q (cancelRow now) (pushOutboxes ?d)\<rparr>)"
    using 1 by (rule closedAs_update) (auto simp: open_simps)
  then show ?thesis
    by (simp add: replaceDeviceToken_def Let_def closedAs_def)
qed

lemmas closedAs_rules = closedAs_append closedAs_cancelOpen closedAs_deletePushTokens
  closedAs_replace preserves_modify preserves_intros

lemma closedAs_ops:
  "preserves (closedAs i s c) (notify ids now enabled input)"
  "preserves (closedAs i s c) (markRead now userId n)"
  "preserves (closedAs i s c) (registerPushToken valid k now userId deviceId token platform)"
  "preserves (closedAs i s c) (unregisterPushToken now userId deviceId)"
  unfolding notify_def createWithPushOutbox_def markRead_def repoMarkRead_def registerPushToken_def
    repoRegisterPushToken_def insertPushToken_def unregisterPushToken_def
    repoUnregisterPushToken_def Let_def
  by (intro closedAs_rules; simp add: closedAs_rules dropPushToken_def refreshDeviceToken_def)+

lemma closedAs_applySend: "preserves (closedAs i s c) (applySendResult now res)"
  unfolding applySendResult_def Let_def
  by (cases "sendResultValues res now"; simp only: sum.case; intro closedAs_rules closedAs_update)
     (auto simp: invalidatePushToken_def closedAs_rules open_simps)

lemma closedAs_applyReceipt: "preserves (closedAs i s c) (applyReceiptResult now res)"
  unfolding applyReceiptResult_def Let_def
  by (cases "receiptResultValues res now"; simp only: sum.case; intro closedAs_rules closedAs_update)
     (auto simp: invalidatePushToken_def closedAs_rules open_simps)

lemma closedAs_reports:
  "preserves (closedAs i s c) (applySendResults now rs)"
  "preserves (closedAs i s c) (applyReceiptResults now rs')"
  unfolding applySendResults_def applyReceiptResults_def
  by (intro preserves_transaction preserves_forEach closedAs_applySend closedAs_applyReceipt)+

lemma closedAs_claims:
  assumes "notificationInv d" and "closedAs i s c d"
  shows "closedAs i s c (snd (claimSendBatch now lease limit d))"
    and "closedAs i s c (snd (claimReceiptBatch now lease limit d))"
proof -
  have u: "uniqueKey po_id (pushOutboxes d)"
    using assms(1) by (simp add: notificationInv_def notificationKeys_def)
  show "closedAs i s c (snd (claimSendBatch now lease limit d))"
    unfolding snd_claimSendBatch using assms(2)
    by (rule closedAs_update) (use sends.ids_due [OF u] claimSend_row(2) in blast)
  show "closedAs i s c (snd (claimReceiptBatch now lease limit d))"
    unfolding snd_claimReceiptBatch using assms(2)
    by (rule closedAs_update) (use receipts.ids_due [OF u] claimReceipt_row(2) in blast)
qed

interpretation closed: invariant_machine stepNotification "\<lambda>d. notificationInv d \<and> closedAs i s c d"
proof
  fix d e assume inv: "notificationInv d \<and> closedAs i s c d"
  have "closedAs i s c (stepNotification d e)"
    using inv closedAs_ops [of i s c] closedAs_claims [of d i s c]
      closedAs_reports [of i s c]
    by (cases e) (simp_all add: preserves_def)
  with inv show "notificationInv (stepNotification d e) \<and> closedAs i s c (stepNotification d e)"
    by (simp add: notifications.step_inv)
qed


section \<open>Properties\<close>

text \<open>Each open row is due for one of the two queues from some time on.\<close>

lemma outboxRowOk_due:
  assumes "outboxRowOk x" and "pushOpen x"
  shows "\<exists>t0. \<forall>now \<ge> t0. sendDue now x \<or> receiptDue now x"
proof (cases "po_status x")
  case ReceiptPending
  with assms obtain a where "po_receiptAvailableAt x = Some a"
    by (auto simp: outboxRowOk_def)
  with ReceiptPending show ?thesis
    by (intro exI [of _ "max a (po_nextAttemptAt x)"]) (auto simp: receiptDue_def)
qed (use assms in \<open>auto simp: outboxRowOk_def open_simps sendDue_def receiptDue_def\<close>)

text \<open>A database in which no notification was sent and no device registered.\<close>

definition noNotifications :: "db \<Rightarrow> bool" where
  "noNotifications d \<longleftrightarrow> notifications d = [] \<and> pushTokens d = [] \<and> pushOutboxes d = []"

lemma noNotifications_inv: "noNotifications d \<Longrightarrow> notificationInv d"
  by (simp add: noNotifications_def notificationInv_def notificationKeys_def pushTokenKeys_def
      outboxRowsOk_def outboxAddressed_def)

lemma run_notificationInv:
  "noNotifications d \<Longrightarrow> notificationInv (foldl stepNotification d steps)"
  by (intro notifications.run_inv noNotifications_inv)

text \<open>C38. Whatever the order of requests and of the workers' claims and reports, a push job that is
  still to be sent or checked names a registered token of the user the notification is for.\<close>

theorem push_job_for_recipient:
  assumes "noNotifications d" and "x \<in> set (pushOutboxes (foldl stepNotification d steps))"
    and "pushOpen x"
  shows "deliversToRecipient (foldl stepNotification d steps) x"
  using run_notificationInv [OF assms(1)] assms(2,3) outboxAddressedD
  by (simp add: notificationInv_def)

text \<open>C39. No push job is lost: after any run, a job that is not closed becomes due, and stays due
  until a worker claims it, and a queued job has used fewer than five attempts.\<close>

theorem push_job_never_lost:
  assumes "noNotifications d" and "x \<in> set (pushOutboxes (foldl stepNotification d steps))"
    and "pushOpen x"
  shows "(\<exists>t0. \<forall>now \<ge> t0. sendDue now x \<or> receiptDue now x) \<and>
    (po_status x = Queued \<longrightarrow> po_sendAttempts x < MAX_PUSH_SEND_ATTEMPTS)"
proof -
  have "outboxRowOk x"
    using run_notificationInv [OF assms(1)] assms(2)
    by (simp add: notificationInv_def outboxRowsOk_def list_all_iff)
  then show ?thesis
    using outboxRowOk_due [OF _ assms(3)] by (auto simp: outboxRowOk_def)
qed

text \<open>C40. A push job that was delivered, failed, exhausted or cancelled keeps that outcome and its
  completion time whatever happens afterwards, late reports of slow workers included.\<close>

theorem push_outcome_final:
  assumes "noNotifications d" and "x \<in> set (pushOutboxes (foldl stepNotification d before))"
    and "\<not> pushOpen x"
  shows "\<exists>y \<in> set (pushOutboxes (foldl stepNotification d (before @ after))).
    po_id y = po_id x \<and> po_status y = po_status x \<and> po_completedAt y = po_completedAt x"
proof -
  let ?d = "foldl stepNotification d before"
  have "closedAs (po_id x) (po_status x) (po_completedAt x) ?d"
    using assms(2,3) by (auto simp: closedAs_def existsRow_iff pushOpen_def)
  then have "closedAs (po_id x) (po_status x) (po_completedAt x) (foldl stepNotification ?d after)"
    using closed.run_inv run_notificationInv [OF assms(1)] by blast
  then show ?thesis
    by (auto simp: closedAs_def existsRow_iff)
qed

lemma claimSendBatch_batch:
  assumes "claimSendBatch now lease limit d = (Inr b, d1)"
  shows "pc_jobs b = fst (sends.batch now lease limit (pushOutboxes d))"
    and "pushOutboxes d1 = snd (sends.batch now lease limit (pushOutboxes d))"
  using assms sends.batch_empty [of now lease limit "pushOutboxes d"]
  by (auto simp: claimSendBatch_eq case_prod_beta Let_def split: if_splits)

text \<open>Two workers never hold the same push job: a second claim before the first one's lease ends
  takes other jobs.\<close>

lemma push_claims_disjoint:
  assumes "notificationInv d" and "claimSendBatch now lease limit d = (Inr b, d1)"
    and "claimSendBatch now' lease' limit' d1 = (Inr b', d2)" and "now' < lease"
  shows "set (map po_id (pc_jobs b)) \<inter> set (map po_id (pc_jobs b')) = {}"
proof -
  have u: "uniqueKey po_id (pushOutboxes d)"
    using assms(1) by (simp add: notificationInv_def notificationKeys_def)
  note jobs = claimSendBatch_batch [OF assms(2)] claimSendBatch_batch [OF assms(3)]
  show ?thesis
    using sends.batch_exclusive [OF u assms(4)] unfolding jobs by fastforce
qed


text \<open>After a second claim, no row still has the attempt number of the first.\<close>

lemma reclaimed_attempts:
  assumes "uniqueKey po_id t" and "j \<in> set (fst (sends.batch now lease limit t))"
    and "po_id j \<in> po_id ` set (fst (sends.batch now' lease' limit' (snd (sends.batch now lease limit t))))"
    and "x \<in> set (snd (sends.batch now' lease' limit' (snd (sends.batch now lease limit t))))"
    and "po_id x = po_id j"
  shows "po_sendAttempts x = po_sendAttempts j + 1"
proof -
  let ?t = "snd (sends.batch now lease limit t)"
  let ?ids = "set (sends.ids now limit t)" and ?ids' = "set (sends.ids now' limit' ?t)"
  have u: "uniqueKey po_id ?t"
    by (rule sends.batch_unique [OF assms(1)])
  from assms(2) have j: "j \<in> set ?t"
    by (auto simp: sends.batch_eq returning_def set_updateWhere)
  from assms(4) obtain y where y: "y \<in> set ?t"
    "x = (if po_id y \<in> ?ids' then claimSend now' lease' y else y)"
    by (auto simp: sends.batch_update [of now'] set_updateWhere)
  then have "po_id y = po_id j"
    using assms(5) by (auto simp: claimSend_def split: if_splits)
  then have "y = j"
    by (rule uniqueKey_inj [OF u y(1) j])
  moreover have "po_id j \<in> ?ids'"
    using assms(3) by (auto simp: sends.batch_eq [of now'] returning_def claimSend_def)
  ultimately show ?thesis
    using y(2) by (simp add: claimSend_def)
qed

lemma applySendResult_stale:
  assumes "\<And>x. x \<in> set (pushOutboxes d) \<Longrightarrow> po_id x = sr_id res \<Longrightarrow> po_sendAttempts x \<noteq> sr_attempt res"
  shows "snd (applySendResult now res d) = d"
proof -
  have "\<not> existsRow (\<lambda>x. po_id x = sr_id res \<and> po_status x = Sending \<and>
      po_sendAttempts x = sr_attempt res) (pushOutboxes d)"
    using assms by (auto simp: existsRow_iff)
  moreover have "updateWhere (\<lambda>x. po_id x = sr_id res \<and> po_status x = Sending \<and>
      po_sendAttempts x = sr_attempt res) f (pushOutboxes d) = pushOutboxes d" for f
    using assms by (auto intro: updateWhere_none)
  ultimately show ?thesis
    by (simp add: applySendResult_def Let_def split: sum.split option.split)
qed

lemma sendResults_jobs:
  "res \<in> set (sendResults sdk now jobs) \<Longrightarrow>
   \<exists>j \<in> set jobs. sr_id res = po_id j \<and> sr_attempt res = po_sendAttempts j"
proof -
  have retry: "sr_id (retrySendResult j now c m) = po_id j \<and>
      sr_attempt (retrySendResult j now c m) = po_sendAttempts j" for j c m
    by (simp add: retrySendResult_def sendResult_def)
  have ticket: "sr_id (ticketResult j t now) = po_id j \<and>
      sr_attempt (ticketResult j t now) = po_sendAttempts j" for j t
    by (simp add: ticketResult_def retry sendResult_def split: option.split expoGatewayTicket.split)
  show "res \<in> set (sendResults sdk now jobs) \<Longrightarrow> ?thesis"
    by (auto simp: sendResults_def retry ticket dest: set_zip_leftD split: sum.splits if_splits)
qed

lemma forEach_stays:
  "(\<And>x. x \<in> set xs \<Longrightarrow> snd (f x s) = s) \<Longrightarrow> snd (forEach xs f s) = s"
proof (induction xs)
  case (Cons x xs)
  have "snd (f x s) = s" by (rule Cons.prems) simp
  with Cons show ?case
    by (cases "f x s"; cases "fst (f x s)") simp_all
qed simp

text \<open>The report of a worker whose jobs were claimed again by another worker changes nothing.\<close>

lemma stale_report_ignored:
  assumes "notificationInv d" and "claimSendBatch now lease limit d = (Inr b, d1)"
    and "claimSendBatch now' lease' limit' d1 = (Inr b', d2)"
    and "set (map po_id (pc_jobs b)) \<subseteq> set (map po_id (pc_jobs b'))"
  shows "snd (applySendResults at (sendResults sdk at (pc_jobs b)) d2) = d2"
proof -
  have u: "uniqueKey po_id (pushOutboxes d)"
    using assms(1) by (simp add: notificationInv_def notificationKeys_def)
  note batch = claimSendBatch_batch [OF assms(2)] claimSendBatch_batch [OF assms(3)]
  have "snd (applySendResult at res d2) = d2" if res: "res \<in> set (sendResults sdk at (pc_jobs b))" for res
  proof (rule applySendResult_stale)
    obtain j where j: "j \<in> set (pc_jobs b)" "sr_id res = po_id j" "sr_attempt res = po_sendAttempts j"
      using sendResults_jobs [OF res] by blast
    fix x assume x: "x \<in> set (pushOutboxes d2)" "po_id x = sr_id res"
    have "po_sendAttempts x = po_sendAttempts j + 1"
      by (rule reclaimed_attempts [OF u, of j now lease limit now' lease' limit' x])
         (use j x assms(4) in \<open>auto simp: batch\<close>)
    with j(3) show "po_sendAttempts x \<noteq> sr_attempt res" by simp
  qed
  then show ?thesis
    by (simp add: applySendResults_def snd_transaction split: prod.split sum.split)
       (metis forEach_stays snd_conv)
qed


text \<open>The rows a registration of \<open>token\<close> on the device is about.\<close>

definition concerns :: "jsstring \<Rightarrow> jsstring \<Rightarrow> jsstring \<Rightarrow> pushToken \<Rightarrow> bool" where
  "concerns userId deviceId token t \<longleftrightarrow>
     tk_token t = token \<or> tk_userId t = userId \<and> tk_deviceId t = deviceId"

text \<open>After a registration the concerned rows are one row, the others are as before.\<close>

definition registered ::
  "jsstring \<Rightarrow> jsstring \<Rightarrow> jsstring \<Rightarrow> jsstring \<Rightarrow> pushToken table \<Rightarrow> pushToken table \<Rightarrow> bool" where
  "registered userId deviceId token platform old new \<longleftrightarrow>
     (case filter (concerns userId deviceId token) new of
        [r] \<Rightarrow> tk_userId r = userId \<and> tk_deviceId r = deviceId \<and> tk_token r = token \<and>
          tk_platform r = platform
      | _ \<Rightarrow> False) \<and>
     filter (\<lambda>t. \<not> concerns userId deviceId token t) new =
       filter (\<lambda>t. \<not> concerns userId deviceId token t) old"

lemma filter_updateWhere_other:
  "(\<And>r. r \<in> set t \<Longrightarrow> P r \<Longrightarrow> \<not> Q r \<and> \<not> Q (f r)) \<Longrightarrow> filter Q (updateWhere P f t) = filter Q t"
  by (induction t) (auto simp: updateWhere_def)

lemma filter_updateWhere_one:
  assumes "uniqueKey k t" and "v \<in> set t" and "Q (f v)"
    and "\<And>r. r \<in> set t \<Longrightarrow> k r \<noteq> k v \<Longrightarrow> \<not> Q r"
  shows "filter Q (updateWhere (\<lambda>r. k r = k v) f t) = [f v]"
  using assms
proof (induction t)
  case (Cons r t)
  show ?case
  proof (cases "k r = k v")
    case True
    then have "r = v"
      using uniqueKey_inj [OF Cons.prems(1)] Cons.prems(2) by auto
    moreover have rest: "k q \<noteq> k v" if "q \<in> set t" for q
      using Cons.prems(1) that True by (auto simp: uniqueKey_def image_iff)
    then have "updateWhere (\<lambda>r. k r = k v) f t = t"
      by (auto intro: updateWhere_none)
    moreover have "filter Q t = []"
      using Cons.prems(4) rest by (auto simp: filter_empty_conv)
    ultimately show ?thesis
      using Cons.prems(3) by (simp add: updateWhere_def)
  next
    case False
    with Cons show ?thesis
      by (auto simp: updateWhere_def uniqueKey_def)
  qed
qed simp

lemma registered_update:
  assumes "uniqueKey tk_id t" and "v \<in> set t" and "concerns userId deviceId token (f v)"
    and "\<And>r. r \<in> set t \<Longrightarrow> tk_id r \<noteq> tk_id v \<Longrightarrow> \<not> concerns userId deviceId token r"
    and "concerns userId deviceId token v"
    and "tk_userId (f v) = userId" "tk_deviceId (f v) = deviceId" "tk_token (f v) = token"
    "tk_platform (f v) = platform"
  shows "registered userId deviceId token platform t (updateWhere (\<lambda>r. tk_id r = tk_id v) f t)"
proof -
  have "r = v" if "r \<in> set t" "tk_id r = tk_id v" for r
    using uniqueKey_inj [OF assms(1) that(1) assms(2) that(2)] .
  then have "filter (\<lambda>t. \<not> concerns userId deviceId token t) (updateWhere (\<lambda>r. tk_id r = tk_id v) f t) =
      filter (\<lambda>t. \<not> concerns userId deviceId token t) t"
    by (intro filter_updateWhere_other) (use assms(3,5) in auto)
  then show ?thesis
    using filter_updateWhere_one [where Q = "concerns userId deviceId token" and f = f, OF assms(1-4)] assms(6-9) by (simp add: registered_def)
qed


lemma registered_trans:
  assumes "registered userId deviceId token platform t u"
    and "filter (\<lambda>t. \<not> concerns userId deviceId token t) t = filter (\<lambda>t. \<not> concerns userId deviceId token t) s"
  shows "registered userId deviceId token platform s u"
  using assms by (simp add: registered_def)

lemma requestedToken_dropped:
  fixes d :: db
  assumes keys: "pushTokenKeys d"
    and req: "req = findFirst (\<lambda>t. tk_token t = token) (filter (concerns userId deviceId token) (pushTokens d))"
    and d1_def: "d1 = (case req of None \<Rightarrow> d | Some q \<Rightarrow> dropPushToken now q d)"
  shows "\<And>q. req = Some q \<Longrightarrow> q \<in> set (pushTokens d) \<and> tk_token q = token"
    and "set (pushTokens d1) = {t \<in> set (pushTokens d). tk_token t \<noteq> token}"
    and "filter (\<lambda>t. \<not> concerns userId deviceId token t) (pushTokens d1) =
      filter (\<lambda>t. \<not> concerns userId deviceId token t) (pushTokens d)"
proof -
  let ?M = "concerns userId deviceId token"
  have u: "uniqueKey tk_id (pushTokens d)" "uniqueKey tk_token (pushTokens d)"
    using keys by (simp_all add: pushTokenKeys_def)
  show q: "q \<in> set (pushTokens d) \<and> tk_token q = token" if "req = Some q" for q
    using findFirst_SomeD [OF that [unfolded req]] by simp
  show "set (pushTokens d1) = {t \<in> set (pushTokens d). tk_token t \<noteq> token}"
  proof (cases req)
    case None
    then have "\<forall>t \<in> set (pushTokens d). tk_token t \<noteq> token"
      by (auto simp: req findFirst_None_iff concerns_def)
    with None show ?thesis
      by (auto simp: d1_def)
  next
    case (Some r)
    have "tk_id t = tk_id r \<longleftrightarrow> tk_token t = token" if "t \<in> set (pushTokens d)" for t
      using uniqueKey_inj [OF u(1) that] uniqueKey_inj [OF u(2) that] q [OF Some] by auto
    with Some show ?thesis
      by (auto simp: d1_def dropPushToken_def)
  qed
  show "filter (\<lambda>t. \<not> ?M t) (pushTokens d1) = filter (\<lambda>t. \<not> ?M t) (pushTokens d)"
  proof (cases req)
    case (Some r)
    have "tk_id t \<noteq> tk_id r" if "t \<in> set (pushTokens d)" "\<not> ?M t" for t
      using uniqueKey_inj [OF u(1) that(1)] q [OF Some] that(2) by (auto simp: concerns_def)
    with Some show ?thesis
      by (auto simp: d1_def dropPushToken_def deleteWhere_def intro: filter_cong)
  qed (simp add: d1_def)
qed

lemma repoRegisterPushToken_registers:
  assumes keys: "pushTokenKeys d" and canon: "canonicalUuid userId" "canonicalUuid deviceId"
    and user: "userExists userId d" and fresh: "\<not> keyTaken tk_id i (pushTokens d)"
    and same: "\<And>t. t \<in> set (pushTokens d) \<Longrightarrow> tk_token t = token \<Longrightarrow> tk_deviceId t = deviceId"
  shows "\<exists>d'. repoRegisterPushToken i now userId deviceId token platform d = (Inr (), d') \<and>
    registered userId deviceId token platform (pushTokens d) (pushTokens d')"
proof -
  let ?M = "concerns userId deviceId token"
  let ?existing = "filter ?M (pushTokens d)"
  define req where "req = findFirst (\<lambda>t. tk_token t = token) ?existing"
  define d1 where "d1 = (case req of None \<Rightarrow> d | Some q \<Rightarrow> dropPushToken now q d)"
  have u: "uniqueKey tk_id (pushTokens d)" "uniqueKey tk_token (pushTokens d)"
    "uniqueKey (\<lambda>t. (tk_userId t, tk_deviceId t)) (pushTokens d)"
    using keys by (simp_all add: pushTokenKeys_def)
  note q = requestedToken_dropped(1) [OF keys req_def d1_def]
    and d1 = requestedToken_dropped(2) [OF keys req_def d1_def]
    and others = requestedToken_dropped(3) [OF keys req_def d1_def]
  have conflict: "\<not> (case req of None \<Rightarrow> False | Some q \<Rightarrow> tk_deviceId q \<noteq> deviceId)"
    using q same by (cases req) auto
  have run: "andThen (case req of None \<Rightarrow> ret () | Some q \<Rightarrow> modify (dropPushToken now q)) f d =
      f () d1" for f :: "unit \<Rightarrow> unit dbprog"
    by (simp add: d1_def split: option.split)
  note eval = repoRegisterPushToken_def canon Let_def concerns_def [symmetric] req_def [symmetric]
    conflict run
  show ?thesis
  proof (cases "findFirst (\<lambda>t. tk_userId t = userId \<and> tk_deviceId t = deviceId) ?existing")
    case (Some v)
    have v: "v \<in> set (pushTokens d)" "tk_userId v = userId" "tk_deviceId v = deviceId"
      using findFirst_SomeD [OF Some] by simp_all
    have only: "r = v" if "r \<in> set (pushTokens d)" "tk_userId r = userId" "tk_deviceId r = deviceId" for r
      using uniqueKey_inj [OF u(3) that(1) v(1)] that v by simp
    show ?thesis
    proof (cases "tk_token v = token")
      case True
      have "registered userId deviceId token platform (pushTokens d)
          (pushTokens (refreshDeviceToken now v platform d))"
        unfolding refreshDeviceToken_def
      proof (simp, rule registered_update [OF u(1) v(1)])
        fix r assume r: "r \<in> set (pushTokens d)" "tk_id r \<noteq> tk_id v"
        then show "\<not> ?M r"
          using only [OF r(1)] uniqueKey_inj [OF u(2) r(1) v(1)] True by (auto simp: concerns_def)
      qed (simp_all add: concerns_def v True)
      with Some True show ?thesis
        by (simp add: eval)
    next
      case False
      have "uniqueKey tk_id (pushTokens d1)"
        using u(1) by (auto simp: d1_def dropPushToken_def uniqueKey_deleteWhere split: option.split)
      then have "registered userId deviceId token platform (pushTokens d1)
          (pushTokens (replaceDeviceToken now v token platform d1))"
        unfolding replaceDeviceToken_def Let_def
      proof (simp, rule registered_update)
        fix r assume "r \<in> set (pushTokens d1)" "tk_id r \<noteq> tk_id v"
        then show "\<not> ?M r"
          using only by (auto simp: concerns_def d1)
      qed (simp_all add: concerns_def v False d1)
      with Some False show ?thesis
        by (auto simp: eval intro: registered_trans [OF _ others])
    qed
  next
    case None
    let ?r = "\<lparr>tk_id = i, tk_userId = userId, tk_deviceId = deviceId, tk_token = token,
      tk_platform = platform, tk_updatedAt = now, tk_createdAt = now\<rparr>"
    have no: "\<not> ?M t" if "t \<in> set (pushTokens d1)" for t
      using None that by (auto simp: d1 findFirst_None_iff concerns_def)
    have "insertPushToken ?r d1 = (Inr (), d1\<lparr>pushTokens := insertRow ?r (pushTokens d1)\<rparr>)"
      using no fresh user d1
      by (auto simp: insertPushToken_def keyTaken_iff concerns_def d1_def userExists_def
          dropPushToken_def deletePushTokens_def cancelOpen_def Let_def split: option.split)
    moreover have "registered userId deviceId token platform (pushTokens d) (insertRow ?r (pushTokens d1))"
    proof -
      have "filter ?M (pushTokens d1) = []" "?M ?r"
        using no by (simp_all add: filter_empty_conv) (simp add: concerns_def)
      then show ?thesis
        using others by (simp add: registered_def insertRow_def)
    qed
    ultimately show ?thesis
      using None by (simp add: eval)
  qed
qed


text \<open>Registering a valid token on a device: whatever the device or another account on it had
  registered before, afterwards exactly one row holds the token or the device, with the token and the
  platform of the request, and every other row is untouched.\<close>

lemma registerPushToken_registers:
  assumes "notificationInv d" and "canonicalUuid userId" and "canonicalUuid deviceId"
    and "isExpoPushToken (trim token)"
    and "platform' = toLowerCase (trim platform)" and "platform' = js ''ios'' \<or> platform' = js ''android''"
    and "userExists userId d" and "\<not> keyTaken tk_id i (pushTokens d)"
    and "\<And>t. t \<in> set (pushTokens d) \<Longrightarrow> tk_token t = trim token \<Longrightarrow> tk_deviceId t = deviceId"
  shows "\<exists>d'. registerPushToken isExpoPushToken i now userId deviceId token platform d = (Inr True, d') \<and>
    registered userId deviceId (trim token) platform' (pushTokens d) (pushTokens d')"
proof -
  have "pushTokenKeys d"
    using assms(1) by (simp add: notificationInv_def)
  then obtain d' where
    "repoRegisterPushToken i now userId deviceId (trim token) platform' d = (Inr (), d')"
    "registered userId deviceId (trim token) platform' (pushTokens d) (pushTokens d')"
    using repoRegisterPushToken_registers [OF _ assms(2,3,7,8,9)] by blast
  moreover have "\<not> (platform' \<noteq> js ''ios'' \<and> platform' \<noteq> js ''android'')"
    using assms(6) by blast
  ultimately show ?thesis
    using assms(4,5) by (simp add: registerPushToken_def Let_def)
qed

text \<open>A device identifier that is not in lower case passes the request's validation but is not
  the text the database returns: once the device has a row, every further registration from it fails
  and changes nothing.\<close>

lemma registerPushToken_upper_case_fails:
  assumes "\<not> canonicalUuid deviceId"
    and "\<And>t. t \<in> set (pushTokens d) \<Longrightarrow> canonicalUuid (tk_deviceId t)"
    and "t0 \<in> set (pushTokens d)" and "tk_userId t0 = pgUuid userId" and "tk_deviceId t0 = pgUuid deviceId"
  shows "\<exists>e. registerPushToken isExpoPushToken i now userId deviceId token platform d = (Inl e, d)"
proof -
  let ?existing = "filter (\<lambda>t. tk_token t = trim token \<or>
      tk_userId t = pgUuid userId \<and> tk_deviceId t = pgUuid deviceId) (pushTokens d)"
  have no: "tk_deviceId t \<noteq> deviceId" if "t \<in> set (pushTokens d)" for t
    using assms(1) assms(2) [OF that] by auto
  then have "findFirst (\<lambda>t. tk_userId t = userId \<and> tk_deviceId t = deviceId) ?existing = None"
    by (auto simp: findFirst_None_iff)
  moreover have "tk_deviceId q \<noteq> deviceId" if "findFirst (\<lambda>t. tk_token t = trim token) ?existing = Some q" for q
    using findFirst_SomeD [OF that] no by simp
  moreover have "keyTaken (\<lambda>r. (tk_userId r, tk_deviceId r)) (pgUuid userId, pgUuid deviceId) (pushTokens d)"
    unfolding keyTaken_iff assms(4,5) [symmetric] by (rule imageI [OF assms(3)])
  then have "insertPushToken \<lparr>tk_id = i, tk_userId = pgUuid userId, tk_deviceId = pgUuid deviceId,
      tk_token = k, tk_platform = p, tk_updatedAt = now, tk_createdAt = now\<rparr> d = (Inl (PgError UniqueViolation), d)" for k p
    by (simp add: insertPushToken_def)
  ultimately have "\<exists>e. repoRegisterPushToken i now userId deviceId (trim token) p d = (Inl e, d)" for p
    by (cases "findFirst (\<lambda>t. tk_token t = trim token) ?existing")
       (simp_all add: repoRegisterPushToken_def Let_def)
  then obtain e where
    "repoRegisterPushToken i now userId deviceId (trim token) (toLowerCase (trim platform)) d = (Inl e, d)"
    by blast
  then show ?thesis
    by (simp add: registerPushToken_def Let_def)
qed


section \<open>Witnesses\<close>

lemmas notification_simps [eval_simps] = registerPushToken_def repoRegisterPushToken_def
  insertPushToken_def notify_def createWithPushOutbox_def newNotification_def newOutbox_def
  unregisterPushToken_def repoUnregisterPushToken_def cancelOpen_def cancelRow_def
  claimSendBatch_def claimRows_def claimSend_def sendDue_def sendKey_def pushOpen_def
  OPEN_PUSH_STATUSES_def noNotifications_def

definition samplePush :: "notificationStep list" where
  "samplePush =
     [RegisterToken (\<lambda>_. True) (js ''t1'') 1 (js ''a1'') (js ''d1'') (js ''tok'') (js '' iOS ''),
      Notify (\<lambda>k. [k]) 2 True \<lparr>ni_userId = js ''a1'', ni_type = LikeN, ni_title = [], ni_body = [],
        ni_route = None, ni_sourceId = None\<rparr>]"

definition samplePushed :: db where
  "samplePushed = foldl stepNotification sampleDb samplePush"

definition sampleCancel :: "notificationStep list" where
  "sampleCancel = samplePush @ [UnregisterToken 4 (js ''a1'') (js ''d1'')]"

lemma sampleDb_noNotifications: "noNotifications sampleDb"
  by (simp add: eval_simps)

lemma samplePushed_job:
  "pushOutboxes samplePushed \<noteq> [] \<and> pushOpen (hd (pushOutboxes samplePushed))"
  by (simp add: samplePushed_def samplePush_def eval_simps cong: run_congs)

lemma sampleCancel_job:
  "pushOutboxes (foldl stepNotification sampleDb sampleCancel) \<noteq> [] \<and>
   \<not> pushOpen (hd (pushOutboxes (foldl stepNotification sampleDb sampleCancel)))"
  by (simp add: sampleCancel_def samplePush_def eval_simps cong: run_congs)

theorem push_job_for_recipient_witness:
  "\<exists>x \<in> set (pushOutboxes samplePushed). pushOpen x \<and> deliversToRecipient samplePushed x"
  using push_job_for_recipient [OF sampleDb_noNotifications, of _ samplePush] samplePushed_job hd_in_set
  unfolding samplePushed_def by blast

theorem push_job_never_lost_witness:
  "\<exists>x \<in> set (pushOutboxes samplePushed). \<exists>t0. \<forall>now \<ge> t0. sendDue now x \<or> receiptDue now x"
  using push_job_never_lost [OF sampleDb_noNotifications, of _ samplePush] samplePushed_job hd_in_set
  unfolding samplePushed_def by blast

theorem push_outcome_final_witness:
  "\<exists>x \<in> set (pushOutboxes (foldl stepNotification sampleDb sampleCancel)). \<not> pushOpen x \<and>
     (\<exists>y \<in> set (pushOutboxes (foldl stepNotification sampleDb (sampleCancel @ samplePush))).
        po_id y = po_id x \<and> po_status y = po_status x \<and> po_completedAt y = po_completedAt x)"
  using push_outcome_final [OF sampleDb_noNotifications, of _ sampleCancel samplePush]
    sampleCancel_job hd_in_set by blast

lemma samplePushed_inv: "notificationInv samplePushed"
  unfolding samplePushed_def by (rule run_notificationInv [OF sampleDb_noNotifications])


lemma push_claims_disjoint_witness:
  "\<exists>b d1 b' d2. claimSendBatch 3 60003 10 samplePushed = (Inr b, d1) \<and>
     claimSendBatch 4 60004 10 d1 = (Inr b', d2) \<and> pc_jobs b \<noteq> [] \<and>
     set (map po_id (pc_jobs b)) \<inter> set (map po_id (pc_jobs b')) = {}"
proof -
  obtain b d1 b' d2 where *: "claimSendBatch 3 60003 10 samplePushed = (Inr b, d1)"
    "claimSendBatch 4 60004 10 d1 = (Inr b', d2)" and "pc_jobs b \<noteq> []"
    by (simp add: samplePushed_def samplePush_def eval_simps cong: run_congs)
  with push_claims_disjoint [OF samplePushed_inv *] show ?thesis
    by auto
qed

lemma stale_report_ignored_witness:
  "\<exists>b d1 b' d2. claimSendBatch 3 60003 10 samplePushed = (Inr b, d1) \<and>
     claimSendBatch 60003 120003 10 d1 = (Inr b', d2) \<and> pc_jobs b \<noteq> [] \<and>
     snd (applySendResults 60004 (sendResults (\<lambda>_. Inl None) 60004 (pc_jobs b)) d2) = d2"
proof -
  obtain b d1 b' d2 where *: "claimSendBatch 3 60003 10 samplePushed = (Inr b, d1)"
    "claimSendBatch 60003 120003 10 d1 = (Inr b', d2)"
    "set (map po_id (pc_jobs b)) \<subseteq> set (map po_id (pc_jobs b'))" and "pc_jobs b \<noteq> []"
    by (simp add: samplePushed_def samplePush_def eval_simps cong: run_congs)
  with stale_report_ignored [OF samplePushed_inv *] show ?thesis
    by auto
qed

lemma registerPushToken_registers_witness:
  "\<exists>d'. registerPushToken (\<lambda>_. True) (js ''t2'') 5 (js ''b2'') (js ''d1'') (js ''tok '') (js ''Android'')
      samplePushed = (Inr True, d') \<and>
    registered (js ''b2'') (js ''d1'') (js ''tok'') (js ''android'') (pushTokens samplePushed) (pushTokens d')"
proof -
  have "trim (js ''tok '') = js ''tok''" "js ''android'' = toLowerCase (trim (js ''Android''))"
    "canonicalUuid (js ''b2'')" "canonicalUuid (js ''d1'')"
    by (simp_all add: canonicalUuid_def eval_simps)
  moreover have "userExists (js ''b2'') samplePushed"
    "\<not> keyTaken tk_id (js ''t2'') (pushTokens samplePushed)"
    "list_all (\<lambda>t. tk_deviceId t = js ''d1'') (pushTokens samplePushed)"
    by (simp_all add: samplePushed_def samplePush_def eval_simps cong: run_congs)
  ultimately show ?thesis
    using registerPushToken_registers [of samplePushed "js ''b2''" "js ''d1''" "\<lambda>_. True" "js ''tok ''"
        "js ''android''" "js ''Android''" "js ''t2''" 5] samplePushed_inv
    by (simp add: list_all_iff)
qed

lemma registerPushToken_upper_case_fails_witness:
  "\<exists>e. registerPushToken (\<lambda>_. True) (js ''t2'') 5 (js ''a1'') (js ''D1'') (js ''tok'') (js ''ios'')
    samplePushed = (Inl e, samplePushed)"
proof -
  let ?t = "hd (pushTokens samplePushed)"
  have "\<not> canonicalUuid (js ''D1'')"
    by (simp add: canonicalUuid_def eval_simps)
  moreover have "pushTokens samplePushed \<noteq> [] \<and> tk_userId ?t = pgUuid (js ''a1'') \<and>
      tk_deviceId ?t = pgUuid (js ''D1'') \<and>
      list_all (\<lambda>t. canonicalUuid (tk_deviceId t)) (pushTokens samplePushed)"
    by (simp add: samplePushed_def samplePush_def canonicalUuid_def eval_simps cong: run_congs)
  ultimately show ?thesis
    using registerPushToken_upper_case_fails [of "js ''D1''" samplePushed ?t "js ''a1''"]
    by (simp add: list_all_iff)
qed

end
