(* ===== verification/Billing.thy ===== *)
theory Billing
  imports Notification
begin

text \<open>
  The billing component (\<^verbatim>\<open>src/modules/billing\<close>): the RevenueCat webhook with its signature, the
  validation of the payload, and the repository that records each event once, keeps the newest
  subscription state and moves consumable credits. The HMAC and the SHA-256 digest are parameters,
  the configuration is a lookup. A JSON payload is a datatype; the generated identifiers are an
  argument \<open>ids\<close>.
\<close>

section \<open>Data\<close>

record consumableUnits =
  un_superLikeCredits :: int
  un_boostCredits :: int

record revenueCatSubscription =
  sb_planId :: jsstring
  sb_providerCustomerId :: "jsstring option"
  sb_providerProductId :: jsstring
  sb_eventTimestampMs :: int
  sb_startsAt :: "timestamp option"
  sb_endsAt :: "timestamp option"
  sb_status :: subscriptionStatus

record revenueCatConsumableTransition =
  ct_providerTransactionId :: jsstring
  ct_originalTransactionId :: jsstring
  ct_userId :: jsstring
  ct_canonicalProductId :: jsstring
  ct_providerProductId :: jsstring
  ct_eventTimestampMs :: int
  ct_targetState :: transactionState
  ct_units :: consumableUnits

record revenueCatRecordedEvent =
  ev_providerEventId :: jsstring
  ev_payloadHash :: jsstring

datatype revenueCatEventInput =
    RecordedEvent revenueCatRecordedEvent
  | SubscriptionEvent revenueCatRecordedEvent jsstring revenueCatSubscription
  | ConsumableEvent revenueCatRecordedEvent revenueCatConsumableTransition

datatype applyOutcome = Applied | Duplicate | Stale

record revenueCatApplyResult =
  ar_outcome :: applyOutcome
  ar_effectiveState :: "transactionState option"
  ar_balanceDelta :: consumableUnits

definition ZERO_DELTA :: consumableUnits where
  "ZERO_DELTA = \<lparr>un_superLikeCredits = 0, un_boostCredits = 0\<rparr>"

definition recordedEvent :: "revenueCatEventInput \<Rightarrow> revenueCatRecordedEvent" where
  "recordedEvent input =
     (case input of RecordedEvent e \<Rightarrow> e | SubscriptionEvent e _ _ \<Rightarrow> e | ConsumableEvent e _ \<Rightarrow> e)"

section \<open>Repository\<close>

definition assertTransactionIdentity ::
  "revenueCatTransaction \<Rightarrow> revenueCatConsumableTransition \<Rightarrow> unit dbprog" where
  "assertTransactionIdentity current tr =
     andThen (throwIf (rc_userId current \<noteq> ct_userId tr)
       (ErrorCode ''REVENUECAT_TRANSACTION_OWNER_CONFLICT'')) (\<lambda>_.
     andThen (throwIf (rc_originalTransactionId current \<noteq> ct_originalTransactionId tr \<or>
         rc_canonicalProductId current \<noteq> ct_canonicalProductId tr \<or>
         rc_providerProductId current \<noteq> ct_providerProductId tr)
       (ErrorCode ''REVENUECAT_TRANSACTION_PRODUCT_CONFLICT'')) (\<lambda>_.
     throwIf (rc_superLikeUnits current \<noteq> un_superLikeCredits (ct_units tr) \<or>
         rc_boostUnits current \<noteq> un_boostCredits (ct_units tr))
       (ErrorCode ''REVENUECAT_TRANSACTION_UNITS_CONFLICT'')))"

definition transitionDelta ::
  "transactionState option \<Rightarrow> transactionState \<Rightarrow> consumableUnits \<Rightarrow> consumableUnits" where
  "transitionDelta currentState targetState units =
     (if currentState = Some targetState then ZERO_DELTA
      else if targetState = Granted then units
      else if currentState = Some Granted
      then \<lparr>un_superLikeCredits = (if un_superLikeCredits units = 0 then 0 else - un_superLikeCredits units),
            un_boostCredits = (if un_boostCredits units = 0 then 0 else - un_boostCredits units)\<rparr>
      else ZERO_DELTA)"

text \<open>The upsert of the balance adds the delta to the row of the user, or makes it the row. The user
  exists, because the transaction refers to it.\<close>

definition addCredits :: "timestamp \<Rightarrow> uuid \<Rightarrow> consumableUnits \<Rightarrow> db \<Rightarrow> db" where
  "addCredits now userId delta d = d\<lparr>userConsumableBalances :=
     (if keyTaken cb_userId userId (userConsumableBalances d)
      then updateWhere (\<lambda>b. cb_userId b = userId)
        (\<lambda>b. b\<lparr>cb_superLikeCredits := cb_superLikeCredits b + un_superLikeCredits delta,
               cb_boostCredits := cb_boostCredits b + un_boostCredits delta,
               cb_updatedAt := now\<rparr>) (userConsumableBalances d)
      else insertRow \<lparr>cb_userId = userId, cb_superLikeCredits = un_superLikeCredits delta,
             cb_boostCredits = un_boostCredits delta, cb_updatedAt = now\<rparr> (userConsumableBalances d))\<rparr>"

text \<open>No row is written when the delta is zero.\<close>

definition applyDelta :: "timestamp \<Rightarrow> uuid \<Rightarrow> consumableUnits \<Rightarrow> db \<Rightarrow> db" where
  "applyDelta now userId delta d =
     (if un_superLikeCredits delta \<noteq> 0 \<or> un_boostCredits delta \<noteq> 0
      then addCredits now userId delta d else d)"

definition settleRow ::
  "timestamp \<Rightarrow> revenueCatConsumableTransition \<Rightarrow> revenueCatTransaction \<Rightarrow> revenueCatTransaction" where
  "settleRow now tr r = r\<lparr>rc_state := ct_targetState tr,
     rc_stateEventTimestampMs := ct_eventTimestampMs tr, rc_updatedAt := now\<rparr>"

definition newTransaction ::
  "uuid \<Rightarrow> timestamp \<Rightarrow> revenueCatConsumableTransition \<Rightarrow> revenueCatTransaction" where
  "newTransaction i now tr =
     \<lparr>rc_id = i, rc_provider = js ''revenuecat'',
      rc_providerTransactionId = ct_providerTransactionId tr,
      rc_originalTransactionId = ct_originalTransactionId tr, rc_userId = pgUuid (ct_userId tr),
      rc_canonicalProductId = ct_canonicalProductId tr,
      rc_providerProductId = ct_providerProductId tr,
      rc_superLikeUnits = un_superLikeCredits (ct_units tr),
      rc_boostUnits = un_boostCredits (ct_units tr), rc_state = ct_targetState tr,
      rc_stateEventTimestampMs = ct_eventTimestampMs tr, rc_createdAt = now, rc_updatedAt = now\<rparr>"

text \<open>The insert checks the primary key, the unique provider transaction, the user and the units.\<close>

definition insertTransaction :: "revenueCatTransaction \<Rightarrow> unit dbprog" where
  "insertTransaction t =
     andThen (query revenueCatTransactions) (\<lambda>rows.
     andThen (throwIf (keyTaken rc_id (rc_id t) rows \<or>
         keyTaken (\<lambda>r. (rc_provider r, rc_providerTransactionId r))
           (rc_provider t, rc_providerTransactionId t) rows) (PgError UniqueViolation)) (\<lambda>_.
     andThen (query (userExists (rc_userId t))) (\<lambda>exists.
     andThen (throwIf (\<not> exists) (PgError ForeignKeyViolation)) (\<lambda>_.
     andThen (throwIf (rc_superLikeUnits t < 0 \<or> rc_boostUnits t < 0 \<or>
         rc_superLikeUnits t = 0 \<and> rc_boostUnits t = 0) (PgError CheckViolation)) (\<lambda>_.
     modify (\<lambda>d. d\<lparr>revenueCatTransactions := insertRow t (revenueCatTransactions d)\<rparr>))))))"

definition insertLedgerEntry :: "revenueCatTransactionLedgerEntry \<Rightarrow> unit dbprog" where
  "insertLedgerEntry r =
     andThen (query revenueCatTransactionLedger) (\<lambda>rows.
     andThen (throwIf (keyTaken rl_id (rl_id r) rows \<or>
         keyTaken rl_providerEventId (rl_providerEventId r) rows) (PgError UniqueViolation)) (\<lambda>_.
     modify (\<lambda>d. d\<lparr>revenueCatTransactionLedger := insertRow r (revenueCatTransactionLedger d)\<rparr>)))"

definition findTransaction :: "jsstring \<Rightarrow> db \<Rightarrow> revenueCatTransaction option" where
  "findTransaction providerTransactionId d =
     findFirst (\<lambda>r. rc_provider r = js ''revenuecat'' \<and>
       rc_providerTransactionId r = providerTransactionId) (revenueCatTransactions d)"

definition applyConsumableTransition ::
  "(nat \<Rightarrow> uuid) \<Rightarrow> timestamp \<Rightarrow> jsstring \<Rightarrow> revenueCatConsumableTransition \<Rightarrow>
   revenueCatApplyResult dbprog" where
  "applyConsumableTransition ids now providerEventId tr =
     andThen (query (findTransaction (ct_providerTransactionId tr))) (\<lambda>current.
     andThen (case current of None \<Rightarrow> ret () | Some c \<Rightarrow> assertTransactionIdentity c tr) (\<lambda>_.
     andThen (throwIf (case current of None \<Rightarrow> False
         | Some c \<Rightarrow> rc_stateEventTimestampMs c = ct_eventTimestampMs tr \<and>
             rc_state c \<noteq> ct_targetState tr)
       (ErrorCode ''REVENUECAT_EVENT_TIMESTAMP_CONFLICT'')) (\<lambda>_.
     let stale = (case current of None \<Rightarrow> False
           | Some c \<Rightarrow> ct_eventTimestampMs tr \<le> rc_stateEventTimestampMs c);
         effectiveState = (if stale then rc_state (the current) else ct_targetState tr);
         balanceDelta = (if stale then ZERO_DELTA
           else transitionDelta (map_option rc_state current) (ct_targetState tr) (ct_units tr));
         transactionId = (case current of None \<Rightarrow> ids 1 | Some c \<Rightarrow> rc_id c)
     in
     andThen (case current of
         None \<Rightarrow> insertTransaction (newTransaction (ids 1) now tr)
       | Some c \<Rightarrow>
           if stale then ret ()
           else modify (\<lambda>d. d\<lparr>revenueCatTransactions := updateWhere (\<lambda>r. rc_id r = rc_id c)
             (settleRow now tr) (revenueCatTransactions d)\<rparr>)) (\<lambda>_.
     andThen (modify (applyDelta now (pgUuid (ct_userId tr)) balanceDelta)) (\<lambda>_.
     andThen (insertLedgerEntry \<lparr>rl_id = ids 2, rl_providerEventId = providerEventId,
         rl_revenuecatTransactionId = transactionId, rl_eventTimestampMs = ct_eventTimestampMs tr,
         rl_requestedState = ct_targetState tr, rl_effectiveState = effectiveState,
         rl_superLikeDelta = un_superLikeCredits balanceDelta,
         rl_boostDelta = un_boostCredits balanceDelta, rl_applied = (\<not> stale), rl_createdAt = now\<rparr>)
       (\<lambda>_.
     ret \<lparr>ar_outcome = (if stale then Stale else Applied), ar_effectiveState = Some effectiveState,
          ar_balanceDelta = balanceDelta\<rparr>))))))"

definition findSubscription :: "jsstring \<Rightarrow> db \<Rightarrow> userSubscription option" where
  "findSubscription userId d =
     findFirst (\<lambda>s. us_userId s = pgUuid userId \<and> us_provider s = Some (js ''revenuecat''))
       (userSubscriptions d)"

definition newSubscription ::
  "uuid \<Rightarrow> timestamp \<Rightarrow> jsstring \<Rightarrow> revenueCatSubscription \<Rightarrow> userSubscription" where
  "newSubscription i now userId sub =
     \<lparr>us_id = i, us_userId = pgUuid userId, us_planId = sb_planId sub, us_status = sb_status sub,
      us_provider = Some (js ''revenuecat''), us_providerCustomerId = sb_providerCustomerId sub,
      us_providerProductId = Some (sb_providerProductId sub),
      us_providerEventTimestampMs = Some (sb_eventTimestampMs sub),
      us_currentPeriodStartsAt = sb_startsAt sub, us_currentPeriodEndsAt = sb_endsAt sub,
      us_createdAt = now, us_updatedAt = now\<rparr>"

definition setSubscription ::
  "timestamp \<Rightarrow> jsstring \<Rightarrow> revenueCatSubscription \<Rightarrow> userSubscription \<Rightarrow> userSubscription" where
  "setSubscription now userId sub s =
     s\<lparr>us_userId := pgUuid userId, us_planId := sb_planId sub, us_status := sb_status sub,
       us_provider := Some (js ''revenuecat''),
       us_providerCustomerId := orKeep (sb_providerCustomerId sub) (us_providerCustomerId s),
       us_providerProductId := Some (sb_providerProductId sub),
       us_providerEventTimestampMs := Some (sb_eventTimestampMs sub),
       us_currentPeriodStartsAt := orKeep (sb_startsAt sub) (us_currentPeriodStartsAt s),
       us_currentPeriodEndsAt := orKeep (sb_endsAt sub) (us_currentPeriodEndsAt s),
       us_updatedAt := now\<rparr>"

definition applySubscription ::
  "(nat \<Rightarrow> uuid) \<Rightarrow> timestamp \<Rightarrow> jsstring \<Rightarrow> revenueCatSubscription \<Rightarrow> revenueCatApplyResult dbprog" where
  "applySubscription ids now userId sub =
     andThen (query (findSubscription userId)) (\<lambda>current.
     let lastEvent = (case current of None \<Rightarrow> -1
           | Some c \<Rightarrow> (case us_providerEventTimestampMs c of None \<Rightarrow> -1 | Some t \<Rightarrow> t))
     in
     if sb_eventTimestampMs sub \<le> lastEvent
     then ret \<lparr>ar_outcome = Stale, ar_effectiveState = None, ar_balanceDelta = ZERO_DELTA\<rparr>
     else
       andThen (case current of
           Some c \<Rightarrow> modify (\<lambda>d. d\<lparr>userSubscriptions := updateWhere (\<lambda>s. us_id s = us_id c)
             (setSubscription now userId sub) (userSubscriptions d)\<rparr>)
         | None \<Rightarrow>
             andThen (query (\<lambda>d. keyTaken us_id (ids 1) (userSubscriptions d))) (\<lambda>dup.
             andThen (throwIf dup (PgError UniqueViolation)) (\<lambda>_.
             andThen (query (userExists (pgUuid userId))) (\<lambda>exists.
             andThen (throwIf (\<not> exists) (PgError ForeignKeyViolation)) (\<lambda>_.
             modify (\<lambda>d. d\<lparr>userSubscriptions :=
               insertRow (newSubscription (ids 1) now userId sub) (userSubscriptions d)\<rparr>)))))) (\<lambda>_.
       ret \<lparr>ar_outcome = Applied, ar_effectiveState = None, ar_balanceDelta = ZERO_DELTA\<rparr>))"

definition recordEvent :: "uuid \<Rightarrow> timestamp \<Rightarrow> revenueCatRecordedEvent \<Rightarrow> db \<Rightarrow> db" where
  "recordEvent i now e d = d\<lparr>billingEvents := insertRow
     \<lparr>be_id = i, be_providerEventId = ev_providerEventId e, be_provider = js ''revenuecat'',
      be_payloadHash = ev_payloadHash e, be_receivedAt = now\<rparr> (billingEvents d)\<rparr>"

text \<open>Every event is recorded once; a conflict on any unique column inserts nothing.\<close>

definition applyRevenueCatEvent ::
  "(nat \<Rightarrow> uuid) \<Rightarrow> timestamp \<Rightarrow> revenueCatEventInput \<Rightarrow> revenueCatApplyResult dbprog" where
  "applyRevenueCatEvent ids now input = transaction (
     let e = recordedEvent input in
     andThen (query (\<lambda>d. keyTaken be_id (ids 0) (billingEvents d) \<or>
         keyTaken be_providerEventId (ev_providerEventId e) (billingEvents d))) (\<lambda>conflict.
     if conflict then
       andThen (query (\<lambda>d. findFirst (\<lambda>b. be_providerEventId b = ev_providerEventId e)
           (billingEvents d))) (\<lambda>existing.
       andThen (throwIf (case existing of None \<Rightarrow> True
           | Some b \<Rightarrow> be_provider b \<noteq> js ''revenuecat'' \<or> be_payloadHash b \<noteq> ev_payloadHash e)
         (ErrorCode ''REVENUECAT_EVENT_PAYLOAD_CONFLICT'')) (\<lambda>_.
       ret \<lparr>ar_outcome = Duplicate, ar_effectiveState = None, ar_balanceDelta = ZERO_DELTA\<rparr>))
     else
       andThen (modify (recordEvent (ids 0) now e)) (\<lambda>_.
       case input of
         SubscriptionEvent _ userId sub \<Rightarrow> applySubscription ids now userId sub
       | ConsumableEvent _ tr \<Rightarrow> applyConsumableTransition ids now (ev_providerEventId e) tr
       | RecordedEvent _ \<Rightarrow>
           ret \<lparr>ar_outcome = Applied, ar_effectiveState = None, ar_balanceDelta = ZERO_DELTA\<rparr>)))"

definition findBalance :: "jsstring \<Rightarrow> db \<Rightarrow> userConsumableBalance option" where
  "findBalance userId d = findFirst (\<lambda>b. cb_userId b = pgUuid userId) (userConsumableBalances d)"

definition repoBalance ::
  "timestamp \<Rightarrow> jsstring \<Rightarrow> db \<Rightarrow> userConsumableBalance option \<times> timestamp option" where
  "repoBalance now userId d =
     (findBalance userId d,
      map_option bo_endsAt (firstBy (\<lambda>b. - bo_endsAt b)
        (\<lambda>b. bo_userId b = pgUuid userId \<and> now < bo_endsAt b) (userBoosts d)))"

section \<open>Products\<close>

datatype productKind = SubscriptionProduct jsstring | BoostProduct | SuperLikeProduct

record billingProduct =
  bp_id :: jsstring
  bp_kind :: productKind
  bp_name :: jsstring

definition BILLING_PRODUCTS :: "billingProduct list" where
  "BILLING_PRODUCTS =
     [\<lparr>bp_id = js ''chattea_basic_monthly'', bp_kind = SubscriptionProduct (js ''basic''), bp_name = js ''Basic''\<rparr>,
      \<lparr>bp_id = js ''chattea_gold_monthly'', bp_kind = SubscriptionProduct (js ''gold''), bp_name = js ''Gold''\<rparr>,
      \<lparr>bp_id = js ''chattea_black_monthly'', bp_kind = SubscriptionProduct (js ''black''), bp_name = js ''Black''\<rparr>,
      \<lparr>bp_id = js ''chattea_boost_30m'', bp_kind = BoostProduct,
        bp_name = [51, 48, 48516, 32, 48512, 49828, 53944]\<rparr>,
      \<lparr>bp_id = js ''chattea_superlikes_5'', bp_kind = SuperLikeProduct,
        bp_name = [49800, 54140, 46972, 51060, 53356, 32, 53, 44060]\<rparr>]"

definition REVENUECAT_MUTATION_EVENT_TYPES :: "jsstring list" where
  "REVENUECAT_MUTATION_EVENT_TYPES =
     [js ''INITIAL_PURCHASE'', js ''RENEWAL'', js ''UNCANCELLATION'', js ''NON_RENEWING_PURCHASE'',
      js ''SUBSCRIPTION_EXTENDED'', js ''REFUND_REVERSED'', js ''EXPIRATION'', js ''CANCELLATION'']"

definition REVENUECAT_NOOP_EVENT_TYPES :: "jsstring list" where
  "REVENUECAT_NOOP_EVENT_TYPES =
     [js ''BILLING_ISSUE'', js ''SUBSCRIPTION_PAUSED'', js ''PRODUCT_CHANGE'', js ''INVOICE_ISSUANCE'',
      js ''EXPERIMENT_ENROLLMENT'', js ''TEST'']"

definition REVENUECAT_UNIMPLEMENTED_EVENT_TYPES :: "jsstring list" where
  "REVENUECAT_UNIMPLEMENTED_EVENT_TYPES =
     [js ''TRANSFER'', js ''TEMPORARY_ENTITLEMENT_GRANT'', js ''VIRTUAL_CURRENCY_TRANSACTION'']"

section \<open>The payload\<close>

text \<open>A parsed JSON value. A number is an integer or not; the fields of an object have distinct
  names.\<close>

datatype json =
    JNull
  | JBool bool
  | JInt int
  | JFraction
  | JString jsstring
  | JArray "json list"
  | JObject "(jsstring \<times> json) list"

record revenueCatEvent =
  re_id :: "jsstring option"
  re_type :: "jsstring option"
  re_event_timestamp_ms :: "int option"
  re_environment :: "jsstring option"
  re_app_id :: "jsstring option"
  re_app_user_id :: "jsstring option"
  re_product_id :: "jsstring option"
  re_original_transaction_id :: "jsstring option"
  re_transaction_id :: "jsstring option"
  re_cancel_reason :: "jsstring option"
  re_expiration_at_ms :: "int option"
  re_purchased_at_ms :: "int option"

definition optionalString :: "json option \<Rightarrow> jsstring option dbprog" where
  "optionalString v =
     (case v of
        None \<Rightarrow> ret None
      | Some JNull \<Rightarrow> ret None
      | Some (JString s) \<Rightarrow> ret (Some s)
      | Some _ \<Rightarrow> throw (BadRequest ''REVENUECAT_EVENT_INVALID''))"

definition MAX_SAFE_INTEGER :: int where
  "MAX_SAFE_INTEGER = 2 ^ 53 - 1"

definition optionalTimestamp :: "json option \<Rightarrow> int option dbprog" where
  "optionalTimestamp v =
     (case v of
        None \<Rightarrow> ret None
      | Some JNull \<Rightarrow> ret None
      | Some (JInt n) \<Rightarrow>
          if MAX_SAFE_INTEGER < \<bar>n\<bar> \<or> n < 0 \<or> 8640000000000000 < n
          then throw (BadRequest ''REVENUECAT_EVENT_INVALID'') else ret (Some n)
      | Some _ \<Rightarrow> throw (BadRequest ''REVENUECAT_EVENT_INVALID''))"

definition getRevenueCatEvent :: "json \<Rightarrow> revenueCatEvent dbprog" where
  "getRevenueCatEvent payload =
     (case payload of
        JObject entries \<Rightarrow>
          (case (case map_of entries (js ''event'') of Some v \<Rightarrow> v | None \<Rightarrow> payload) of
             JObject event \<Rightarrow>
               let field = (\<lambda>k. map_of event (js k)) in
               andThen (optionalString (field ''id'')) (\<lambda>i.
               andThen (optionalString (field ''type'')) (\<lambda>type.
               andThen (optionalTimestamp (field ''event_timestamp_ms'')) (\<lambda>ts.
               andThen (optionalString (field ''environment'')) (\<lambda>env.
               andThen (optionalString (field ''app_id'')) (\<lambda>appId.
               andThen (optionalString (field ''app_user_id'')) (\<lambda>user.
               andThen (optionalString (field ''product_id'')) (\<lambda>product.
               andThen (optionalString (field ''original_transaction_id'')) (\<lambda>original.
               andThen (optionalString (field ''transaction_id'')) (\<lambda>transactionId.
               andThen (optionalString (field ''cancel_reason'')) (\<lambda>reason.
               andThen (optionalTimestamp (field ''expiration_at_ms'')) (\<lambda>expiration.
               andThen (optionalTimestamp (field ''purchased_at_ms'')) (\<lambda>purchased.
               ret \<lparr>re_id = i, re_type = type, re_event_timestamp_ms = ts, re_environment = env,
                 re_app_id = appId, re_app_user_id = user, re_product_id = product,
                 re_original_transaction_id = original, re_transaction_id = transactionId,
                 re_cancel_reason = reason, re_expiration_at_ms = expiration,
                 re_purchased_at_ms = purchased\<rparr>))))))))))))
           | _ \<Rightarrow> throw (BadRequest ''REVENUECAT_EVENT_INVALID''))
      | _ \<Rightarrow> throw (BadRequest ''REVENUECAT_PAYLOAD_INVALID''))"

definition requiredString :: "jsstring option \<Rightarrow> string \<Rightarrow> jsstring dbprog" where
  "requiredString v error =
     (case v of None \<Rightarrow> throw (BadRequest error)
      | Some s \<Rightarrow> if trim s = [] then throw (BadRequest error) else ret (trim s))"

definition requiredUuid :: "jsstring option \<Rightarrow> string \<Rightarrow> jsstring dbprog" where
  "requiredUuid v error =
     andThen (requiredString v error) (\<lambda>normalized.
     andThen (throwIf (\<not> uuidRegex normalized) (BadRequest error)) (\<lambda>_.
     ret normalized))"

definition requiredTimestamp :: "int option \<Rightarrow> string \<Rightarrow> int dbprog" where
  "requiredTimestamp v error = (case v of None \<Rightarrow> throw (BadRequest error) | Some n \<Rightarrow> ret n)"

definition revenueCatConsumableTargetState ::
  "jsstring \<Rightarrow> jsstring option \<Rightarrow> transactionState option" where
  "revenueCatConsumableTargetState eventType cancelReason =
     (if List.member [js ''INITIAL_PURCHASE'', js ''NON_RENEWING_PURCHASE'', js ''REFUND_REVERSED''] eventType
      then Some Granted
      else if eventType = js ''CANCELLATION'' \<and>
        map_option (\<lambda>s. toUpperCase (trim s)) cancelReason = Some (js ''CUSTOMER_SUPPORT'')
      then Some Refunded else None)"

definition revenueCatSubscriptionStatus :: "jsstring \<Rightarrow> subscriptionStatus option" where
  "revenueCatSubscriptionStatus eventType =
     (if eventType = js ''EXPIRATION'' then Some Expired
      else if List.member [js ''INITIAL_PURCHASE'', js ''RENEWAL'', js ''UNCANCELLATION'',
        js ''NON_RENEWING_PURCHASE'', js ''SUBSCRIPTION_EXTENDED'', js ''REFUND_REVERSED''] eventType
      then Some Active else None)"

section \<open>The signature\<close>

definition REVENUECAT_SIGNATURE_TOLERANCE_SECONDS :: int where
  "REVENUECAT_SIGNATURE_TOLERANCE_SECONDS = 300"

text \<open>\<^verbatim>\<open>signature.match(/^t=(\d+),v1=([0-9a-f]{64})$/i)\<close>: the two groups.\<close>

definition matchSignature :: "jsstring \<Rightarrow> (jsstring \<times> jsstring) option" where
  "matchSignature s =
     (case s of
        t # e # rest \<Rightarrow>
          let digits = takeWhile isDigit rest; tail = dropWhile isDigit rest in
          if List.member [116, 84] t \<and> e = 61 \<and> digits \<noteq> [] \<and>
            List.member [js '',v1='', js '',V1=''] (take 4 tail) \<and>
            length (drop 4 tail) = 64 \<and> list_all isHexDigit (drop 4 tail)
          then Some (digits, drop 4 tail) else None
      | _ \<Rightarrow> None)"

definition decimal :: "jsstring \<Rightarrow> int" where
  "decimal ds = foldl (\<lambda>n c. 10 * n + (int c - 48)) 0 ds"

definition hexValue :: "nat \<Rightarrow> nat" where
  "hexValue c = (if c \<le> 57 then c - 48 else if c \<le> 70 then c - 55 else c - 87)"

fun fromHex :: "jsstring \<Rightarrow> nat list" where
  "fromHex (a # b # s) = (16 * hexValue a + hexValue b) # fromHex s"
| "fromHex _ = []"

type_synonym config = "string \<Rightarrow> jsstring option"

text \<open>\<open>hmac\<close> is the HMAC-SHA-256 of a key and a message, both bytes; \<open>now\<close> is in milliseconds.\<close>

definition assertSignature ::
  "(jsstring \<Rightarrow> nat list \<Rightarrow> nat list) \<Rightarrow> config \<Rightarrow> timestamp \<Rightarrow> nat list \<Rightarrow> jsstring option \<Rightarrow>
   unit dbprog" where
  "assertSignature hmac config now rawBody signature =
     (case config ''REVENUECAT_WEBHOOK_SECRET'' of
        None \<Rightarrow> throw (ErrorCode ''REVENUECAT_WEBHOOK_SECRET_REQUIRED'')
      | Some secret \<Rightarrow>
          if secret = [] then throw (ErrorCode ''REVENUECAT_WEBHOOK_SECRET_REQUIRED'')
          else
            (case Option.bind signature matchSignature of
               None \<Rightarrow> throw (Unauthorized ''REVENUECAT_SIGNATURE_INVALID'')
             | Some (timestampText, receivedHex) \<Rightarrow>
                 let timestamp = decimal timestampText in
                 andThen (throwIf (MAX_SAFE_INTEGER < timestamp)
                   (Unauthorized ''REVENUECAT_SIGNATURE_INVALID'')) (\<lambda>_.
                 andThen (throwIf (fromHex receivedHex \<noteq> hmac secret (timestampText @ [46] @ rawBody))
                   (Unauthorized ''REVENUECAT_SIGNATURE_INVALID'')) (\<lambda>_.
                 throwIf (1000 * REVENUECAT_SIGNATURE_TOLERANCE_SECONDS < \<bar>now - 1000 * timestamp\<bar>)
                   (Unauthorized ''REVENUECAT_SIGNATURE_TIMESTAMP_INVALID'')))))"

section \<open>Service\<close>

record webhookResult =
  wr_accepted :: bool
  wr_duplicate :: bool

text \<open>In production the event must come from the production environment of one of the two apps.\<close>

definition assertProductionEvent :: "config \<Rightarrow> revenueCatEvent \<Rightarrow> unit dbprog" where
  "assertProductionEvent config event =
     (if config ''NODE_ENV'' \<noteq> Some (js ''production'') then ret ()
      else
        let iosAppId = map_option trim (config ''REVENUECAT_IOS_APP_ID'');
            androidAppId = map_option trim (config ''REVENUECAT_ANDROID_APP_ID'')
        in
        andThen (throwIf (\<not> truthy iosAppId) (ErrorCode ''REVENUECAT_IOS_APP_ID_REQUIRED'')) (\<lambda>_.
        andThen (throwIf (\<not> truthy androidAppId) (ErrorCode ''REVENUECAT_ANDROID_APP_ID_REQUIRED'')) (\<lambda>_.
        andThen (throwIf (iosAppId = androidAppId) (ErrorCode ''REVENUECAT_APP_IDS_MUST_DIFFER'')) (\<lambda>_.
        andThen (requiredString (re_environment event) ''REVENUECAT_ENVIRONMENT_INVALID'') (\<lambda>env.
        andThen (throwIf (toUpperCase env \<noteq> js ''PRODUCTION'')
          (BadRequest ''REVENUECAT_ENVIRONMENT_INVALID'')) (\<lambda>_.
        andThen (requiredString (re_app_id event) ''REVENUECAT_APP_ID_INVALID'') (\<lambda>appId.
        throwIf (Some appId \<noteq> iosAppId \<and> Some appId \<noteq> androidAppId)
          (BadRequest ''REVENUECAT_APP_ID_INVALID''))))))))"

text \<open>\<^verbatim>\<open>productId.slice(0, productId.indexOf(":"))\<close>, or the whole string when it has no colon.\<close>

definition canonicalProduct :: "jsstring \<Rightarrow> jsstring" where
  "canonicalProduct productId = takeWhile (\<lambda>c. c \<noteq> 58) productId"

definition nonZeroTime :: "int option \<Rightarrow> int option" where
  "nonZeroTime t = (if t = Some 0 then None else t)"

text \<open>What the event asks of the repository, with the product it names and the user.\<close>

definition revenueCatInput ::
  "timestamp \<Rightarrow> revenueCatRecordedEvent \<Rightarrow> jsstring \<Rightarrow> revenueCatEvent \<Rightarrow>
   (jsstring \<times> billingProduct \<times> revenueCatEventInput) dbprog" where
  "revenueCatInput now eventRecord eventType event =
     andThen (requiredUuid (re_app_user_id event) ''REVENUECAT_APP_USER_ID_INVALID'') (\<lambda>userId.
     andThen (requiredString (re_product_id event) ''REVENUECAT_PRODUCT_ID_REQUIRED'') (\<lambda>productId.
     case findFirst (\<lambda>p. bp_id p = canonicalProduct productId) BILLING_PRODUCTS of
       None \<Rightarrow> throw (BadRequest ''REVENUECAT_PRODUCT_UNSUPPORTED'')
     | Some product \<Rightarrow>
         (case bp_kind product of
            SubscriptionProduct planId \<Rightarrow>
              (case revenueCatSubscriptionStatus eventType of
                 None \<Rightarrow> ret (userId, product, RecordedEvent eventRecord)
               | Some status \<Rightarrow>
                   andThen (requiredString (re_original_transaction_id event)
                     ''REVENUECAT_ORIGINAL_TRANSACTION_ID_REQUIRED'') (\<lambda>customer.
                   andThen (requiredTimestamp (re_event_timestamp_ms event)
                     ''REVENUECAT_EVENT_TIMESTAMP_REQUIRED'') (\<lambda>ts.
                   ret (userId, product, SubscriptionEvent eventRecord userId
                     \<lparr>sb_planId = planId, sb_providerCustomerId = Some customer,
                      sb_providerProductId = productId, sb_eventTimestampMs = ts,
                      sb_startsAt = Some (case nonZeroTime (re_purchased_at_ms event) of
                        None \<Rightarrow> now | Some t \<Rightarrow> t),
                      sb_endsAt = nonZeroTime (re_expiration_at_ms event), sb_status = status\<rparr>))))
          | kind \<Rightarrow>
              (case revenueCatConsumableTargetState eventType (re_cancel_reason event) of
                 None \<Rightarrow> ret (userId, product, RecordedEvent eventRecord)
               | Some state \<Rightarrow>
                   andThen (requiredString (re_transaction_id event)
                     ''REVENUECAT_TRANSACTION_ID_REQUIRED'') (\<lambda>transactionId.
                   andThen (requiredString (re_original_transaction_id event)
                     ''REVENUECAT_ORIGINAL_TRANSACTION_ID_REQUIRED'') (\<lambda>original.
                   andThen (requiredTimestamp (re_event_timestamp_ms event)
                     ''REVENUECAT_EVENT_TIMESTAMP_REQUIRED'') (\<lambda>ts.
                   ret (userId, product, ConsumableEvent eventRecord
                     \<lparr>ct_providerTransactionId = transactionId, ct_originalTransactionId = original,
                      ct_userId = userId, ct_canonicalProductId = canonicalProduct productId,
                      ct_providerProductId = productId, ct_eventTimestampMs = ts,
                      ct_targetState = state,
                      ct_units = \<lparr>un_superLikeCredits = (if kind = SuperLikeProduct then 5 else 0),
                        un_boostCredits = (if kind = BoostProduct then 1 else 0)\<rparr>\<rparr>))))))))"

definition purchaseNotification ::
  "jsstring \<Rightarrow> jsstring \<Rightarrow> billingProduct \<Rightarrow> revenueCatEventInput \<Rightarrow> createNotificationInput option" where
  "purchaseNotification userId eventId product input =
     (let message = (\<lambda>suffix body route. \<lparr>ni_userId = userId, ni_type = PurchaseN,
            ni_title = bp_name product @ suffix, ni_body = body, ni_route = Some route,
            ni_sourceId = Some eventId\<rparr>)
      in case input of
           SubscriptionEvent _ _ sub \<Rightarrow>
             if sb_status sub = Active
             then Some (message [51012, 32, 49884, 51089, 54664, 50612, 50836]
               [49352, 32, 54812, 53469, 51012, 32, 48148, 47196, 32, 51060, 50857, 54624, 32, 49688, 32,
                51080, 50612, 50836, 46] (js ''/premium''))
             else None
         | ConsumableEvent _ tr \<Rightarrow>
             if ct_targetState tr = Granted
             then Some (message [51012, 32, 51456, 48708, 54664, 50612, 50836]
               [54596, 50836, 54620, 32, 49692, 44036, 50640, 32, 49324, 50857, 54644, 32, 48372, 49464,
                50836, 46] (js ''/profile''))
             else None
         | RecordedEvent _ \<Rightarrow> None)"

definition handleRevenueCatWebhook ::
  "(jsstring \<Rightarrow> nat list \<Rightarrow> nat list) \<Rightarrow> (nat list \<Rightarrow> jsstring) \<Rightarrow> config \<Rightarrow> bool \<Rightarrow> (nat \<Rightarrow> uuid) \<Rightarrow>
   timestamp \<Rightarrow> nat list \<Rightarrow> jsstring option \<Rightarrow> json \<Rightarrow> webhookResult dbprog" where
  "handleRevenueCatWebhook hmac sha256 config pushEnabled ids now rawBody signature payload =
     andThen (assertSignature hmac config now rawBody signature) (\<lambda>_.
     andThen (getRevenueCatEvent payload) (\<lambda>event.
     andThen (requiredString (re_id event) ''REVENUECAT_EVENT_ID_REQUIRED'') (\<lambda>eventId.
     andThen (requiredString (re_type event) ''REVENUECAT_EVENT_TYPE_REQUIRED'') (\<lambda>type.
     let eventType = toUpperCase type;
         eventRecord = \<lparr>ev_providerEventId = eventId, ev_payloadHash = sha256 rawBody\<rparr>
     in
     if List.member REVENUECAT_NOOP_EVENT_TYPES eventType then
       andThen (applyRevenueCatEvent ids now (RecordedEvent eventRecord)) (\<lambda>result.
       ret \<lparr>wr_accepted = True, wr_duplicate = (ar_outcome result = Duplicate)\<rparr>)
     else if List.member REVENUECAT_UNIMPLEMENTED_EVENT_TYPES eventType then
       throw (NotImplemented ''REVENUECAT_EVENT_TYPE_NOT_IMPLEMENTED'')
     else if \<not> List.member REVENUECAT_MUTATION_EVENT_TYPES eventType then
       throw (BadRequest ''REVENUECAT_EVENT_TYPE_UNSUPPORTED'')
     else
       andThen (assertProductionEvent config event) (\<lambda>_.
       andThen (revenueCatInput now eventRecord eventType event) (\<lambda>(userId, product, input).
       andThen (applyRevenueCatEvent ids now input) (\<lambda>result.
       if ar_outcome result = Duplicate then ret \<lparr>wr_accepted = True, wr_duplicate = True\<rparr>
       else if ar_outcome result = Stale then ret \<lparr>wr_accepted = True, wr_duplicate = False\<rparr>
       else
         andThen (case purchaseNotification userId eventId product input of
             None \<Rightarrow> ret ()
           | Some n \<Rightarrow> tryCatch (andThen (notify (\<lambda>k. ids (k + 3)) now pushEnabled n) (\<lambda>_. ret ()))
               (\<lambda>_. ret ())) (\<lambda>_.
         ret \<lparr>wr_accepted = True, wr_duplicate = False\<rparr>))))))))"

record consumableBalance =
  bl_superLikeCredits :: int
  bl_boostCredits :: int
  bl_activeBoostUntil :: "timestamp option"

definition balance :: "timestamp \<Rightarrow> jsstring \<Rightarrow> consumableBalance dbprog" where
  "balance now userId =
     andThen (query (repoBalance now userId)) (\<lambda>(b, activeBoostUntil).
     ret \<lparr>bl_superLikeCredits = (case b of None \<Rightarrow> 0 | Some r \<Rightarrow> cb_superLikeCredits r),
          bl_boostCredits = (case b of None \<Rightarrow> 0 | Some r \<Rightarrow> cb_boostCredits r),
          bl_activeBoostUntil = activeBoostUntil\<rparr>)"

section \<open>Credits and granted units\<close>

definition superLikes :: "uuid \<Rightarrow> db \<Rightarrow> int" where
  "superLikes u d = (case findFirst (\<lambda>b. cb_userId b = u) (userConsumableBalances d) of
     None \<Rightarrow> 0 | Some b \<Rightarrow> cb_superLikeCredits b)"

definition boosts :: "uuid \<Rightarrow> db \<Rightarrow> int" where
  "boosts u d = (case findFirst (\<lambda>b. cb_userId b = u) (userConsumableBalances d) of
     None \<Rightarrow> 0 | Some b \<Rightarrow> cb_boostCredits b)"

text \<open>The units a transaction gives its owner while it is granted.\<close>

definition grantOf :: "(revenueCatTransaction \<Rightarrow> int) \<Rightarrow> uuid \<Rightarrow> revenueCatTransaction \<Rightarrow> int" where
  "grantOf units u r = (if rc_userId r = u \<and> rc_state r = Granted then units r else 0)"

definition granted :: "(revenueCatTransaction \<Rightarrow> int) \<Rightarrow> uuid \<Rightarrow> db \<Rightarrow> int" where
  "granted units u d = sum_list (map (grantOf units u) (revenueCatTransactions d))"

definition billingKeys :: "db \<Rightarrow> bool" where
  "billingKeys d \<longleftrightarrow>
     uniqueKey be_providerEventId (billingEvents d) \<and>
     uniqueKey rc_id (revenueCatTransactions d) \<and>
     uniqueKey (\<lambda>r. (rc_provider r, rc_providerTransactionId r)) (revenueCatTransactions d) \<and>
     uniqueKey us_id (userSubscriptions d) \<and>
     uniqueKey (\<lambda>s. (us_userId s, us_provider s)) (userSubscriptions d) \<and>
     list_all (\<lambda>r. canonicalUuid (rc_userId r)) (revenueCatTransactions d)"

lemma credits_addCredits:
  "superLikes u (addCredits now v delta d) = superLikes u d + (if u = v then un_superLikeCredits delta else 0)"
  "boosts u (addCredits now v delta d) = boosts u d + (if u = v then un_boostCredits delta else 0)"
  by (auto simp: superLikes_def boosts_def addCredits_def findFirst_updateWhere findFirst_insertRow
      keyTaken_iff findFirst_None_iff split: option.splits dest: findFirst_SomeD)

lemma credits_applyDelta:
  "superLikes u (applyDelta now v delta d) = superLikes u d + (if u = v then un_superLikeCredits delta else 0)"
  "boosts u (applyDelta now v delta d) = boosts u d + (if u = v then un_boostCredits delta else 0)"
  by (simp_all add: applyDelta_def credits_addCredits)

lemma credits_frame [simp]:
  "superLikes u (d\<lparr>billingEvents := e\<rparr>) = superLikes u d"
  "boosts u (d\<lparr>billingEvents := e\<rparr>) = boosts u d"
  "superLikes u (d\<lparr>revenueCatTransactions := t\<rparr>) = superLikes u d"
  "boosts u (d\<lparr>revenueCatTransactions := t\<rparr>) = boosts u d"
  "superLikes u (d\<lparr>revenueCatTransactionLedger := l\<rparr>) = superLikes u d"
  "boosts u (d\<lparr>revenueCatTransactionLedger := l\<rparr>) = boosts u d"
  "superLikes u (d\<lparr>userSubscriptions := s\<rparr>) = superLikes u d"
  "boosts u (d\<lparr>userSubscriptions := s\<rparr>) = boosts u d"
  by (simp_all add: superLikes_def boosts_def)

lemma findTransaction_frame [simp]:
  "findTransaction p (d\<lparr>billingEvents := e\<rparr>) = findTransaction p d"
  "findTransaction p (d\<lparr>revenueCatTransactionLedger := l\<rparr>) = findTransaction p d"
  "findTransaction p (applyDelta now v delta d) = findTransaction p d"
  "findTransaction p (d\<lparr>userSubscriptions := s\<rparr>) = findTransaction p d"
  by (simp_all add: findTransaction_def applyDelta_def addCredits_def)

lemma granted_frame [simp]:
  "granted units u (d\<lparr>billingEvents := e\<rparr>) = granted units u d"
  "granted units u (d\<lparr>revenueCatTransactionLedger := l\<rparr>) = granted units u d"
  "granted units u (applyDelta now v delta d) = granted units u d"
  "granted units u (d\<lparr>userSubscriptions := s\<rparr>) = granted units u d"
  by (simp_all add: granted_def applyDelta_def addCredits_def)

lemma billingKeys_frame [simp]:
  "billingKeys (d\<lparr>revenueCatTransactionLedger := l\<rparr>) = billingKeys d"
  "billingKeys (applyDelta now v delta d) = billingKeys d"
  by (simp_all add: billingKeys_def applyDelta_def addCredits_def)

section \<open>One consumable transition\<close>

text \<open>A row that belongs to the transition: the same owner, product and units.\<close>

definition sameTransaction :: "revenueCatConsumableTransition \<Rightarrow> revenueCatTransaction \<Rightarrow> bool" where
  "sameTransaction tr r \<longleftrightarrow> rc_userId r = ct_userId tr \<and>
     rc_originalTransactionId r = ct_originalTransactionId tr \<and>
     rc_canonicalProductId r = ct_canonicalProductId tr \<and>
     rc_providerProductId r = ct_providerProductId tr \<and>
     rc_superLikeUnits r = un_superLikeCredits (ct_units tr) \<and>
     rc_boostUnits r = un_boostCredits (ct_units tr)"

lemma assertTransactionIdentity_Inr:
  "assertTransactionIdentity c tr d = (Inr x, d') \<longleftrightarrow> d' = d \<and> sameTransaction tr c"
  by (auto simp: assertTransactionIdentity_def sameTransaction_def throwIf_apply)

lemma insertTransaction_Inr:
  "insertTransaction t d = (Inr x, d') \<longleftrightarrow>
     \<not> keyTaken rc_id (rc_id t) (revenueCatTransactions d) \<and>
     \<not> keyTaken (\<lambda>r. (rc_provider r, rc_providerTransactionId r))
           (rc_provider t, rc_providerTransactionId t) (revenueCatTransactions d) \<and>
     userExists (rc_userId t) d \<and> 0 \<le> rc_superLikeUnits t \<and> 0 \<le> rc_boostUnits t \<and>
     (rc_superLikeUnits t \<noteq> 0 \<or> rc_boostUnits t \<noteq> 0) \<and>
     d' = d\<lparr>revenueCatTransactions := insertRow t (revenueCatTransactions d)\<rparr>"
  by (auto simp: insertTransaction_def throwIf_apply split: if_splits)

lemma insertLedgerEntry_Inr:
  "insertLedgerEntry r d = (Inr x, d') \<Longrightarrow>
   d' = d\<lparr>revenueCatTransactionLedger := insertRow r (revenueCatTransactionLedger d)\<rparr>"
  by (auto simp: insertLedgerEntry_def throwIf_apply split: if_splits)

lemma applyDelta_zero [simp]: "applyDelta now u ZERO_DELTA d = d"
  by (simp add: applyDelta_def ZERO_DELTA_def)

text \<open>What a transition that returns has done, in the three cases of the code.\<close>

lemma applyConsumableTransition_cases:
  assumes "applyConsumableTransition ids now e tr d = (Inr res, d')"
  obtains (new) l where "findTransaction (ct_providerTransactionId tr) d = None"
      "d' = (applyDelta now (pgUuid (ct_userId tr)) (transitionDelta None (ct_targetState tr) (ct_units tr))
         (d\<lparr>revenueCatTransactions := insertRow (newTransaction (ids 1) now tr) (revenueCatTransactions d)\<rparr>))
         \<lparr>revenueCatTransactionLedger := l\<rparr>"
      "\<not> keyTaken rc_id (ids 1) (revenueCatTransactions d)" "ar_outcome res = Applied"
  | (newer) c l where "findTransaction (ct_providerTransactionId tr) d = Some c" "sameTransaction tr c"
      "rc_stateEventTimestampMs c < ct_eventTimestampMs tr"
      "d' = (applyDelta now (pgUuid (ct_userId tr))
           (transitionDelta (Some (rc_state c)) (ct_targetState tr) (ct_units tr))
         (d\<lparr>revenueCatTransactions := updateWhere (\<lambda>r. rc_id r = rc_id c) (settleRow now tr)
           (revenueCatTransactions d)\<rparr>))
         \<lparr>revenueCatTransactionLedger := l\<rparr>"
      "ar_outcome res = Applied"
  | (stale) c l where "findTransaction (ct_providerTransactionId tr) d = Some c" "sameTransaction tr c"
      "ct_eventTimestampMs tr \<le> rc_stateEventTimestampMs c"
      "rc_stateEventTimestampMs c = ct_eventTimestampMs tr \<Longrightarrow> rc_state c = ct_targetState tr"
      "d' = d\<lparr>revenueCatTransactionLedger := l\<rparr>" "ar_outcome res = Stale"
proof (cases "findTransaction (ct_providerTransactionId tr) d")
  case None
  with assms show ?thesis
    by (auto simp: applyConsumableTransition_def andThen_Inr_iff Let_def
          insertTransaction_Inr newTransaction_def dest!: insertLedgerEntry_Inr intro!: new)
next
  case (Some c)
  show ?thesis
  proof (cases "ct_eventTimestampMs tr \<le> rc_stateEventTimestampMs c")
    case True
    with Some assms show ?thesis
      by (auto simp: applyConsumableTransition_def andThen_Inr_iff Let_def
            assertTransactionIdentity_Inr throwIf_apply dest!: insertLedgerEntry_Inr intro!: stale split: if_splits)
  next
    case False
    with Some assms show ?thesis
      by (auto simp: applyConsumableTransition_def andThen_Inr_iff Let_def
            assertTransactionIdentity_Inr throwIf_apply dest!: insertLedgerEntry_Inr intro!: newer split: if_splits)
  qed
qed

lemma transitionDelta_units:
  "un_superLikeCredits (transitionDelta cur target units) =
     (if target = Granted then un_superLikeCredits units else 0) -
     (if cur = Some Granted then un_superLikeCredits units else 0)"
  "un_boostCredits (transitionDelta cur target units) =
     (if target = Granted then un_boostCredits units else 0) -
     (if cur = Some Granted then un_boostCredits units else 0)"
  by (cases target; auto simp: transitionDelta_def ZERO_DELTA_def)+

definition owes :: "(revenueCatTransaction \<Rightarrow> int) \<Rightarrow> uuid \<Rightarrow> revenueCatTransaction option \<Rightarrow> int" where
  "owes units u c = (case c of None \<Rightarrow> 0 | Some r \<Rightarrow> grantOf units u r)"

lemma findTransaction_mem:
  "findTransaction p d = Some c \<Longrightarrow> c \<in> set (revenueCatTransactions d) \<and>
     rc_provider c = js ''revenuecat'' \<and> rc_providerTransactionId c = p"
  unfolding findTransaction_def by (drule findFirst_SomeD) simp

lemma sameTransaction_owner:
  "billingKeys d \<Longrightarrow> findTransaction p d = Some c \<Longrightarrow> sameTransaction tr c \<Longrightarrow>
   canonicalUuid (ct_userId tr) \<and> rc_userId c = pgUuid (ct_userId tr)"
  by (auto simp: billingKeys_def list_all_iff sameTransaction_def dest!: findTransaction_mem)

text \<open>The row of the transaction after the transition, whatever it was before.\<close>

definition settled :: "revenueCatConsumableTransition \<Rightarrow> revenueCatTransaction option \<Rightarrow> revenueCatTransaction \<Rightarrow> bool" where
  "settled tr before r \<longleftrightarrow>
     rc_userId r = pgUuid (ct_userId tr) \<and>
     rc_superLikeUnits r = un_superLikeCredits (ct_units tr) \<and>
     rc_boostUnits r = un_boostCredits (ct_units tr) \<and>
     (case before of
        None \<Rightarrow> rc_state r = ct_targetState tr \<and> rc_stateEventTimestampMs r = ct_eventTimestampMs tr
      | Some c \<Rightarrow>
          rc_userId r = rc_userId c \<and> rc_superLikeUnits r = rc_superLikeUnits c \<and>
          rc_boostUnits r = rc_boostUnits c \<and>
          (if rc_stateEventTimestampMs c < ct_eventTimestampMs tr
          then rc_state r = ct_targetState tr \<and> rc_stateEventTimestampMs r = ct_eventTimestampMs tr
          else r = c \<and> (rc_stateEventTimestampMs c = ct_eventTimestampMs tr \<longrightarrow> rc_state c = ct_targetState tr)))"

lemma findTransaction_insert:
  "findTransaction p d = None \<Longrightarrow>
   findTransaction q (d\<lparr>revenueCatTransactions := insertRow t (revenueCatTransactions d)\<rparr>) =
     (case findTransaction q d of None \<Rightarrow> if rc_provider t = js ''revenuecat'' \<and> rc_providerTransactionId t = q
        then Some t else None | Some r \<Rightarrow> Some r)"
  by (simp add: findTransaction_def findFirst_insertRow)

lemma findTransaction_settle:
  assumes "billingKeys d" and "findTransaction p d = Some c"
  shows "findTransaction q (d\<lparr>revenueCatTransactions := updateWhere (\<lambda>r. rc_id r = rc_id c)
      (settleRow now tr) (revenueCatTransactions d)\<rparr>) =
    (if q = p then Some (settleRow now tr c) else findTransaction q d)"
proof -
  have c: "c \<in> set (revenueCatTransactions d)" "rc_providerTransactionId c = p"
    using findTransaction_mem [OF assms(2)] by simp_all
  have "rc_id r = rc_id c \<Longrightarrow> r \<in> set (revenueCatTransactions d) \<Longrightarrow> r = c" for r
    using assms(1) c(1) by (auto simp: billingKeys_def dest: uniqueKey_inj)
  then have "map_option (\<lambda>r. if rc_id r = rc_id c then settleRow now tr r else r) (findTransaction q d) =
      (if q = p then Some (settleRow now tr c) else findTransaction q d)"
    using assms(2) c(2) by (cases "findTransaction q d") (auto dest: findTransaction_mem)
  then show ?thesis
    by (simp add: findTransaction_def findFirst_updateWhere settleRow_def)
qed

lemma consumable_transaction:
  assumes "billingKeys d" and "applyConsumableTransition ids now e tr d = (Inr res, d')"
  shows "(\<exists>r. findTransaction (ct_providerTransactionId tr) d' = Some r \<and>
      settled tr (findTransaction (ct_providerTransactionId tr) d) r) \<and>
    (\<forall>q. q \<noteq> ct_providerTransactionId tr \<longrightarrow> findTransaction q d' = findTransaction q d)"
  using assms(2)
proof (cases rule: applyConsumableTransition_cases)
  case (new l)
  then show ?thesis
    by (simp add: findTransaction_insert settled_def newTransaction_def split: option.split)
next
  case (newer c l)
  have "rc_userId c = pgUuid (ct_userId tr)"
    using sameTransaction_owner [OF assms(1) newer(1,2)] by simp
  with newer show ?thesis
    by (simp add: findTransaction_settle [OF assms(1) newer(1)] settled_def settleRow_def
        sameTransaction_def)
next
  case (stale c l)
  then show ?thesis
    using sameTransaction_owner [OF assms(1) stale(1,2)]
    by (auto simp: settled_def sameTransaction_def)
qed

lemma consumable_keys:
  assumes "billingKeys d" and "applyConsumableTransition ids now e tr d = (Inr res, d')"
  shows "billingKeys d'"
  using assms(2)
proof (cases rule: applyConsumableTransition_cases)
  case (new l)
  have "\<not> keyTaken (\<lambda>r. (rc_provider r, rc_providerTransactionId r))
      (js ''revenuecat'', ct_providerTransactionId tr) (revenueCatTransactions d)"
    using new(1) by (auto simp: findTransaction_def findFirst_None_iff keyTaken_iff)
  with new(3) assms(1) have "billingKeys (d\<lparr>revenueCatTransactions :=
      insertRow (newTransaction (ids 1) now tr) (revenueCatTransactions d)\<rparr>)"
    by (simp add: billingKeys_def keyTaken_iff newTransaction_def list_all_iff)
  with new(2) show ?thesis by simp
next
  case (newer c l)
  have "billingKeys (d\<lparr>revenueCatTransactions := updateWhere (\<lambda>r. rc_id r = rc_id c)
      (settleRow now tr) (revenueCatTransactions d)\<rparr>)"
    using assms(1) by (auto simp: billingKeys_def uniqueKey_updateWhere settleRow_def list_all_iff
       set_updateWhere)
  with newer(4) show ?thesis by simp
qed (simp add: assms(1))

lemma consumable_credits:
  assumes "billingKeys d" and "applyConsumableTransition ids now e tr d = (Inr res, d')"
  shows "superLikes u d' - granted rc_superLikeUnits u d' =
      superLikes u d - granted rc_superLikeUnits u d \<and>
    boosts u d' - granted rc_boostUnits u d' = boosts u d - granted rc_boostUnits u d"
  using assms(2)
proof (cases rule: applyConsumableTransition_cases)
  case (newer c l)
  have own: "rc_userId c = pgUuid (ct_userId tr)"
    using sameTransaction_owner [OF assms(1) newer(1,2)] by simp
  have c: "c \<in> set (revenueCatTransactions d)" and u: "uniqueKey rc_id (revenueCatTransactions d)"
    using findTransaction_mem [OF newer(1)] assms(1) by (simp_all add: billingKeys_def)
  show ?thesis
    using newer(2) own unfolding newer(4)
    by (simp add: credits_applyDelta transitionDelta_units)
       (auto simp: granted_def sum_list_updateWhere [OF u c] grantOf_def settleRow_def sameTransaction_def)
next
  case (new l)
  show ?thesis
    unfolding new(2)
    by (simp add: credits_applyDelta transitionDelta_units)
       (auto simp: granted_def insertRow_def grantOf_def newTransaction_def)
next
  case (stale c l)
  then show ?thesis by simp
qed


section \<open>One event\<close>

definition recorded :: "revenueCatRecordedEvent \<Rightarrow> db \<Rightarrow> bool" where
  "recorded e d \<longleftrightarrow> (case findFirst (\<lambda>b. be_providerEventId b = ev_providerEventId e) (billingEvents d) of
     None \<Rightarrow> False | Some b \<Rightarrow> be_provider b = js ''revenuecat'' \<and> be_payloadHash b = ev_payloadHash e)"

lemma recordEvent_frame [simp]:
  "superLikes u (recordEvent i now e d) = superLikes u d"
  "boosts u (recordEvent i now e d) = boosts u d"
  "granted units u (recordEvent i now e d) = granted units u d"
  "findTransaction p (recordEvent i now e d) = findTransaction p d"
  "findSubscription p (recordEvent i now e d) = findSubscription p d"
  by (simp_all add: recordEvent_def findSubscription_def)

definition applyEvent ::
  "(nat \<Rightarrow> uuid) \<Rightarrow> timestamp \<Rightarrow> revenueCatEventInput \<Rightarrow> revenueCatApplyResult dbprog" where
  "applyEvent ids now input =
     (case input of
        SubscriptionEvent _ userId sub \<Rightarrow> applySubscription ids now userId sub
      | ConsumableEvent e tr \<Rightarrow> applyConsumableTransition ids now (ev_providerEventId e) tr
      | RecordedEvent _ \<Rightarrow>
          ret \<lparr>ar_outcome = Applied, ar_effectiveState = None, ar_balanceDelta = ZERO_DELTA\<rparr>)"

lemma applyRevenueCatEvent_cases:
  assumes "applyRevenueCatEvent ids now input d = (Inr res, d')"
  obtains (duplicate) "ar_outcome res = Duplicate" "d' = d" "recorded (recordedEvent input) d"
  | (fresh) "\<not> keyTaken be_providerEventId (ev_providerEventId (recordedEvent input)) (billingEvents d)"
      "applyEvent ids now input (recordEvent (ids 0) now (recordedEvent input) d) = (Inr res, d')"
proof (cases "keyTaken be_id (ids 0) (billingEvents d) \<or>
    keyTaken be_providerEventId (ev_providerEventId (recordedEvent input)) (billingEvents d)")
  case True
  with assms duplicate show ?thesis
    by (auto simp: applyRevenueCatEvent_def transaction_Inr_iff Let_def recorded_def
        split: if_splits option.splits)
next
  case False
  with assms fresh show ?thesis
    by (cases input) (simp_all add: applyRevenueCatEvent_def transaction_Inr_iff Let_def applyEvent_def
        recordedEvent_def)
qed

lemma recordEvent_keys:
  "billingKeys d \<Longrightarrow> \<not> keyTaken be_providerEventId (ev_providerEventId e) (billingEvents d) \<Longrightarrow>
   billingKeys (recordEvent i now e d)"
  by (simp add: billingKeys_def recordEvent_def keyTaken_iff)

definition subscriptionRow :: "jsstring \<Rightarrow> revenueCatSubscription \<Rightarrow> userSubscription \<Rightarrow> bool" where
  "subscriptionRow userId sub s \<longleftrightarrow> us_userId s = pgUuid userId \<and> us_planId s = sb_planId sub \<and>
     us_status s = sb_status sub \<and> us_provider s = Some (js ''revenuecat'') \<and>
     us_providerEventTimestampMs s = Some (sb_eventTimestampMs sub)"

definition subscriptionClock :: "jsstring \<Rightarrow> db \<Rightarrow> int" where
  "subscriptionClock userId d = (case findSubscription userId d of None \<Rightarrow> -1
     | Some c \<Rightarrow> (case us_providerEventTimestampMs c of None \<Rightarrow> -1 | Some t \<Rightarrow> t))"

lemma newSubscription_stored:
  assumes "billingKeys d" and "findSubscription userId d = None"
    and "\<not> keyTaken us_id i (userSubscriptions d)"
    and d': "d' = d\<lparr>userSubscriptions := insertRow (newSubscription i now userId sub) (userSubscriptions d)\<rparr>"
  shows "billingKeys d'"
    and "findSubscription v d' = (if pgUuid v = pgUuid userId
      then Some (newSubscription i now userId sub) else findSubscription v d)"
proof -
  from assms(2) have "\<forall>s \<in> set (userSubscriptions d). \<not> (us_userId s = pgUuid userId \<and>
      us_provider s = Some (js ''revenuecat''))"
    by (simp add: findSubscription_def findFirst_None_iff)
  then show "billingKeys d'"
    using assms(1,3) by (auto simp: d' billingKeys_def keyTaken_iff newSubscription_def)
  show "findSubscription v d' = (if pgUuid v = pgUuid userId
      then Some (newSubscription i now userId sub) else findSubscription v d)"
    using assms(2) by (auto simp: d' findSubscription_def findFirst_insertRow newSubscription_def
          split: option.split)
qed

lemma setSubscription_stored:
  assumes "billingKeys d" and "findSubscription userId d = Some c"
    and d': "d' = d\<lparr>userSubscriptions := updateWhere (\<lambda>s. us_id s = us_id c)
      (setSubscription now userId sub) (userSubscriptions d)\<rparr>"
  shows "billingKeys d'"
    and "findSubscription v d' = (if pgUuid v = pgUuid userId
      then Some (setSubscription now userId sub c) else findSubscription v d)"
proof -
  let ?k = "\<lambda>s. (us_userId s, us_provider s)"
  have c: "c \<in> set (userSubscriptions d)" "?k c = (pgUuid userId, Some (js ''revenuecat''))"
    using assms(2) by (auto simp: findSubscription_def dest!: findFirst_SomeD)
  have only: "r = c" if "r \<in> set (userSubscriptions d)" "us_id r = us_id c" for r
    using assms(1) that c(1) by (auto simp: billingKeys_def dest: uniqueKey_inj)
  have same: "?k (setSubscription now userId sub r) = ?k r"
    if "r \<in> set (userSubscriptions d)" "us_id r = us_id c" for r
    using c(2) only [OF that] by (simp add: setSubscription_def)
  then have "map ?k (userSubscriptions d') = map ?k (userSubscriptions d)"
    unfolding d' by (simp, intro map_updateWhere)
  then show "billingKeys d'"
    using assms(1) by (simp add: d' billingKeys_def uniqueKey_def map_updateWhere [of _ _ us_id] setSubscription_def)
  have "findSubscription v d' = map_option (\<lambda>r. if us_id r = us_id c then setSubscription now userId sub r else r)
      (findSubscription v d)"
    unfolding d' findSubscription_def using same by (simp, intro findFirst_updateWhere) auto
  moreover have "findSubscription v d = findSubscription userId d" if "pgUuid v = pgUuid userId"
    using that by (simp add: findSubscription_def)
  moreover have "us_id r \<noteq> us_id c" if "findSubscription v d = Some r" "pgUuid v \<noteq> pgUuid userId" for r
    using that only [of r] c(2) by (auto simp: findSubscription_def dest!: findFirst_SomeD)
  ultimately show "findSubscription v d' = (if pgUuid v = pgUuid userId
      then Some (setSubscription now userId sub c) else findSubscription v d)"
    using assms(2) by (cases "findSubscription v d") auto
qed

lemma applySubscription_cases:
  assumes "billingKeys d" and "applySubscription ids now userId sub d = (Inr res, d')"
  obtains (stale) "sb_eventTimestampMs sub \<le> subscriptionClock userId d" "d' = d" "ar_outcome res = Stale"
  | (applied) t s where "subscriptionClock userId d < sb_eventTimestampMs sub" "ar_outcome res = Applied"
      "d' = d\<lparr>userSubscriptions := t\<rparr>" "billingKeys d'" "subscriptionRow userId sub s"
      "\<And>v. findSubscription v d' = (if pgUuid v = pgUuid userId then Some s else findSubscription v d)"
proof (cases "sb_eventTimestampMs sub \<le> subscriptionClock userId d")
  case True
  with assms(2) show ?thesis
    by (intro stale) (auto simp: applySubscription_def subscriptionClock_def Let_def)
next
  case False
  show ?thesis
  proof (cases "findSubscription userId d")
    case None
    let ?s = "newSubscription (ids 1) now userId sub"
    have s: "\<not> keyTaken us_id (ids 1) (userSubscriptions d)"
      "d' = d\<lparr>userSubscriptions := insertRow ?s (userSubscriptions d)\<rparr>" "ar_outcome res = Applied"
      using None False assms(2)
      by (auto simp: applySubscription_def subscriptionClock_def Let_def throwIf_apply andThen_Inr_iff
          split: if_splits)
    have "subscriptionRow userId sub ?s"
      by (simp add: subscriptionRow_def newSubscription_def)
    with False s newSubscription_stored [OF assms(1) None s(1,2)] show ?thesis
      by (intro applied [OF _ _ s(2)]) auto
  next
    case (Some c)
    let ?t = "updateWhere (\<lambda>s. us_id s = us_id c) (setSubscription now userId sub) (userSubscriptions d)"
    have s: "d' = d\<lparr>userSubscriptions := ?t\<rparr>" "ar_outcome res = Applied"
      using Some False assms(2)
      by (auto simp: applySubscription_def subscriptionClock_def Let_def andThen_Inr_iff)
    have "subscriptionRow userId sub (setSubscription now userId sub c)"
      by (simp add: subscriptionRow_def setSubscription_def)
    with False s setSubscription_stored [OF assms(1) Some s(1)] show ?thesis
      by (intro applied [OF _ _ s(1)]) auto
  qed
qed

lemma applySubscription_frame:
  assumes "billingKeys d" and "applySubscription ids now userId sub d = (Inr res, d')"
  shows "\<exists>t. d' = d\<lparr>userSubscriptions := t\<rparr>"
  using assms
proof (cases rule: applySubscription_cases)
  case stale
  then show ?thesis by (intro exI [of _ "userSubscriptions d"]) simp
qed blast

lemma applyRevenueCatEvent_keys:
  assumes "billingKeys d" and "applyRevenueCatEvent ids now input d = (Inr res, d')"
  shows "billingKeys d'"
  using assms(2)
proof (cases rule: applyRevenueCatEvent_cases)
  case fresh
  have "billingKeys (recordEvent (ids 0) now (recordedEvent input) d)"
    using assms(1) fresh(1) by (rule recordEvent_keys)
  then show ?thesis
    using fresh(2) by (cases input)
      (auto simp: applyEvent_def elim: applySubscription_cases intro: consumable_keys)
qed (simp add: assms(1))

text \<open>An event that fails leaves no trace.\<close>

lemma applyRevenueCatEvent_error: "applyRevenueCatEvent ids now input d = (Inl e, d') \<Longrightarrow> d' = d"
  unfolding applyRevenueCatEvent_def by (rule transaction_rolls_back)

section \<open>Properties\<close>

text \<open>C17. Conservation of credits: whatever event arrives, the credits of a user change by exactly
  what the granted transactions of that user change by, and the keys of the tables stay unique.\<close>

theorem credits_follow_grants:
  assumes "billingKeys d"
  shows "billingKeys (snd (applyRevenueCatEvent ids now input d)) \<and>
    superLikes u (snd (applyRevenueCatEvent ids now input d)) - superLikes u d =
      granted rc_superLikeUnits u (snd (applyRevenueCatEvent ids now input d)) -
      granted rc_superLikeUnits u d \<and>
    boosts u (snd (applyRevenueCatEvent ids now input d)) - boosts u d =
      granted rc_boostUnits u (snd (applyRevenueCatEvent ids now input d)) - granted rc_boostUnits u d"
proof (cases "applyRevenueCatEvent ids now input d")
  case (Pair r d')
  show ?thesis
  proof (cases r)
    case (Inl e)
    with Pair assms applyRevenueCatEvent_error [of ids now input d e d'] show ?thesis by simp
  next
    case (Inr res)
    with Pair have run: "applyRevenueCatEvent ids now input d = (Inr res, d')" by simp
    then have "superLikes u d' - granted rc_superLikeUnits u d' = superLikes u d - granted rc_superLikeUnits u d \<and>
      boosts u d' - granted rc_boostUnits u d' = boosts u d - granted rc_boostUnits u d"
    proof (cases rule: applyRevenueCatEvent_cases)
      case fresh
      define d0 where "d0 = recordEvent (ids 0) now (recordedEvent input) d"
      have keys: "billingKeys d0"
        unfolding d0_def using assms fresh(1) by (rule recordEvent_keys)
      have d0: "superLikes u d0 = superLikes u d" "boosts u d0 = boosts u d"
        "granted units u d0 = granted units u d" for units
        by (simp_all add: d0_def)
      show ?thesis
        using fresh(2) consumable_credits [OF keys, of ids now _ _ res d' u]
        unfolding d0_def [symmetric]
        by (cases input) (auto simp: applyEvent_def d0 [symmetric] dest!: applySubscription_frame [OF keys])
    qed simp
    with applyRevenueCatEvent_keys [OF assms run] Pair show ?thesis
      by (simp add: algebra_simps)
  qed
qed

text \<open>C21. Every event is applied at most once: after an event was accepted, the same event, whatever
  it is parsed to, is reported as a duplicate and changes nothing; the same identifier with another
  body is refused.\<close>

theorem event_applied_once:
  assumes "billingKeys d" and "applyRevenueCatEvent ids now input d = (Inr res, d')"
    and "ev_providerEventId (recordedEvent input') = ev_providerEventId (recordedEvent input)"
  shows "applyRevenueCatEvent ids' now' input' d' =
    (if ev_payloadHash (recordedEvent input') = ev_payloadHash (recordedEvent input)
     then Inr \<lparr>ar_outcome = Duplicate, ar_effectiveState = None, ar_balanceDelta = ZERO_DELTA\<rparr>
     else Inl (ErrorCode ''REVENUECAT_EVENT_PAYLOAD_CONFLICT''), d')"
proof -
  have rec: "recorded (recordedEvent input) d'"
    using assms(2)
  proof (cases rule: applyRevenueCatEvent_cases)
    case fresh
    define d0 where "d0 = recordEvent (ids 0) now (recordedEvent input) d"
    have keys: "billingKeys d0"
      unfolding d0_def using assms(1) fresh(1) by (rule recordEvent_keys)
    have "findFirst (\<lambda>b. be_providerEventId b = ev_providerEventId (recordedEvent input)) (billingEvents d) = None"
      using fresh(1) by (simp add: findFirst_None_iff keyTaken_def existsRow_iff)
    then have "recorded (recordedEvent input) d0"
      by (simp add: d0_def recorded_def recordEvent_def findFirst_insertRow)
    moreover have "billingEvents d' = billingEvents d0"
      using fresh(2) unfolding d0_def [symmetric]
      by (cases input) (auto simp: applyEvent_def applyDelta_def addCredits_def
          dest!: applySubscription_frame [OF keys] elim!: applyConsumableTransition_cases)
    ultimately show ?thesis
      by (simp add: recorded_def)
  qed simp
  then obtain b where "findFirst (\<lambda>b. be_providerEventId b = ev_providerEventId (recordedEvent input))
      (billingEvents d') = Some b" "be_provider b = js ''revenuecat''"
    "be_payloadHash b = ev_payloadHash (recordedEvent input)"
    by (auto simp: recorded_def split: option.splits)
  moreover from findFirst_SomeD [OF this(1)]
  have "keyTaken be_providerEventId (ev_providerEventId (recordedEvent input)) (billingEvents d')"
    by (auto simp: keyTaken_def existsRow_iff)
  ultimately show ?thesis
    using assms(3) by (simp add: applyRevenueCatEvent_def transaction_def Let_def)
qed

text \<open>The subscription of a user follows the newest event: an event no newer than the stored one
  changes nothing, a newer one sets plan and status, and no other user's subscription moves.\<close>

lemma subscription_newest_wins:
  assumes "billingKeys d"
    and "applyRevenueCatEvent ids now (SubscriptionEvent e userId sub) d = (Inr res, d')"
    and "ar_outcome res \<noteq> Duplicate"
  shows "subscriptionClock userId d' = max (subscriptionClock userId d) (sb_eventTimestampMs sub) \<and>
    (if subscriptionClock userId d < sb_eventTimestampMs sub
     then (\<exists>s. findSubscription userId d' = Some s \<and> subscriptionRow userId sub s)
     else findSubscription userId d' = findSubscription userId d) \<and>
    (\<forall>v. pgUuid v \<noteq> pgUuid userId \<longrightarrow> findSubscription v d' = findSubscription v d)"
  using assms(2)
proof (cases rule: applyRevenueCatEvent_cases)
  case fresh
  let ?d = "recordEvent (ids 0) now (recordedEvent (SubscriptionEvent e userId sub)) d"
  have keys: "billingKeys ?d"
    using assms(1) fresh(1) by (rule recordEvent_keys)
  have clock: "subscriptionClock userId ?d = subscriptionClock userId d"
    by (simp add: subscriptionClock_def)
  from fresh(2) have "applySubscription ids now userId sub ?d = (Inr res, d')"
    by (simp add: applyEvent_def)
  with keys show ?thesis
  proof (cases rule: applySubscription_cases)
    case stale
    with clock show ?thesis by (simp add: subscriptionClock_def)
  next
    case (applied t s)
    with clock show ?thesis by (auto simp: subscriptionClock_def subscriptionRow_def)
  qed
qed (use assms(3) in simp)


text \<open>A sequence of consumable events that are all accepted, none of them a duplicate.\<close>

type_synonym consumableArrival =
  "(nat \<Rightarrow> uuid) \<times> timestamp \<times> revenueCatRecordedEvent \<times> revenueCatConsumableTransition"

fun applyAll :: "consumableArrival list \<Rightarrow> db \<Rightarrow> db option" where
  "applyAll [] d = Some d"
| "applyAll ((ids, now, e, tr) # rest) d =
     (case applyRevenueCatEvent ids now (ConsumableEvent e tr) d of
        (Inr res, d') \<Rightarrow> if ar_outcome res = Duplicate then None else applyAll rest d'
      | (Inl _, _) \<Rightarrow> None)"

definition transitions :: "consumableArrival list \<Rightarrow> revenueCatConsumableTransition list" where
  "transitions es = map (\<lambda>(_, _, _, tr). tr) es"

lemma consumable_owes:
  assumes "billingKeys d" and "applyConsumableTransition ids now e tr d = (Inr res, d')"
  shows "superLikes u d' - owes rc_superLikeUnits u (findTransaction (ct_providerTransactionId tr) d') =
      superLikes u d - owes rc_superLikeUnits u (findTransaction (ct_providerTransactionId tr) d) \<and>
    boosts u d' - owes rc_boostUnits u (findTransaction (ct_providerTransactionId tr) d') =
      boosts u d - owes rc_boostUnits u (findTransaction (ct_providerTransactionId tr) d)"
  using assms(2)
proof (cases rule: applyConsumableTransition_cases)
  case (newer c l)
  have own: "rc_userId c = pgUuid (ct_userId tr)"
    using sameTransaction_owner [OF assms(1) newer(1,2)] by simp
  show ?thesis
    using newer(1,2) own unfolding newer(4)
    by (simp add: credits_applyDelta transitionDelta_units findTransaction_settle [OF assms(1) newer(1)])
       (auto simp: owes_def grantOf_def settleRow_def sameTransaction_def)
next
  case (new l)
  then show ?thesis
    by (simp add: credits_applyDelta transitionDelta_units findTransaction_insert)
       (auto simp: owes_def grantOf_def newTransaction_def)
next
  case (stale c l)
  then show ?thesis by simp
qed

lemma consumable_event:
  assumes "billingKeys d" and "applyRevenueCatEvent ids now (ConsumableEvent e tr) d = (Inr res, d')"
    and "ar_outcome res \<noteq> Duplicate" and p: "ct_providerTransactionId tr = p"
  shows "\<exists>r. findTransaction p d' = Some r \<and> settled tr (findTransaction p d) r"
    and "superLikes u d' - owes rc_superLikeUnits u (findTransaction p d') =
      superLikes u d - owes rc_superLikeUnits u (findTransaction p d)"
    and "boosts u d' - owes rc_boostUnits u (findTransaction p d') =
      boosts u d - owes rc_boostUnits u (findTransaction p d)"
proof -
  define d0 where "d0 = recordEvent (ids 0) now e d"
  have fresh: "\<not> keyTaken be_providerEventId (ev_providerEventId e) (billingEvents d)"
    "applyConsumableTransition ids now (ev_providerEventId e) tr d0 = (Inr res, d')"
    using assms(2,3) by (auto elim!: applyRevenueCatEvent_cases simp: applyEvent_def recordedEvent_def d0_def)
  have keys: "billingKeys d0"
    unfolding d0_def using assms(1) fresh(1) by (rule recordEvent_keys)
  show "\<exists>r. findTransaction p d' = Some r \<and> settled tr (findTransaction p d) r"
    and "superLikes u d' - owes rc_superLikeUnits u (findTransaction p d') =
      superLikes u d - owes rc_superLikeUnits u (findTransaction p d)"
    and "boosts u d' - owes rc_boostUnits u (findTransaction p d') =
      boosts u d - owes rc_boostUnits u (findTransaction p d)"
    using consumable_transaction [OF keys fresh(2)] consumable_owes [OF keys fresh(2), of u]
    unfolding p by (simp_all add: d0_def)
qed

text \<open>The row that the events so far lead to: none yet, or one with the owner and the units of all of
  them and the state of the newest.\<close>

definition newestOf :: "revenueCatConsumableTransition list \<Rightarrow> revenueCatTransaction option \<Rightarrow> bool" where
  "newestOf trs c =
     (case c of None \<Rightarrow> trs = []
      | Some r \<Rightarrow> list_all (\<lambda>tr. rc_userId r = pgUuid (ct_userId tr) \<and>
          rc_superLikeUnits r = un_superLikeCredits (ct_units tr) \<and>
          rc_boostUnits r = un_boostCredits (ct_units tr) \<and>
          ct_eventTimestampMs tr \<le> rc_stateEventTimestampMs r \<and>
          (ct_eventTimestampMs tr = rc_stateEventTimestampMs r \<longrightarrow> rc_state r = ct_targetState tr)) trs \<and>
        rc_stateEventTimestampMs r \<in> set (map ct_eventTimestampMs trs))"

lemma settled_newest:
  assumes "newestOf trs c" and "settled tr c r"
  shows "newestOf (tr # trs) (Some r)"
proof (cases c)
  case None
  with assms show ?thesis
    by (simp add: newestOf_def settled_def)
next
  case (Some c')
  show ?thesis
  proof (cases "rc_stateEventTimestampMs c' < ct_eventTimestampMs tr")
    case True
    with Some assms show ?thesis
      by (fastforce simp: newestOf_def settled_def list_all_iff)
  next
    case False
    with Some assms have "r = c'" by (simp add: settled_def)
    with Some False assms show ?thesis
      by (auto simp: newestOf_def settled_def)
  qed
qed

lemma applyAll_settles:
  assumes "billingKeys d" and "applyAll es d = Some d'" and "newestOf trs (findTransaction p d)"
    and "\<And>tr. tr \<in> set (transitions es) \<Longrightarrow> ct_providerTransactionId tr = p"
  shows "newestOf (rev (transitions es) @ trs) (findTransaction p d') \<and>
    superLikes u d' - owes rc_superLikeUnits u (findTransaction p d') =
      superLikes u d - owes rc_superLikeUnits u (findTransaction p d) \<and>
    boosts u d' - owes rc_boostUnits u (findTransaction p d') =
      boosts u d - owes rc_boostUnits u (findTransaction p d)"
  using assms
proof (induction es arbitrary: d trs)
  case Nil
  then show ?case by (simp add: transitions_def)
next
  case (Cons a es)
  obtain ids now e tr where a: "a = (ids, now, e, tr)"
    by (cases a)
  obtain res d1 where step: "applyRevenueCatEvent ids now (ConsumableEvent e tr) d = (Inr res, d1)"
    "ar_outcome res \<noteq> Duplicate" and rest: "applyAll es d1 = Some d'"
    using Cons.prems(2) by (auto simp: a split: prod.splits sum.splits if_splits)
  have p: "ct_providerTransactionId tr = p"
    by (rule Cons.prems(4)) (simp add: a transitions_def)
  note event = consumable_event [OF Cons.prems(1) step p]
  have "newestOf (tr # trs) (findTransaction p d1)"
    using event(1) settled_newest [OF Cons.prems(3)] by auto
  moreover have "ct_providerTransactionId tr' = p" if "tr' \<in> set (transitions es)" for tr'
    by (rule Cons.prems(4)) (use that in \<open>simp add: transitions_def\<close>)
  ultimately have "newestOf (rev (transitions es) @ tr # trs) (findTransaction p d') \<and>
    superLikes u d' - owes rc_superLikeUnits u (findTransaction p d') =
      superLikes u d1 - owes rc_superLikeUnits u (findTransaction p d1) \<and>
    boosts u d' - owes rc_boostUnits u (findTransaction p d') =
      boosts u d1 - owes rc_boostUnits u (findTransaction p d1)"
    by (intro Cons.IH applyRevenueCatEvent_keys [OF Cons.prems(1) step(1)] rest)
  moreover have "rev (transitions (a # es)) @ trs = rev (transitions es) @ tr # trs"
    by (simp add: a transitions_def)
  ultimately show ?case
    using event(2,3) by simp
qed

text \<open>C19. The order of arrival does not matter: when all events about one purchase have been accepted,
  in whatever order they came, the owner has the purchased units exactly if the newest event grants
  them, and nobody else's credits moved.\<close>

theorem purchase_settles:
  assumes "billingKeys d" and "findTransaction p d = None" and "applyAll es d = Some d'"
    and "\<And>tr. tr \<in> set (transitions es) \<Longrightarrow> ct_providerTransactionId tr = p"
    and "newest \<in> set (transitions es)"
    and "\<And>tr. tr \<in> set (transitions es) \<Longrightarrow> ct_eventTimestampMs tr \<le> ct_eventTimestampMs newest"
  shows "superLikes u d' = superLikes u d +
      (if ct_targetState newest = Granted \<and> u = pgUuid (ct_userId newest)
       then un_superLikeCredits (ct_units newest) else 0) \<and>
    boosts u d' = boosts u d +
      (if ct_targetState newest = Granted \<and> u = pgUuid (ct_userId newest)
       then un_boostCredits (ct_units newest) else 0)"
proof -
  note run = applyAll_settles [OF assms(1,3) _ assms(4), of "[]" u]
  have "newestOf (rev (transitions es)) (findTransaction p d')"
    using run assms(2) by (simp add: newestOf_def)
  moreover have "transitions es \<noteq> []"
    using assms(5) by auto
  ultimately obtain r where r: "findTransaction p d' = Some r" "newestOf (rev (transitions es)) (Some r)"
    by (cases "findTransaction p d'") (auto simp: newestOf_def)
  have "rc_stateEventTimestampMs r = ct_eventTimestampMs newest"
  proof (rule antisym)
    obtain tr where "tr \<in> set (transitions es)" "rc_stateEventTimestampMs r = ct_eventTimestampMs tr"
      using r(2) by (auto simp: newestOf_def)
    with assms(6) show "rc_stateEventTimestampMs r \<le> ct_eventTimestampMs newest" by simp
    show "ct_eventTimestampMs newest \<le> rc_stateEventTimestampMs r"
      using r(2) assms(5) by (simp add: newestOf_def list_all_iff)
  qed
  then have "rc_state r = ct_targetState newest" "rc_userId r = pgUuid (ct_userId newest)"
    "rc_superLikeUnits r = un_superLikeCredits (ct_units newest)"
    "rc_boostUnits r = un_boostCredits (ct_units newest)"
    using r(2) assms(5) by (auto simp: newestOf_def list_all_iff)
  then show ?thesis
    using run r(1) assms(2) by (auto simp: newestOf_def owes_def grantOf_def)
qed


definition signed ::
  "(jsstring \<Rightarrow> nat list \<Rightarrow> nat list) \<Rightarrow> config \<Rightarrow> timestamp \<Rightarrow> nat list \<Rightarrow> jsstring option \<Rightarrow> bool" where
  "signed hmac config now rawBody signature =
     (case (config ''REVENUECAT_WEBHOOK_SECRET'', Option.bind signature matchSignature) of
        (Some secret, Some (t, hex)) \<Rightarrow>
          secret \<noteq> [] \<and> fromHex hex = hmac secret (t @ js ''.'' @ rawBody) \<and>
          \<bar>now - 1000 * decimal t\<bar> \<le> 5 * 60 * 1000
      | _ \<Rightarrow> False)"

lemma assertSignature_signed:
  "assertSignature hmac config now rawBody signature d = (Inr x, d') \<Longrightarrow>
   signed hmac config now rawBody signature"
  by (auto simp: assertSignature_def signed_def throwIf_apply Let_def js_def
      REVENUECAT_SIGNATURE_TOLERANCE_SECONDS_def split: option.splits if_splits)

lemma optional_reads: "reads (optionalString v)" "reads (optionalTimestamp w)"
  by (simp_all add: reads_def optionalString_def optionalTimestamp_def split: option.split json.split)

lemma required_reads: "reads (requiredString v e)" "reads (requiredUuid v e)" "reads (requiredTimestamp w e)"
  by (auto simp: reads_def requiredString_def requiredUuid_def requiredTimestamp_def andThen_def
      throwIf_def split: option.split)

lemmas read_rules = optional_reads [THEN preserves_reads] required_reads [THEN preserves_reads]
  preserves_intros

lemma assertSignature_reads: "reads (assertSignature hmac config now rawBody signature)"
  unfolding assertSignature_def by (intro readsI read_rules)

lemma getRevenueCatEvent_reads: "reads (getRevenueCatEvent payload)"
  unfolding getRevenueCatEvent_def Let_def
  by (rule readsI) (auto intro!: read_rules split: json.split)

lemma assertProductionEvent_reads: "reads (assertProductionEvent config event)"
  unfolding assertProductionEvent_def by (intro readsI read_rules)

lemma revenueCatInput_reads: "reads (revenueCatInput now e type event)"
  unfolding revenueCatInput_def
  by (rule readsI) (auto intro!: read_rules split: productKind.split)

lemma applyRevenueCatEvent_atomic: "atomic (applyRevenueCatEvent ids now input)"
  unfolding applyRevenueCatEvent_def by (rule atomic_basic)

lemma handleRevenueCatWebhook_atomic:
  "atomic (handleRevenueCatWebhook hmac sha256 config enabled ids now rawBody signature payload)"
  unfolding handleRevenueCatWebhook_def Let_def
  by (intro atomic_reads [OF assertSignature_reads] atomic_reads [OF getRevenueCatEvent_reads]
      atomic_reads [OF required_reads(1)] atomic_reads [OF assertProductionEvent_reads]
      atomic_reads [OF revenueCatInput_reads] atomic_total [OF applyRevenueCatEvent_atomic] atomic_intros)

text \<open>C22. The webhook is authenticated and atomic: a call that fails changes nothing, and a call that
  returns or changes anything carried, in the last five minutes, the HMAC of its timestamp and body
  under the configured secret.\<close>

theorem webhook_authenticated_atomic:
  assumes "handleRevenueCatWebhook hmac sha256 config enabled ids now rawBody signature payload d = (r, d')"
  shows "(case r of Inl _ \<Rightarrow> d' = d | Inr _ \<Rightarrow> signed hmac config now rawBody signature) \<and>
    (d' \<noteq> d \<longrightarrow> signed hmac config now rawBody signature)"
proof (cases r)
  case (Inl e)
  with assms atomicD [OF handleRevenueCatWebhook_atomic] show ?thesis
    by fastforce
next
  case (Inr x)
  with assms have "signed hmac config now rawBody signature"
    by (auto simp: handleRevenueCatWebhook_def andThen_Inr_iff dest: assertSignature_signed)
  with Inr show ?thesis by simp
qed

text \<open>A purchase whose \<^verbatim>\<open>app_user_id\<close> is not in lower case cannot be refunded: the first event
  stores the owner in lower case, and every later event of the transaction is rejected as belonging
  to another owner, without effect.\<close>

lemma refund_upper_case_rejected:
  assumes "billingKeys d" and "findTransaction (ct_providerTransactionId tr) d = Some c"
    and "\<not> canonicalUuid (ct_userId tr)"
    and "\<not> keyTaken be_id (ids 0) (billingEvents d)"
    and "\<not> keyTaken be_providerEventId (ev_providerEventId e) (billingEvents d)"
  shows "applyRevenueCatEvent ids now (ConsumableEvent e tr) d =
    (Inl (ErrorCode ''REVENUECAT_TRANSACTION_OWNER_CONFLICT''), d)"
proof -
  have "canonicalUuid (rc_userId c)"
    using assms(1,2) by (auto simp: billingKeys_def list_all_iff dest!: findTransaction_mem)
  then have "rc_userId c \<noteq> ct_userId tr"
    using assms(3) by auto
  with assms(2,4,5) show ?thesis
    by (simp add: applyRevenueCatEvent_def transaction_def recordedEvent_def Let_def
        applyConsumableTransition_def assertTransactionIdentity_def)
qed


section \<open>Witnesses\<close>

lemmas billing_simps [eval_simps] = applyRevenueCatEvent_def recordedEvent_def recordEvent_def
  applyConsumableTransition_def assertTransactionIdentity_def transitionDelta_def ZERO_DELTA_def
  addCredits_def applyDelta_def settleRow_def newTransaction_def insertTransaction_def
  insertLedgerEntry_def findTransaction_def applySubscription_def findSubscription_def
  newSubscription_def setSubscription_def orKeep_def superLikes_def boosts_def grantOf_def granted_def
  billingKeys_def transitions_def

definition sampleTransition :: "transactionState \<Rightarrow> int \<Rightarrow> revenueCatConsumableTransition" where
  "sampleTransition s t = \<lparr>ct_providerTransactionId = js ''tx'', ct_originalTransactionId = js ''otx'',
     ct_userId = js ''a1'', ct_canonicalProductId = js ''p'', ct_providerProductId = js ''p'',
     ct_eventTimestampMs = t, ct_targetState = s,
     ct_units = \<lparr>un_superLikeCredits = 5, un_boostCredits = 0\<rparr>\<rparr>"

definition sampleEvent :: "string \<Rightarrow> revenueCatRecordedEvent" where
  "sampleEvent i = \<lparr>ev_providerEventId = js i, ev_payloadHash = js ''h''\<rparr>"

definition sampleSubscription :: revenueCatSubscription where
  "sampleSubscription = \<lparr>sb_planId = js ''gold'', sb_providerCustomerId = None,
     sb_providerProductId = js ''p'', sb_eventTimestampMs = 7, sb_startsAt = None, sb_endsAt = None,
     sb_status = Active\<rparr>"

lemmas sample_billing [eval_simps] = sampleTransition_def sampleEvent_def sampleSubscription_def

lemma sampleDb_billingKeys: "billingKeys sampleDb"
  by (simp add: eval_simps)

definition samplePurchase :: db where
  "samplePurchase = snd (applyRevenueCatEvent (\<lambda>k. [k]) 9
     (ConsumableEvent (sampleEvent ''e1'') (sampleTransition Granted 3)) sampleDb)"

theorem credits_follow_grants_witness:
  "superLikes (js ''a1'') samplePurchase = 5 \<and> billingKeys samplePurchase \<and>
   superLikes (js ''a1'') samplePurchase - superLikes (js ''a1'') sampleDb =
     granted rc_superLikeUnits (js ''a1'') samplePurchase - granted rc_superLikeUnits (js ''a1'') sampleDb"
proof -
  have "superLikes (js ''a1'') samplePurchase = 5"
    by (simp add: samplePurchase_def eval_simps cong: run_congs)
  with credits_follow_grants [OF sampleDb_billingKeys] show ?thesis
    unfolding samplePurchase_def by blast
qed

lemma samplePurchase_run:
  "\<exists>res. applyRevenueCatEvent (\<lambda>k. [k]) 9
     (ConsumableEvent (sampleEvent ''e1'') (sampleTransition Granted 3)) sampleDb = (Inr res, samplePurchase)"
  by (simp add: samplePurchase_def eval_simps cong: run_congs)

theorem event_applied_once_witness:
  "applyRevenueCatEvent (\<lambda>k. [k, k]) 10
     (ConsumableEvent (sampleEvent ''e1'') (sampleTransition Granted 3)) samplePurchase =
   (Inr \<lparr>ar_outcome = Duplicate, ar_effectiveState = None, ar_balanceDelta = ZERO_DELTA\<rparr>, samplePurchase)"
proof -
  obtain res where "applyRevenueCatEvent (\<lambda>k. [k]) 9
     (ConsumableEvent (sampleEvent ''e1'') (sampleTransition Granted 3)) sampleDb = (Inr res, samplePurchase)"
    using samplePurchase_run by blast
  from event_applied_once [OF sampleDb_billingKeys this refl] show ?thesis by simp
qed

lemma subscription_newest_wins_witness:
  "\<exists>res d' s. applyRevenueCatEvent (\<lambda>k. [k]) 9
     (SubscriptionEvent (sampleEvent ''e1'') (js ''a1'') sampleSubscription) sampleDb = (Inr res, d') \<and>
   ar_outcome res = Applied \<and> subscriptionClock (js ''a1'') d' = 7 \<and>
   findSubscription (js ''a1'') d' = Some s \<and> subscriptionRow (js ''a1'') sampleSubscription s"
proof -
  obtain res d' where run: "applyRevenueCatEvent (\<lambda>k. [k]) 9
     (SubscriptionEvent (sampleEvent ''e1'') (js ''a1'') sampleSubscription) sampleDb = (Inr res, d')"
    and "ar_outcome res = Applied"
    by (simp add: eval_simps cong: run_congs)
  moreover have "subscriptionClock (js ''a1'') sampleDb = -1" "sb_eventTimestampMs sampleSubscription = 7"
    by (simp_all add: subscriptionClock_def eval_simps)
  ultimately show ?thesis
    using subscription_newest_wins [OF sampleDb_billingKeys run] by auto
qed

definition sampleRefund :: "consumableArrival list" where
  "sampleRefund =
     [(\<lambda>k. [k], 9, sampleEvent ''e1'', sampleTransition Refunded 5),
      (\<lambda>k. [k, 1], 9, sampleEvent ''e2'', sampleTransition Granted 3),
      (\<lambda>k. [k, 2], 9, sampleEvent ''e3'', sampleTransition Granted 8)]"

theorem purchase_settles_witness:
  "\<exists>d'. applyAll sampleRefund sampleDb = Some d' \<and>
     superLikes (js ''a1'') d' = superLikes (js ''a1'') sampleDb + 5"
proof -
  obtain d' where d': "applyAll sampleRefund sampleDb = Some d'"
    by (simp add: sampleRefund_def eval_simps cong: run_congs)
  have trs: "transitions sampleRefund =
      [sampleTransition Refunded 5, sampleTransition Granted 3, sampleTransition Granted 8]"
    by (simp add: transitions_def sampleRefund_def)
  have "findTransaction (js ''tx'') sampleDb = None"
    by (simp add: eval_simps)
  then have "superLikes (js ''a1'') d' = superLikes (js ''a1'') sampleDb +
      (if ct_targetState (sampleTransition Granted 8) = Granted \<and>
         js ''a1'' = pgUuid (ct_userId (sampleTransition Granted 8))
       then un_superLikeCredits (ct_units (sampleTransition Granted 8)) else 0)"
    by (rule purchase_settles [OF sampleDb_billingKeys _ d', THEN conjunct1])
       (auto simp: trs sampleTransition_def)
  with d' show ?thesis
    by (simp add: eval_simps)
qed

definition sampleConfig :: config where
  "sampleConfig key = Some (js ''secret'')"

definition sampleHmac :: "jsstring \<Rightarrow> nat list \<Rightarrow> nat list" where
  "sampleHmac secret message = replicate 32 0"

definition sampleSignature :: jsstring where
  "sampleSignature = js ''t=1,v1='' @ replicate (2 * 32) 48"

definition samplePayload :: json where
  "samplePayload = JObject [(js ''id'', JString (js ''e1'')), (js ''type'', JString (js ''TEST''))]"

lemma fromHex_zeros: "fromHex (replicate (2 * n) 48) = replicate n 0"
  by (induction n) (simp_all add: hexValue_def)

lemma sampleSignature_valid:
  "assertSignature sampleHmac sampleConfig 1000 [] (Some sampleSignature) d = (Inr (), d)"
  using fromHex_zeros [of 32]
  by (simp add: assertSignature_def matchSignature_def sampleSignature_def sampleHmac_def sampleConfig_def
      decimal_def MAX_SAFE_INTEGER_def throwIf_apply REVENUECAT_SIGNATURE_TOLERANCE_SECONDS_def
      isDigit_def isHexDigit_def js_def list_all_iff)

theorem webhook_authenticated_atomic_witness:
  "\<exists>r d'. handleRevenueCatWebhook sampleHmac (\<lambda>_. js ''h'') sampleConfig False (\<lambda>k. [k]) 1000 []
     (Some sampleSignature) samplePayload sampleDb = (Inr r, d') \<and>
   billingEvents d' \<noteq> [] \<and> signed sampleHmac sampleConfig 1000 [] (Some sampleSignature)"
proof -
  obtain r d' where run: "handleRevenueCatWebhook sampleHmac (\<lambda>_. js ''h'') sampleConfig False (\<lambda>k. [k]) 1000 []
     (Some sampleSignature) samplePayload sampleDb = (Inr r, d')" and "billingEvents d' \<noteq> []"
    by (simp add: eval_simps handleRevenueCatWebhook_def sampleSignature_valid getRevenueCatEvent_def
        samplePayload_def optionalString_def optionalTimestamp_def requiredString_def
        REVENUECAT_NOOP_EVENT_TYPES_def cong: run_congs)
  with webhook_authenticated_atomic [OF run] show ?thesis by auto
qed

lemma refund_upper_case_rejected_witness:
  "applyRevenueCatEvent (\<lambda>k. [k, 1]) 10
     (ConsumableEvent (sampleEvent ''e2'') ((sampleTransition Refunded 5)\<lparr>ct_userId := js ''A1''\<rparr>)) samplePurchase =
   (Inl (ErrorCode ''REVENUECAT_TRANSACTION_OWNER_CONFLICT''), samplePurchase)"
proof -
  let ?tr = "(sampleTransition Refunded 5)\<lparr>ct_userId := js ''A1''\<rparr>"
  have "\<exists>c. findTransaction (ct_providerTransactionId ?tr) samplePurchase = Some c"
    "\<not> keyTaken be_id [0, 1] (billingEvents samplePurchase)"
    "\<not> keyTaken be_providerEventId (ev_providerEventId (sampleEvent ''e2'')) (billingEvents samplePurchase)"
    by (simp_all add: samplePurchase_def eval_simps cong: run_congs)
  moreover have "\<not> canonicalUuid (ct_userId ?tr)"
    by (simp add: canonicalUuid_def eval_simps)
  moreover have "billingKeys samplePurchase"
    by (simp add: samplePurchase_def eval_simps canonicalUuid_def cong: run_congs)
  ultimately show ?thesis
    using refund_upper_case_rejected [of samplePurchase ?tr _ "\<lambda>k. [k, 1]"] by auto
qed

end
