(* ===== verification/Dates.thy ===== *)
theory Dates
  imports Prelude
begin

text \<open>
  What the backend uses of \<^verbatim>\<open>Date\<close>: a time is the number of milliseconds since 1970-01-01 UTC, a
  calendar day is a triple of year, month (1 to 12) and day. Leap seconds do not exist in
  \<^verbatim>\<open>Date\<close>, so a day has 86,400,000 milliseconds.
\<close>

definition MS_PER_HOUR :: int where
  "MS_PER_HOUR = 60 * 60 * 1000"

definition MS_PER_DAY :: int where
  "MS_PER_DAY = 24 * 60 * 60 * 1000"

definition startOfUtcDay :: "int \<Rightarrow> int" where
  "startOfUtcDay now = now - now mod MS_PER_DAY"

text \<open>\<^verbatim>\<open>getUTCHours\<close>.\<close>

definition utcHours :: "int \<Rightarrow> int" where
  "utcHours now = now mod MS_PER_DAY div MS_PER_HOUR"

definition isLeapYear :: "int \<Rightarrow> bool" where
  "isLeapYear y \<longleftrightarrow> y mod 4 = 0 \<and> (y mod 100 \<noteq> 0 \<or> y mod 400 = 0)"

definition daysInMonth :: "int \<Rightarrow> int \<Rightarrow> int" where
  "daysInMonth y m =
     (if m = 2 then (if isLeapYear y then 29 else 28)
      else if m = 4 \<or> m = 6 \<or> m = 9 \<or> m = 11 then 30 else 31)"

definition validDay :: "int \<times> int \<times> int \<Rightarrow> bool" where
  "validDay = (\<lambda>(y, m, d). 1 \<le> m \<and> m \<le> 12 \<and> 1 \<le> d \<and> d \<le> daysInMonth y m)"

text \<open>\<^verbatim>\<open>getUTCFullYear\<close>, \<^verbatim>\<open>getUTCMonth\<close> (plus one) and \<^verbatim>\<open>getUTCDate\<close>: the day number counted in
  years that start in March and in cycles of 400 years (146,097 days).\<close>

definition utcDay :: "int \<Rightarrow> int \<times> int \<times> int" where
  "utcDay now =
     (let z = now div MS_PER_DAY + 719468;
          era = z div 146097;
          doe = z mod 146097;
          yoe = (doe - doe div 1460 + doe div 36524 - doe div 146096) div 365;
          doy = doe - (365 * yoe + yoe div 4 - yoe div 100);
          mp = (5 * doy + 2) div 153;
          d = doy - (153 * mp + 2) div 5 + 1;
          m = (if mp < 10 then mp + 3 else mp - 9)
      in (yoe + era * 400 + (if m \<le> 2 then 1 else 0), m, d))"

text \<open>The number of full years between two days, as the services compute it.\<close>

definition fullYears :: "int \<times> int \<times> int \<Rightarrow> int \<times> int \<times> int \<Rightarrow> int" where
  "fullYears birth today =
     (case (birth, today) of ((by, bm, bd), (ty, tm, td)) \<Rightarrow>
        if tm < bm \<or> tm = bm \<and> td < bd then ty - by - 1 else ty - by)"

text \<open>The text \<^verbatim>\<open>YYYY-MM-DD\<close>.\<close>

definition digitAt :: "jsstring \<Rightarrow> nat \<Rightarrow> int" where
  "digitAt s k = int (s ! k) - 48"

definition dateClasses :: "(nat \<Rightarrow> bool) list" where
  "dateClasses = replicate 4 isDigit @ [\<lambda>c. c = 45] @ replicate 2 isDigit @ [\<lambda>c. c = 45] @ replicate 2 isDigit"

definition dateRegex :: "jsstring \<Rightarrow> bool" where
  "dateRegex s \<longleftrightarrow> matchesClasses dateClasses s"

definition dayOfText :: "jsstring \<Rightarrow> int \<times> int \<times> int" where
  "dayOfText s =
     (1000 * digitAt s 0 + 100 * digitAt s 1 + 10 * digitAt s 2 + digitAt s 3,
      10 * digitAt s 5 + digitAt s 6, 10 * digitAt s 8 + digitAt s 9)"

section \<open>Facts\<close>

text \<open>A person of \<open>n\<close> full years has had the \<open>n\<close>-th birthday.\<close>

lemma fullYears_iff:
  "n \<le> fullYears (by, bm, bd) (ty, tm, td) \<longleftrightarrow> (by + n, bm, bd) \<le> (ty, tm, td)"
  by (auto simp: fullYears_def less_eq_prod_def)

lemma startOfUtcDay_div: "startOfUtcDay now = MS_PER_DAY * (now div MS_PER_DAY)"
  by (simp add: startOfUtcDay_def minus_mod_eq_mult_div)

lemma startOfUtcDay_bounds: "startOfUtcDay now \<le> now" "now < startOfUtcDay now + MS_PER_DAY"
  by (simp_all add: startOfUtcDay_def MS_PER_DAY_def)

lemma startOfUtcDay_same:
  "startOfUtcDay now \<le> t \<Longrightarrow> t < startOfUtcDay now + MS_PER_DAY \<Longrightarrow> startOfUtcDay t = startOfUtcDay now"
  unfolding startOfUtcDay_div
  using int_div_pos_eq [of t MS_PER_DAY "now div MS_PER_DAY" "t - MS_PER_DAY * (now div MS_PER_DAY)"]
  by (simp add: MS_PER_DAY_def)

end
