(* ===== verification/User.thy ===== *)
theory User
  imports Notification Dates
begin

text \<open>
  The user component (\<^verbatim>\<open>src/modules/user\<close>): profiles and their photos, the current subscription,
  and the deletion of an account: scheduled with a grace period, restored by a sign-in, claimed by
  the maintenance worker under a lease, and carried out by making the account anonymous. The test
  \<^verbatim>\<open>validate\<close> of the package \<^verbatim>\<open>uuid\<close> is a parameter.
\<close>

section \<open>Data\<close>

definition PROFILE_INTRO_MAX_LENGTH :: nat where
  "PROFILE_INTRO_MAX_LENGTH = 60"

definition PROFILE_PHOTO_MIN_COUNT :: nat where
  "PROFILE_PHOTO_MIN_COUNT = 1"

definition PROFILE_PHOTO_MAX_COUNT :: nat where
  "PROFILE_PHOTO_MAX_COUNT = 3"

definition DELETION_GRACE_DAYS :: int where
  "DELETION_GRACE_DAYS = 14"

definition DELETION_LEASE_MS :: int where
  "DELETION_LEASE_MS = 5 * 60 * 1000"

definition KOREAN_REGIONS :: "jsstring list" where
  "KOREAN_REGIONS =
     [[49436, 50872], [48512, 49328], [45824, 44396], [51064, 52380], [44305, 51452], [45824, 51204],
      [50872, 49328], [49464, 51333], [44221, 44592], [44053, 50896], [52649, 48513], [52649, 45224],
      [51204, 48513], [51204, 45224], [44221, 48513], [44221, 45224], [51228, 51452]]"

record updateUserProfileInput =
  up_userName :: jsstring
  up_birthDate :: jsstring
  up_region :: jsstring
  up_interestedGender :: jsstring
  up_intro :: jsstring
  up_photoUploadIds :: "jsstring list"

record profileValues =
  pf_userName :: jsstring
  pf_birthDate :: jsstring
  pf_region :: jsstring
  pf_interestedGender :: interestedGender
  pf_intro :: jsstring
  pf_photoUploadIds :: "jsstring list"

record deletionJob =
  dj_userId :: uuid
  dj_deletionLeaseExpiresAt :: timestamp

section \<open>Repository\<close>

definition repoFindUser :: "jsstring \<Rightarrow> db \<Rightarrow> user option" where
  "repoFindUser userId d = findUserRow userId d"

definition findProfilePhotos :: "jsstring \<Rightarrow> db \<Rightarrow> userProfilePhoto list" where
  "findProfilePhotos userId d =
     sort_key pp_position (filter (\<lambda>p. pp_userId p = pgUuid userId) (userProfilePhotos d))"

definition findUserProfile :: "jsstring \<Rightarrow> db \<Rightarrow> (user \<times> userProfilePhoto list) option" where
  "findUserProfile userId d =
     map_option (\<lambda>u. (u, findProfilePhotos userId d)) (repoFindUser userId d)"

definition activeSubscription :: "timestamp \<Rightarrow> userSubscription \<Rightarrow> bool" where
  "activeSubscription now s \<longleftrightarrow> us_status s = Active \<and>
     (case us_currentPeriodEndsAt s of None \<Rightarrow> True | Some t \<Rightarrow> now < t)"

definition findCurrentSubscription :: "timestamp \<Rightarrow> jsstring \<Rightarrow> db \<Rightarrow> userSubscription option" where
  "findCurrentSubscription now userId d =
     firstBy (\<lambda>s. - us_createdAt s) (\<lambda>s. us_userId s = pgUuid userId \<and> activeSubscription now s)
       (userSubscriptions d)"

text \<open>What a photo of the request may stand for: a verified upload, or a photo that predates
  uploads. The two loops fill a map and refuse a second entry under a key.\<close>

record photoAuthority =
  ph_photoId :: "uuid option"
  ph_uploadId :: "uuid option"
  ph_url :: jsstring

definition addAuthority ::
  "uuid \<Rightarrow> photoAuthority option \<Rightarrow> (uuid \<times> photoAuthority) list \<Rightarrow> (uuid \<times> photoAuthority) list option" where
  "addAuthority k a m =
     (case a of None \<Rightarrow> None
      | Some v \<Rightarrow> if map_of m k \<noteq> None then None else Some ((k, v) # m))"

fun authorities ::
  "(uuid \<times> photoAuthority option) list \<Rightarrow> (uuid \<times> photoAuthority) list \<Rightarrow>
   (uuid \<times> photoAuthority) list option" where
  "authorities [] m = Some m"
| "authorities ((k, a) # rest) m =
     (case addAuthority k a m of None \<Rightarrow> None | Some m' \<Rightarrow> authorities rest m')"

definition uploadAuthority :: "profileUpload \<Rightarrow> uuid \<times> photoAuthority option" where
  "uploadAuthority u =
     (pu_id u, if truthy (pu_publicUrl u)
        then Some \<lparr>ph_photoId = None, ph_uploadId = Some (pu_id u), ph_url = the (pu_publicUrl u)\<rparr>
        else None)"

definition legacyAuthority :: "userProfilePhoto \<Rightarrow> uuid \<times> photoAuthority option" where
  "legacyAuthority p =
     (pp_id p, Some \<lparr>ph_photoId = Some (pp_id p), ph_uploadId = None, ph_url = pp_url p\<rparr>)"

definition newPhoto ::
  "(nat \<Rightarrow> uuid) \<Rightarrow> timestamp \<Rightarrow> uuid \<Rightarrow> nat \<times> photoAuthority \<Rightarrow> userProfilePhoto" where
  "newPhoto ids now userId = (\<lambda>(k, a).
     \<lparr>pp_id = (case ph_photoId a of None \<Rightarrow> ids k | Some i \<Rightarrow> i), pp_userId = userId,
      pp_uploadId = ph_uploadId a, pp_url = ph_url a, pp_position = int k, pp_createdAt = now\<rparr>)"

text \<open>The unique constraints on photos; the index on uploads ignores photos without one.\<close>

definition photoKeys :: "userProfilePhoto table \<Rightarrow> bool" where
  "photoKeys t \<longleftrightarrow> uniqueKey pp_id t \<and> uniqueKey (\<lambda>p. (pp_userId p, pp_position p)) t \<and>
     uniqueKey pp_uploadId (filter (\<lambda>p. pp_uploadId p \<noteq> None) t)"

definition setProfile :: "timestamp \<Rightarrow> profileValues \<Rightarrow> user \<Rightarrow> user" where
  "setProfile now v u = u\<lparr>u_userName := pf_userName v, u_birthDate := Some (pf_birthDate v),
     u_region := Some (pf_region v), u_interestedGender := Some (pf_interestedGender v),
     u_intro := pf_intro v, u_profileCompletedAt := Some now, u_updatedAt := now\<rparr>"

definition replaceProfile ::
  "(nat \<Rightarrow> uuid) \<Rightarrow> timestamp \<Rightarrow> jsstring \<Rightarrow> profileValues \<Rightarrow> (user \<times> userProfilePhoto list) dbprog" where
  "replaceProfile ids now userId v = transaction (
     andThen (throwIf (pf_photoUploadIds v = []) (ErrorCode ''PROFILE_PHOTO_UPLOAD_INVALID'')) (\<lambda>_.
     andThen (query (\<lambda>d. filter (\<lambda>u. pu_userId u = pgUuid userId \<and> pu_status u = Verified \<and>
         List.member (map pgUuid (pf_photoUploadIds v)) (pu_id u)) (profileUploads d))) (\<lambda>uploads.
     andThen (query (\<lambda>d. filter (\<lambda>p. pp_userId p = pgUuid userId \<and> pp_uploadId p = None \<and>
         List.member (map pgUuid (pf_photoUploadIds v)) (pp_id p)) (userProfilePhotos d))) (\<lambda>legacyPhotos.
     case authorities (map uploadAuthority uploads @ map legacyAuthority legacyPhotos) [] of
       None \<Rightarrow> throw (ErrorCode ''PROFILE_PHOTO_UPLOAD_INVALID'')
     | Some authorityById \<Rightarrow>
         let orderedPhotos = map (map_of authorityById) (pf_photoUploadIds v) in
         andThen (throwIf (List.member orderedPhotos None) (ErrorCode ''PROFILE_PHOTO_UPLOAD_INVALID'')) (\<lambda>_.
         andThen (query (findUserRow userId)) (\<lambda>found.
         case found of
           None \<Rightarrow> throw (ErrorCode ''USER_NOT_FOUND'')
         | Some u \<Rightarrow>
             let photos = map (newPhoto ids now (pgUuid userId)) (enumerate 0 (map the orderedPhotos)) in
             andThen (modify (\<lambda>d. d\<lparr>users :=
               updateWhere (\<lambda>u. u_userId u = pgUuid userId) (setProfile now v) (users d)\<rparr>)) (\<lambda>_.
             andThen (modify (\<lambda>d. d\<lparr>userProfilePhotos :=
               deleteWhere (\<lambda>p. pp_userId p = pgUuid userId) (userProfilePhotos d)\<rparr>)) (\<lambda>_.
             andThen (query (\<lambda>d. photoKeys (userProfilePhotos d @ photos))) (\<lambda>unique.
             andThen (throwIf (\<not> unique) (PgError UniqueViolation)) (\<lambda>_.
             andThen (modify (\<lambda>d. d\<lparr>userProfilePhotos := userProfilePhotos d @ photos\<rparr>)) (\<lambda>_.
             ret (setProfile now v u, photos))))))))))))"

definition scheduleDeletion :: "timestamp \<Rightarrow> jsstring \<Rightarrow> timestamp \<Rightarrow> timestamp dbprog" where
  "scheduleDeletion now userId scheduledFor = transaction (
     let P = (\<lambda>u. u_userId u = pgUuid userId \<and> u_deletedAt u = None \<and> u_deletionScheduledAt u = None) in
     andThen (modify (\<lambda>d. d\<lparr>users := updateWhere P (\<lambda>u. u\<lparr>u_hiddenAt := Some now,
       u_deletionScheduledAt := Some scheduledFor, u_updatedAt := now\<rparr>) (users d)\<rparr>)) (\<lambda>_.
     andThen (query (\<lambda>d. findFirst (\<lambda>u. u_userId u = pgUuid userId \<and> u_deletedAt u = None) (users d)))
       (\<lambda>account.
     case Option.bind account u_deletionScheduledAt of
       None \<Rightarrow> throw (ErrorCode ''ACCOUNT_DELETION_SCHEDULE_FAILED'')
     | Some deadline \<Rightarrow>
         andThen (modify (\<lambda>d. d\<lparr>refreshTokens :=
           deleteWhere (\<lambda>t. rt_userId t = pgUuid userId) (refreshTokens d)\<rparr>)) (\<lambda>_.
         andThen (query (\<lambda>d. map tk_id (filter (\<lambda>t. tk_userId t = pgUuid userId) (pushTokens d)))) (\<lambda>tokenIds.
         andThen (modify (cancelOpen now (\<lambda>x. case po_pushTokenId x of None \<Rightarrow> False
           | Some k \<Rightarrow> List.member tokenIds k))) (\<lambda>_.
         andThen (modify (deletePushTokens (\<lambda>t. tk_userId t = pgUuid userId))) (\<lambda>_.
         ret deadline)))))))"

definition restoreScheduledDeletion :: "timestamp \<Rightarrow> jsstring \<Rightarrow> bool dbprog" where
  "restoreScheduledDeletion now userId =
     (let P = (\<lambda>u. u_userId u = pgUuid userId \<and> u_deletedAt u = None \<and>
            (case u_deletionScheduledAt u of None \<Rightarrow> False | Some t \<Rightarrow> now < t))
      in andThen (query (\<lambda>d. existsRow P (users d))) (\<lambda>found.
         andThen (modify (\<lambda>d. d\<lparr>users := updateWhere P (\<lambda>u. u\<lparr>u_hiddenAt := None,
           u_deletionScheduledAt := None, u_deletionLeaseExpiresAt := None, u_deletionAttempts := 0,
           u_updatedAt := now\<rparr>) (users d)\<rparr>)) (\<lambda>_.
         ret found)))"

definition deletionDue :: "timestamp \<Rightarrow> user \<Rightarrow> bool" where
  "deletionDue now u \<longleftrightarrow>
     (case u_deletionScheduledAt u of None \<Rightarrow> False | Some t \<Rightarrow> t \<le> now) \<and> u_deletedAt u = None \<and>
     (case u_deletionLeaseExpiresAt u of None \<Rightarrow> True | Some l \<Rightarrow> l \<le> now)"

definition deletionKey :: "user \<Rightarrow> (bool \<times> int) \<times> jsstring" where
  "deletionKey u = (nullsLast (u_deletionScheduledAt u), u_userId u)"

definition claimDeletion :: "timestamp \<Rightarrow> timestamp \<Rightarrow> user \<Rightarrow> user" where
  "claimDeletion now lease u = u\<lparr>u_deletionLeaseExpiresAt := Some lease,
     u_deletionAttempts := u_deletionAttempts u + 1, u_updatedAt := now\<rparr>"

definition claimDueDeletionBatch ::
  "timestamp \<Rightarrow> timestamp \<Rightarrow> nat \<Rightarrow> (deletionJob list \<times> bool) dbprog" where
  "claimDueDeletionBatch now lease limit = transaction (
     andThen (query (\<lambda>d. map u_userId (take limit (sort_key deletionKey (filter (deletionDue now) (users d))))))
       (\<lambda>userIds.
     if userIds = [] then ret ([], False)
     else
       andThen (modify (\<lambda>d. d\<lparr>users := updateWhere (\<lambda>u. List.member userIds (u_userId u))
         (claimDeletion now lease) (users d)\<rparr>)) (\<lambda>_.
       andThen (query (\<lambda>d. existsRow (deletionDue now) (users d))) (\<lambda>more.
       ret (map (\<lambda>i. \<lparr>dj_userId = i, dj_deletionLeaseExpiresAt = lease\<rparr>) userIds, more)))))"

definition releaseDeletionLease :: "timestamp \<Rightarrow> deletionJob \<Rightarrow> unit dbprog" where
  "releaseDeletionLease now job =
     modify (\<lambda>d. d\<lparr>users := updateWhere (\<lambda>u. u_userId u = pgUuid (dj_userId job) \<and>
         u_deletionLeaseExpiresAt u = Some (dj_deletionLeaseExpiresAt job) \<and> u_deletedAt u = None)
       (\<lambda>u. u\<lparr>u_deletionLeaseExpiresAt := None, u_updatedAt := now\<rparr>) (users d)\<rparr>)"

section \<open>Making an account anonymous\<close>

definition deletionClaimed :: "timestamp \<Rightarrow> deletionJob \<Rightarrow> user \<Rightarrow> bool" where
  "deletionClaimed now job u \<longleftrightarrow>
     u_userId u = pgUuid (dj_userId job) \<and> u_deletedAt u = None \<and>
     (case u_deletionScheduledAt u of None \<Rightarrow> False | Some t \<Rightarrow> t \<le> now) \<and>
     u_deletionLeaseExpiresAt u = Some (dj_deletionLeaseExpiresAt job) \<and>
     now < dj_deletionLeaseExpiresAt job"

text \<open>The two updates of the uploads: they fail, a running finalisation keeps the cleanup away until
  its lease ends, and a final object that exists is to be deleted.\<close>

definition failUpload :: "timestamp \<Rightarrow> profileUpload \<Rightarrow> profileUpload" where
  "failUpload now p = p\<lparr>pu_status := Failed, pu_failureCode := Some ''UPLOAD_OWNER_DELETED'',
     pu_processingLeaseExpiresAt := None,
     pu_cleanupLeaseExpiresAt :=
       (if pu_status p = Processing \<and> pu_finalKey p \<noteq> None then pu_processingLeaseExpiresAt p else None),
     pu_cleanupAttempts := 0, pu_updatedAt := now\<rparr>"

definition requestFinalDeletion :: "timestamp \<Rightarrow> profileUpload \<Rightarrow> profileUpload" where
  "requestFinalDeletion now p = p\<lparr>pu_finalDeletionPendingAt := Some now, pu_updatedAt := now\<rparr>"

definition failUploads :: "timestamp \<Rightarrow> uuid \<Rightarrow> db \<Rightarrow> db" where
  "failUploads now userId d = d\<lparr>profileUploads :=
     updateWhere (\<lambda>p. pu_userId p = userId \<and> pu_finalKey p \<noteq> None \<and> pu_finalDeletedAt p = None)
       (requestFinalDeletion now)
       (updateWhere (\<lambda>p. pu_userId p = userId) (failUpload now) (profileUploads d))\<rparr>"

definition deletePersonalRows :: "uuid \<Rightarrow> db \<Rightarrow> db" where
  "deletePersonalRows userId d =
     (let d1 = d\<lparr>userProfilePhotos := deleteWhere (\<lambda>r. pp_userId r = userId) (userProfilePhotos d)\<rparr>;
          d2 = deletePushTokens (\<lambda>t. tk_userId t = userId) d1;
          d3 = d2\<lparr>refreshTokens := deleteWhere (\<lambda>r. rt_userId r = userId) (refreshTokens d2),
            authIdentities := deleteWhere (\<lambda>r. ai_userId r = userId) (authIdentities d2),
            userSubscriptions := deleteWhere (\<lambda>r. us_userId r = userId) (userSubscriptions d2),
            userConsumableBalances := deleteWhere (\<lambda>r. cb_userId r = userId) (userConsumableBalances d2),
            userBoosts := deleteWhere (\<lambda>r. bo_userId r = userId) (userBoosts d2),
            userLikedMeAccesses := deleteWhere (\<lambda>r. la_userId r = userId) (userLikedMeAccesses d2),
            userLikes := deleteWhere (\<lambda>r. ul_likerUserId r = userId \<or> ul_likedUserId r = userId) (userLikes d2),
            matchActions := deleteWhere (\<lambda>r. ma_actorUserId r = userId \<or> ma_targetUserId r = userId)
              (matchActions d2),
            userBlocks := deleteWhere (\<lambda>r. ub_blockerUserId r = userId \<or> ub_blockedUserId r = userId)
              (userBlocks d2)\<rparr>;
          d4 = deleteNotifications (\<lambda>n. n_userId n = userId) d3
      in d4\<lparr>communityPostReports := deleteWhere (\<lambda>r. pr_reporterUserId r = userId) (communityPostReports d4),
            communityCommentReports := deleteWhere (\<lambda>r. cr_reporterUserId r = userId)
              (communityCommentReports d4),
            messageReports := deleteWhere (\<lambda>r. mr_reporterUserId r = userId) (messageReports d4)\<rparr>)"

definition deletedEmail :: "jsstring \<Rightarrow> jsstring" where
  "deletedEmail userId = js ''deleted-'' @ userId @ js ''@chattea.invalid''"

definition anonymousUser :: "timestamp \<Rightarrow> jsstring \<Rightarrow> user \<Rightarrow> user" where
  "anonymousUser now userId u = u\<lparr>u_email := deletedEmail userId, u_phone := None, u_password := [],
     u_userName := [53448, 53748, 54620, 32, 49324, 50857, 51088], u_intro := [], u_birthDate := None,
     u_region := None, u_interestedGender := None, u_profileCompletedAt := None,
     u_deletionScheduledAt := None, u_deletionLeaseExpiresAt := None, u_deletedAt := Some now,
     u_updatedAt := now\<rparr>"

definition anonymizeDeletedAccount :: "timestamp \<Rightarrow> deletionJob \<Rightarrow> unit dbprog" where
  "anonymizeDeletedAccount now job = transaction (
     let userId = pgUuid (dj_userId job) in
     andThen (query (\<lambda>d. existsRow (deletionClaimed now job) (users d))) (\<lambda>claimed.
     andThen (throwIf (\<not> claimed) (ErrorCode ''ACCOUNT_DELETION_CLAIM_REQUIRED'')) (\<lambda>_.
     andThen (query (\<lambda>d. map mt_roomId
         (filter (\<lambda>m. mt_userLowId m = userId \<or> mt_userHighId m = userId) (matchesTable d)))) (\<lambda>matchRooms.
     andThen (modify (failUploads now userId)) (\<lambda>_.
     andThen (modify (deletePersonalRows userId)) (\<lambda>_.
     andThen (modify (deleteRooms (\<lambda>r. List.member matchRooms (r_id r)))) (\<lambda>_.
     andThen (modify (\<lambda>d. d\<lparr>communityProfiles := updateWhere (\<lambda>p. cf_userId p = userId)
         (\<lambda>p. p\<lparr>cf_name := [51061, 47749], cf_updatedAt := now\<rparr>) (communityProfiles d)\<rparr>)) (\<lambda>_.
     andThen (query (\<lambda>d. existsRow (\<lambda>u. u_userId u \<noteq> userId \<and> u_email u = deletedEmail (dj_userId job))
         (users d))) (\<lambda>taken.
     andThen (throwIf taken (PgError UniqueViolation)) (\<lambda>_.
     modify (\<lambda>d. d\<lparr>users := updateWhere (\<lambda>u. u_userId u = userId)
       (anonymousUser now (dj_userId job)) (users d)\<rparr>)))))))))))"

section \<open>Service\<close>

definition validateUserUuid :: "jsstring \<Rightarrow> unit dbprog" where
  "validateUserUuid s = throwIf (\<not> uuidRegex s) (BadRequest ''USER_ID_INVALID'')"

definition findUser :: "jsstring \<Rightarrow> user dbprog" where
  "findUser userId =
     andThen (query (repoFindUser userId)) (\<lambda>u.
     case u of None \<Rightarrow> throw (NotFound ''InvalidUserId'') | Some row \<Rightarrow> ret row)"

definition profile :: "jsstring \<Rightarrow> (user \<times> userProfilePhoto list) dbprog" where
  "profile userId =
     andThen (validateUserUuid userId) (\<lambda>_.
     andThen (query (findUserProfile userId)) (\<lambda>p.
     case p of None \<Rightarrow> throw (NotFound ''InvalidUserId'') | Some row \<Rightarrow> ret row))"

definition currentPlanId :: "timestamp \<Rightarrow> jsstring \<Rightarrow> db \<Rightarrow> jsstring" where
  "currentPlanId now userId d =
     (case findCurrentSubscription now userId d of None \<Rightarrow> js ''free'' | Some s \<Rightarrow> us_planId s)"

definition currentSubscription :: "timestamp \<Rightarrow> jsstring \<Rightarrow> jsstring dbprog" where
  "currentSubscription now userId =
     andThen (validateUserUuid userId) (\<lambda>_. query (currentPlanId now userId))"

definition validateRequiredText :: "jsstring \<Rightarrow> nat \<Rightarrow> string \<Rightarrow> jsstring dbprog" where
  "validateRequiredText input maxLength field =
     (let v = trim input in
      andThen (throwIf (v = []) (BadRequest (field @ ''_REQUIRED''))) (\<lambda>_.
      andThen (throwIf (maxLength < length v) (BadRequest (field @ ''_TOO_LONG''))) (\<lambda>_.
      ret v)))"

text \<open>A text whose \<^verbatim>\<open>Date\<close> is invalid or prints differently is not a day of the calendar.\<close>

definition validateBirthDate :: "timestamp \<Rightarrow> jsstring \<Rightarrow> jsstring dbprog" where
  "validateBirthDate now input =
     andThen (throwIf (\<not> dateRegex input) (BadRequest ''PROFILE_BIRTH_DATE_INVALID'')) (\<lambda>_.
     andThen (throwIf (\<not> validDay (dayOfText input)) (BadRequest ''PROFILE_BIRTH_DATE_INVALID'')) (\<lambda>_.
     andThen (throwIf (fullYears (dayOfText input) (utcDay now) < 18) (BadRequest ''PROFILE_AGE_REQUIRED'')) (\<lambda>_.
     ret input)))"

definition toInterestedGender :: "jsstring \<Rightarrow> interestedGender" where
  "toInterestedGender v =
     (if v = js ''male'' then InterestedMale else if v = js ''female'' then InterestedFemale else Everyone)"

definition validateProfileInput ::
  "(jsstring \<Rightarrow> bool) \<Rightarrow> timestamp \<Rightarrow> updateUserProfileInput \<Rightarrow> profileValues dbprog" where
  "validateProfileInput isUuid now input =
     andThen (validateRequiredText (up_userName input) 40 ''PROFILE_NAME'') (\<lambda>userName.
     let intro = trim (up_intro input) in
     andThen (throwIf (PROFILE_INTRO_MAX_LENGTH < length intro) (BadRequest ''PROFILE_INTRO_TOO_LONG'')) (\<lambda>_.
     andThen (validateBirthDate now (up_birthDate input)) (\<lambda>birthDate.
     let region = trim (up_region input) in
     andThen (throwIf (\<not> List.member KOREAN_REGIONS region) (BadRequest ''PROFILE_REGION_INVALID'')) (\<lambda>_.
     let interested = trim (up_interestedGender input) in
     andThen (throwIf (\<not> isInterestedGender interested)
       (BadRequest ''PROFILE_INTERESTED_GENDER_INVALID'')) (\<lambda>_.
     let photoUploadIds = map trim (up_photoUploadIds input) in
     andThen (throwIf (length photoUploadIds < PROFILE_PHOTO_MIN_COUNT \<or>
         PROFILE_PHOTO_MAX_COUNT < length photoUploadIds) (BadRequest ''PROFILE_PHOTO_COUNT_INVALID'')) (\<lambda>_.
     andThen (throwIf (\<not> distinct photoUploadIds \<or>
         \<not> list_all isUuid photoUploadIds \<or> photoUploadIds \<noteq> up_photoUploadIds input)
       (BadRequest ''PROFILE_PHOTO_UPLOAD_INVALID'')) (\<lambda>_.
     ret \<lparr>pf_userName = userName, pf_birthDate = birthDate, pf_region = region,
       pf_interestedGender = toInterestedGender interested, pf_intro = intro,
       pf_photoUploadIds = photoUploadIds\<rparr>)))))))"

definition updateProfile ::
  "(jsstring \<Rightarrow> bool) \<Rightarrow> (nat \<Rightarrow> uuid) \<Rightarrow> timestamp \<Rightarrow> jsstring \<Rightarrow> updateUserProfileInput \<Rightarrow>
   (user \<times> userProfilePhoto list) dbprog" where
  "updateProfile isUuid ids now userId input =
     andThen (validateUserUuid userId) (\<lambda>_.
     andThen (findUser userId) (\<lambda>_.
     andThen (validateProfileInput isUuid now input) (\<lambda>v.
     replaceProfile ids now userId v)))"

definition beginAccountDeletion :: "timestamp \<Rightarrow> jsstring \<Rightarrow> timestamp dbprog" where
  "beginAccountDeletion now userId =
     andThen (validateUserUuid userId) (\<lambda>_.
     andThen (findUser userId) (\<lambda>_.
     scheduleDeletion now userId (now + DELETION_GRACE_DAYS * MS_PER_DAY)))"

definition restoreIfWithinGrace :: "timestamp \<Rightarrow> jsstring \<Rightarrow> bool dbprog" where
  "restoreIfWithinGrace now userId =
     andThen (validateUserUuid userId) (\<lambda>_. restoreScheduledDeletion now userId)"

definition validateDeletionLimit :: "int \<Rightarrow> nat dbprog" where
  "validateDeletionLimit limit =
     (if limit < 1 \<or> limit > 100 then throw (ErrorCode ''ACCOUNT_DELETION_BATCH_LIMIT_INVALID'')
      else ret (nat limit))"

text \<open>The jobs of a batch run one by one; each either makes its account anonymous or gives its lease
  back. The result says which succeeded.\<close>

fun runDeletionJobs :: "timestamp \<Rightarrow> deletionJob list \<Rightarrow> bool list dbprog" where
  "runDeletionJobs now [] = ret []"
| "runDeletionJobs now (job # jobs) =
     andThen (tryCatch (andThen (anonymizeDeletedAccount now job) (\<lambda>_. ret True))
       (\<lambda>_. andThen (releaseDeletionLease now job) (\<lambda>_. ret False))) (\<lambda>ok.
     andThen (runDeletionJobs now jobs) (\<lambda>oks.
     ret (ok # oks)))"

definition processDueAccountDeletionBatch :: "timestamp \<Rightarrow> int \<Rightarrow> batchResult dbprog" where
  "processDueAccountDeletionBatch now inputLimit =
     andThen (validateDeletionLimit inputLimit) (\<lambda>limit.
     andThen (claimDueDeletionBatch now (now + DELETION_LEASE_MS) limit) (\<lambda>(jobs, more).
     andThen (runDeletionJobs now jobs) (\<lambda>outcomes.
     ret \<lparr>br_claimed = length outcomes, br_succeeded = countWhere (\<lambda>ok. ok) outcomes,
       br_retryScheduled = countWhere (\<lambda>ok. \<not> ok) outcomes, br_permanentlyFailed = 0,
       br_hasMore = more\<rparr>)))"

section \<open>Account deletion as a leased queue\<close>

interpretation deletions: lease_queue u_userId deletionKey deletionDue claimDeletion
  by unfold_locales (auto simp: deletionDue_def claimDeletion_def split: option.splits)

lemma claimDueDeletionBatch_eq:
  "claimDueDeletionBatch now lease limit d =
     (let ids = deletions.ids now limit (users d);
          t = snd (deletions.batch now lease limit (users d))
      in if ids = [] then (Inr ([], False), d)
         else (Inr (map (\<lambda>i. \<lparr>dj_userId = i, dj_deletionLeaseExpiresAt = lease\<rparr>) ids,
                 existsRow (deletionDue now) t), d\<lparr>users := t\<rparr>))"
  by (simp add: claimDueDeletionBatch_def transaction_def deletions.ids_def [symmetric]
      deletions.batch_update Let_def)

section \<open>Erasure\<close>

text \<open>No row of the tables that hold personal data mentions the user, and the user's own row is
  anonymous.\<close>

definition erased :: "uuid \<Rightarrow> db \<Rightarrow> bool" where
  "erased u d \<longleftrightarrow>
     list_all (\<lambda>r. u_userId r = u \<longrightarrow> u_deletedAt r \<noteq> None \<and> u_email r = deletedEmail u \<and> u_phone r = None \<and>
       u_password r = [] \<and> u_intro r = [] \<and> u_birthDate r = None \<and> u_region r = None) (users d) \<and>
     list_all (\<lambda>r. pp_userId r \<noteq> u) (userProfilePhotos d) \<and>
     list_all (\<lambda>r. tk_userId r \<noteq> u) (pushTokens d) \<and>
     list_all (\<lambda>r. rt_userId r \<noteq> u) (refreshTokens d) \<and>
     list_all (\<lambda>r. ai_userId r \<noteq> u) (authIdentities d) \<and>
     list_all (\<lambda>r. us_userId r \<noteq> u) (userSubscriptions d) \<and>
     list_all (\<lambda>r. cb_userId r \<noteq> u) (userConsumableBalances d) \<and>
     list_all (\<lambda>r. bo_userId r \<noteq> u) (userBoosts d) \<and>
     list_all (\<lambda>r. la_userId r \<noteq> u) (userLikedMeAccesses d) \<and>
     list_all (\<lambda>r. ul_likerUserId r \<noteq> u \<and> ul_likedUserId r \<noteq> u) (userLikes d) \<and>
     list_all (\<lambda>r. ma_actorUserId r \<noteq> u \<and> ma_targetUserId r \<noteq> u) (matchActions d) \<and>
     list_all (\<lambda>r. ub_blockerUserId r \<noteq> u \<and> ub_blockedUserId r \<noteq> u) (userBlocks d) \<and>
     list_all (\<lambda>r. n_userId r \<noteq> u) (notifications d) \<and>
     list_all (\<lambda>r. mt_userLowId r \<noteq> u \<and> mt_userHighId r \<noteq> u) (matchesTable d) \<and>
     list_all (\<lambda>r. mr_reporterUserId r \<noteq> u) (messageReports d) \<and>
     list_all (\<lambda>p. pu_userId p = u \<longrightarrow> pu_status p = Failed \<and>
       (pu_finalKey p \<noteq> None \<and> pu_finalDeletedAt p = None \<longrightarrow> pu_finalDeletionPendingAt p \<noteq> None))
       (profileUploads d)"

lemma list_all_deleteWhere: "list_all (\<lambda>r. \<not> P r) (deleteWhere P t)"
  by (simp add: list_all_iff)

text \<open>What a successful deletion has done, in one step.\<close>

definition anonymized :: "timestamp \<Rightarrow> deletionJob \<Rightarrow> db \<Rightarrow> db" where
  "anonymized now job d =
     (let u = pgUuid (dj_userId job);
          matchRooms = map mt_roomId (filter (\<lambda>m. mt_userLowId m = u \<or> mt_userHighId m = u) (matchesTable d));
          d1 = deleteRooms (\<lambda>r. List.member matchRooms (r_id r)) (deletePersonalRows u (failUploads now u d))
      in d1\<lparr>communityProfiles := updateWhere (\<lambda>p. cf_userId p = u)
           (\<lambda>p. p\<lparr>cf_name := [51061, 47749], cf_updatedAt := now\<rparr>) (communityProfiles d1),
         users := updateWhere (\<lambda>r. u_userId r = u) (anonymousUser now (dj_userId job)) (users d1)\<rparr>)"

lemma users_frame [simp]:
  "users (deleteRooms P d) = users d" "users (deletePersonalRows u d) = users d"
  "users (failUploads now u d) = users d"
  by (simp_all add: deleteRooms_def deletePersonalRows_def deletePushTokens_def deleteNotifications_def
      failUploads_def Let_def)

lemma anonymizeDeletedAccount_eq:
  "anonymizeDeletedAccount now job d =
     (if \<not> existsRow (deletionClaimed now job) (users d)
      then (Inl (ErrorCode ''ACCOUNT_DELETION_CLAIM_REQUIRED''), d)
      else if existsRow (\<lambda>u. u_userId u \<noteq> pgUuid (dj_userId job) \<and> u_email u = deletedEmail (dj_userId job)) (users d)
      then (Inl (PgError UniqueViolation), d)
      else (Inr (), anonymized now job d))"
  by (simp add: anonymizeDeletedAccount_def transaction_def anonymized_def Let_def)

lemma anonymized_erases:
  assumes "canonicalUuid (dj_userId job)"
    and "list_all (\<lambda>m. keyTaken r_id (mt_roomId m) (rooms d)) (matchesTable d)"
  shows "erased (dj_userId job) (anonymized now job d)"
  unfolding erased_def
proof (intro conjI)
  let ?u = "dj_userId job"
  note defs = anonymized_def Let_def assms(1) deleteRooms_def deletePersonalRows_def failUploads_def
    deletePushTokens_def deleteNotifications_def
  show "list_all (\<lambda>r. mt_userLowId r \<noteq> ?u \<and> mt_userHighId r \<noteq> ?u) (matchesTable (anonymized now job d))"
    using assms(2) by (simp add: defs list_all_iff keyTaken_iff image_iff) metis
  show "list_all (\<lambda>r. u_userId r = ?u \<longrightarrow> u_deletedAt r \<noteq> None \<and> u_email r = deletedEmail ?u \<and> u_phone r = None \<and>
       u_password r = [] \<and> u_intro r = [] \<and> u_birthDate r = None \<and> u_region r = None) (users (anonymized now job d))"
    by (auto simp: anonymized_def Let_def assms(1) list_all_iff set_updateWhere anonymousUser_def)
  show "list_all (\<lambda>p. pu_userId p = ?u \<longrightarrow> pu_status p = Failed \<and>
       (pu_finalKey p \<noteq> None \<and> pu_finalDeletedAt p = None \<longrightarrow> pu_finalDeletionPendingAt p \<noteq> None))
       (profileUploads (anonymized now job d))"
    by (auto simp: defs list_all_iff set_updateWhere failUpload_def requestFinalDeletion_def)
qed (simp_all add: anonymized_def Let_def assms(1) deleteRooms_def deletePersonalRows_def failUploads_def
    deletePushTokens_def deleteNotifications_def list_all_iff)


section \<open>Deletion and push delivery\<close>

lemma outboxAddressed_users [simp]:
  "outboxAddressed (d\<lparr>users := t\<rparr>) = outboxAddressed d"
  "outboxAddressed (d\<lparr>refreshTokens := r\<rparr>) = outboxAddressed d"
  by (simp_all add: outboxAddressed_def deliversToRecipient_def)

lemma notificationInv_frame [simp]:
  "notificationInv (d\<lparr>users := t\<rparr>) = notificationInv d"
  "notificationInv (d\<lparr>refreshTokens := r\<rparr>) = notificationInv d"
  by (simp_all add: notificationInv_def notificationKeys_def pushTokenKeys_def outboxRowsOk_def)

lemma notificationInv_cancel_delete:
  assumes "notificationInv d" and "\<And>x. P (cancelRow now x) = P x"
    and "\<And>x t. t \<in> set (pushTokens d) \<Longrightarrow> Q t \<Longrightarrow> po_pushTokenId x = Some (tk_id t) \<Longrightarrow> P x"
  shows "notificationInv (deletePushTokens Q (cancelOpen now P d))"
proof -
  have "outboxAddressed (deletePushTokens Q (cancelOpen now P d))"
  proof (rule outboxAddressed_deletePushTokens)
    show "outboxAddressed (cancelOpen now P d)"
      using assms(1) by (simp add: notificationInv_def outboxAddressed_cancelOpen)
    fix x t
    assume x: "x \<in> set (pushOutboxes (cancelOpen now P d))" and t: "t \<in> set (pushTokens (cancelOpen now P d))"
      "Q t" "po_pushTokenId x = Some (tk_id t)"
    then have "P x" using assms(3) by simp
    then show "\<not> pushOpen x"
      using cancelOpen_closed [where P = P, OF x assms(2)] by blast
  qed
  with assms(1) show ?thesis
    by (simp add: notificationInv_def notificationKeys_deletePushTokens notificationKeys_cancelOpen
        pushTokenKeys_deletePushTokens outboxRowsOk_deletePushTokens outboxRowsOk_cancelOpen)
qed

lemma scheduleDeletion_push: "preserves notificationInv (scheduleDeletion now userId scheduledFor)"
proof (rule preservesI)
  fix d assume inv: "notificationInv d"
  show "notificationInv (snd (scheduleDeletion now userId scheduledFor d))"
    unfolding scheduleDeletion_def
    by (rule transaction_keeps [where I = notificationInv])
       (auto simp: inv Let_def cancelRow_def split: option.split intro!: notificationInv_cancel_delete)
qed


lemma anonymized_tables:
  fixes job
  defines "u \<equiv> pgUuid (dj_userId job)"
  shows "pushTokens (anonymized now job d) = deleteWhere (\<lambda>t. tk_userId t = u) (pushTokens d)"
    and "notifications (anonymized now job d) = deleteWhere (\<lambda>n. n_userId n = u) (notifications d)"
    and "pushOutboxes (anonymized now job d) =
      deleteWhere (\<lambda>x. List.member (map n_id (filter (\<lambda>n. n_userId n = u) (notifications d))) (po_notificationId x))
        (pushOutboxes (deletePushTokens (\<lambda>t. tk_userId t = u) d))"
  by (simp_all add: anonymized_def u_def deleteRooms_def deletePersonalRows_def failUploads_def
      deletePushTokens_def deleteNotifications_def Let_def cong: option.case_cong)

lemma anonymized_addressed:
  assumes inv: "notificationInv d"
  shows "outboxAddressed (anonymized now job d)"
proof (rule outboxAddressedI)
  let ?u = "pgUuid (dj_userId job)" and ?d = "anonymized now job d"
  let ?gone = "map tk_id (filter (\<lambda>t. tk_userId t = ?u) (pushTokens d))"
  fix y assume y: "y \<in> set (pushOutboxes ?d)" "pushOpen y"
  then obtain x where x: "x \<in> set (pushOutboxes d)"
    and yx: "y = (if (case po_pushTokenId x of None \<Rightarrow> False | Some i \<Rightarrow> List.member ?gone i)
      then x\<lparr>po_pushTokenId := None\<rparr> else x)"
    and live: "po_notificationId x \<notin> n_id ` {n \<in> set (notifications d). n_userId n = ?u}"
    by (auto simp: anonymized_tables deletePushTokens_def Let_def set_updateWhere split: if_splits)
  have "pushOpen x"
    using y(2) yx by (auto simp: pushOpen_def split: if_splits)
  with inv x have "deliversToRecipient d x"
    by (simp add: notificationInv_def outboxAddressedD)
  then obtain t n where t: "t \<in> set (pushTokens d)" "n \<in> set (notifications d)"
    "po_pushTokenId x = Some (tk_id t)" "po_tokenSnapshot x = tk_token t"
    "n_id n = po_notificationId x" "n_userId n = tk_userId t"
    by (auto simp: deliversToRecipient_iff)
  have other: "tk_userId t \<noteq> ?u"
    using live t(2,5,6) by force
  have "tk_id t \<notin> set ?gone"
    using other t(1) inv by (auto simp: notificationInv_def pushTokenKeys_def dest: uniqueKey_inj)
  with yx t(3) have "y = x" by simp
  with t other show "deliversToRecipient ?d y"
    unfolding deliversToRecipient_iff anonymized_tables
    by (intro exI [of _ t] exI [of _ n] bexI [of _ t] bexI [of _ n]) auto
qed

lemma anonymized_push: "notificationInv d \<Longrightarrow> notificationInv (anonymized now job d)"
proof -
  assume inv: "notificationInv d"
  let ?d = "deletePushTokens (\<lambda>t. tk_userId t = pgUuid (dj_userId job)) d"
  have "notificationKeys ?d" "outboxRowsOk ?d"
    using inv by (simp_all add: notificationInv_def notificationKeys_deletePushTokens outboxRowsOk_deletePushTokens)
  then have "notificationKeys (anonymized now job d)" "outboxRowsOk (anonymized now job d)"
    using inv by (auto simp: notificationInv_def notificationKeys_def outboxRowsOk_def anonymized_tables
        uniqueKey_deleteWhere list_all_iff)
  with inv show ?thesis
    by (simp add: notificationInv_def anonymized_addressed)
       (simp add: pushTokenKeys_def anonymized_tables uniqueKey_deleteWhere)
qed

lemma anonymizeDeletedAccount_push: "preserves notificationInv (anonymizeDeletedAccount now job)"
  by (rule preservesI) (simp add: anonymizeDeletedAccount_eq anonymized_push)

section \<open>Photos\<close>

lemma authorities_sound:
  "authorities l m0 = Some m \<Longrightarrow> (k, a) \<in> set m \<Longrightarrow> (k, Some a) \<in> set l \<or> (k, a) \<in> set m0"
  by (induction l m0 rule: authorities.induct)
     (fastforce simp: addAuthority_def split: option.splits if_splits)+

text \<open>What a photo of a profile rests on: a verified upload of the same user, or a photo the user had
  before uploads existed.\<close>

definition photoBacked :: "uuid \<Rightarrow> db \<Rightarrow> userProfilePhoto \<Rightarrow> bool" where
  "photoBacked u d p \<longleftrightarrow> pp_userId p = u \<and>
     (existsRow (\<lambda>x. pu_userId x = u \<and> pu_status x = Verified \<and> pp_uploadId p = Some (pu_id x) \<and>
         pu_publicUrl x = Some (pp_url p)) (profileUploads d) \<or>
      pp_uploadId p = None \<and>
      existsRow (\<lambda>q. pp_userId q = u \<and> pp_uploadId q = None \<and> pp_id q = pp_id p \<and> pp_url q = pp_url p)
        (userProfilePhotos d))"

lemma newPhoto_backed:
  assumes "authorities (map uploadAuthority ups @ map legacyAuthority olds) [] = Some m"
    and "\<And>x. x \<in> set ups \<Longrightarrow> x \<in> set (profileUploads d) \<and> pu_userId x = u \<and> pu_status x = Verified"
    and "\<And>q. q \<in> set olds \<Longrightarrow> q \<in> set (userProfilePhotos d) \<and> pp_userId q = u \<and> pp_uploadId q = None"
    and "map_of m i = Some a"
  shows "photoBacked u d (newPhoto ids now u (k, a))"
proof -
  have "(i, Some a) \<in> uploadAuthority ` set ups \<or> (i, Some a) \<in> legacyAuthority ` set olds"
    using authorities_sound [OF assms(1) map_of_SomeD [OF assms(4)]] by auto
  then show ?thesis
  proof
    assume "(i, Some a) \<in> uploadAuthority ` set ups"
    then obtain x where "x \<in> set ups" "uploadAuthority x = (i, Some a)"
      by auto
    with assms(2) [of x] show ?thesis
      by (auto simp: photoBacked_def newPhoto_def uploadAuthority_def existsRow_iff truthy_def
          split: if_splits option.splits)
  next
    assume "(i, Some a) \<in> legacyAuthority ` set olds"
    then obtain q where "q \<in> set olds" "legacyAuthority q = (i, Some a)"
      by auto
    with assms(3) [of q] show ?thesis
      by (auto simp: photoBacked_def newPhoto_def legacyAuthority_def existsRow_iff)
  qed
qed

lemma replaceProfile_photos:
  assumes "replaceProfile ids now userId v d = (Inr (u, photos), d')"
  shows "length photos = length (pf_photoUploadIds v) \<and>
    map pp_position photos = map int [0..<length photos] \<and>
    list_all (photoBacked (pgUuid userId) d) photos \<and>
    userProfilePhotos d' = deleteWhere (\<lambda>p. pp_userId p = pgUuid userId) (userProfilePhotos d) @ photos"
proof -
  let ?ups = "filter (\<lambda>x. pu_userId x = pgUuid userId \<and> pu_status x = Verified \<and>
         List.member (map pgUuid (pf_photoUploadIds v)) (pu_id x)) (profileUploads d)"
  let ?olds = "filter (\<lambda>p. pp_userId p = pgUuid userId \<and> pp_uploadId p = None \<and>
         List.member (map pgUuid (pf_photoUploadIds v)) (pp_id p)) (userProfilePhotos d)"
  obtain m where m: "authorities (map uploadAuthority ?ups @ map legacyAuthority ?olds) [] = Some m"
    and all: "\<not> List.member (map (map_of m) (pf_photoUploadIds v)) None"
    and photos: "photos = map (newPhoto ids now (pgUuid userId))
      (enumerate 0 (map the (map (map_of m) (pf_photoUploadIds v))))"
    and tab: "userProfilePhotos d' =
      deleteWhere (\<lambda>p. pp_userId p = pgUuid userId) (userProfilePhotos d) @ photos"
    using assms unfolding replaceProfile_def transaction_Inr_iff
    by (simp add: Let_def split: if_splits option.splits del: List.member_iff) auto
  have "photoBacked (pgUuid userId) d p" if "p \<in> set photos" for p
  proof -
    from that obtain k i where "i \<in> set (pf_photoUploadIds v)"
      "p = newPhoto ids now (pgUuid userId) (k, the (map_of m i))"
      unfolding photos by (auto simp: enumerate_eq_zip dest!: set_zip_rightD)
    moreover from this(1) all obtain a where "map_of m i = Some a"
      by force
    ultimately show ?thesis
      using newPhoto_backed [OF m, of d "pgUuid userId" i a] by simp
  qed
  then show ?thesis
    using tab by (auto simp: list_all_iff photos newPhoto_def enumerate_eq_zip zip_map2 split_def comp_def intro!: nth_equalityI)
qed


lemma updateProfile_cases:
  assumes "updateProfile isUuid ids now userId input d = (Inr r, d')"
  obtains v where "validateProfileInput isUuid now input d = (Inr v, d)"
    "replaceProfile ids now userId v d = (Inr r, d')"
proof -
  from assms obtain v t where v: "validateProfileInput isUuid now input d = (Inr v, t)"
    "replaceProfile ids now userId v t = (Inr r, d')"
    by (auto simp: updateProfile_def andThen_Inr_iff validateUserUuid_def findUser_def
        throwIf_apply split: option.splits if_splits)
  moreover have "reads (validateProfileInput isUuid now input)"
    unfolding validateProfileInput_def validateRequiredText_def validateBirthDate_def Let_def
    by (rule readsI) (intro preserves_intros)
  ultimately show thesis
    using that readsD by metis
qed

section \<open>Samples\<close>

text \<open>An account that is due for deletion and claimed, with a phone and a like; a profile request and
  a verified upload.\<close>

definition sampleAccountId :: uuid where
  "sampleAccountId = js ''00000000-0000-4000-8000-0000000000a1''"

definition sampleDeletable :: user where
  "sampleDeletable = (sampleUser sampleAccountId)\<lparr>u_hiddenAt := Some 0, u_deletionScheduledAt := Some 10,
     u_deletionLeaseExpiresAt := Some 500\<rparr>"

definition sampleJob :: deletionJob where
  "sampleJob = \<lparr>dj_userId = sampleAccountId, dj_deletionLeaseExpiresAt = 500\<rparr>"

definition sampleDeletionDb :: db where
  "sampleDeletionDb = emptyDb\<lparr>users := [sampleDeletable, sampleUser (js ''b2'')],
     userLikes := [\<lparr>ul_likerUserId = sampleAccountId, ul_likedUserId = js ''b2'', ul_createdAt = 0\<rparr>]\<rparr>"

definition sampleUploadId :: uuid where
  "sampleUploadId = js ''00000000-0000-4000-8000-0000000000e1''"

definition sampleUpload :: profileUpload where
  "sampleUpload = \<lparr>pu_id = sampleUploadId, pu_userId = sampleAccountId, pu_status = Verified,
     pu_stagingKey = js ''s'', pu_finalKey = Some (js ''f''), pu_expectedContentType = js ''image/png'',
     pu_expectedSizeBytes = 1, pu_finalContentType = Some (js ''image/png''), pu_finalSizeBytes = Some 1,
     pu_publicUrl = Some (js ''u''), pu_expiresAt = 0, pu_processingLeaseExpiresAt = None,
     pu_cleanupLeaseExpiresAt = None, pu_cleanupAttempts = 0, pu_failureCode = None,
     pu_stagingDeletedAt = None, pu_finalDeletionPendingAt = None, pu_finalDeletedAt = None,
     pu_verifiedAt = Some 0, pu_createdAt = 0, pu_updatedAt = 0\<rparr>"

definition sampleBirthDate :: jsstring where
  "sampleBirthDate = js ''1990-02-28''"

definition sampleProfileInput :: updateUserProfileInput where
  "sampleProfileInput = \<lparr>up_userName = js ''tea'', up_birthDate = sampleBirthDate,
     up_region = [49436, 50872], up_interestedGender = js ''everyone'', up_intro = [],
     up_photoUploadIds = [sampleUploadId]\<rparr>"

definition sampleProfileDb :: db where
  "sampleProfileDb = emptyDb\<lparr>users := [sampleUser sampleAccountId], profileUploads := [sampleUpload]\<rparr>"

lemma sample_ids [eval_simps]:
  "map asciiLower sampleAccountId = sampleAccountId" "map asciiLower sampleUploadId = sampleUploadId"
  "rev (dropWhile isWhiteSpace (rev (dropWhile isWhiteSpace sampleUploadId))) = sampleUploadId"
  "[98, 50] \<noteq> sampleAccountId" "canonicalUuid sampleAccountId"
  by (simp_all add: sampleAccountId_def sampleUploadId_def string_simps canonicalUuid_def)

lemma sample_uuid [eval_simps]: "uuidRegex sampleAccountId"
  by (simp add: sampleAccountId_def uuidRegex_def matchesClasses_def uuidClasses_def isHexDigit_def
      isDigit_def js_def numeral_eq_Suc replicate_Suc)

lemma sample_today [eval_simps]: "utcDay 1700000000000 = (2023, 11, 14)"
  by code_simp

lemma sample_day [eval_simps]:
  "dateRegex sampleBirthDate" "dayOfText sampleBirthDate = (1990, 2, 28)"
  by (simp_all add: sampleBirthDate_def dateRegex_def matchesClasses_def dateClasses_def isDigit_def
      js_def dayOfText_def digitAt_def numeral_eq_Suc)

lemmas user_sample_simps [eval_simps] = sampleDeletable_def sampleJob_def
  sampleDeletionDb_def sampleUpload_def sampleProfileInput_def sampleProfileDb_def

lemmas user_eval_simps [eval_simps] = repoFindUser_def findUser_def validateUserUuid_def updateProfile_def
  validateProfileInput_def validateRequiredText_def validateBirthDate_def toInterestedGender_def
  isInterestedGender_def KOREAN_REGIONS_def PROFILE_INTRO_MAX_LENGTH_def PROFILE_PHOTO_MIN_COUNT_def
  PROFILE_PHOTO_MAX_COUNT_def replaceProfile_def uploadAuthority_def legacyAuthority_def
  addAuthority_def newPhoto_def photoKeys_def setProfile_def validDay_def daysInMonth_def
  isLeapYear_def fullYears_def restoreScheduledDeletion_def
  anonymizeDeletedAccount_def deletionClaimed_def truthy_def deletedEmail_def

definition sampleProfiled :: "(app_error + user \<times> userProfilePhoto list) \<times> db" where
  "sampleProfiled = updateProfile (\<lambda>_. True) (\<lambda>k. js ''p0'') 1700000000000 sampleAccountId sampleProfileInput
     sampleProfileDb"

lemma sampleProfiled_ok: "\<exists>u ps d'. sampleProfiled = (Inr (u, ps), d')"
  unfolding sampleProfiled_def by (simp add: eval_simps cong: run_congs)

lemma sampleDeletion_ok:
  "anonymizeDeletedAccount 100 sampleJob sampleDeletionDb = (Inr (), anonymized 100 sampleJob sampleDeletionDb)"
  unfolding anonymizeDeletedAccount_eq by (simp add: eval_simps)

lemma sample_canonical: "pgUuid sampleAccountId = sampleAccountId"
  by (simp add: pgUuid_def sample_ids)

lemma sampleDeletion_inv: "notificationInv sampleDeletionDb"
  by (simp add: notificationInv_def notificationKeys_def pushTokenKeys_def outboxRowsOk_def
      outboxAddressed_def sampleDeletionDb_def emptyDb_def)

lemma sampleRestored_ok: "\<exists>d'. restoreScheduledDeletion 5 sampleAccountId sampleDeletionDb = (Inr True, d')"
  by (simp add: eval_simps)

section \<open>Properties\<close>

text \<open>Deleting an account erases it: when it succeeds, no table that holds personal data has a row
  of the user, the user's row is anonymous, its uploads are failed and their public objects are due
  for deletion; and the push delivery keeps its invariant.\<close>

lemma deletion_erases:
  assumes "canonicalUuid (dj_userId job)"
    and "list_all (\<lambda>m. keyTaken r_id (mt_roomId m) (rooms d)) (matchesTable d)"
    and "notificationInv d" and "anonymizeDeletedAccount now job d = (Inr (), d')"
  shows "erased (dj_userId job) d' \<and> notificationInv d'"
proof -
  have "d' = anonymized now job d"
    using assms(4) by (simp add: anonymizeDeletedAccount_eq split: if_splits)
  with anonymized_erases [OF assms(1,2)] anonymized_push [OF assms(3)] show ?thesis by simp
qed

lemma deletion_erases_witness:
  "\<exists>d'. anonymizeDeletedAccount 100 sampleJob sampleDeletionDb = (Inr (), d') \<and>
     userLikes sampleDeletionDb \<noteq> [] \<and> erased sampleAccountId d' \<and> notificationInv d'"
proof -
  have "canonicalUuid (dj_userId sampleJob)" "matchesTable sampleDeletionDb = []"
    "userLikes sampleDeletionDb \<noteq> []"
    by (simp_all add: eval_simps)
  with deletion_erases [OF _ _ sampleDeletion_inv sampleDeletion_ok] sampleDeletion_ok show ?thesis
    by (simp add: sampleJob_def)
qed

text \<open>A restored account is safe: after a sign-in within the grace period no worker can delete the
  account, whatever claim it holds, and the account is visible again.\<close>

lemma restored_not_deleted:
  assumes "uniqueKey u_userId (users d)" and "restoreScheduledDeletion now userId d = (Inr True, d')"
    and "pgUuid (dj_userId job) = pgUuid userId"
  shows "anonymizeDeletedAccount now' job d' = (Inl (ErrorCode ''ACCOUNT_DELETION_CLAIM_REQUIRED''), d') \<and>
    (\<exists>u. findUserRow userId d' = Some u \<and> u_hiddenAt u = None \<and> u_deletionScheduledAt u = None \<and>
       u_deletedAt u = None)"
proof -
  let ?P = "\<lambda>u. u_userId u = pgUuid userId \<and> u_deletedAt u = None \<and>
    (case u_deletionScheduledAt u of None \<Rightarrow> False | Some t \<Rightarrow> now < t)"
  let ?f = "\<lambda>u. u\<lparr>u_hiddenAt := None, u_deletionScheduledAt := None, u_deletionLeaseExpiresAt := None,
     u_deletionAttempts := 0, u_updatedAt := now\<rparr>"
  have ex: "existsRow ?P (users d)" and d': "d' = d\<lparr>users := updateWhere ?P ?f (users d)\<rparr>"
    using assms(2) by (auto simp: restoreScheduledDeletion_def Let_def)
  from ex obtain v where v: "v \<in> set (users d)" "?P v"
    by (auto simp: existsRow_iff)
  have only: "u = v" if "u \<in> set (users d)" "u_userId u = pgUuid userId" for u
    using uniqueKey_inj [OF assms(1) that(1) v(1)] that(2) v(2) by simp
  have "\<not> deletionClaimed now' job u" if "u \<in> set (users d')" for u
    using that only v(2) assms(3) by (auto simp: d' set_updateWhere deletionClaimed_def)
  then have "\<not> existsRow (deletionClaimed now' job) (users d')"
    by (simp add: existsRow_iff)
  moreover have "findUserRow userId d = Some v"
    unfolding findUserRow_def by (rule findFirst_unique [OF assms(1) v(1)]) (use v(2) in auto)
  then have "findUserRow userId d' = Some (?f v)"
    using v(2) by (simp add: findUserRow_def d' findFirst_updateWhere)
  ultimately show ?thesis
    using v(2) by (simp add: anonymizeDeletedAccount_eq)
qed

lemma restored_not_deleted_witness:
  "\<exists>d'. restoreScheduledDeletion 5 sampleAccountId sampleDeletionDb = (Inr True, d') \<and>
     anonymizeDeletedAccount 100 sampleJob d' = (Inl (ErrorCode ''ACCOUNT_DELETION_CLAIM_REQUIRED''), d')"
proof -
  obtain d' where d': "restoreScheduledDeletion 5 sampleAccountId sampleDeletionDb = (Inr True, d')"
    using sampleRestored_ok by blast
  moreover have "uniqueKey u_userId (users sampleDeletionDb)"
    by (simp add: eval_simps sample_ids(4) [symmetric])
  ultimately show ?thesis
    using restored_not_deleted [OF _ d', of sampleJob 100] by (simp add: sampleJob_def)
qed

text \<open>A worker deletes only what is due and claimed: success means that the grace period had ended
  and that the lease of the claim was the current one and running.\<close>

lemma deletion_needs_claim:
  assumes "anonymizeDeletedAccount now job d = (Inr (), d')"
  shows "\<exists>u \<in> set (users d). u_userId u = pgUuid (dj_userId job) \<and> u_deletedAt u = None \<and>
    (\<exists>t \<le> now. u_deletionScheduledAt u = Some t) \<and>
    u_deletionLeaseExpiresAt u = Some (dj_deletionLeaseExpiresAt job) \<and> now < dj_deletionLeaseExpiresAt job"
  using assms
  by (auto simp: anonymizeDeletedAccount_eq existsRow_iff deletionClaimed_def split: if_splits option.splits)

lemma deletion_needs_claim_witness:
  "\<exists>u \<in> set (users sampleDeletionDb). u_userId u = sampleAccountId \<and> u_deletionLeaseExpiresAt u = Some 500"
  using deletion_needs_claim [OF sampleDeletion_ok] by (auto simp: sampleJob_def sample_canonical)

text \<open>Anyone can stop the deletion of an account: the address the account would get is a valid
  address to sign up with, and while another user has it the deletion fails without effect.\<close>

lemma deletion_blocked_by_email:
  assumes "w \<in> set (users d)" and "u_userId w \<noteq> pgUuid (dj_userId job)"
    and "u_email w = deletedEmail (dj_userId job)"
  shows "\<exists>e. anonymizeDeletedAccount now job d = (Inl e, d)"
proof -
  have "existsRow (\<lambda>u. u_userId u \<noteq> pgUuid (dj_userId job) \<and> u_email u = deletedEmail (dj_userId job)) (users d)"
    using assms by (auto simp: existsRow_iff)
  then show ?thesis
    by (simp add: anonymizeDeletedAccount_eq)
qed

lemma deletion_blocked_by_email_witness:
  "\<exists>e. anonymizeDeletedAccount 100 sampleJob
       (sampleDeletionDb\<lparr>users := [sampleDeletable, (sampleUser (js ''b2''))\<lparr>u_email := deletedEmail sampleAccountId\<rparr>]\<rparr>)
     = (Inl e, sampleDeletionDb\<lparr>users := [sampleDeletable, (sampleUser (js ''b2''))\<lparr>u_email := deletedEmail sampleAccountId\<rparr>]\<rparr>)"
  by (rule deletion_blocked_by_email [of "(sampleUser (js ''b2''))\<lparr>u_email := deletedEmail sampleAccountId\<rparr>"])
     (simp_all add: sampleUser_def sampleJob_def string_simps sample_ids)

text \<open>C32. Only adults get a profile: a profile that is accepted has a birth date that is a day of the
  calendar whose eighteenth anniversary is not after today.\<close>

theorem profile_adult:
  assumes "updateProfile isUuid ids now userId input d = (Inr r, d')"
  shows "validDay (dayOfText (up_birthDate input)) \<and>
    (case dayOfText (up_birthDate input) of (y, m, dd) \<Rightarrow> (y + 18, m, dd) \<le> utcDay now)"
proof -
  from assms obtain v where "validateProfileInput isUuid now input d = (Inr v, d)"
    by (rule updateProfile_cases)
  then have "validDay (dayOfText (up_birthDate input))"
    "18 \<le> fullYears (dayOfText (up_birthDate input)) (utcDay now)"
    by (auto simp: validateProfileInput_def andThen_Inr_iff Let_def throwIf_apply validateBirthDate_def
        split: if_splits)
  then show ?thesis
    by (cases "dayOfText (up_birthDate input)"; cases "utcDay now") (simp add: fullYears_iff)
qed

theorem profile_adult_witness:
  "(\<exists>r d'. sampleProfiled = (Inr r, d')) \<and> (1990 + 18, 2, 28) \<le> utcDay 1700000000000"
proof -
  obtain u photos d' where ok: "sampleProfiled = (Inr (u, photos), d')"
    using sampleProfiled_ok by blast
  from profile_adult [OF this [unfolded sampleProfiled_def]]
  have "(1990 + 18, 2, 28) \<le> utcDay 1700000000000"
    by (simp add: sampleProfileInput_def sample_day)
  with ok show ?thesis by blast
qed

text \<open>A profile shows only photos of its owner: the photos that an accepted profile ends up with are
  one to three, in the order requested, and each is a verified upload of the user or a photo the user
  already had; the photos of other users stay as they were.\<close>

lemma profile_photos_owned:
  assumes "updateProfile isUuid ids now userId input d = (Inr (u, photos), d')"
  shows "1 \<le> length photos \<and> length photos \<le> 3 \<and>
    map pp_position photos = map int [0..<length photos] \<and>
    list_all (photoBacked (pgUuid userId) d) photos \<and>
    userProfilePhotos d' = deleteWhere (\<lambda>p. pp_userId p = pgUuid userId) (userProfilePhotos d) @ photos"
proof -
  from assms obtain v where v: "validateProfileInput isUuid now input d = (Inr v, d)"
    "replaceProfile ids now userId v d = (Inr (u, photos), d')"
    by (rule updateProfile_cases)
  from v(1) have "1 \<le> length (pf_photoUploadIds v)" "length (pf_photoUploadIds v) \<le> 3"
    by (auto simp: validateProfileInput_def andThen_Inr_iff Let_def throwIf_apply
        PROFILE_PHOTO_MIN_COUNT_def PROFILE_PHOTO_MAX_COUNT_def Suc_le_eq split: if_splits)
  with replaceProfile_photos [OF v(2)] show ?thesis
    by simp
qed

lemma profile_photos_owned_witness:
  "\<exists>u photos d'. sampleProfiled = (Inr (u, photos), d') \<and> length photos \<le> 3 \<and>
     list_all (photoBacked sampleAccountId sampleProfileDb) photos"
proof -
  obtain u photos d' where "sampleProfiled = (Inr (u, photos), d')"
    using sampleProfiled_ok by blast
  with profile_photos_owned [OF this [unfolded sampleProfiled_def]] show ?thesis
    unfolding sample_canonical by blast
qed

end
