(* ===== verification/Matching.thy ===== *)
theory Matching
  imports User Billing
begin

text \<open>
  The matching component (\<^verbatim>\<open>src/modules/matching\<close>): candidates, likes, skips and super likes, the match
  of two users who like each other with its chat room, undoing the last action, boosts, and the
  limits of the plans. The advisory locks that serialise the transactions of a user and of a pair
  are not state: a transaction here runs alone.
\<close>

section \<open>Data\<close>

record candidateBase =
  ca_id :: uuid
  ca_userName :: jsstring
  ca_gender :: gender
  ca_birthDate :: "jsstring option"
  ca_region :: "jsstring option"
  ca_intro :: jsstring

record candidateRow = candidateBase +
  ca_photos :: "(jsstring \<times> int) list"
  ca_likedByMe :: bool
  ca_planId :: jsstring
  ca_boostActive :: bool

record matchCandidatePayload =
  mc_id :: uuid
  mc_userName :: jsstring
  mc_gender :: gender
  mc_age :: int
  mc_region :: jsstring
  mc_intro :: jsstring
  mc_photos :: "(jsstring \<times> int) list"
  mc_likedByMe :: bool
  mc_planId :: jsstring
  mc_blackRecommended :: bool
  mc_boostActive :: bool

record actResult =
  ar_matched :: bool
  ar_roomId :: "uuid option"
  ar_remainingSuperLikeCredits :: "int option"
  ar_created :: bool

record likeUserPayload =
  lp_matched :: bool
  lp_roomId :: "uuid option"
  lp_undoAvailable :: bool

section \<open>Repository\<close>

text \<open>The comparison is the one of JavaScript strings.\<close>

definition orderedMatchingPair :: "jsstring \<Rightarrow> jsstring \<Rightarrow> jsstring \<times> jsstring" where
  "orderedMatchingPair userId targetUserId =
     (if userId < targetUserId then (userId, targetUserId) else (targetUserId, userId))"

definition profileComplete :: "user \<Rightarrow> bool" where
  "profileComplete u \<longleftrightarrow> u_profileCompletedAt u \<noteq> None \<and> u_hiddenAt u = None \<and> u_deletedAt u = None"

definition profileIsComplete :: "jsstring \<Rightarrow> db \<Rightarrow> bool" where
  "profileIsComplete userId d =
     (case findUserRow userId d of None \<Rightarrow> False | Some u \<Rightarrow> profileComplete u)"

text \<open>Whether someone with this interest accepts this gender; without an interest, nobody is
  accepted.\<close>

definition accepts :: "interestedGender option \<Rightarrow> gender \<Rightarrow> bool" where
  "accepts interest g \<longleftrightarrow> interest = Some Everyone \<or>
     interest = Some (case g of Male \<Rightarrow> InterestedMale | Female \<Rightarrow> InterestedFemale)"

definition blockedBetween :: "jsstring \<Rightarrow> jsstring \<Rightarrow> db \<Rightarrow> bool" where
  "blockedBetween a b d = existsRow (\<lambda>r.
     ub_blockerUserId r = pgUuid a \<and> ub_blockedUserId r = pgUuid b \<or>
     ub_blockerUserId r = pgUuid b \<and> ub_blockedUserId r = pgUuid a) (userBlocks d)"

definition activeAction :: "jsstring \<Rightarrow> jsstring \<Rightarrow> matchAction \<Rightarrow> bool" where
  "activeAction userId targetUserId a \<longleftrightarrow> ma_actorUserId a = pgUuid userId \<and>
     ma_targetUserId a = pgUuid targetUserId \<and> ma_revertedAt a = None"

definition candidateOf :: "user \<Rightarrow> candidateBase" where
  "candidateOf u = \<lparr>ca_id = u_userId u, ca_userName = u_userName u, ca_gender = u_gender u,
     ca_birthDate = u_birthDate u, ca_region = u_region u, ca_intro = u_intro u\<rparr>"

definition withCandidateDetails :: "timestamp \<Rightarrow> jsstring \<Rightarrow> candidateBase list \<Rightarrow> db \<Rightarrow> candidateRow list" where
  "withCandidateDetails now userId rows d =
     (let candidateIds = map ca_id rows;
          subscriptions = sort_key (\<lambda>s. - us_updatedAt s) (filter (\<lambda>s.
            List.member candidateIds (us_userId s) \<and> activeSubscription now s) (userSubscriptions d));
          likes = filter (\<lambda>l. ul_likerUserId l = pgUuid userId \<and>
            List.member candidateIds (ul_likedUserId l)) (userLikes d);
          photos = sort_key (\<lambda>p. (pp_userId p, pp_position p)) (filter (\<lambda>p.
            List.member candidateIds (pp_userId p)) (userProfilePhotos d));
          boosts = filter (\<lambda>b. List.member candidateIds (bo_userId b) \<and> now < bo_endsAt b) (userBoosts d);
          plansByUser = map_of (map (\<lambda>s. (us_userId s, us_planId s)) subscriptions)
      in map (\<lambda>row. candidateBase.extend row (candidateRow.fields
           (map (\<lambda>p. (pp_url p, pp_position p)) (filter (\<lambda>p. pp_userId p = ca_id row) photos))
           (List.member (map ul_likedUserId likes) (ca_id row))
           (case plansByUser (ca_id row) of None \<Rightarrow> js ''free'' | Some p \<Rightarrow> p)
           (List.member (map bo_userId boosts) (ca_id row)))) rows)"

definition eligible :: "jsstring \<Rightarrow> user \<Rightarrow> db \<Rightarrow> user \<Rightarrow> bool" where
  "eligible userId viewer d u \<longleftrightarrow> u_userId u \<noteq> pgUuid userId \<and> profileComplete u \<and>
     accepts (u_interestedGender u) (u_gender viewer) \<and> accepts (u_interestedGender viewer) (u_gender u) \<and>
     \<not> blockedBetween userId (u_userId u) d \<and>
     \<not> existsRow (activeAction userId (u_userId u)) (matchActions d)"

definition repoCandidates :: "timestamp \<Rightarrow> jsstring \<Rightarrow> db \<Rightarrow> candidateRow list" where
  "repoCandidates now userId d =
     (case findUserRow userId d of
        None \<Rightarrow> []
      | Some viewer \<Rightarrow> withCandidateDetails now userId
          (map candidateOf (take 50 (sort_key (\<lambda>u. - u_createdAt u)
            (filter (eligible userId viewer d) (users d))))) d)"

definition repoLikedMeCandidates :: "timestamp \<Rightarrow> jsstring \<Rightarrow> nat \<Rightarrow> db \<Rightarrow> candidateRow list" where
  "repoLikedMeCandidates now userId limit d =
     (let joined = concat (map (\<lambda>l. map (\<lambda>u. (l, u)) (filter (\<lambda>u. u_userId u = ul_likerUserId l) (users d)))
            (userLikes d));
          rows = filter (\<lambda>(l, u). ul_likedUserId l = pgUuid userId \<and> u_userId u \<noteq> pgUuid userId \<and>
            profileComplete u \<and> \<not> blockedBetween userId (u_userId u) d) joined
      in withCandidateDetails now userId
           (map (\<lambda>(l, u). candidateOf u) (take limit (sort_key (\<lambda>(l, u). - ul_createdAt l) rows))) d)"

definition consumeLikedMeAccess :: "timestamp \<Rightarrow> jsstring \<Rightarrow> timestamp \<Rightarrow> int \<Rightarrow> bool dbprog" where
  "consumeLikedMeAccess now userId periodStart limit =
     andThen (query (\<lambda>d. findFirst (\<lambda>a. la_userId a = pgUuid userId \<and> la_periodStart a = periodStart)
       (userLikedMeAccesses d))) (\<lambda>existing.
     case existing of
       None \<Rightarrow>
         andThen (query (userExists (pgUuid userId))) (\<lambda>known.
         andThen (throwIf (\<not> known) (PgError ForeignKeyViolation)) (\<lambda>_.
         andThen (modify (\<lambda>d. d\<lparr>userLikedMeAccesses := insertRow \<lparr>la_userId = pgUuid userId,
           la_periodStart = periodStart, la_viewedCount = 1, la_updatedAt = now\<rparr> (userLikedMeAccesses d)\<rparr>)) (\<lambda>_.
         ret True)))
     | Some a \<Rightarrow>
         if la_viewedCount a < limit
         then andThen (modify (\<lambda>d. d\<lparr>userLikedMeAccesses := updateWhere
             (\<lambda>a. la_userId a = pgUuid userId \<and> la_periodStart a = periodStart)
             (\<lambda>a. a\<lparr>la_viewedCount := la_viewedCount a + 1, la_updatedAt := now\<rparr>)
             (userLikedMeAccesses d)\<rparr>)) (\<lambda>_. ret True)
         else ret False)"

text \<open>The inserts with the constraints of their tables. An action is unique among those of the pair
  that are not reverted; nobody acts on, likes or matches oneself.\<close>

definition insertUserLike :: "userLike \<Rightarrow> unit dbprog" where
  "insertUserLike l =
     andThen (query (\<lambda>d. (keyTaken (\<lambda>r. (ul_likerUserId r, ul_likedUserId r))
         (ul_likerUserId l, ul_likedUserId l) (userLikes d),
       userExists (ul_likerUserId l) d \<and> userExists (ul_likedUserId l) d))) (\<lambda>(taken, known).
     andThen (throwIf (ul_likerUserId l = ul_likedUserId l) (PgError CheckViolation)) (\<lambda>_.
     andThen (throwIf taken (PgError UniqueViolation)) (\<lambda>_.
     andThen (throwIf (\<not> known) (PgError ForeignKeyViolation)) (\<lambda>_.
     modify (\<lambda>d. d\<lparr>userLikes := insertRow l (userLikes d)\<rparr>)))))"

definition insertMatchAction :: "matchAction \<Rightarrow> unit dbprog" where
  "insertMatchAction a =
     andThen (query (\<lambda>d. (keyTaken ma_id (ma_id a) (matchActions d) \<or>
         ma_revertedAt a = None \<and>
           existsRow (activeAction (ma_actorUserId a) (ma_targetUserId a)) (matchActions d),
       userExists (ma_actorUserId a) d \<and> userExists (ma_targetUserId a) d))) (\<lambda>(taken, known).
     andThen (throwIf (ma_actorUserId a = ma_targetUserId a) (PgError CheckViolation)) (\<lambda>_.
     andThen (throwIf taken (PgError UniqueViolation)) (\<lambda>_.
     andThen (throwIf (\<not> known) (PgError ForeignKeyViolation)) (\<lambda>_.
     modify (\<lambda>d. d\<lparr>matchActions := insertRow a (matchActions d)\<rparr>)))))"

definition insertRoom :: "room \<Rightarrow> unit dbprog" where
  "insertRoom r =
     andThen (query (\<lambda>d. keyTaken r_id (r_id r) (rooms d))) (\<lambda>taken.
     andThen (throwIf taken (PgError UniqueViolation)) (\<lambda>_.
     modify (\<lambda>d. d\<lparr>rooms := insertRow r (rooms d)\<rparr>)))"

definition insertMatch :: "matchRow \<Rightarrow> unit dbprog" where
  "insertMatch m =
     andThen (query (\<lambda>d. (keyTaken (\<lambda>r. (mt_userLowId r, mt_userHighId r)) (mt_userLowId m, mt_userHighId m)
         (matchesTable d) \<or> keyTaken mt_roomId (mt_roomId m) (matchesTable d),
       userExists (mt_userLowId m) d \<and> userExists (mt_userHighId m) d \<and>
         keyTaken r_id (mt_roomId m) (rooms d)))) (\<lambda>(taken, known).
     andThen (throwIf (mt_userLowId m = mt_userHighId m) (PgError CheckViolation)) (\<lambda>_.
     andThen (throwIf taken (PgError UniqueViolation)) (\<lambda>_.
     andThen (throwIf (\<not> known) (PgError ForeignKeyViolation)) (\<lambda>_.
     modify (\<lambda>d. d\<lparr>matchesTable := insertRow m (matchesTable d)\<rparr>)))))"

text \<open>\<^verbatim>\<open>ON CONFLICT DO NOTHING\<close> on the members of a room.\<close>

definition addMember :: "timestamp \<Rightarrow> uuid \<Rightarrow> uuid \<Rightarrow> db \<Rightarrow> db" where
  "addMember now roomId userId d =
     (if existsRow (\<lambda>m. rm_roomId m = roomId \<and> rm_userId m = userId) (roomMembers d) then d
      else d\<lparr>roomMembers := insertRow \<lparr>rm_roomId = roomId, rm_userId = userId, rm_joinedAt = now\<rparr>
        (roomMembers d)\<rparr>)"

definition findMatch :: "jsstring \<times> jsstring \<Rightarrow> db \<Rightarrow> matchRow option" where
  "findMatch pair d = findFirst (\<lambda>m. mt_userLowId m = pgUuid (fst pair) \<and> mt_userHighId m = pgUuid (snd pair))
     (matchesTable d)"

definition findLike :: "jsstring \<Rightarrow> jsstring \<Rightarrow> db \<Rightarrow> userLike option" where
  "findLike liker liked d =
     findFirst (\<lambda>l. ul_likerUserId l = pgUuid liker \<and> ul_likedUserId l = pgUuid liked) (userLikes d)"

definition matchIfReverseExists ::
  "uuid \<Rightarrow> timestamp \<Rightarrow> jsstring \<Rightarrow> jsstring \<Rightarrow> (bool \<times> uuid option) dbprog" where
  "matchIfReverseExists roomId now userId targetUserId =
     andThen (query (findLike targetUserId userId)) (\<lambda>reverse.
     if reverse = None then ret (False, None)
     else
       andThen (query (findMatch (orderedMatchingPair userId targetUserId))) (\<lambda>existing.
       case existing of
         Some m \<Rightarrow> ret (True, Some (mt_roomId m))
       | None \<Rightarrow>
           andThen (insertRoom \<lparr>r_id = roomId, r_name = [47588, 52845, 32, 45824, 54868],
             r_createdAt = now, r_updatedAt = now\<rparr>) (\<lambda>_.
           andThen (modify (addMember now roomId (pgUuid userId))) (\<lambda>_.
           andThen (modify (addMember now roomId (pgUuid targetUserId))) (\<lambda>_.
           andThen (insertMatch (case orderedMatchingPair userId targetUserId of (low, high) \<Rightarrow>
             \<lparr>mt_userLowId = pgUuid low, mt_userHighId = pgUuid high, mt_roomId = roomId,
              mt_createdAt = now\<rparr>)) (\<lambda>_.
           ret (True, Some roomId)))))))"

text \<open>Taking a super like credit returns the rows that had one.\<close>

definition spendSuperLike :: "timestamp \<Rightarrow> jsstring \<Rightarrow> unit dbprog" where
  "spendSuperLike now userId =
     (let P = (\<lambda>b. cb_userId b = pgUuid userId \<and> 0 < cb_superLikeCredits b) in
      andThen (query (\<lambda>d. existsRow P (userConsumableBalances d))) (\<lambda>found.
      andThen (modify (\<lambda>d. d\<lparr>userConsumableBalances := updateWhere P
        (\<lambda>b. b\<lparr>cb_superLikeCredits := cb_superLikeCredits b - 1, cb_updatedAt := now\<rparr>)
        (userConsumableBalances d)\<rparr>)) (\<lambda>_.
      throwIf (\<not> found) (ErrorCode ''SUPERLIKE_CREDITS_REQUIRED''))))"

definition likesBetween :: "jsstring \<Rightarrow> timestamp \<Rightarrow> timestamp \<Rightarrow> db \<Rightarrow> nat" where
  "likesBetween userId dayStart dayEnd d =
     countWhere (\<lambda>l. ul_likerUserId l = pgUuid userId \<and> dayStart \<le> ul_createdAt l \<and> ul_createdAt l < dayEnd)
       (userLikes d)"

definition recordLike ::
  "timestamp \<Rightarrow> timestamp \<Rightarrow> timestamp \<Rightarrow> nat option \<Rightarrow> jsstring \<Rightarrow> jsstring \<Rightarrow> unit dbprog" where
  "recordLike now dayStart dayEnd dailyLimit userId targetUserId =
     andThen (query (findLike userId targetUserId)) (\<lambda>existingLike.
     if existingLike \<noteq> None then ret ()
     else
       andThen (query (likesBetween userId dayStart dayEnd)) (\<lambda>n.
       andThen (throwIf (case dailyLimit of None \<Rightarrow> False | Some limit \<Rightarrow> limit \<le> n)
         (ErrorCode ''LIKE_LIMIT_REACHED'')) (\<lambda>_.
       insertUserLike \<lparr>ul_likerUserId = pgUuid userId, ul_likedUserId = pgUuid targetUserId,
         ul_createdAt = now\<rparr>)))"

definition superLikeCreditsOf :: "jsstring \<Rightarrow> db \<Rightarrow> int option" where
  "superLikeCreditsOf userId d = map_option cb_superLikeCredits (findBalance userId d)"

text \<open>The answer to a request that repeats an active action.\<close>

definition repeatedAction :: "jsstring \<Rightarrow> jsstring \<Rightarrow> matchActionKind \<Rightarrow> matchAction \<Rightarrow> actResult dbprog" where
  "repeatedAction userId targetUserId action existingAction =
     andThen (throwIf (ma_action existingAction \<noteq> action) (ErrorCode ''MATCH_ACTION_CONFLICT'')) (\<lambda>_.
     if action = Skip
     then ret \<lparr>ar_matched = False, ar_roomId = None, ar_remainingSuperLikeCredits = None, ar_created = False\<rparr>
     else
       andThen (query (findMatch (orderedMatchingPair userId targetUserId))) (\<lambda>existingMatch.
       andThen (query (\<lambda>d. if action = Superlike then superLikeCreditsOf userId d else None)) (\<lambda>credits.
       ret \<lparr>ar_matched = existingMatch \<noteq> None, ar_roomId = map_option mt_roomId existingMatch,
         ar_remainingSuperLikeCredits = credits, ar_created = False\<rparr>)))"

definition assertAvailable :: "jsstring \<Rightarrow> jsstring \<Rightarrow> unit dbprog" where
  "assertAvailable userId targetUserId =
     andThen (query (findUserRow userId)) (\<lambda>actor.
     andThen (query (findUserRow targetUserId)) (\<lambda>target.
     case actor of
       None \<Rightarrow> throw (ErrorCode ''PROFILE_COMPLETION_REQUIRED'')
     | Some a \<Rightarrow>
         andThen (throwIf (\<not> profileComplete a) (ErrorCode ''PROFILE_COMPLETION_REQUIRED'')) (\<lambda>_.
         case target of
           None \<Rightarrow> throw (ErrorCode ''USER_NOT_FOUND'')
         | Some t \<Rightarrow>
             andThen (throwIf (\<not> profileComplete t) (ErrorCode ''USER_NOT_FOUND'')) (\<lambda>_.
             andThen (throwIf (\<not> accepts (u_interestedGender a) (u_gender t) \<or>
                 \<not> accepts (u_interestedGender t) (u_gender a)) (ErrorCode ''CANDIDATE_NOT_AVAILABLE'')) (\<lambda>_.
             andThen (query (blockedBetween userId targetUserId)) (\<lambda>blocked.
             throwIf blocked (ErrorCode ''CANDIDATE_NOT_AVAILABLE'')))))))"

definition finishAction ::
  "uuid \<Rightarrow> timestamp \<Rightarrow> jsstring \<Rightarrow> jsstring \<Rightarrow> matchActionKind \<Rightarrow> actResult dbprog" where
  "finishAction roomId now userId targetUserId action =
     (if action = Skip
      then ret \<lparr>ar_matched = False, ar_roomId = None, ar_remainingSuperLikeCredits = None, ar_created = True\<rparr>
      else
        andThen (matchIfReverseExists roomId now userId targetUserId) (\<lambda>(matched, roomId).
        andThen (query (\<lambda>d. if action = Superlike then superLikeCreditsOf userId d else None)) (\<lambda>credits.
        ret \<lparr>ar_matched = matched, ar_roomId = roomId, ar_remainingSuperLikeCredits = credits,
          ar_created = True\<rparr>)))"

text \<open>The generated identifiers: \<open>ids 0\<close> for the action, \<open>ids 1\<close> for the room of a match.\<close>

definition newAction ::
  "(nat \<Rightarrow> uuid) \<Rightarrow> timestamp \<Rightarrow> timestamp \<Rightarrow> timestamp \<Rightarrow> nat option \<Rightarrow> jsstring \<Rightarrow> jsstring \<Rightarrow>
   matchActionKind \<Rightarrow> actResult dbprog" where
  "newAction ids now dayStart dayEnd dailyLimit userId targetUserId action =
     andThen (assertAvailable userId targetUserId) (\<lambda>_.
     andThen (if action = Superlike then spendSuperLike now userId else ret ()) (\<lambda>_.
     andThen (if action \<noteq> Skip then recordLike now dayStart dayEnd dailyLimit userId targetUserId else ret ()) (\<lambda>_.
     andThen (insertMatchAction \<lparr>ma_id = ids 0, ma_actorUserId = pgUuid userId,
       ma_targetUserId = pgUuid targetUserId, ma_action = action, ma_revertedAt = None,
       ma_createdAt = now\<rparr>) (\<lambda>_.
     finishAction (ids 1) now userId targetUserId action))))"

definition repoActOnCandidate ::
  "(nat \<Rightarrow> uuid) \<Rightarrow> timestamp \<Rightarrow> timestamp \<Rightarrow> timestamp \<Rightarrow> nat option \<Rightarrow> jsstring \<Rightarrow> jsstring \<Rightarrow>
   matchActionKind \<Rightarrow> actResult dbprog" where
  "repoActOnCandidate ids now dayStart dayEnd dailyLimit userId targetUserId action = transaction (
     andThen (query (\<lambda>d. firstBy (\<lambda>a. - ma_createdAt a) (activeAction userId targetUserId) (matchActions d)))
       (\<lambda>existingAction.
     case existingAction of
       Some a \<Rightarrow> repeatedAction userId targetUserId action a
     | None \<Rightarrow> newAction ids now dayStart dayEnd dailyLimit userId targetUserId action))"

text \<open>Giving a super like credit back: an upsert of the balance.\<close>

definition returnSuperLike :: "timestamp \<Rightarrow> jsstring \<Rightarrow> db \<Rightarrow> db" where
  "returnSuperLike now userId d =
     (if existsRow (\<lambda>b. cb_userId b = pgUuid userId) (userConsumableBalances d)
      then d\<lparr>userConsumableBalances := updateWhere (\<lambda>b. cb_userId b = pgUuid userId)
        (\<lambda>b. b\<lparr>cb_superLikeCredits := cb_superLikeCredits b + 1, cb_updatedAt := now\<rparr>)
        (userConsumableBalances d)\<rparr>
      else d\<lparr>userConsumableBalances := insertRow \<lparr>cb_userId = pgUuid userId, cb_superLikeCredits = 1,
        cb_boostCredits = 0, cb_updatedAt = now\<rparr> (userConsumableBalances d)\<rparr>)"

definition repoUndoLastAction :: "timestamp \<Rightarrow> jsstring \<Rightarrow> matchAction option dbprog" where
  "repoUndoLastAction now userId = transaction (
     andThen (query (\<lambda>d. firstBy (\<lambda>a. - ma_createdAt a)
       (\<lambda>a. ma_actorUserId a = pgUuid userId \<and> ma_revertedAt a = None) (matchActions d))) (\<lambda>found.
     case found of
       None \<Rightarrow> ret None
     | Some action \<Rightarrow>
         let P = (\<lambda>a. ma_id a = ma_id action \<and> ma_revertedAt a = None);
             f = (\<lambda>a. a\<lparr>ma_revertedAt := Some now\<rparr>) in
         andThen (query (\<lambda>d. headOption (returning P f (matchActions d)))) (\<lambda>claimedAction.
         andThen (modify (\<lambda>d. d\<lparr>matchActions := updateWhere P f (matchActions d)\<rparr>)) (\<lambda>_.
         if claimedAction = None then ret None
         else
           andThen (query (findMatch (orderedMatchingPair (ma_actorUserId action) (ma_targetUserId action))))
             (\<lambda>existingMatch.
           andThen (throwIf (existingMatch \<noteq> None) (ErrorCode ''UNDO_NOT_AVAILABLE_AFTER_MATCH'')) (\<lambda>_.
           andThen (if ma_action action = Like \<or> ma_action action = Superlike
             then modify (\<lambda>d. d\<lparr>userLikes := deleteWhere (\<lambda>l. ul_likerUserId l = pgUuid userId \<and>
               ul_likedUserId l = ma_targetUserId action) (userLikes d)\<rparr>)
             else ret ()) (\<lambda>_.
           andThen (if ma_action action = Superlike then modify (returnSuperLike now userId) else ret ()) (\<lambda>_.
           ret claimedAction))))))))"

definition repoActivateBoost :: "uuid \<Rightarrow> timestamp \<Rightarrow> jsstring \<Rightarrow> (timestamp \<times> int) dbprog" where
  "repoActivateBoost i now userId = transaction (
     let P = (\<lambda>b. cb_userId b = pgUuid userId \<and> 0 < cb_boostCredits b);
         f = (\<lambda>b. b\<lparr>cb_boostCredits := cb_boostCredits b - 1, cb_updatedAt := now\<rparr>) in
     andThen (query (\<lambda>d. headOption (returning P f (userConsumableBalances d)))) (\<lambda>credits.
     andThen (modify (\<lambda>d. d\<lparr>userConsumableBalances := updateWhere P f (userConsumableBalances d)\<rparr>)) (\<lambda>_.
     case credits of
       None \<Rightarrow> throw (ErrorCode ''BOOST_CREDITS_REQUIRED'')
     | Some b \<Rightarrow>
         andThen (query (\<lambda>d. existsRow (\<lambda>x. bo_userId x = pgUuid userId \<and> now < bo_endsAt x) (userBoosts d)))
           (\<lambda>activeBoost.
         andThen (throwIf activeBoost (ErrorCode ''BOOST_ALREADY_ACTIVE'')) (\<lambda>_.
         andThen (query (\<lambda>d. keyTaken bo_id i (userBoosts d))) (\<lambda>taken.
         andThen (throwIf taken (PgError UniqueViolation)) (\<lambda>_.
         andThen (modify (\<lambda>d. d\<lparr>userBoosts := insertRow \<lparr>bo_id = i, bo_userId = pgUuid userId,
           bo_source = js ''consumable'', bo_startsAt = now, bo_endsAt = now + 30 * 60 * 1000,
           bo_createdAt = now\<rparr> (userBoosts d)\<rparr>)) (\<lambda>_.
         ret (now + 30 * 60 * 1000, cb_boostCredits b)))))))))"

section \<open>Service\<close>

text \<open>The plans are the three a subscription product has and \<^verbatim>\<open>free\<close>; other names get the default of
  the lookup.\<close>

definition getDailyLikeLimit :: "jsstring \<Rightarrow> nat option" where
  "getDailyLikeLimit planId =
     (if planId = js ''free'' then Some 10 else if planId = js ''basic'' then Some 20
      else if planId = js ''gold'' then Some 40 else if planId = js ''black'' then None else Some 10)"

definition getLikedMeLimit :: "jsstring \<Rightarrow> nat option" where
  "getLikedMeLimit planId =
     (if planId = js ''free'' then None else if planId = js ''basic'' then Some 3
      else if planId = js ''gold'' then Some 10 else if planId = js ''black'' then None else Some 3)"

definition LIKED_ME_WINDOW_HOURS :: int where
  "LIKED_ME_WINDOW_HOURS = 3"

definition LIKED_ME_MAX_PAGE_SIZE :: nat where
  "LIKED_ME_MAX_PAGE_SIZE = 50"

definition nextUtcDay :: "timestamp \<Rightarrow> timestamp" where
  "nextUtcDay now = startOfUtcDay now + 24 * MS_PER_HOUR"

definition startOfLikedMeWindow :: "timestamp \<Rightarrow> timestamp" where
  "startOfLikedMeWindow now =
     (let hour = utcHours now div LIKED_ME_WINDOW_HOURS * LIKED_ME_WINDOW_HOURS
      in startOfUtcDay now + hour * MS_PER_HOUR)"

definition ageFromBirthDate :: "timestamp \<Rightarrow> jsstring option \<Rightarrow> int" where
  "ageFromBirthDate now birthDate =
     (if truthy birthDate then fullYears (dayOfText (the birthDate)) (utcDay now) else 18)"

definition rowToCandidate :: "timestamp \<Rightarrow> candidateRow \<Rightarrow> matchCandidatePayload" where
  "rowToCandidate now row = \<lparr>mc_id = ca_id row, mc_userName = ca_userName row, mc_gender = ca_gender row,
     mc_age = ageFromBirthDate now (ca_birthDate row),
     mc_region = (case ca_region row of None \<Rightarrow> [51648, 50669, 32, 48120, 49444, 51221] | Some r \<Rightarrow> r),
     mc_intro = ca_intro row, mc_photos = ca_photos row, mc_likedByMe = ca_likedByMe row,
     mc_planId = ca_planId row, mc_blackRecommended = (ca_planId row = js ''black''),
     mc_boostActive = ca_boostActive row\<rparr>"

definition validateMatchingUuid :: "jsstring \<Rightarrow> unit dbprog" where
  "validateMatchingUuid s = throwIf (\<not> uuidRegex s) (ErrorCode ''USER_ID_INVALID'')"

definition requireCompletedProfile :: "jsstring \<Rightarrow> unit dbprog" where
  "requireCompletedProfile userId =
     andThen (query (profileIsComplete userId)) (\<lambda>complete.
     throwIf (\<not> complete) (ErrorCode ''PROFILE_COMPLETION_REQUIRED''))"

definition candidates :: "timestamp \<Rightarrow> jsstring \<Rightarrow> matchCandidatePayload list dbprog" where
  "candidates now userId =
     andThen (validateMatchingUuid userId) (\<lambda>_.
     andThen (requireCompletedProfile userId) (\<lambda>_.
     andThen (query (repoCandidates now userId)) (\<lambda>rows.
     ret (map (rowToCandidate now) rows))))"

definition enforceLikedMeWindow :: "timestamp \<Rightarrow> jsstring \<Rightarrow> jsstring \<Rightarrow> unit dbprog" where
  "enforceLikedMeWindow now userId viewerPlanId =
     (case getLikedMeLimit viewerPlanId of
        None \<Rightarrow> ret ()
      | Some limit \<Rightarrow>
          andThen (consumeLikedMeAccess now userId (startOfLikedMeWindow now) (int limit)) (\<lambda>consumed.
          throwIf (\<not> consumed) (ErrorCode ''LIKED_ME_LIMIT_REACHED'')))"

definition likedMeCandidates :: "timestamp \<Rightarrow> jsstring \<Rightarrow> matchCandidatePayload list dbprog" where
  "likedMeCandidates now userId =
     andThen (validateMatchingUuid userId) (\<lambda>_.
     andThen (requireCompletedProfile userId) (\<lambda>_.
     andThen (query (currentPlanId now userId)) (\<lambda>viewerPlanId.
     andThen (throwIf (viewerPlanId = js ''free'') (ErrorCode ''LIKED_ME_NOT_AVAILABLE'')) (\<lambda>_.
     andThen (enforceLikedMeWindow now userId viewerPlanId) (\<lambda>_.
     andThen (query (repoLikedMeCandidates now userId
       (case getLikedMeLimit viewerPlanId of None \<Rightarrow> LIKED_ME_MAX_PAGE_SIZE | Some n \<Rightarrow> n))) (\<lambda>rows.
     ret (map (rowToCandidate now) rows)))))))"

definition matchNotification :: "jsstring \<Rightarrow> uuid option \<Rightarrow> createNotificationInput" where
  "matchNotification userId roomId = \<lparr>ni_userId = userId, ni_type = MatchN,
     ni_title = [49436, 47196, 32, 44288, 49900, 51060, 32, 45823, 50520, 50612, 50836],
     ni_body = [51060, 51228, 32, 45824, 54868, 47484, 32, 49884, 51089, 54624, 32, 49688, 32, 51080,
       50612, 50836, 46],
     ni_route = Some (if truthy roomId then js ''/rooms/'' @ the roomId else js ''/rooms''),
     ni_sourceId = roomId\<rparr>"

definition likeNotification :: "jsstring \<Rightarrow> jsstring \<Rightarrow> createNotificationInput" where
  "likeNotification userId targetUserId = \<lparr>ni_userId = targetUserId, ni_type = LikeN,
     ni_title = [49352, 32, 44288, 49900, 51012, 32, 48155, 50520, 50612, 50836],
     ni_body = [45208, 47484, 32, 51339, 50500, 54620, 32, 49324, 46988, 50640, 49436, 32, 54869, 51064,
       54644, 32, 48372, 49464, 50836, 46],
     ni_route = Some (js ''/likes''), ni_sourceId = Some userId\<rparr>"

text \<open>\<^verbatim>\<open>Promise.all\<close> starts both notifications: the second runs also when the first fails, and the
  failure of either is the failure of both.\<close>

definition notifyInteraction ::
  "(nat \<Rightarrow> uuid) \<Rightarrow> timestamp \<Rightarrow> bool \<Rightarrow> jsstring \<Rightarrow> jsstring \<Rightarrow> bool \<Rightarrow> uuid option \<Rightarrow> unit dbprog" where
  "notifyInteraction ids now pushEnabled userId targetUserId matched roomId =
     (if matched
      then
        andThen (tryCatch (andThen (notify (\<lambda>k. ids (2 * k)) now pushEnabled (matchNotification userId roomId))
            (\<lambda>_. ret None)) (\<lambda>e. ret (Some e))) (\<lambda>failed.
        andThen (notify (\<lambda>k. ids (2 * k + 1)) now pushEnabled (matchNotification targetUserId roomId)) (\<lambda>_.
        case failed of None \<Rightarrow> ret () | Some e \<Rightarrow> throw e))
      else
        andThen (notify ids now pushEnabled (likeNotification userId targetUserId)) (\<lambda>_. ret ()))"

definition actOnCandidate ::
  "(nat \<Rightarrow> uuid) \<Rightarrow> timestamp \<Rightarrow> bool \<Rightarrow> jsstring \<Rightarrow> jsstring \<Rightarrow> matchActionKind \<Rightarrow> likeUserPayload dbprog" where
  "actOnCandidate ids now pushEnabled userId targetUserId action =
     andThen (validateMatchingUuid userId) (\<lambda>_.
     andThen (validateMatchingUuid targetUserId) (\<lambda>_.
     andThen (throwIf (userId = targetUserId) (ErrorCode
       (if action = Skip then ''SKIP_SELF_NOT_ALLOWED'' else ''LIKE_SELF_NOT_ALLOWED''))) (\<lambda>_.
     andThen (requireCompletedProfile userId) (\<lambda>_.
     andThen (query (currentPlanId now userId)) (\<lambda>planId.
     andThen (repoActOnCandidate ids now (startOfUtcDay now) (nextUtcDay now) (getDailyLikeLimit planId)
       userId targetUserId action) (\<lambda>result.
     andThen (if ar_created result \<and> action \<noteq> Skip
       then tryCatch (notifyInteraction (\<lambda>k. ids (k + 2)) now pushEnabled userId targetUserId
         (ar_matched result) (ar_roomId result)) (\<lambda>_. ret ())
       else ret ()) (\<lambda>_.
     ret \<lparr>lp_matched = ar_matched result, lp_roomId = ar_roomId result,
       lp_undoAvailable = (\<not> ar_matched result)\<rparr>)))))))"

definition likeUser :: "(nat \<Rightarrow> uuid) \<Rightarrow> timestamp \<Rightarrow> bool \<Rightarrow> jsstring \<Rightarrow> jsstring \<Rightarrow> likeUserPayload dbprog" where
  "likeUser ids now pushEnabled userId likedUserId =
     actOnCandidate ids now pushEnabled userId likedUserId Like"

definition skipCandidate :: "(nat \<Rightarrow> uuid) \<Rightarrow> timestamp \<Rightarrow> bool \<Rightarrow> jsstring \<Rightarrow> jsstring \<Rightarrow> bool dbprog" where
  "skipCandidate ids now pushEnabled userId targetUserId =
     andThen (actOnCandidate ids now pushEnabled userId targetUserId Skip) (\<lambda>result.
     ret (\<not> lp_matched result))"

definition superLikeUser :: "(nat \<Rightarrow> uuid) \<Rightarrow> timestamp \<Rightarrow> bool \<Rightarrow> jsstring \<Rightarrow> jsstring \<Rightarrow> likeUserPayload dbprog" where
  "superLikeUser ids now pushEnabled userId targetUserId =
     actOnCandidate ids now pushEnabled userId targetUserId Superlike"

definition undoLastAction :: "timestamp \<Rightarrow> jsstring \<Rightarrow> (bool \<times> uuid option) dbprog" where
  "undoLastAction now userId =
     andThen (validateMatchingUuid userId) (\<lambda>_.
     andThen (requireCompletedProfile userId) (\<lambda>_.
     andThen (repoUndoLastAction now userId) (\<lambda>action.
     ret (action \<noteq> None, map_option ma_targetUserId action))))"

definition activateBoost :: "uuid \<Rightarrow> timestamp \<Rightarrow> jsstring \<Rightarrow> (timestamp \<times> int) dbprog" where
  "activateBoost i now userId =
     andThen (validateMatchingUuid userId) (\<lambda>_.
     andThen (requireCompletedProfile userId) (\<lambda>_.
     repoActivateBoost i now userId))"

section \<open>Likes and matches as relations\<close>

definition liked :: "uuid \<Rightarrow> uuid \<Rightarrow> db \<Rightarrow> bool" where
  "liked a b d = existsRow (\<lambda>l. ul_likerUserId l = a \<and> ul_likedUserId l = b) (userLikes d)"

definition matchOf :: "uuid \<Rightarrow> uuid \<Rightarrow> matchRow \<Rightarrow> bool" where
  "matchOf a b m \<longleftrightarrow> mt_userLowId m = a \<and> mt_userHighId m = b \<or> mt_userLowId m = b \<and> mt_userHighId m = a"

definition matchedPair :: "uuid \<Rightarrow> uuid \<Rightarrow> db \<Rightarrow> bool" where
  "matchedPair a b d = existsRow (matchOf a b) (matchesTable d)"

definition inRoom :: "uuid \<Rightarrow> uuid \<Rightarrow> db \<Rightarrow> bool" where
  "inRoom r u d = existsRow (\<lambda>m. rm_roomId m = r \<and> rm_userId m = u) (roomMembers d)"

text \<open>A match is stored once, in order, between two users who like each other, and its room exists
  with both as members.\<close>

definition matchOk :: "db \<Rightarrow> matchRow \<Rightarrow> bool" where
  "matchOk d m \<longleftrightarrow> mt_userLowId m < mt_userHighId m \<and>
     liked (mt_userLowId m) (mt_userHighId m) d \<and> liked (mt_userHighId m) (mt_userLowId m) d \<and>
     keyTaken r_id (mt_roomId m) (rooms d) \<and>
     inRoom (mt_roomId m) (mt_userLowId m) d \<and> inRoom (mt_roomId m) (mt_userHighId m) d"

definition likeAction :: "uuid \<Rightarrow> uuid \<Rightarrow> matchAction \<Rightarrow> bool" where
  "likeAction a b x \<longleftrightarrow> ma_actorUserId x = a \<and> ma_targetUserId x = b \<and> ma_revertedAt x = None \<and> ma_action x \<noteq> Skip"

text \<open>Actions in force are unique for a pair, and the likes are those of the actions in force.\<close>

definition actionsOk :: "db \<Rightarrow> bool" where
  "actionsOk d \<longleftrightarrow> uniqueKey ma_id (matchActions d) \<and>
     uniqueKey (\<lambda>x. (ma_actorUserId x, ma_targetUserId x)) (filter (\<lambda>x. ma_revertedAt x = None) (matchActions d)) \<and>
     list_all (\<lambda>x. canonicalUuid (ma_actorUserId x) \<and> canonicalUuid (ma_targetUserId x)) (matchActions d) \<and>
     list_all (\<lambda>x. ma_revertedAt x = None \<and> ma_action x \<noteq> Skip \<longrightarrow>
       liked (ma_actorUserId x) (ma_targetUserId x) d) (matchActions d) \<and>
     list_all (\<lambda>l. existsRow (likeAction (ul_likerUserId l) (ul_likedUserId l)) (matchActions d)) (userLikes d)"

definition matchesOk :: "db \<Rightarrow> bool" where
  "matchesOk d \<longleftrightarrow> list_all (matchOk d) (matchesTable d) \<and>
     uniqueKey (\<lambda>m. (mt_userLowId m, mt_userHighId m)) (matchesTable d)"

text \<open>Users who like each other are matched.\<close>

definition mutualMatched :: "db \<Rightarrow> bool" where
  "mutualMatched d \<longleftrightarrow> list_all (\<lambda>l. liked (ul_likedUserId l) (ul_likerUserId l) d \<longrightarrow>
       matchedPair (ul_likerUserId l) (ul_likedUserId l) d) (userLikes d)"

definition matchingInv :: "db \<Rightarrow> bool" where
  "matchingInv d \<longleftrightarrow> matchesOk d \<and> mutualMatched d \<and> actionsOk d"



lemma liked_findLike: "liked (pgUuid a) (pgUuid b) d \<longleftrightarrow> findLike a b d \<noteq> None"
  by (auto simp: liked_def findLike_def existsRow_iff findFirst_None_iff)

section \<open>The steps of an action\<close>

lemma addMember_frame [simp]:
  "userLikes (addMember now r u d) = userLikes d" "matchActions (addMember now r u d) = matchActions d"
  "matchesTable (addMember now r u d) = matchesTable d" "rooms (addMember now r u d) = rooms d"
  "users (addMember now r u d) = users d"
  "userConsumableBalances (addMember now r u d) = userConsumableBalances d"
  by (simp_all add: addMember_def)

lemma inRoom_addMember: "inRoom r' u' (addMember now r u d) \<longleftrightarrow> inRoom r' u' d \<or> r' = r \<and> u' = u"
  by (auto simp: inRoom_def addMember_def existsRow_iff)

definition matchMade :: "uuid \<Rightarrow> timestamp \<Rightarrow> uuid \<Rightarrow> uuid \<Rightarrow> db \<Rightarrow> db" where
  "matchMade roomId now a b d =
     (let d1 = addMember now roomId b (addMember now roomId a
            (d\<lparr>rooms := insertRow \<lparr>r_id = roomId, r_name = [47588, 52845, 32, 45824, 54868],
              r_createdAt = now, r_updatedAt = now\<rparr> (rooms d)\<rparr>))
      in d1\<lparr>matchesTable := insertRow \<lparr>mt_userLowId = min a b, mt_userHighId = max a b, mt_roomId = roomId,
           mt_createdAt = now\<rparr> (matchesTable d)\<rparr>)"

lemma matchMade_tables [simp]:
  "userLikes (matchMade r now a b d) = userLikes d" "matchActions (matchMade r now a b d) = matchActions d"
  "users (matchMade r now a b d) = users d"
  "userConsumableBalances (matchMade r now a b d) = userConsumableBalances d"
  "set (matchesTable (matchMade r now a b d)) = insert \<lparr>mt_userLowId = min a b, mt_userHighId = max a b,
     mt_roomId = r, mt_createdAt = now\<rparr> (set (matchesTable d))"
  by (simp_all add: matchMade_def Let_def)

lemma ordered_pair: "orderedMatchingPair a b = (min a b, max a b)"
  by (auto simp: orderedMatchingPair_def min_def max_def)

lemma findMatch_ordered:
  assumes "canonicalUuid a" "canonicalUuid b"
  shows "findMatch (orderedMatchingPair a b) d =
    findFirst (\<lambda>m. mt_userLowId m = min a b \<and> mt_userHighId m = max a b) (matchesTable d)"
  using assms by (simp add: findMatch_def ordered_pair min_def max_def)

lemma matchIfReverseExists_cases:
  assumes run: "matchIfReverseExists roomId now a b d = (Inr (m, r), d')"
    and can: "canonicalUuid a" "canonicalUuid b"
  shows "\<not> liked b a d \<and> \<not> m \<and> r = None \<and> d' = d \<or>
    (\<exists>x \<in> set (matchesTable d). liked b a d \<and> mt_userLowId x = min a b \<and> mt_userHighId x = max a b \<and>
       m \<and> r = Some (mt_roomId x) \<and> d' = d) \<or>
    liked b a d \<and> m \<and> r = Some roomId \<and> a \<noteq> b \<and> d' = matchMade roomId now a b d \<and>
      \<not> keyTaken r_id roomId (rooms d) \<and> \<not> keyTaken mt_roomId roomId (matchesTable d) \<and>
      \<not> keyTaken (\<lambda>x. (mt_userLowId x, mt_userHighId x)) (min a b, max a b) (matchesTable d)"
proof (cases "findLike b a d")
  case None
  then have "\<not> liked b a d"
    using liked_findLike [of b a d] can by simp
  with None run show ?thesis
    by (simp add: matchIfReverseExists_def)
next
  case (Some l)
  then have l: "liked b a d"
    using liked_findLike [of b a d] can by simp
  show ?thesis
  proof (cases "findMatch (orderedMatchingPair a b) d")
    case None
    have p: "pgUuid (min a b) = min a b" "pgUuid (max a b) = max a b"
      using can by (simp_all add: min_def max_def)
    have "min a b \<noteq> max a b \<Longrightarrow> a \<noteq> b" by auto
    with run Some None l can p show ?thesis
      by (simp add: matchIfReverseExists_def insertRoom_def insertMatch_def ordered_pair matchMade_def Let_def andThen_assoc
          split: if_splits)
  next
    case (Some x)
    have "x \<in> set (matchesTable d)" "mt_userLowId x = min a b \<and> mt_userHighId x = max a b"
      using findFirst_SomeD [OF Some [unfolded findMatch_ordered [OF can]]] by simp_all
    moreover have "m \<and> r = Some (mt_roomId x) \<and> d' = d"
      using run Some \<open>findLike b a d = Some l\<close> by (simp add: matchIfReverseExists_def)
    ultimately show ?thesis
      using l by blast
  qed
qed

definition hasSuperLike :: "uuid \<Rightarrow> db \<Rightarrow> bool" where
  "hasSuperLike a d = existsRow (\<lambda>b. cb_userId b = a \<and> 0 < cb_superLikeCredits b) (userConsumableBalances d)"

definition spent :: "timestamp \<Rightarrow> uuid \<Rightarrow> db \<Rightarrow> db" where
  "spent now a d = d\<lparr>userConsumableBalances := updateWhere (\<lambda>b. cb_userId b = a \<and> 0 < cb_superLikeCredits b)
     (\<lambda>b. b\<lparr>cb_superLikeCredits := cb_superLikeCredits b - 1, cb_updatedAt := now\<rparr>) (userConsumableBalances d)\<rparr>"

text \<open>What a new action writes, apart from the match: the credit, the like and the action.\<close>

definition acted :: "uuid \<Rightarrow> timestamp \<Rightarrow> uuid \<Rightarrow> uuid \<Rightarrow> matchActionKind \<Rightarrow> db \<Rightarrow> db" where
  "acted i now a b action d =
     (let d1 = (if action = Superlike then spent now a d else d);
          d2 = (if action = Skip \<or> liked a b d then d1
            else d1\<lparr>userLikes := insertRow \<lparr>ul_likerUserId = a, ul_likedUserId = b, ul_createdAt = now\<rparr> (userLikes d)\<rparr>)
      in d2\<lparr>matchActions := insertRow \<lparr>ma_id = i, ma_actorUserId = a, ma_targetUserId = b, ma_action = action,
           ma_revertedAt = None, ma_createdAt = now\<rparr> (matchActions d)\<rparr>)"

lemma acted_tables [simp]:
  "matchesTable (acted i now a b k d) = matchesTable d" "rooms (acted i now a b k d) = rooms d"
  "roomMembers (acted i now a b k d) = roomMembers d" "users (acted i now a b k d) = users d"
  "matchActions (acted i now a b k d) = insertRow \<lparr>ma_id = i, ma_actorUserId = a, ma_targetUserId = b, ma_action = k,
     ma_revertedAt = None, ma_createdAt = now\<rparr> (matchActions d)"
  "userLikes (acted i now a b k d) = (if k = Skip \<or> liked a b d then userLikes d
     else insertRow \<lparr>ul_likerUserId = a, ul_likedUserId = b, ul_createdAt = now\<rparr> (userLikes d))"
  "userConsumableBalances (acted i now a b k d) = (if k = Superlike
     then userConsumableBalances (spent now a d) else userConsumableBalances d)"
  by (auto simp: acted_def spent_def Let_def)

lemma liked_acted: "liked x y (acted i now a b k d) \<longleftrightarrow> liked x y d \<or> k \<noteq> Skip \<and> x = a \<and> y = b"
  by (auto simp: liked_def existsRow_iff)

lemma spendSuperLike_Inr:
  assumes "canonicalUuid a"
  shows "spendSuperLike now a d = (Inr x, d') \<longleftrightarrow> hasSuperLike a d \<and> d' = spent now a d"
  using assms by (auto simp: spendSuperLike_def hasSuperLike_def spent_def Let_def throwIf_apply)

definition withinLimit :: "nat option \<Rightarrow> uuid \<Rightarrow> timestamp \<Rightarrow> timestamp \<Rightarrow> db \<Rightarrow> bool" where
  "withinLimit limit a ds de d \<longleftrightarrow> (case limit of None \<Rightarrow> True | Some n \<Rightarrow> likesBetween a ds de d < n)"

lemma recordLike_Inr:
  assumes "canonicalUuid a" "canonicalUuid b" and "recordLike now ds de limit a b d = (Inr x, d')"
  shows "d' = (if liked a b d then d
      else d\<lparr>userLikes := insertRow \<lparr>ul_likerUserId = a, ul_likedUserId = b, ul_createdAt = now\<rparr> (userLikes d)\<rparr>) \<and>
    (\<not> liked a b d \<longrightarrow> withinLimit limit a ds de d)"
  using assms liked_findLike [of a b d]
  by (auto simp: recordLike_def insertUserLike_def withinLimit_def split: if_splits option.splits)

lemma insertMatchAction_Inr:
  assumes "insertMatchAction x d = (Inr u, d')" "ma_revertedAt x = None"
    "canonicalUuid (ma_actorUserId x)" "canonicalUuid (ma_targetUserId x)"
  shows "d' = d\<lparr>matchActions := insertRow x (matchActions d)\<rparr> \<and> ma_actorUserId x \<noteq> ma_targetUserId x \<and>
    \<not> existsRow (activeAction (ma_actorUserId x) (ma_targetUserId x)) (matchActions d) \<and>
    \<not> keyTaken ma_id (ma_id x) (matchActions d)"
  using assms by (auto simp: insertMatchAction_def split: if_splits)

lemma assertAvailable_reads: "reads (assertAvailable a b)"
  unfolding assertAvailable_def by (rule readsI) (intro preserves_intros)

lemma newAction_Inr:
  assumes can: "canonicalUuid a" "canonicalUuid b"
    and run: "newAction ids now ds de limit a b k d = (Inr r, d')"
  shows "a \<noteq> b \<and> \<not> existsRow (activeAction a b) (matchActions d) \<and> \<not> keyTaken ma_id (ids 0) (matchActions d) \<and>
    assertAvailable a b d = (Inr (), d) \<and> (k = Superlike \<longrightarrow> hasSuperLike a d) \<and>
    (k \<noteq> Skip \<and> \<not> liked a b d \<longrightarrow> withinLimit limit a ds de d) \<and> ar_created r \<and>
    (if k = Skip then d' = acted (ids 0) now a b k d \<and> \<not> ar_matched r \<and> ar_roomId r = None
     else matchIfReverseExists (ids 1) now a b (acted (ids 0) now a b k d) = (Inr (ar_matched r, ar_roomId r), d')) \<and>
    ar_remainingSuperLikeCredits r = (if k = Superlike then superLikeCreditsOf a d' else None)"
proof -
  let ?A = "\<lparr>ma_id = ids 0, ma_actorUserId = a, ma_targetUserId = b, ma_action = k, ma_revertedAt = None,
    ma_createdAt = now\<rparr>"
  from run obtain x y z w d0 d1 d2 d3 where av: "assertAvailable a b d = (Inr x, d0)"
    and sp: "(if k = Superlike then spendSuperLike now a else ret ()) d0 = (Inr y, d1)"
    and rl: "(if k \<noteq> Skip then recordLike now ds de limit a b else ret ()) d1 = (Inr z, d2)"
    and ia: "insertMatchAction ?A d2 = (Inr w, d3)"
    and fin: "finishAction (ids 1) now a b k d3 = (Inr r, d')"
    unfolding newAction_def andThen_Inr_iff pgUuid_canonical [OF can(1)] pgUuid_canonical [OF can(2)] by blast
  have d0: "d0 = d" using assertAvailable_reads av by (rule readsD)
  have d1: "d1 = (if k = Superlike then spent now a d else d)" "k = Superlike \<longrightarrow> hasSuperLike a d"
    using sp spendSuperLike_Inr [OF can(1)] by (auto simp: d0 split: if_splits)
  have same: "liked a b d1 = liked a b d" "withinLimit limit a ds de d1 = withinLimit limit a ds de d"
    "userLikes d1 = userLikes d" "matchActions d1 = matchActions d"
    by (auto simp: d1 spent_def liked_def withinLimit_def likesBetween_def split: option.splits)
  have d2: "d2 = (if k = Skip \<or> liked a b d then d1
      else d1\<lparr>userLikes := insertRow \<lparr>ul_likerUserId = a, ul_likedUserId = b, ul_createdAt = now\<rparr> (userLikes d)\<rparr>)"
    "k \<noteq> Skip \<and> \<not> liked a b d \<longrightarrow> withinLimit limit a ds de d"
    using rl recordLike_Inr [OF can, of now ds de limit d1 z d2] by (auto simp: same split: if_splits)
  have "matchActions d2 = matchActions d"
    by (simp add: d2 same)
  with insertMatchAction_Inr [OF ia] can have d3: "d3 = acted (ids 0) now a b k d" "a \<noteq> b"
    "\<not> existsRow (activeAction a b) (matchActions d)" "\<not> keyTaken ma_id (ids 0) (matchActions d)"
    by (auto simp: acted_def Let_def d2 d1)
  have "ar_created r \<and>
    (if k = Skip then d' = acted (ids 0) now a b k d \<and> \<not> ar_matched r \<and> ar_roomId r = None
     else matchIfReverseExists (ids 1) now a b (acted (ids 0) now a b k d) = (Inr (ar_matched r, ar_roomId r), d')) \<and>
    ar_remainingSuperLikeCredits r = (if k = Superlike then superLikeCreditsOf a d' else None)"
    using fin by (auto simp: finishAction_def d3(1) andThen_Inr_iff split: if_splits prod.splits)
  with av d0 d1(2) d2(2) d3(2-4) show ?thesis by auto
qed

section \<open>The invariant of matching\<close>

lemma liked_frame [simp]:
  "liked x y (matchMade r now a b d) = liked x y d"
  by (simp add: liked_def)

lemma inRoom_matchMade: "inRoom r' u (matchMade r now a b d) \<longleftrightarrow> inRoom r' u d \<or> r' = r \<and> (u = a \<or> u = b)"
  by (auto simp: matchMade_def Let_def inRoom_def addMember_def existsRow_iff)

lemma rooms_matchMade: "keyTaken r_id r' (rooms (matchMade r now a b d)) \<longleftrightarrow> keyTaken r_id r' (rooms d) \<or> r' = r"
  by (auto simp: matchMade_def Let_def keyTaken_iff)

lemma matchOk_mono:
  assumes "matchOk d m" "\<And>x y. liked x y d \<Longrightarrow> liked x y d'" "\<And>x y. inRoom x y d \<Longrightarrow> inRoom x y d'"
    "\<And>x. keyTaken r_id x (rooms d) \<Longrightarrow> keyTaken r_id x (rooms d')"
  shows "matchOk d' m"
  using assms by (simp add: matchOk_def)

lemma inRoom_acted [simp]: "inRoom r u (acted i now a b k d) = inRoom r u d"
  by (simp add: inRoom_def)

lemma mutualMatched_iff: "mutualMatched d \<longleftrightarrow> (\<forall>x y. liked x y d \<and> liked y x d \<longrightarrow> matchedPair x y d)"
  unfolding mutualMatched_def list_all_iff
proof (intro iffI allI impI ballI)
  fix x y assume all: "\<forall>l\<in>set (userLikes d). liked (ul_likedUserId l) (ul_likerUserId l) d \<longrightarrow>
    matchedPair (ul_likerUserId l) (ul_likedUserId l) d" and xy: "liked x y d \<and> liked y x d"
  then obtain l where "l \<in> set (userLikes d)" "ul_likerUserId l = x" "ul_likedUserId l = y"
    by (auto simp: liked_def existsRow_iff)
  with all xy show "matchedPair x y d" by blast
qed (auto simp: liked_def existsRow_iff)

lemma actionsOk_acted:
  assumes "actionsOk d" "canonicalUuid a" "canonicalUuid b"
    "\<not> existsRow (activeAction a b) (matchActions d)" "\<not> keyTaken ma_id i (matchActions d)"
  shows "actionsOk (acted i now a b k d)"
proof -
  let ?x = "\<lparr>ma_id = i, ma_actorUserId = a, ma_targetUserId = b, ma_action = k, ma_revertedAt = None,
    ma_createdAt = now\<rparr>"
  have live: "filter (\<lambda>x. ma_revertedAt x = None) (insertRow ?x (matchActions d)) =
    insertRow ?x (filter (\<lambda>x. ma_revertedAt x = None) (matchActions d))"
    by (simp add: insertRow_def)
  have fresh: "(a, b) \<notin> (\<lambda>x. (ma_actorUserId x, ma_targetUserId x)) ` {x \<in> set (matchActions d). ma_revertedAt x = None}"
    using assms(2-4) by (auto simp: existsRow_iff activeAction_def)
  have found: "existsRow (likeAction p q) (insertRow ?x (matchActions d))"
    if "existsRow (likeAction p q) (matchActions d) \<or> k \<noteq> Skip \<and> p = a \<and> q = b" for p q
    using that by (auto simp: existsRow_iff likeAction_def)
  have likes: "list_all (\<lambda>l. existsRow (likeAction (ul_likerUserId l) (ul_likedUserId l)) (insertRow ?x (matchActions d)))
    (userLikes (acted i now a b k d))"
    using assms(1) found by (auto simp: actionsOk_def list_all_iff)
  have acts: "list_all (\<lambda>x. ma_revertedAt x = None \<and> ma_action x \<noteq> Skip \<longrightarrow>
       liked (ma_actorUserId x) (ma_targetUserId x) (acted i now a b k d)) (insertRow ?x (matchActions d))"
    using assms(1) by (auto simp: actionsOk_def list_all_iff liked_acted)
  show ?thesis
    using assms likes acts fresh unfolding actionsOk_def acted_tables(5) live
    by (auto simp: keyTaken_iff list_all_iff)
qed

lemma matchesOk_acted: "matchesOk d \<Longrightarrow> matchesOk (acted i now a b k d)"
  by (auto simp: matchesOk_def list_all_iff liked_acted intro: matchOk_mono)

lemma matchesOk_matchMade:
  assumes "matchesOk d" "a \<noteq> b" "liked a b d" "liked b a d"
    "\<not> keyTaken (\<lambda>x. (mt_userLowId x, mt_userHighId x)) (min a b, max a b) (matchesTable d)"
  shows "matchesOk (matchMade r now a b d)"
proof -
  let ?m = "\<lparr>mt_userLowId = min a b, mt_userHighId = max a b, mt_roomId = r, mt_createdAt = now\<rparr>"
  have "matchOk (matchMade r now a b d) ?m"
    using assms(2-4) by (cases "a < b") (auto simp: matchOk_def inRoom_matchMade rooms_matchMade min_def max_def)
  moreover have "matchOk (matchMade r now a b d) m" if "m \<in> set (matchesTable d)" for m
    using assms(1) that by (auto simp: matchesOk_def list_all_iff inRoom_matchMade rooms_matchMade intro: matchOk_mono)
  ultimately show ?thesis
    using assms(1,5) by (auto simp: matchesOk_def list_all_iff keyTaken_iff)
      (auto simp: matchMade_def Let_def)
qed

lemma matched_mono: "set (matchesTable d) \<subseteq> set (matchesTable d') \<Longrightarrow> matchedPair x y d \<Longrightarrow> matchedPair x y d'"
  by (auto simp: matchedPair_def existsRow_iff)

lemma actionsOk_matchMade [simp]: "actionsOk (matchMade r now a b d) = actionsOk d"
  by (simp add: actionsOk_def)

lemma newAction_inv:
  assumes "canonicalUuid a" "canonicalUuid b" "matchingInv d"
    and run: "newAction ids now ds de limit a b k d = (Inr r, d')"
  shows "matchingInv d'"
proof -
  let ?d = "acted (ids 0) now a b k d"
  note facts = newAction_Inr [OF assms(1,2) run]
  have base: "matchesOk ?d" "actionsOk ?d" "mutualMatched d"
    using assms(1-3) facts by (simp_all add: matchingInv_def matchesOk_acted actionsOk_acted)
  have old: "matchedPair x y ?d" if "liked x y ?d" "liked y x ?d" "(x, y) \<noteq> (a, b)" "(x, y) \<noteq> (b, a) \<or> k = Skip" for x y
    using base(3) that facts by (auto simp: mutualMatched_iff liked_acted matchedPair_def)
  have keep: "matchingInv ?d" if "k = Skip \<or> \<not> liked b a ?d \<or> matchedPair a b ?d"
    using base old that facts unfolding matchingInv_def mutualMatched_iff
    by (auto simp: liked_acted matchedPair_def matchOf_def existsRow_iff)
  show ?thesis
  proof (cases "k = Skip")
    case True
    with facts keep show ?thesis by simp
  next
    case False
    then have "matchIfReverseExists (ids 1) now a b ?d = (Inr (ar_matched r, ar_roomId r), d')"
      using facts by simp
    from matchIfReverseExists_cases [OF this assms(1,2)] consider
      "\<not> liked b a ?d" "d' = ?d"
    | m where "m \<in> set (matchesTable ?d)" "mt_userLowId m = min a b" "mt_userHighId m = max a b" "d' = ?d"
    | "liked b a ?d" "a \<noteq> b" "d' = matchMade (ids 1) now a b ?d"
      "\<not> keyTaken (\<lambda>x. (mt_userLowId x, mt_userHighId x)) (min a b, max a b) (matchesTable ?d)"
      by blast
    then show ?thesis
    proof cases
      case (2 m)
      then have "matchedPair a b ?d"
        by (auto simp: matchedPair_def existsRow_iff matchOf_def min_def max_def intro!: bexI [of _ m])
      with keep 2 show ?thesis by simp
    next
      case 3
      have "liked a b ?d" using False by (simp add: liked_acted)
      with 3 base have "matchesOk d'" "actionsOk d'"
        by (simp_all add: matchesOk_matchMade)
      moreover have "matchedPair x y d'" if "liked x y d'" "liked y x d'" for x y
      proof (cases "(x, y) = (a, b) \<or> (x, y) = (b, a)")
        case True
        then show ?thesis using 3(3) by (auto simp: matchedPair_def existsRow_iff matchOf_def min_def max_def)
      next
        case False
        with that 3(3) old [of x y] have "matchedPair x y ?d" by auto
        with matched_mono [of ?d d'] 3(3) show ?thesis by auto
      qed
      ultimately show ?thesis by (simp add: matchingInv_def mutualMatched_iff)
    qed (use keep in simp)
  qed
qed

section \<open>Undoing the last action\<close>

definition undone :: "timestamp \<Rightarrow> matchAction \<Rightarrow> db \<Rightarrow> db" where
  "undone now x d =
     (let d1 = d\<lparr>matchActions := updateWhere (\<lambda>a. ma_id a = ma_id x \<and> ma_revertedAt a = None)
            (\<lambda>a. a\<lparr>ma_revertedAt := Some now\<rparr>) (matchActions d)\<rparr>;
          d2 = (if ma_action x = Skip then d1 else d1\<lparr>userLikes := deleteWhere (\<lambda>l.
            ul_likerUserId l = ma_actorUserId x \<and> ul_likedUserId l = ma_targetUserId x) (userLikes d)\<rparr>)
      in if ma_action x = Superlike then returnSuperLike now (ma_actorUserId x) d2 else d2)"

lemma returnSuperLike_frame [simp]:
  "userLikes (returnSuperLike now u d) = userLikes d" "matchActions (returnSuperLike now u d) = matchActions d"
  "matchesTable (returnSuperLike now u d) = matchesTable d" "rooms (returnSuperLike now u d) = rooms d"
  "roomMembers (returnSuperLike now u d) = roomMembers d" "users (returnSuperLike now u d) = users d"
  by (simp_all add: returnSuperLike_def)

lemma undone_tables:
  "matchActions (undone now x d) = updateWhere (\<lambda>a. ma_id a = ma_id x \<and> ma_revertedAt a = None)
     (\<lambda>a. a\<lparr>ma_revertedAt := Some now\<rparr>) (matchActions d)"
  "userLikes (undone now x d) = (if ma_action x = Skip then userLikes d else deleteWhere (\<lambda>l.
     ul_likerUserId l = ma_actorUserId x \<and> ul_likedUserId l = ma_targetUserId x) (userLikes d))"
  "matchesTable (undone now x d) = matchesTable d" "rooms (undone now x d) = rooms d"
  "roomMembers (undone now x d) = roomMembers d" "users (undone now x d) = users d"
  by (simp_all add: undone_def Let_def)

lemma liked_undone:
  "liked p q (undone now x d) \<longleftrightarrow>
     liked p q d \<and> \<not> (ma_action x \<noteq> Skip \<and> p = ma_actorUserId x \<and> q = ma_targetUserId x)"
  by (auto simp: liked_def undone_tables existsRow_iff)

definition lastAction :: "jsstring \<Rightarrow> db \<Rightarrow> matchAction option" where
  "lastAction u d = firstBy (\<lambda>a. - ma_createdAt a)
     (\<lambda>a. ma_actorUserId a = pgUuid u \<and> ma_revertedAt a = None) (matchActions d)"

lemma returning_unique:
  assumes "uniqueKey k t" "x \<in> set t" "Q x"
  shows "headOption (returning (\<lambda>r. k r = k x \<and> Q r) f t) = Some (f x)"
proof -
  have "findFirst (\<lambda>r. k r = k x \<and> Q r) t = Some x"
    by (rule findFirst_unique [OF assms(1)]) (use assms in auto)
  then show ?thesis
    by (induction t) (auto simp: returning_def split: if_splits)
qed

lemma repoUndoLastAction_eq:
  assumes "uniqueKey ma_id (matchActions d)"
  shows "repoUndoLastAction now u d =
    (case lastAction u d of None \<Rightarrow> (Inr None, d)
     | Some x \<Rightarrow> if findMatch (orderedMatchingPair (ma_actorUserId x) (ma_targetUserId x)) d \<noteq> None
         then (Inl (ErrorCode ''UNDO_NOT_AVAILABLE_AFTER_MATCH''), d)
         else (Inr (Some (x\<lparr>ma_revertedAt := Some now\<rparr>)), undone now x d))"
proof (cases "lastAction u d")
  case None
  then show ?thesis
    by (simp add: repoUndoLastAction_def lastAction_def transaction_def)
next
  case (Some x)
  have x: "x \<in> set (matchActions d)" "ma_actorUserId x = pgUuid u" "ma_revertedAt x = None"
    using firstBy_SomeD [OF Some [unfolded lastAction_def]] by simp_all
  have claim: "headOption (returning (\<lambda>a. ma_id a = ma_id x \<and> ma_revertedAt a = None)
    (\<lambda>a. a\<lparr>ma_revertedAt := Some now\<rparr>) (matchActions d)) = Some (x\<lparr>ma_revertedAt := Some now\<rparr>)"
    using returning_unique [where k = ma_id and Q = "\<lambda>a. ma_revertedAt a = None", OF assms x(1,3)] .
  have same_user: "returnSuperLike now u = returnSuperLike now (ma_actorUserId x)"
    by (simp add: returnSuperLike_def x(2) fun_eq_iff)
  show ?thesis
    using Some unfolding repoUndoLastAction_def lastAction_def
    by (cases "ma_action x") (simp_all add: transaction_def claim Let_def undone_def findMatch_def x(2) same_user)
qed

lemma live_revert:
  "filter (\<lambda>y. ma_revertedAt y = None) (updateWhere (\<lambda>a. ma_id a = i \<and> ma_revertedAt a = None)
     (\<lambda>a. a\<lparr>ma_revertedAt := Some now\<rparr>) t) =
   deleteWhere (\<lambda>y. ma_id y = i) (filter (\<lambda>y. ma_revertedAt y = None) t)"
  by (induction t) (auto simp: updateWhere_def deleteWhere_def)

lemma actionsOk_undone:
  assumes ok: "actionsOk d" and x: "x \<in> set (matchActions d)" "ma_revertedAt x = None"
  shows "actionsOk (undone now x d)"
proof -
  let ?live = "\<lambda>y. ma_revertedAt y = None" and ?pair = "\<lambda>y. (ma_actorUserId y, ma_targetUserId y)"
  let ?t' = "matchActions (undone now x d)"
  have u: "uniqueKey ma_id (matchActions d)" "uniqueKey ?pair (filter ?live (matchActions d))"
    using ok by (simp_all add: actionsOk_def)
  have live: "filter ?live ?t' = deleteWhere (\<lambda>y. ma_id y = ma_id x) (filter ?live (matchActions d))"
    unfolding undone_tables by (rule live_revert)
  have mem: "y \<in> set ?t' \<and> ?live y \<longleftrightarrow> y \<in> set (matchActions d) \<and> ?live y \<and> ma_id y \<noteq> ma_id x" for y
    using arg_cong [OF live, of set] by auto
  have other: "?pair y \<noteq> ?pair x" if "y \<in> set ?t'" "?live y" for y
    using uniqueKey_inj [OF u(2), of y x] mem [of y] that x by auto
  have "list_all (\<lambda>y. ?live y \<and> ma_action y \<noteq> Skip \<longrightarrow>
      liked (ma_actorUserId y) (ma_targetUserId y) (undone now x d)) ?t'"
    using ok mem other by (auto simp: actionsOk_def list_all_iff liked_undone)
  moreover have "existsRow (likeAction (ul_likerUserId l) (ul_likedUserId l)) ?t'"
    if l: "l \<in> set (userLikes (undone now x d))" for l
  proof -
    from l ok obtain y where y: "y \<in> set (matchActions d)" "likeAction (ul_likerUserId l) (ul_likedUserId l) y"
      by (auto simp: undone_tables actionsOk_def list_all_iff existsRow_iff split: if_splits)
    have "ma_id y \<noteq> ma_id x"
    proof
      assume "ma_id y = ma_id x"
      then have "y = x" using uniqueKey_inj [OF u(1) y(1) x(1)] by simp
      with y(2) l show False by (auto simp: undone_tables likeAction_def split: if_splits)
    qed
    with mem [of y] y show ?thesis by (auto simp: existsRow_iff likeAction_def)
  qed
  moreover have "list_all (\<lambda>y. canonicalUuid (ma_actorUserId y) \<and> canonicalUuid (ma_targetUserId y)) ?t'"
    using ok by (auto simp: actionsOk_def list_all_iff undone_tables set_updateWhere)
  ultimately show ?thesis
    using u unfolding actionsOk_def live
    by (auto simp: undone_tables uniqueKey_updateWhere uniqueKey_deleteWhere list_all_iff)
qed

lemma undone_inv:
  assumes inv: "matchingInv d" and x: "x \<in> set (matchActions d)" "ma_revertedAt x = None"
    and no: "findMatch (orderedMatchingPair (ma_actorUserId x) (ma_targetUserId x)) d = None"
  shows "matchingInv (undone now x d)"
proof -
  let ?a = "ma_actorUserId x" and ?b = "ma_targetUserId x" and ?d = "undone now x d"
  have can: "canonicalUuid ?a" "canonicalUuid ?b"
    using inv x(1) by (auto simp: matchingInv_def actionsOk_def list_all_iff)
  have nomatch: "\<not> (mt_userLowId m = ?a \<and> mt_userHighId m = ?b \<or> mt_userLowId m = ?b \<and> mt_userHighId m = ?a)"
    if m: "m \<in> set (matchesTable d)" for m
  proof -
    have "mt_userLowId m < mt_userHighId m"
      using inv m by (auto simp: matchingInv_def matchesOk_def list_all_iff matchOk_def)
    moreover have "\<not> (mt_userLowId m = min ?a ?b \<and> mt_userHighId m = max ?a ?b)"
      using no m unfolding findMatch_ordered [OF can] findFirst_None_iff by blast
    ultimately show ?thesis by (auto simp: min_def max_def split: if_splits)
  qed
  have same: "inRoom r u ?d = inRoom r u d" for r u
    by (simp add: inRoom_def undone_tables)
  have "matchesOk ?d"
    using inv nomatch
    by (auto simp: matchingInv_def matchesOk_def list_all_iff undone_tables matchOk_def liked_undone same)
  moreover have "mutualMatched ?d"
    using inv by (auto simp: matchingInv_def mutualMatched_iff liked_undone matchedPair_def undone_tables)
  moreover have "actionsOk ?d"
    using inv x by (intro actionsOk_undone) (simp_all add: matchingInv_def)
  ultimately show ?thesis by (simp add: matchingInv_def)
qed

section \<open>The matching machine\<close>

lemma matchingInv_cong:
  assumes "userLikes d = userLikes d'" "matchActions d = matchActions d'" "matchesTable d = matchesTable d'"
    "rooms d = rooms d'" "roomMembers d = roomMembers d'"
  shows "matchingInv d = matchingInv d'"
  using assms
  by (simp add: matchingInv_def matchesOk_def mutualMatched_def actionsOk_def matchOk_def list_all_iff liked_def inRoom_def
      matchedPair_def)

lemma matchingInv_frame [simp]:
  "matchingInv (d\<lparr>notifications := n\<rparr>) = matchingInv d" "matchingInv (d\<lparr>pushOutboxes := p\<rparr>) = matchingInv d"
  "matchingInv (d\<lparr>userLikedMeAccesses := l\<rparr>) = matchingInv d" "matchingInv (d\<lparr>userBoosts := b\<rparr>) = matchingInv d"
  "matchingInv (d\<lparr>userConsumableBalances := c\<rparr>) = matchingInv d"
  by (rule matchingInv_cong; simp)+

lemma repeatedAction_reads: "reads (repeatedAction a b k x)"
  unfolding repeatedAction_def by (rule readsI) (intro preserves_intros)

lemma repoActOnCandidate_Inr:
  assumes "repoActOnCandidate ids now ds de limit a b k d = (Inr r, d')"
  shows "d' = d \<and> (\<exists>x. repeatedAction a b k x d = (Inr r, d)) \<and> existsRow (activeAction a b) (matchActions d) \<or>
    newAction ids now ds de limit a b k d = (Inr r, d')"
proof (cases "firstBy (\<lambda>a. - ma_createdAt a) (activeAction a b) (matchActions d)")
  case None
  with assms show ?thesis by (simp add: repoActOnCandidate_def transaction_Inr_iff)
next
  case (Some x)
  with assms have "repeatedAction a b k x d = (Inr r, d')"
    by (simp add: repoActOnCandidate_def transaction_Inr_iff)
  with readsD [OF repeatedAction_reads this] firstBy_SomeD [OF Some] show ?thesis
    by (auto simp: existsRow_iff)
qed

lemma repoActOnCandidate_keeps:
  assumes "\<And>d r d'. I d \<Longrightarrow> newAction ids now ds de limit a b k d = (Inr r, d') \<Longrightarrow> I d'"
  shows "preserves I (repoActOnCandidate ids now ds de limit a b k)"
proof (rule preservesI)
  fix d assume inv: "I d"
  obtain r d' where run: "repoActOnCandidate ids now ds de limit a b k d = (r, d')"
    by (cases "repoActOnCandidate ids now ds de limit a b k d")
  show "I (snd (repoActOnCandidate ids now ds de limit a b k d))"
  proof (cases r)
    case (Inl e)
    with run have "d' = d" unfolding repoActOnCandidate_def by (simp add: transaction_Inl_iff)
    with run inv show ?thesis by simp
  next
    case (Inr x)
    from repoActOnCandidate_Inr [OF run [unfolded Inr]] have "I d'"
      using assms inv by blast
    with run show ?thesis by simp
  qed
qed

lemma repoUndoLastAction_inv: "preserves matchingInv (repoUndoLastAction now u)"
proof (rule preservesI)
  fix d assume inv: "matchingInv d"
  then have u: "uniqueKey ma_id (matchActions d)" by (simp add: matchingInv_def actionsOk_def)
  show "matchingInv (snd (repoUndoLastAction now u d))"
  proof (cases "lastAction u d")
    case (Some x)
    from firstBy_SomeD [OF Some [unfolded lastAction_def]] inv Some show ?thesis
      by (simp add: repoUndoLastAction_eq [OF u] undone_inv)
  qed (simp add: repoUndoLastAction_eq [OF u] inv)
qed

lemma notify_matching: "preserves matchingInv (notify ids now enabled input)"
  by (rule notify_frame) simp_all

lemmas matching_checks = validateMatchingUuid_def requireCompletedProfile_def

text \<open>What new actions and notifications keep, an action keeps.\<close>

lemma actOnCandidate_keeps:
  assumes "\<And>ids now enabled input. preserves I (notify ids now enabled input)"
    and "\<And>ids ds de limit d r d'. I d \<Longrightarrow> newAction ids now ds de limit a b k d = (Inr r, d') \<Longrightarrow> I d'"
  shows "preserves I (actOnCandidate ids now enabled a b k)"
  unfolding actOnCandidate_def matching_checks notifyInteraction_def
  by (intro preserves_intros assms(1) repoActOnCandidate_keeps) (rule assms(2))

lemma actOnCandidate_inv:
  assumes "canonicalUuid a" "canonicalUuid b"
  shows "preserves matchingInv (actOnCandidate ids now enabled a b k)"
  by (rule actOnCandidate_keeps [OF notify_matching]) (rule newAction_inv [OF assms])

lemma undoLastAction_inv: "preserves matchingInv (undoLastAction now u)"
  unfolding undoLastAction_def matching_checks by (intro preserves_intros repoUndoLastAction_inv)

lemma activateBoost_inv: "preserves matchingInv (activateBoost i now u)"
  unfolding activateBoost_def matching_checks repoActivateBoost_def Let_def
  by (intro preserves_intros preserves_modify) simp_all

lemma likedMeCandidates_inv: "preserves matchingInv (likedMeCandidates now u)"
  unfolding likedMeCandidates_def matching_checks enforceLikedMeWindow_def consumeLikedMeAccess_def
  by (intro preserves_intros preserves_modify) simp_all

datatype matchingStep =
    ActStep "nat \<Rightarrow> uuid" timestamp bool jsstring jsstring matchActionKind
  | UndoStep timestamp jsstring
  | BoostStep uuid timestamp jsstring
  | LikedMeStep timestamp jsstring

fun stepMatching :: "db \<Rightarrow> matchingStep \<Rightarrow> db" where
  "stepMatching d (ActStep ids now enabled a b k) = snd (actOnCandidate ids now enabled a b k d)"
| "stepMatching d (UndoStep now u) = snd (undoLastAction now u d)"
| "stepMatching d (BoostStep i now u) = snd (activateBoost i now u d)"
| "stepMatching d (LikedMeStep now u) = snd (likedMeCandidates now u d)"

fun canonicalStep :: "matchingStep \<Rightarrow> bool" where
  "canonicalStep (ActStep _ _ _ a b _) \<longleftrightarrow> canonicalUuid a \<and> canonicalUuid b"
| "canonicalStep _ \<longleftrightarrow> True"

interpretation matching: guarded_machine stepMatching matchingInv canonicalStep
proof
  fix d e assume "matchingInv d" "canonicalStep e"
  then show "matchingInv (stepMatching d e)"
    using actOnCandidate_inv undoLastAction_inv activateBoost_inv likedMeCandidates_inv
    by (cases e) (simp_all add: preserves_def)
qed

definition noMatching :: "db \<Rightarrow> bool" where
  "noMatching d \<longleftrightarrow> userLikes d = [] \<and> matchActions d = [] \<and> matchesTable d = []"

lemma noMatching_inv: "noMatching d \<Longrightarrow> matchingInv d"
  by (simp add: noMatching_def matchingInv_def matchesOk_def mutualMatched_def actionsOk_def)

lemma matchingInv_iff: "matchingInv d \<Longrightarrow> matchedPair a b d \<longleftrightarrow> liked a b d \<and> liked b a d"
  by (auto simp: matchingInv_def mutualMatched_iff matchesOk_def list_all_iff matchedPair_def existsRow_iff
      matchOf_def matchOk_def)

text \<open>Matches are exactly the mutual likes: after any requests with canonical identifiers, in any
  order, two users are matched if and only if each likes the other; a match is stored once, in order,
  and its room exists with both users as members.\<close>

lemma match_iff_mutual:
  assumes "noMatching d" and "list_all canonicalStep es"
  shows "(matchedPair a b (foldl stepMatching d es) \<longleftrightarrow>
      liked a b (foldl stepMatching d es) \<and> liked b a (foldl stepMatching d es)) \<and>
    list_all (matchOk (foldl stepMatching d es)) (matchesTable (foldl stepMatching d es)) \<and>
    uniqueKey (\<lambda>m. (mt_userLowId m, mt_userHighId m)) (matchesTable (foldl stepMatching d es))"
proof -
  have "matchingInv (foldl stepMatching d es)"
    by (rule matching.guarded_run [OF noMatching_inv [OF assms(1)] assms(2)])
  then show ?thesis
    using matchingInv_iff by (auto simp: matchingInv_def matchesOk_def)
qed

section \<open>What a notification leaves alone\<close>

definition matchingView where
  "matchingView d = (users d, userLikes d, matchActions d, matchesTable d, userConsumableBalances d)"

lemma notify_view: "preserves (\<lambda>x. matchingView x = v) (notify ids now enabled input)"
  by (rule notify_frame) (simp_all add: matchingView_def)

lemma notifyInteraction_view: "preserves (\<lambda>x. matchingView x = v) (notifyInteraction ids now enabled a b m r)"
  unfolding notifyInteraction_def by (intro preserves_intros notify_view)

lemma actOnCandidate_Inr:
  assumes "actOnCandidate ids now enabled a b k d = (Inr p, d')"
  obtains r d1 where "repoActOnCandidate ids now (startOfUtcDay now) (nextUtcDay now)
      (getDailyLikeLimit (currentPlanId now a d)) a b k d = (Inr r, d1)"
    "matchingView d' = matchingView d1" "lp_matched p = ar_matched r" "lp_roomId p = ar_roomId r"
    "uuidRegex a" "profileIsComplete a d"
proof -
  from assms obtain r d1 x where run: "repoActOnCandidate ids now (startOfUtcDay now) (nextUtcDay now)
      (getDailyLikeLimit (currentPlanId now a d)) a b k d = (Inr r, d1)"
    and told: "(if ar_created r \<and> k \<noteq> Skip then tryCatch (notifyInteraction (\<lambda>k. ids (k + 2)) now enabled a b
         (ar_matched r) (ar_roomId r)) (\<lambda>_. ret ()) else ret ()) d1 = (Inr x, d')"
    and rest: "lp_matched p = ar_matched r" "lp_roomId p = ar_roomId r" "uuidRegex a" "profileIsComplete a d"
    unfolding actOnCandidate_def
    by (auto simp: andThen_Inr_iff matching_checks throwIf_apply split: if_splits)
  have "preserves (\<lambda>x. matchingView x = matchingView d1) (if ar_created r \<and> k \<noteq> Skip
    then tryCatch (notifyInteraction (\<lambda>k. ids (k + 2)) now enabled a b
         (ar_matched r) (ar_roomId r)) (\<lambda>_. ret ()) else ret ())"
    by (intro preserves_intros notifyInteraction_view)
  from run preservesD [OF this refl told] rest show thesis by (rule that)
qed

section \<open>Likes a day\<close>

lemma likesBetween_acted:
  assumes "canonicalUuid a" "canonicalUuid b" "ds \<le> now" "now < de"
  shows "likesBetween a ds de (acted i now a b k d) =
    likesBetween a ds de d + (if k = Skip \<or> liked a b d then 0 else 1)"
  using assms by (simp add: likesBetween_def)

lemma newAction_userLikes:
  assumes "canonicalUuid a" "canonicalUuid b" "newAction ids now ds de limit a b k d = (Inr r, d')"
  shows "userLikes d' = userLikes (acted (ids 0) now a b k d)"
proof (cases "k = Skip")
  case False
  with newAction_Inr [OF assms] have "matchIfReverseExists (ids 1) now a b (acted (ids 0) now a b k d) =
    (Inr (ar_matched r, ar_roomId r), d')" by simp
  from matchIfReverseExists_cases [OF this assms(1,2)] show ?thesis
    by (elim disjE conjE bexE) (simp_all only: matchMade_tables(1))
qed (use newAction_Inr [OF assms] in simp)

text \<open>C34. The daily limit of a plan holds: a request adds at most one like of the user to the likes of
  the day, and only if they stay within the limit of the plan.\<close>

theorem like_limit:
  assumes "canonicalUuid a" "canonicalUuid b" and "actOnCandidate ids now enabled a b k d = (Inr p, d')"
    and "getDailyLikeLimit (currentPlanId now a d) = Some n"
  shows "likesBetween a (startOfUtcDay now) (nextUtcDay now) d' = likesBetween a (startOfUtcDay now) (nextUtcDay now) d \<or>
    likesBetween a (startOfUtcDay now) (nextUtcDay now) d' = likesBetween a (startOfUtcDay now) (nextUtcDay now) d + 1 \<and>
    likesBetween a (startOfUtcDay now) (nextUtcDay now) d' \<le> n"
proof -
  let ?n = "likesBetween a (startOfUtcDay now) (nextUtcDay now)"
  from assms(3) obtain r d1 where run: "repoActOnCandidate ids now (startOfUtcDay now) (nextUtcDay now)
      (Some n) a b k d = (Inr r, d1)" and "matchingView d' = matchingView d1"
    unfolding assms(4) [symmetric] by (rule actOnCandidate_Inr)
  then have same: "?n d' = ?n d1" by (simp add: matchingView_def likesBetween_def)
  have day: "startOfUtcDay now \<le> now" "now < nextUtcDay now"
    using startOfUtcDay_bounds [of now] by (simp_all add: nextUtcDay_def MS_PER_DAY_def MS_PER_HOUR_def)
  from repoActOnCandidate_Inr [OF run] show ?thesis
  proof (elim disjE)
    assume new: "newAction ids now (startOfUtcDay now) (nextUtcDay now) (Some n) a b k d = (Inr r, d1)"
    have "?n d1 = ?n (acted (ids 0) now a b k d)"
      using newAction_userLikes [OF assms(1,2) new] by (simp add: likesBetween_def)
    then have step: "?n d1 = ?n d + (if k = Skip \<or> liked a b d then 0 else 1)"
      using likesBetween_acted [OF assms(1,2) day] by simp
    have "?n d < n" if "k \<noteq> Skip" "\<not> liked a b d"
      using newAction_Inr [OF assms(1,2) new] that by (simp add: withinLimit_def)
    with step same show ?thesis by (auto split: if_splits)
  qed (use same in simp)
qed

section \<open>Repeating an action\<close>

lemma insert_live_unique:
  assumes "canonicalUuid a" "canonicalUuid b" "\<not> existsRow (activeAction a b) t" "activeAction a b x"
  shows "firstBy f (activeAction a b) (insertRow x t) = Some x"
proof -
  have "filter (activeAction a b) (insertRow x t) = [x]"
    using assms(3,4) by (auto simp: insertRow_def existsRow_iff filter_empty_conv)
  then show ?thesis by (simp add: firstBy_def)
qed

definition repeatedAnswer :: "uuid \<Rightarrow> uuid \<Rightarrow> matchActionKind \<Rightarrow> db \<Rightarrow> actResult" where
  "repeatedAnswer a b k d =
     (let m = (if k = Skip then None else findMatch (orderedMatchingPair a b) d)
      in \<lparr>ar_matched = m \<noteq> None, ar_roomId = map_option mt_roomId m,
          ar_remainingSuperLikeCredits = (if k = Superlike then superLikeCreditsOf a d else None),
          ar_created = False\<rparr>)"

lemma repoActOnCandidate_repeated:
  assumes "firstBy (\<lambda>a. - ma_createdAt a) (activeAction a b) (matchActions d) = Some x"
  shows "repoActOnCandidate ids now ds de limit a b k d =
    (if ma_action x \<noteq> k then Inl (ErrorCode ''MATCH_ACTION_CONFLICT'') else Inr (repeatedAnswer a b k d), d)"
  using assms
  by (simp add: repoActOnCandidate_def transaction_def repeatedAction_def repeatedAnswer_def Let_def)

lemma findMatch_stored:
  assumes "canonicalUuid a" "canonicalUuid b" "matchingInv d"
    and "m \<in> set (matchesTable d)" "mt_userLowId m = min a b" "mt_userHighId m = max a b"
  shows "findMatch (orderedMatchingPair a b) d = Some m"
  unfolding findMatch_ordered [OF assms(1,2)]
  by (rule findFirst_unique [where k = "\<lambda>m. (mt_userLowId m, mt_userHighId m)"])
     (use assms(3-) in \<open>auto simp: matchingInv_def matchesOk_def\<close>)

lemma findMatch_none:
  assumes "canonicalUuid a" "canonicalUuid b" "matchingInv d" and "\<not> liked b a d"
  shows "findMatch (orderedMatchingPair a b) d = None"
  using assms(3,4) unfolding findMatch_ordered [OF assms(1,2)] findFirst_None_iff
  by (auto simp: matchingInv_def matchesOk_def list_all_iff matchOk_def min_def max_def split: if_splits)

lemma newAction_answer:
  assumes can: "canonicalUuid a" "canonicalUuid b" and "matchingInv d"
    and run: "newAction ids now ds de limit a b k d = (Inr r, d')"
  shows "repeatedAnswer a b k d' = r\<lparr>ar_created := False\<rparr>"
proof -
  let ?d = "acted (ids 0) now a b k d"
  have inv: "matchingInv d'" by (rule newAction_inv [OF assms])
  note facts = newAction_Inr [OF can run]
  show ?thesis
  proof (cases "k = Skip")
    case True
    with facts show ?thesis by (cases r) (simp add: repeatedAnswer_def)
  next
    case False
    then have fin: "matchIfReverseExists (ids 1) now a b ?d = (Inr (ar_matched r, ar_roomId r), d')"
      and cr: "ar_remainingSuperLikeCredits r = (if k = Superlike then superLikeCreditsOf a d' else None)"
      using facts by auto
    from matchIfReverseExists_cases [OF fin can] have "\<not> liked b a d' \<and> \<not> ar_matched r \<and> ar_roomId r = None \<or>
      (\<exists>m \<in> set (matchesTable d'). mt_userLowId m = min a b \<and> mt_userHighId m = max a b \<and>
        ar_matched r \<and> ar_roomId r = Some (mt_roomId m))"
      by (elim disjE) (auto simp: matchMade_tables)
    then have "ar_matched r = (findMatch (orderedMatchingPair a b) d' \<noteq> None) \<and>
      ar_roomId r = map_option mt_roomId (findMatch (orderedMatchingPair a b) d')"
      using findMatch_none [OF can inv] findMatch_stored [OF can inv] by auto
    with False cr show ?thesis by (cases r) (simp add: repeatedAnswer_def Let_def)
  qed
qed

lemma newAction_matchActions:
  assumes "canonicalUuid a" "canonicalUuid b" "newAction ids now ds de limit a b k d = (Inr r, d')"
  shows "matchActions d' = matchActions (acted (ids 0) now a b k d)"
    and "userConsumableBalances d' = userConsumableBalances (acted (ids 0) now a b k d)"
    and "users d' = users d"
proof -
  have "matchActions d' = matchActions (acted (ids 0) now a b k d) \<and>
    userConsumableBalances d' = userConsumableBalances (acted (ids 0) now a b k d) \<and> users d' = users d"
  proof (cases "k = Skip")
    case False
    with newAction_Inr [OF assms] have "matchIfReverseExists (ids 1) now a b (acted (ids 0) now a b k d) =
      (Inr (ar_matched r, ar_roomId r), d')" by simp
    from matchIfReverseExists_cases [OF this assms(1,2)] show ?thesis
      by (elim disjE conjE bexE) (simp_all only: matchMade_tables acted_tables simp_thms)
  qed (use newAction_Inr [OF assms] in simp)
  then show "matchActions d' = matchActions (acted (ids 0) now a b k d)"
    "userConsumableBalances d' = userConsumableBalances (acted (ids 0) now a b k d)" "users d' = users d"
    by simp_all
qed

text \<open>A repeated request is answered without a second effect: after an action was accepted, the same
  request returns the same answer (no longer as created) and changes nothing, and another action
  on the same user is refused.\<close>

lemma action_idempotent:
  assumes "canonicalUuid a" "canonicalUuid b" "matchingInv d"
    and "repoActOnCandidate ids now ds de limit a b k d = (Inr r, d')"
  shows "repoActOnCandidate ids' now' ds' de' limit' a b k d' = (Inr (r\<lparr>ar_created := False\<rparr>), d') \<and>
    (k' \<noteq> k \<longrightarrow> repoActOnCandidate ids' now' ds' de' limit' a b k' d' = (Inl (ErrorCode ''MATCH_ACTION_CONFLICT''), d'))"
proof (cases "firstBy (\<lambda>a. - ma_createdAt a) (activeAction a b) (matchActions d)")
  case (Some x)
  with assms(4) have "d' = d" "ma_action x = k" "r = repeatedAnswer a b k d"
    unfolding repoActOnCandidate_repeated [OF Some] by (auto split: if_splits)
  moreover have "(repeatedAnswer a b k d)\<lparr>ar_created := False\<rparr> = repeatedAnswer a b k d"
    by (simp add: repeatedAnswer_def Let_def)
  ultimately show ?thesis by (simp add: repoActOnCandidate_repeated [OF Some])
next
  case None
  with assms(4) have new: "newAction ids now ds de limit a b k d = (Inr r, d')"
    by (simp add: repoActOnCandidate_def transaction_Inr_iff)
  let ?x = "\<lparr>ma_id = ids 0, ma_actorUserId = a, ma_targetUserId = b, ma_action = k, ma_revertedAt = None,
    ma_createdAt = now\<rparr>"
  have "firstBy (\<lambda>a. - ma_createdAt a) (activeAction a b) (matchActions d') = Some ?x"
    unfolding newAction_matchActions(1) [OF assms(1,2) new] acted_tables
    by (rule insert_live_unique) (use assms(1,2) newAction_Inr [OF assms(1,2) new] in \<open>auto simp: activeAction_def\<close>)
  from repoActOnCandidate_repeated [OF this] newAction_answer [OF assms(1-3) new] show ?thesis by simp
qed

section \<open>Credits\<close>

lemma spent_credits:
  assumes "uniqueKey cb_userId (userConsumableBalances d)" "hasSuperLike a d"
    "userConsumableBalances d' = userConsumableBalances (spent now a d)"
  shows "superLikes u d' = superLikes u d - (if u = a then 1 else 0)" "boosts u d' = boosts u d" "0 < superLikes a d"
proof -
  from assms(2) obtain c where c: "c \<in> set (userConsumableBalances d)" "cb_userId c = a" "0 < cb_superLikeCredits c"
    by (auto simp: hasSuperLike_def existsRow_iff)
  have f: "findFirst (\<lambda>b. cb_userId b = a) (userConsumableBalances d) = Some c"
    by (rule findFirst_unique [OF assms(1) c(1)]) (use c in auto)
  then show "superLikes u d' = superLikes u d - (if u = a then 1 else 0)" "boosts u d' = boosts u d" "0 < superLikes a d"
    using c(3) assms(3)
    by (auto simp: superLikes_def boosts_def spent_def findFirst_updateWhere split: option.splits dest: findFirst_SomeD)
qed

lemma returned_credits:
  "superLikes u (returnSuperLike now a d) = superLikes u d + (if u = pgUuid a then 1 else 0)"
  "boosts u (returnSuperLike now a d) = boosts u d"
  by (auto simp: superLikes_def boosts_def returnSuperLike_def findFirst_updateWhere findFirst_insertRow
      existsRow_iff findFirst_None_iff split: option.splits dest: findFirst_SomeD)

lemma undone_credits:
  "superLikes u (undone now x d) = superLikes u d + (if ma_action x = Superlike \<and> u = pgUuid (ma_actorUserId x) then 1 else 0)"
  "boosts u (undone now x d) = boosts u d"
  by (simp_all add: undone_def Let_def returned_credits) (simp_all add: superLikes_def boosts_def)

lemma liked_active:
  assumes "matchingInv d" "canonicalUuid a" "canonicalUuid b" "liked a b d"
  shows "existsRow (activeAction a b) (matchActions d)"
proof -
  from assms(4) obtain l where l: "l \<in> set (userLikes d)" "ul_likerUserId l = a" "ul_likedUserId l = b"
    by (auto simp: liked_def existsRow_iff)
  then have "existsRow (likeAction a b) (matchActions d)"
    using assms(1) by (auto simp: matchingInv_def actionsOk_def list_all_iff)
  then show ?thesis
    using assms(2,3) by (auto simp: existsRow_iff likeAction_def activeAction_def)
qed

lemma deleteWhere_insertRow:
  "P r \<Longrightarrow> (\<And>q. q \<in> set t \<Longrightarrow> \<not> P q) \<Longrightarrow> deleteWhere P (insertRow r t) = t"
  by (simp add: deleteWhere_def insertRow_def)

definition liveActions :: "db \<Rightarrow> matchAction list" where
  "liveActions d = filter (\<lambda>x. ma_revertedAt x = None) (matchActions d)"

lemma newAction_lastAction:
  assumes "canonicalUuid a" "canonicalUuid b" "newAction ids now ds de limit a b k d = (Inr r, d')"
    and "list_all (\<lambda>x. ma_actorUserId x = a \<longrightarrow> ma_createdAt x < now) (liveActions d)"
    and "matchActions d'' = matchActions d'"
  shows "lastAction a d'' = Some \<lparr>ma_id = ids 0, ma_actorUserId = a, ma_targetUserId = b, ma_action = k,
    ma_revertedAt = None, ma_createdAt = now\<rparr>"
proof -
  let ?x = "\<lparr>ma_id = ids 0, ma_actorUserId = a, ma_targetUserId = b, ma_action = k, ma_revertedAt = None, ma_createdAt = now\<rparr>"
  have acts: "matchActions d'' = insertRow ?x (matchActions d)"
    using assms(5) newAction_matchActions(1) [OF assms(1-3)] by simp
  then have "lastAction a d'' \<noteq> None"
    using assms(1) by (auto simp: lastAction_def firstBy_None_iff)
  then obtain y where y: "lastAction a d'' = Some y" by blast
  note facts = firstBy_SomeD [OF y [unfolded lastAction_def]]
  have "now \<le> ma_createdAt y"
    using facts(3) [of ?x] assms(1) acts by simp
  with facts(1,2) assms(1,4) acts have "y = ?x"
    by (auto simp: liveActions_def list_all_iff)
  with y show ?thesis by simp
qed

lemma unmatched_acted:
  assumes "canonicalUuid a" "canonicalUuid b" "newAction ids now ds de limit a b k d = (Inr r, d')" "\<not> ar_matched r"
  shows "d' = acted (ids 0) now a b k d"
proof (cases "k = Skip")
  case False
  with newAction_Inr [OF assms(1-3)] have "matchIfReverseExists (ids 1) now a b (acted (ids 0) now a b k d) =
    (Inr (ar_matched r, ar_roomId r), d')" by simp
  from matchIfReverseExists_cases [OF this assms(1,2)] assms(4) show ?thesis by blast
qed (use newAction_Inr [OF assms(1-3)] in simp)

lemma live_insert:
  "ma_revertedAt x = None \<Longrightarrow> filter (\<lambda>x. ma_revertedAt x = None) (insertRow x t) =
     insertRow x (filter (\<lambda>x. ma_revertedAt x = None) t)"
  by (simp add: insertRow_def)

text \<open>C33. Undo takes an action back completely: an accepted action that did not match, undone before the
  user acts again, leaves the likes, the matches, the credits and the actions in force as they were;
  a super like gave up exactly one credit in between.\<close>

theorem undo_roundtrip:
  assumes "canonicalUuid a" "canonicalUuid b" "matchingInv d" "uniqueKey cb_userId (userConsumableBalances d)"
    and "list_all (\<lambda>x. ma_actorUserId x = a \<longrightarrow> ma_createdAt x < now) (liveActions d)"
    and "\<not> existsRow (activeAction a b) (matchActions d)"
    and act: "actOnCandidate ids now enabled a b k d = (Inr p, d1)" and "\<not> lp_matched p"
  shows "superLikes a d1 = superLikes a d - (if k = Superlike then 1 else 0) \<and>
    (\<exists>d2. undoLastAction now' a d1 = (Inr (True, Some b), d2) \<and>
      userLikes d2 = userLikes d \<and> matchesTable d2 = matchesTable d \<and> liveActions d2 = liveActions d \<and>
      superLikes u d2 = superLikes u d \<and> boosts u d2 = boosts u d)"
proof -
  let ?x = "\<lparr>ma_id = ids 0, ma_actorUserId = a, ma_targetUserId = b, ma_action = k, ma_revertedAt = None, ma_createdAt = now\<rparr>"
  from act obtain r d0 where run: "repoActOnCandidate ids now (startOfUtcDay now) (nextUtcDay now)
      (getDailyLikeLimit (currentPlanId now a d)) a b k d = (Inr r, d0)"
    and view: "matchingView d1 = matchingView d0" and m: "\<not> ar_matched r" and ok: "uuidRegex a" "profileIsComplete a d"
    using assms(8) by (elim actOnCandidate_Inr) simp
  with repoActOnCandidate_Inr [OF run] assms(6) have new: "newAction ids now (startOfUtcDay now) (nextUtcDay now)
      (getDailyLikeLimit (currentPlanId now a d)) a b k d = (Inr r, d0)" by blast
  note facts = newAction_Inr [OF assms(1,2) new] and tabs = newAction_matchActions [OF assms(1,2) new]
  have same: "users d1 = users d" "userLikes d1 = userLikes d0" "matchActions d1 = matchActions d0"
    "matchesTable d1 = matchesTable d0" "userConsumableBalances d1 = userConsumableBalances d0"
    using view tabs(3) by (simp_all add: matchingView_def)
  have fresh: "\<not> liked a b d" using liked_active [OF assms(3,1,2)] assms(6) by blast
  have d0: "d0 = acted (ids 0) now a b k d"
    by (rule unmatched_acted [OF assms(1,2) new m])
  have u: "uniqueKey ma_id (matchActions d1)"
    using newAction_inv [OF assms(1-3) new] by (simp add: same matchingInv_def actionsOk_def)
  have last: "lastAction a d1 = Some ?x" by (rule newAction_lastAction [OF assms(1,2) new assms(5) same(3)])
  have "orderedMatchingPair a b = orderedMatchingPair b a"
    by (simp add: ordered_pair min.commute max.commute)
  then have "findMatch (orderedMatchingPair a b) d1 = None"
    using findMatch_none [OF assms(2,1,3) fresh] by (simp add: findMatch_def same d0)
  then have "repoUndoLastAction now' a d1 = (Inr (Some (?x\<lparr>ma_revertedAt := Some now'\<rparr>)), undone now' ?x d1)"
    unfolding repoUndoLastAction_eq [OF u] last by simp
  moreover have "profileIsComplete a d1" using ok(2) same(1) by (simp add: profileIsComplete_def findUserRow_def)
  ultimately have undo: "undoLastAction now' a d1 = (Inr (True, Some b), undone now' ?x d1)"
    using ok(1) by (simp add: undoLastAction_def matching_checks throwIf_apply)
  have cred: "superLikes v d1 = superLikes v d - (if k = Superlike \<and> v = a then 1 else 0)" "boosts v d1 = boosts v d" for v
    using spent_credits(1,2) [OF assms(4), of a d1 now v] facts
    by (cases "k = Superlike"; simp add: same d0; simp add: superLikes_def boosts_def same d0)+
  have "userLikes (undone now' ?x d1) = userLikes d"
    using fresh by (auto simp: undone_tables same d0 deleteWhere_insertRow liked_def existsRow_iff)
  moreover have "ma_id q \<noteq> ids 0" if "q \<in> set (matchActions d)" for q
    using facts that by (metis image_eqI keyTaken_iff)
  then have "liveActions (undone now' ?x d1) = liveActions d"
    by (simp add: liveActions_def undone_tables live_revert same d0 live_insert) (rule deleteWhere_insertRow; simp)
  ultimately show ?thesis
    using undo cred assms(1) by (auto simp: undone_credits undone_tables(3) same d0)
qed

section \<open>Boosts\<close>

definition boostsDisjoint :: "db \<Rightarrow> bool" where
  "boostsDisjoint d \<longleftrightarrow> list_all (\<lambda>x. list_all (\<lambda>y. bo_id x \<noteq> bo_id y \<and> bo_userId x = bo_userId y \<longrightarrow>
     bo_endsAt x \<le> bo_startsAt y \<or> bo_endsAt y \<le> bo_startsAt x) (userBoosts d)) (userBoosts d)"

lemma findFirst_headOption:
  assumes "uniqueKey k t" "headOption (returning (\<lambda>r. k r = v \<and> Q r) f t) = Some z"
  obtains c where "findFirst (\<lambda>r. k r = v) t = Some c" "c \<in> set t" "k c = v" "Q c" "z = f c"
proof -
  from assms(2) obtain c where c: "c \<in> set t" "k c = v" "Q c" "z = f c"
    by (auto simp: returning_def dest!: headOption_SomeD)
  have "findFirst (\<lambda>r. k r = v) t = Some c"
    by (rule findFirst_unique [OF assms(1) c(1)]) (use c in auto)
  with c show thesis using that by blast
qed

text \<open>A boost costs one credit and boosts of a user never overlap: an accepted activation takes exactly
  one of the user's boost credits, which was there, and lasts thirty minutes from now on; a refused one
  changes nothing.\<close>

lemma boost_activation:
  assumes keys: "uniqueKey cb_userId (userConsumableBalances d)" and run: "activateBoost i now u d = (res, d')"
  shows "case res of Inl _ \<Rightarrow> d' = d
    | Inr (until, left) \<Rightarrow> until = now + 1800000 \<and> 0 \<le> left \<and> left = boosts (pgUuid u) d - 1 \<and>
        boosts (pgUuid u) d' = left \<and> superLikes v d' = superLikes v d \<and>
        (boostsDisjoint d \<longrightarrow> boostsDisjoint d')"
proof (cases res)
  case (Inl e)
  moreover have "atomic (activateBoost i now u)"
    unfolding activateBoost_def matching_checks repoActivateBoost_def
    by (intro atomic_reads readsI atomic_intros preserves_intros)
  ultimately show ?thesis using run by (auto dest: atomicD)
next
  case (Inr r)
  let ?P = "\<lambda>b. cb_userId b = pgUuid u \<and> 0 < cb_boostCredits b"
  let ?f = "\<lambda>b. b\<lparr>cb_boostCredits := cb_boostCredits b - 1, cb_updatedAt := now\<rparr>"
  let ?new = "\<lparr>bo_id = i, bo_userId = pgUuid u, bo_source = js ''consumable'', bo_startsAt = now,
    bo_endsAt = now + 30 * 60 * 1000, bo_createdAt = now\<rparr>"
  from run Inr obtain b where b: "headOption (returning ?P ?f (userConsumableBalances d)) = Some b"
    and free: "\<not> existsRow (\<lambda>x. bo_userId x = pgUuid u \<and> now < bo_endsAt x) (userBoosts d)"
      "\<not> keyTaken bo_id i (userBoosts d)"
    and out: "r = (now + 30 * 60 * 1000, cb_boostCredits b)"
      "d' = d\<lparr>userConsumableBalances := updateWhere ?P ?f (userConsumableBalances d),
        userBoosts := insertRow ?new (userBoosts d)\<rparr>"
    by (auto simp: activateBoost_def matching_checks throwIf_apply andThen_Inr_iff repoActivateBoost_def Let_def
        transaction_Inr_iff split: if_splits option.splits)
  from keys b obtain c where c: "findFirst (\<lambda>x. cb_userId x = pgUuid u) (userConsumableBalances d) = Some c"
    "0 < cb_boostCredits c" "b = ?f c" "cb_userId c = pgUuid u"
    by (rule findFirst_headOption)
  have "boostsDisjoint d'" if "boostsDisjoint d"
    using that free unfolding boostsDisjoint_def out(2) by (auto simp: list_all_iff existsRow_iff)
  moreover have "superLikes v d' = superLikes v d"
    by (auto simp: superLikes_def out(2) findFirst_updateWhere split: option.splits)
  moreover have "boosts (pgUuid u) d = cb_boostCredits c" "boosts (pgUuid u) d' = cb_boostCredits c - 1"
    using c by (simp_all add: boosts_def out(2) findFirst_updateWhere)
  ultimately show ?thesis using Inr out(1) c(2,3) by simp
qed

section \<open>Viewing the likes received\<close>

lemma likedMe_window_bounds:
  "startOfLikedMeWindow now \<le> now" "now < startOfLikedMeWindow now + LIKED_ME_WINDOW_HOURS * MS_PER_HOUR"
proof -
  define r q where "r = now mod MS_PER_DAY" and "q = utcHours now div 3"
  have "utcHours now * 3600000 \<le> r" "r < utcHours now * 3600000 + 3600000"
    by (simp_all add: utcHours_def r_def MS_PER_HOUR_def)
  moreover have "3 * q \<le> utcHours now" "utcHours now \<le> 3 * q + 2"
    by (simp_all add: q_def)
  ultimately show "startOfLikedMeWindow now \<le> now"
    "now < startOfLikedMeWindow now + LIKED_ME_WINDOW_HOURS * MS_PER_HOUR"
    by (simp_all add: startOfLikedMeWindow_def startOfUtcDay_def LIKED_ME_WINDOW_HOURS_def MS_PER_HOUR_def Let_def
        r_def [symmetric] q_def [symmetric])
qed

definition viewed :: "uuid \<Rightarrow> timestamp \<Rightarrow> db \<Rightarrow> int" where
  "viewed u w d = (case findFirst (\<lambda>a. la_userId a = u \<and> la_periodStart a = w) (userLikedMeAccesses d) of
     None \<Rightarrow> 0 | Some a \<Rightarrow> la_viewedCount a)"

text \<open>Requests one after the other: which of them are let through.\<close>

fun views :: "jsstring \<Rightarrow> jsstring \<Rightarrow> timestamp list \<Rightarrow> db \<Rightarrow> bool list" where
  "views u plan [] d = []"
| "views u plan (now # nows) d =
     (case enforceLikedMeWindow now u plan d of (r, d') \<Rightarrow> (\<not> isl r) # views u plan nows d')"

lemma enforce_step:
  assumes "getLikedMeLimit plan = Some n" "userExists (pgUuid u) d" "0 \<le> viewed (pgUuid u) w d"
    "startOfLikedMeWindow now = w"
  obtains r d' where "enforceLikedMeWindow now u plan d = (r, d')" "\<not> isl r \<longleftrightarrow> viewed (pgUuid u) w d < int n"
    "viewed (pgUuid u) w d' = viewed (pgUuid u) w d + (if isl r then 0 else 1)" "userExists (pgUuid u) d'"
proof -
  have n: "0 < n" using assms(1) by (auto simp: getLikedMeLimit_def split: if_splits)
  let ?P = "\<lambda>a. la_userId a = pgUuid u \<and> la_periodStart a = w"
  show thesis
  proof (cases "findFirst ?P (userLikedMeAccesses d)")
    case None
    then have "enforceLikedMeWindow now u plan d = (Inr (), d\<lparr>userLikedMeAccesses := insertRow
        \<lparr>la_userId = pgUuid u, la_periodStart = w, la_viewedCount = 1, la_updatedAt = now\<rparr> (userLikedMeAccesses d)\<rparr>)"
      using assms by (simp add: enforceLikedMeWindow_def consumeLikedMeAccess_def throwIf_apply)
    then show thesis
      by (rule that) (use None n assms(2) in \<open>simp_all add: viewed_def findFirst_insertRow userExists_def\<close>)
  next
    case (Some a)
    have eq: "enforceLikedMeWindow now u plan d = (if la_viewedCount a < int n
      then (Inr (), d\<lparr>userLikedMeAccesses := updateWhere ?P
        (\<lambda>a. a\<lparr>la_viewedCount := la_viewedCount a + 1, la_updatedAt := now\<rparr>) (userLikedMeAccesses d)\<rparr>)
      else (Inl (ErrorCode ''LIKED_ME_LIMIT_REACHED''), d))"
      using assms Some by (simp add: enforceLikedMeWindow_def consumeLikedMeAccess_def throwIf_apply andThen_def)
    have P: "?P a" using findFirst_SomeD [OF Some] by simp
    show thesis
    proof (cases "la_viewedCount a < int n")
      case True
      show thesis
        by (rule that [OF eq [unfolded if_P [OF True]]])
           (use True Some P assms(2) in \<open>simp_all add: viewed_def userExists_def findFirst_updateWhere\<close>)
    next
      case False
      show thesis
        by (rule that [OF eq [unfolded if_not_P [OF False]]])
           (use False Some assms(2) in \<open>simp_all add: viewed_def\<close>)
    qed
  qed
qed

lemma views_count:
  assumes "getLikedMeLimit plan = Some n" "userExists (pgUuid u) d" "0 \<le> viewed (pgUuid u) w d"
    "list_all (\<lambda>now. startOfLikedMeWindow now = w) nows"
  shows "countWhere (\<lambda>x. x) (views u plan nows d) = min (length nows) (nat (int n - viewed (pgUuid u) w d))"
  using assms
proof (induction nows arbitrary: d)
  case (Cons now nows)
  from Cons.prems have w: "startOfLikedMeWindow now = w" by simp
  obtain r d' where step: "enforceLikedMeWindow now u plan d = (r, d')"
    "\<not> isl r \<longleftrightarrow> viewed (pgUuid u) w d < int n"
    "viewed (pgUuid u) w d' = viewed (pgUuid u) w d + (if isl r then 0 else 1)" "userExists (pgUuid u) d'"
    using enforce_step [OF Cons.prems(1-3) w] by blast
  have "countWhere (\<lambda>x. x) (views u plan nows d') = min (length nows) (nat (int n - viewed (pgUuid u) w d'))"
    using Cons step(3,4) by (intro Cons.IH) (auto split: if_splits)
  then show ?case
    using step by (auto simp: countWhere_def min_def split: if_splits)
qed simp

text \<open>The limit of a plan on viewing the likes received is exact: of the requests of a user in one
  window of three hours, the first ones up to the limit are let through and no other.\<close>

lemma likedMe_limit:
  assumes "getLikedMeLimit plan = Some n" and "userExists (pgUuid u) d"
    and "\<not> existsRow (\<lambda>a. la_userId a = pgUuid u \<and> la_periodStart a = w) (userLikedMeAccesses d)"
    and "list_all (\<lambda>now. startOfLikedMeWindow now = w) nows"
  shows "countWhere (\<lambda>x. x) (views u plan nows d) = min (length nows) n"
proof -
  have "viewed (pgUuid u) w d = 0"
    using assms(3) by (auto simp: viewed_def existsRow_iff split: option.splits dest: findFirst_SomeD)
  with views_count [OF assms(1,2) _ assms(4)] show ?thesis by simp
qed

section \<open>Candidates\<close>

lemma ca_id_details: "map ca_id (withCandidateDetails now u rows d) = map ca_id rows"
  by (simp add: withCandidateDetails_def Let_def candidateBase.defs comp_def)

lemma repoCandidates_eligible:
  assumes "c \<in> set (repoCandidates now u d)"
  obtains viewer t where "findUserRow u d = Some viewer" "t \<in> set (users d)" "ca_id c = u_userId t"
    "eligible u viewer d t"
proof -
  from assms obtain viewer where v: "findUserRow u d = Some viewer"
    by (cases "findUserRow u d") (simp_all add: repoCandidates_def)
  let ?rows = "map candidateOf (take 50 (sort_key (\<lambda>u. - u_createdAt u) (filter (eligible u viewer d) (users d))))"
  have "ca_id c \<in> set (map ca_id ?rows)"
    using assms v unfolding ca_id_details [of now u ?rows d, symmetric] by (simp add: repoCandidates_def)
  then obtain t where "t \<in> set (sort_key (\<lambda>u. - u_createdAt u) (filter (eligible u viewer d) (users d)))"
    "ca_id c = u_userId t"
    by (auto simp: candidateOf_def dest!: in_set_takeD)
  with v that show thesis by auto
qed

lemma assertAvailable_eligible:
  assumes "findUserRow u d = Some viewer" "profileComplete viewer" "t \<in> set (users d)" "eligible u viewer d t"
    "uniqueKey u_userId (users d)" "canonicalUuid (u_userId t)"
  shows "assertAvailable u (u_userId t) d = (Inr (), d)"
proof -
  have "findUserRow (u_userId t) d = Some t"
    unfolding findUserRow_def by (rule findFirst_unique [OF assms(5,3)]) (use assms(6) in simp_all)
  with assms show ?thesis
    by (simp add: assertAvailable_def eligible_def throwIf_apply)
qed

lemma newAction_succeeds:
  assumes can: "canonicalUuid a" "canonicalUuid b" and "a \<noteq> b" and av: "assertAvailable a b d = (Inr (), d)"
    and ex: "userExists a d" "userExists b d"
    and no: "\<not> existsRow (activeAction a b) (matchActions d)" and cr: "k = Superlike \<longrightarrow> hasSuperLike a d"
    and lim: "k \<noteq> Skip \<and> \<not> liked a b d \<longrightarrow> withinLimit limit a ds de d"
    and fresh: "\<not> keyTaken ma_id (ids 0) (matchActions d)" "\<not> keyTaken r_id (ids 1) (rooms d)"
      "\<not> keyTaken mt_roomId (ids 1) (matchesTable d)"
  shows "\<exists>r d'. newAction ids now ds de limit a b k d = (Inr r, d') \<and> ar_created r"
proof -
  let ?x = "\<lparr>ma_id = ids 0, ma_actorUserId = a, ma_targetUserId = b, ma_action = k, ma_revertedAt = None, ma_createdAt = now\<rparr>"
  define d1 where "d1 = (if k = Superlike then spent now a d else d)"
  define d2 where "d2 = (if k = Skip \<or> liked a b d then d1 else d1\<lparr>userLikes :=
    insertRow \<lparr>ul_likerUserId = a, ul_likedUserId = b, ul_createdAt = now\<rparr> (userLikes d)\<rparr>)"
  define d3 where "d3 = d2\<lparr>matchActions := insertRow ?x (matchActions d)\<rparr>"
  have tabs: "users d1 = users d" "userLikes d1 = userLikes d" "matchActions d1 = matchActions d" "rooms d1 = rooms d"
    "matchesTable d1 = matchesTable d" "users d2 = users d" "matchActions d2 = matchActions d" "rooms d2 = rooms d"
    "matchesTable d2 = matchesTable d"
    by (simp_all add: d1_def d2_def spent_def)
  have s1: "(if k = Superlike then spendSuperLike now a else ret ()) d = (Inr (), d1)"
    using spendSuperLike_Inr [OF can(1), of now d "()"] cr by (simp add: d1_def)
  have free: "findLike a b d1 = None \<longleftrightarrow> \<not> liked a b d"
    using liked_findLike [of a b d] can by (simp add: findLike_def tabs)
  have s2: "(if k \<noteq> Skip then recordLike now ds de limit a b else ret ()) d1 = (Inr (), d2)"
  proof (cases "k = Skip \<or> liked a b d")
    case True
    with free show ?thesis by (auto simp: d2_def recordLike_def)
  next
    case False
    then have "\<not> keyTaken (\<lambda>r. (ul_likerUserId r, ul_likedUserId r)) (a, b) (userLikes d)"
      by (auto simp: keyTaken_def liked_def existsRow_iff)
    moreover have "withinLimit limit a ds de d1"
      using False lim by (auto simp: withinLimit_def likesBetween_def tabs split: option.splits)
    ultimately show ?thesis
      using False free can ex \<open>a \<noteq> b\<close>
      by (auto simp: d2_def withinLimit_def recordLike_def insertUserLike_def tabs userExists_def split: option.splits)
  qed
  have s3: "insertMatchAction ?x d2 = (Inr (), d3)"
    using ex no fresh(1) \<open>a \<noteq> b\<close> by (simp add: insertMatchAction_def d3_def tabs userExists_def)
  have s4: "\<exists>x d4. matchIfReverseExists (ids 1) now a b d3 = (Inr x, d4)"
  proof (cases "findLike b a d3 = None \<or> findMatch (orderedMatchingPair a b) d3 \<noteq> None")
    case False
    have "pgUuid (min a b) = min a b" "pgUuid (max a b) = max a b" "min a b \<noteq> max a b"
      "userExists (min a b) d" "userExists (max a b) d"
      using can ex \<open>a \<noteq> b\<close> by (auto simp: min_def max_def)
    moreover have "\<not> keyTaken (\<lambda>x. (mt_userLowId x, mt_userHighId x)) (min a b, max a b) (matchesTable d)"
      using False by (auto simp: findMatch_ordered [OF can] findFirst_None_iff keyTaken_def existsRow_iff d3_def tabs)
    ultimately show ?thesis
      using False fresh(2,3)
      by (simp add: matchIfReverseExists_def insertRoom_def insertMatch_def ordered_pair andThen_assoc
          d3_def tabs userExists_def)
         (auto simp: keyTaken_iff)
  qed (auto simp: matchIfReverseExists_def)
  then have "\<exists>r d4. finishAction (ids 1) now a b k d3 = (Inr r, d4) \<and> ar_created r"
    by (cases "k = Skip") (auto simp: finishAction_def)
  then show ?thesis
    using av s1 s2 s3 can by (simp add: newAction_def)
qed

text \<open>C35. What the candidates show can be acted on: a listed candidate is another user, at most fifty are listed, and
  the viewer's action on one is accepted exactly if a super like finds a credit and a like or super like that is not on
  record yet finds the likes of the day below the limit of the plan, whatever the limit is.\<close>

theorem candidates_actionable:
  assumes "c \<in> set (repoCandidates now u d)" and "profileIsComplete u d" and "canonicalUuid u"
    and "uniqueKey u_userId (users d)" and "list_all (\<lambda>x. canonicalUuid (u_userId x)) (users d)"
    and "\<not> keyTaken ma_id (ids 0) (matchActions d)" "\<not> keyTaken r_id (ids 1) (rooms d)"
      "\<not> keyTaken mt_roomId (ids 1) (matchesTable d)"
  shows "ca_id c \<noteq> u \<and> length (repoCandidates now u d) \<le> 50 \<and>
    ((\<exists>r d'. repoActOnCandidate ids now' ds de limit u (ca_id c) k d = (Inr r, d') \<and> ar_created r) \<longleftrightarrow>
      (k = Superlike \<longrightarrow> hasSuperLike u d) \<and>
      (k = Skip \<or> liked u (ca_id c) d \<or> (case limit of None \<Rightarrow> True | Some n \<Rightarrow> likesBetween u ds de d < n)))"
proof -
  from assms(1) obtain viewer t where v: "findUserRow u d = Some viewer" and t: "t \<in> set (users d)"
    "ca_id c = u_userId t" "eligible u viewer d t"
    by (rule repoCandidates_eligible)
  have can: "canonicalUuid (u_userId t)" using assms(5) t(1) by (simp add: list_all_iff)
  have ne: "u_userId t \<noteq> u" using t(3) assms(3) by (simp add: eligible_def)
  have ex: "userExists u d" "userExists (u_userId t) d"
    using findFirst_SomeD [OF v [unfolded findUserRow_def]] t(1) assms(3)
    by (auto simp: userExists_def existsRow_iff)
  have av: "assertAvailable u (u_userId t) d = (Inr (), d)"
    using assms(2) v by (intro assertAvailable_eligible [OF v _ t(1,3) assms(4) can]) (simp add: profileIsComplete_def)
  have no: "\<not> existsRow (activeAction u (u_userId t)) (matchActions d)"
    using t(3) by (simp add: eligible_def)
  then have none: "firstBy (\<lambda>a. - ma_createdAt a) (activeAction u (u_userId t)) (matchActions d) = None"
    by (auto simp: firstBy_None_iff existsRow_iff)
  have act: "repoActOnCandidate ids now' ds de limit u (u_userId t) k d = (Inr r, d') \<longleftrightarrow>
      newAction ids now' ds de limit u (u_userId t) k d = (Inr r, d')" for r d'
    by (simp add: repoActOnCandidate_def transaction_Inr_iff none)
  have "(\<exists>r d'. newAction ids now' ds de limit u (u_userId t) k d = (Inr r, d') \<and> ar_created r) \<longleftrightarrow>
      (k = Superlike \<longrightarrow> hasSuperLike u d) \<and> (k \<noteq> Skip \<and> \<not> liked u (u_userId t) d \<longrightarrow> withinLimit limit u ds de d)"
    using newAction_Inr [OF assms(3) can] newAction_succeeds [OF assms(3) can ne [symmetric] av ex no _ _ assms(6-8)]
    by blast
  moreover have "length (repoCandidates now u d) \<le> 50"
    using v arg_cong [OF ca_id_details [of now u _ d], of length] by (simp add: repoCandidates_def)
  ultimately show ?thesis
    using ne unfolding act t(2) withinLimit_def [symmetric] by blast
qed

section \<open>Samples\<close>

definition samplePeerId :: uuid where
  "samplePeerId = js ''00000000-0000-4000-8000-0000000000b2''"

definition sampleSingle :: "uuid \<Rightarrow> user" where
  "sampleSingle i = (sampleUser i)\<lparr>u_interestedGender := Some Everyone\<rparr>"

definition sampleSinglesDb :: db where
  "sampleSinglesDb = emptyDb\<lparr>users := [sampleSingle sampleAccountId, sampleSingle samplePeerId],
     userConsumableBalances := [\<lparr>cb_userId = sampleAccountId, cb_superLikeCredits = 2, cb_boostCredits = 1,
       cb_updatedAt = 0\<rparr>]\<rparr>"

lemma sample_peer [eval_simps]:
  "map asciiLower samplePeerId = samplePeerId" "samplePeerId \<noteq> sampleAccountId" "sampleAccountId \<noteq> samplePeerId"
  "sampleAccountId < samplePeerId" "\<not> samplePeerId < sampleAccountId" "canonicalUuid samplePeerId"
  by (simp_all add: samplePeerId_def sampleAccountId_def string_simps canonicalUuid_def)

lemma sample_peer_uuid [eval_simps]: "uuidRegex samplePeerId"
  by (simp add: samplePeerId_def uuidRegex_def matchesClasses_def uuidClasses_def isHexDigit_def
      isDigit_def js_def numeral_eq_Suc replicate_Suc)

lemmas matching_eval_simps [eval_simps] = sampleSingle_def sampleSinglesDb_def actOnCandidate_def
  validateMatchingUuid_def requireCompletedProfile_def profileIsComplete_def profileComplete_def
  currentPlanId_def findCurrentSubscription_def activeSubscription_def getDailyLikeLimit_def
  repoActOnCandidate_def newAction_def finishAction_def assertAvailable_def accepts_def blockedBetween_def
  spendSuperLike_def recordLike_def likesBetween_def findLike_def insertUserLike_def insertMatchAction_def
  activeAction_def matchIfReverseExists_def findMatch_def orderedMatchingPair_def insertRoom_def insertMatch_def
  addMember_def notifyInteraction_def matchNotification_def likeNotification_def superLikeCreditsOf_def
  findBalance_def repoUndoLastAction_def returnSuperLike_def undoLastAction_def activateBoost_def
  repoActivateBoost_def

definition sampleIds :: "nat \<Rightarrow> nat \<Rightarrow> uuid" where
  "sampleIds n k = [n, k]"

definition sampleLikes :: "matchingStep list" where
  "sampleLikes = [ActStep (sampleIds 1) 1000 False samplePeerId sampleAccountId Like,
     ActStep (sampleIds 2) 2000 False sampleAccountId samplePeerId Superlike]"

definition samplePeerUpper :: jsstring where
  "samplePeerUpper = js ''00000000-0000-4000-8000-0000000000B2''"

lemma sample_upper [eval_simps]:
  "map asciiLower samplePeerUpper = samplePeerId" "\<not> sampleAccountId < samplePeerUpper"
  "sampleAccountId \<noteq> samplePeerUpper" "samplePeerUpper \<noteq> sampleAccountId"
  by (simp_all add: samplePeerId_def samplePeerUpper_def sampleAccountId_def string_simps)

lemma sample_upper_uuid [eval_simps]: "uuidRegex samplePeerUpper"
  by (simp add: samplePeerUpper_def uuidRegex_def matchesClasses_def uuidClasses_def isHexDigit_def
      isDigit_def js_def numeral_eq_Suc replicate_Suc)

definition sampleLiked :: "(app_error + likeUserPayload) \<times> db" where
  "sampleLiked = actOnCandidate (sampleIds 1) 1000 False sampleAccountId samplePeerId Superlike sampleSinglesDb"

lemma sampleLiked_ok: "\<exists>p d. sampleLiked = (Inr p, d) \<and> \<not> lp_matched p"
  unfolding sampleLiked_def by (simp add: eval_simps sampleIds_def cong: run_congs)

lemma sampleSingles_inv: "noMatching sampleSinglesDb" "uniqueKey cb_userId (userConsumableBalances sampleSinglesDb)"
  "liveActions sampleSinglesDb = []" "matchActions sampleSinglesDb = []" "rooms sampleSinglesDb = []"
  "matchesTable sampleSinglesDb = []" "likesBetween sampleAccountId s e sampleSinglesDb = 0"
  by (simp_all add: noMatching_def sampleSinglesDb_def emptyDb_def uniqueKey_def liveActions_def likesBetween_def)

lemma match_iff_mutual_witness:
  "noMatching sampleSinglesDb \<and> list_all canonicalStep sampleLikes \<and>
     liked sampleAccountId samplePeerId (foldl stepMatching sampleSinglesDb sampleLikes)"
proof -
  have "matchedPair sampleAccountId samplePeerId (foldl stepMatching sampleSinglesDb sampleLikes)"
    by (simp add: eval_simps sampleIds_def sampleLikes_def matchedPair_def matchOf_def cong: run_congs)
  moreover have "list_all canonicalStep sampleLikes"
    by (simp add: sampleLikes_def sample_ids sample_peer)
  ultimately show ?thesis
    using match_iff_mutual [of sampleSinglesDb sampleLikes sampleAccountId samplePeerId] sampleSingles_inv(1) by simp
qed

theorem like_limit_witness:
  "\<exists>p d'. sampleLiked = (Inr p, d') \<and>
     likesBetween sampleAccountId (startOfUtcDay 1000) (nextUtcDay 1000) d' \<le> 10"
proof -
  obtain p d' where ok: "sampleLiked = (Inr p, d')" using sampleLiked_ok by blast
  have "getDailyLikeLimit (currentPlanId 1000 sampleAccountId sampleSinglesDb) = Some 10"
    by (simp add: eval_simps)
  from like_limit [OF sample_ids(5) sample_peer(6) ok [unfolded sampleLiked_def] this]
  have "likesBetween sampleAccountId (startOfUtcDay 1000) (nextUtcDay 1000) d' \<le> 10"
    by (auto simp: sampleSingles_inv)
  with ok show ?thesis by blast
qed

lemma sampleRepoLike: "\<exists>r d. repoActOnCandidate (sampleIds 1) 1000 0 86400000 None sampleAccountId samplePeerId Like
    sampleSinglesDb = (Inr r, d)"
  by (simp add: eval_simps sampleIds_def cong: run_congs)

lemma action_idempotent_witness:
  "\<exists>r d. repoActOnCandidate (sampleIds 1) 1000 0 86400000 None sampleAccountId samplePeerId Like sampleSinglesDb
      = (Inr r, d) \<and>
    repoActOnCandidate (sampleIds 2) 2000 0 86400000 None sampleAccountId samplePeerId Like d
      = (Inr (r\<lparr>ar_created := False\<rparr>), d) \<and>
    repoActOnCandidate (sampleIds 2) 2000 0 86400000 None sampleAccountId samplePeerId Skip d
      = (Inl (ErrorCode ''MATCH_ACTION_CONFLICT''), d)"
proof -
  obtain r d where ok: "repoActOnCandidate (sampleIds 1) 1000 0 86400000 None sampleAccountId samplePeerId Like
    sampleSinglesDb = (Inr r, d)" using sampleRepoLike by blast
  with action_idempotent [OF sample_ids(5) sample_peer(6) noMatching_inv [OF sampleSingles_inv(1)] ok,
      where k' = Skip and ids' = "sampleIds 2" and now' = 2000 and ds' = 0 and de' = 86400000 and limit' = None]
  show ?thesis by blast
qed

theorem undo_roundtrip_witness:
  "\<exists>p d1 d2. sampleLiked = (Inr p, d1) \<and> superLikes sampleAccountId d1 = 1 \<and>
     undoLastAction 3000 sampleAccountId d1 = (Inr (True, Some samplePeerId), d2) \<and>
     superLikes sampleAccountId d2 = 2 \<and> userLikes d2 = []"
proof -
  obtain p d1 where ok: "sampleLiked = (Inr p, d1)" "\<not> lp_matched p" using sampleLiked_ok by blast
  have "superLikes sampleAccountId sampleSinglesDb = 2" "userLikes sampleSinglesDb = []"
    by (simp_all add: superLikes_def sampleSinglesDb_def emptyDb_def)
  with undo_roundtrip [OF sample_ids(5) sample_peer(6) noMatching_inv [OF sampleSingles_inv(1)] sampleSingles_inv(2)
      _ _ ok(1) [unfolded sampleLiked_def] ok(2), of 3000 sampleAccountId] ok(1)
  show ?thesis by (auto simp: sampleSingles_inv existsRow_def)
qed

lemma sampleBoost_ok: "\<exists>r d. activateBoost (js ''x1'') 1000 sampleAccountId sampleSinglesDb = (Inr r, d)"
  by (simp add: eval_simps cong: run_congs)

lemma boost_activation_witness:
  "\<exists>until left d. activateBoost (js ''x1'') 1000 sampleAccountId sampleSinglesDb = (Inr (until, left), d) \<and>
     until = 1801000 \<and> left = 0"
proof -
  obtain until left d where ok: "activateBoost (js ''x1'') 1000 sampleAccountId sampleSinglesDb = (Inr (until, left), d)"
    using sampleBoost_ok by auto
  moreover have "boosts (pgUuid sampleAccountId) sampleSinglesDb = 1"
    by (simp add: boosts_def sampleSinglesDb_def emptyDb_def sample_canonical)
  ultimately show ?thesis using boost_activation [OF sampleSingles_inv(2) ok] by auto
qed

lemma likedMe_limit_witness:
  "countWhere (\<lambda>x. x) (views sampleAccountId (js ''basic'') [0, 1, 2, 3, 10000000] sampleSinglesDb) = 3"
proof -
  have "getLikedMeLimit (js ''basic'') = Some 3" by (simp add: getLikedMeLimit_def js_def)
  moreover have "list_all (\<lambda>now. startOfLikedMeWindow now = 0) [0, 1, 2, 3, 10000000]"
    by (simp add: startOfLikedMeWindow_def utcHours_def startOfUtcDay_def LIKED_ME_WINDOW_HOURS_def MS_PER_HOUR_def
        MS_PER_DAY_def)
  ultimately show ?thesis
    using likedMe_limit [of "js ''basic''" 3 sampleAccountId sampleSinglesDb 0 "[0, 1, 2, 3, 10000000]"]
    by (simp add: userExists_def sampleSinglesDb_def emptyDb_def sampleSingle_def sampleUser_def sample_canonical existsRow_def)
qed

lemma sampleCandidates_ok: "map ca_id (repoCandidates 1000 sampleAccountId sampleSinglesDb) = [samplePeerId]"
proof -
  have v: "findUserRow sampleAccountId sampleSinglesDb = Some (sampleSingle sampleAccountId)"
    by (simp add: eval_simps)
  have "eligible sampleAccountId (sampleSingle sampleAccountId) sampleSinglesDb (sampleSingle samplePeerId)"
    "\<not> eligible sampleAccountId (sampleSingle sampleAccountId) sampleSinglesDb (sampleSingle sampleAccountId)"
    by (simp_all add: eval_simps eligible_def)
  moreover have "users sampleSinglesDb = [sampleSingle sampleAccountId, sampleSingle samplePeerId]"
    by (simp add: sampleSinglesDb_def)
  ultimately show ?thesis
    by (simp add: repoCandidates_def v ca_id_details candidateOf_def) (simp add: sampleSingle_def sampleUser_def)
qed

theorem candidates_actionable_witness:
  "\<exists>c \<in> set (repoCandidates 1000 sampleAccountId sampleSinglesDb).
     (\<exists>r d'. repoActOnCandidate (sampleIds 1) 1000 0 86400000 (Some 1) sampleAccountId (ca_id c) Like sampleSinglesDb = (Inr r, d')) \<and>
     (\<nexists>r d'. repoActOnCandidate (sampleIds 1) 1000 0 86400000 (Some 0) sampleAccountId (ca_id c) Like sampleSinglesDb = (Inr r, d') \<and>
        ar_created r)"
proof -
  from sampleCandidates_ok obtain c where c: "c \<in> set (repoCandidates 1000 sampleAccountId sampleSinglesDb)"
    by (cases "repoCandidates 1000 sampleAccountId sampleSinglesDb") auto
  have "profileIsComplete sampleAccountId sampleSinglesDb" "uniqueKey u_userId (users sampleSinglesDb)"
    "list_all (\<lambda>x. canonicalUuid (u_userId x)) (users sampleSinglesDb)"
    by (simp_all add: eval_simps)
  note act = candidates_actionable [OF c this(1) sample_ids(5) this(2,3), of "sampleIds 1" 1000 0 86400000 _ Like]
  have "likesBetween sampleAccountId 0 86400000 sampleSinglesDb = 0" "\<not> liked sampleAccountId (ca_id c) sampleSinglesDb"
    by (simp_all add: eval_simps liked_def)
  with act [of "Some 1"] act [of "Some 0"] c show ?thesis
    by (auto simp: sampleSingles_inv keyTaken_def existsRow_def)
qed

text \<open>An identifier in upper case breaks the order of a match: the pair is compared as text before the
  database folds the case, so the match is stored the wrong way round, the later lookup by the ordered pair
  misses it, and the like behind a match can be undone.\<close>

lemma upper_case_undo_after_match:
  "\<exists>p d2 d3.
     actOnCandidate (sampleIds 2) 2000 False sampleAccountId samplePeerUpper Like
       (stepMatching sampleSinglesDb (ActStep (sampleIds 1) 1000 False samplePeerId sampleAccountId Like)) = (Inr p, d2) \<and>
     lp_matched p \<and> undoLastAction 3000 sampleAccountId d2 = (Inr (True, Some samplePeerId), d3) \<and>
     matchedPair sampleAccountId samplePeerId d3 \<and> \<not> liked sampleAccountId samplePeerId d3"
  by (simp add: eval_simps sampleIds_def matchedPair_def matchOf_def liked_def headOption_def cong: run_congs)

end
