(* ===== verification/Auth.thy ===== *)
theory Auth
  imports User Billing
begin

text \<open>
  Authentication (\<^verbatim>\<open>src/modules/auth\<close>, \<^verbatim>\<open>src/strategys\<close>): sign-up and sign-in with a verified phone,
  Kakao login, refresh tokens and their rotation, and the checks of the token strategies. What the
  services take from packages is the record \<open>authEnv\<close>: bcrypt, SHA-256, JSON web tokens, the Kakao
  endpoint, and the \<^verbatim>\<open>code\<close> property that the database driver leaves on a thrown error.
\<close>

section \<open>Parameters\<close>

text \<open>What is signed into a token; the signer adds the issuer, the audience, the secret and the
  lifetime that the configuration has for the kind of token.\<close>

datatype claims =
    AccessClaims uuid
  | RefreshClaims uuid jsstring
  | PhoneClaims jsstring uuid jsstring
  | KakaoClaims jsstring

record authEnv =
  bcryptHash :: "jsstring \<Rightarrow> jsstring"
  bcryptCompare :: "jsstring \<Rightarrow> jsstring \<Rightarrow> bool"
  sha256Hex :: "jsstring \<Rightarrow> jsstring"
  signAsync :: "claims \<Rightarrow> timestamp \<Rightarrow> jsstring"
  decodeExp :: "jsstring \<Rightarrow> int option"
  fetchKakao :: "jsstring \<Rightarrow> json option"
  numberText :: "json \<Rightarrow> jsstring"
  errorCode :: "app_error \<Rightarrow> jsstring option"

definition hashToken :: "authEnv \<Rightarrow> jsstring \<Rightarrow> jsstring" where
  "hashToken env token = sha256Hex env token"

section \<open>Input\<close>

definition EMAIL_MAX_LENGTH :: nat where
  "EMAIL_MAX_LENGTH = 255"

definition USER_NAME_MAX_LENGTH :: nat where
  "USER_NAME_MAX_LENGTH = 40"

definition PASSWORD_MIN_BYTES :: nat where
  "PASSWORD_MIN_BYTES = 8"

definition BCRYPT_PASSWORD_MAX_BYTES :: nat where
  "BCRYPT_PASSWORD_MAX_BYTES = 72"

text \<open>\<^verbatim>\<open>[^\s@.]+\<close>: the parts between the dots and the at sign.\<close>

definition emailPart :: "jsstring \<Rightarrow> bool" where
  "emailPart p \<longleftrightarrow> p \<noteq> [] \<and> list_all (\<lambda>c. \<not> isWhiteSpace c \<and> c \<noteq> 64 \<and> c \<noteq> 46) p"

definition EMAIL_PATTERN :: "jsstring \<Rightarrow> bool" where
  "EMAIL_PATTERN email \<longleftrightarrow>
     (case splitOn 64 email of
        [local, domain] \<Rightarrow> list_all emailPart (splitOn 46 local) \<and> list_all emailPart (splitOn 46 domain) \<and>
          2 \<le> length (splitOn 46 domain)
      | _ \<Rightarrow> False)"

definition isValidEmail :: "jsstring \<Rightarrow> bool" where
  "isValidEmail email \<longleftrightarrow> EMAIL_PATTERN email \<and> length (arrayFrom email) \<le> EMAIL_MAX_LENGTH"

definition normalizeEmail :: "jsstring \<Rightarrow> jsstring dbprog" where
  "normalizeEmail input =
     (let email = trim input in
      andThen (throwIf (\<not> isValidEmail email) (BadRequest ''InvalidEmail'')) (\<lambda>_. ret email))"

definition normalizeOptionalEmail :: "jsstring option \<Rightarrow> jsstring option" where
  "normalizeOptionalEmail input =
     (case input of None \<Rightarrow> None
      | Some s \<Rightarrow> let email = trim s in if isValidEmail email then Some email else None)"

definition normalizeUserName :: "jsstring \<Rightarrow> jsstring dbprog" where
  "normalizeUserName input =
     (let userName = trim input in
      andThen (throwIf (userName = [] \<or> USER_NAME_MAX_LENGTH < length (arrayFrom userName))
        (BadRequest ''InvalidUserName'')) (\<lambda>_. ret userName))"

definition normalizeOptionalUserName :: "jsstring option \<Rightarrow> jsstring option" where
  "normalizeOptionalUserName input =
     (case map_option trim input of
        None \<Rightarrow> None
      | Some userName \<Rightarrow> if userName = [] then None
          else Some (concat (take USER_NAME_MAX_LENGTH (arrayFrom userName))))"

definition validatePassword :: "jsstring \<Rightarrow> jsstring dbprog" where
  "validatePassword input =
     andThen (throwIf (byteLength input < PASSWORD_MIN_BYTES \<or> BCRYPT_PASSWORD_MAX_BYTES < byteLength input)
       (BadRequest ''InvalidPassword'')) (\<lambda>_. ret input)"

definition normalizeSigninEmail :: "jsstring \<Rightarrow> jsstring dbprog" where
  "normalizeSigninEmail input =
     (let email = trim input in
      andThen (throwIf (email = [] \<or> EMAIL_MAX_LENGTH < length (arrayFrom email))
        (Unauthorized ''AuthRequired'')) (\<lambda>_. ret email))"

section \<open>Repository\<close>

record signupAuthInput =
  si_email :: jsstring
  si_password :: jsstring
  si_userName :: jsstring
  si_gender :: gender
  si_phoneVerificationToken :: jsstring
  si_termsAccepted :: bool

record signinAuthInput =
  in_email :: jsstring
  in_password :: jsstring
  in_phoneVerificationToken :: jsstring

record kakaoProfile =
  kp_providerUserId :: jsstring
  kp_email :: "jsstring option"
  kp_userName :: "jsstring option"

record tokenPayload =
  tp_accessToken :: jsstring
  tp_refreshToken :: jsstring

definition newUser ::
  "timestamp \<Rightarrow> uuid \<Rightarrow> jsstring \<Rightarrow> jsstring option \<Rightarrow> jsstring \<Rightarrow> jsstring \<Rightarrow> gender \<Rightarrow> user" where
  "newUser now userId email phone password userName g = \<lparr>u_userId = pgUuid userId, u_email = email,
     u_phone = phone, u_password = password, u_userName = userName, u_gender = g, u_intro = [],
     u_birthDate = None, u_region = None, u_interestedGender = None, u_profileCompletedAt = None,
     u_hiddenAt = None, u_deletionScheduledAt = None, u_deletionLeaseExpiresAt = None,
     u_deletionAttempts = 0, u_deletedAt = None, u_createdAt = now, u_updatedAt = now\<rparr>"

text \<open>The primary key, the email and, where there is one, the phone are unique.\<close>

definition phoneTaken :: "jsstring option \<Rightarrow> user table \<Rightarrow> bool" where
  "phoneTaken phone t \<longleftrightarrow> phone \<noteq> None \<and> existsRow (\<lambda>u. u_phone u = phone) t"

definition insertUser :: "user \<Rightarrow> unit dbprog" where
  "insertUser u =
     andThen (query (\<lambda>d. keyTaken u_userId (u_userId u) (users d) \<or> keyTaken u_email (u_email u) (users d) \<or>
       phoneTaken (u_phone u) (users d))) (\<lambda>taken.
     andThen (throwIf taken (PgError UniqueViolation)) (\<lambda>_.
     modify (\<lambda>d. d\<lparr>users := insertRow u (users d)\<rparr>)))"

definition phoneTokenLive :: "timestamp \<Rightarrow> jsstring \<Rightarrow> phoneVerificationToken \<Rightarrow> bool" where
  "phoneTokenLive now h t \<longleftrightarrow> pt_tokenHash t = h \<and> pt_usedAt t = None \<and> now < pt_expiresAt t"

definition kakaoTokenLive :: "timestamp \<Rightarrow> jsstring \<Rightarrow> kakaoPhoneVerificationToken \<Rightarrow> bool" where
  "kakaoTokenLive now h t \<longleftrightarrow> kt_tokenHash t = h \<and> kt_usedAt t = None \<and> now < kt_expiresAt t"

definition usePhoneToken :: "timestamp \<Rightarrow> phoneVerificationToken \<Rightarrow> phoneVerificationToken" where
  "usePhoneToken now t = t\<lparr>pt_usedAt := Some now\<rparr>"

definition useKakaoToken :: "timestamp \<Rightarrow> kakaoPhoneVerificationToken \<Rightarrow> kakaoPhoneVerificationToken" where
  "useKakaoToken now t = t\<lparr>kt_usedAt := Some now\<rparr>"

definition repoConsumePhoneVerificationToken ::
  "authEnv \<Rightarrow> timestamp \<Rightarrow> jsstring \<Rightarrow> phoneVerificationToken option dbprog" where
  "repoConsumePhoneVerificationToken env now token =
     (let P = phoneTokenLive now (hashToken env token) in
      andThen (query (\<lambda>d. headOption (returning P (usePhoneToken now) (phoneVerificationTokens d)))) (\<lambda>saved.
      andThen (modify (\<lambda>d. d\<lparr>phoneVerificationTokens :=
        updateWhere P (usePhoneToken now) (phoneVerificationTokens d)\<rparr>)) (\<lambda>_.
      ret saved)))"

definition consumeKakaoPhoneVerificationToken ::
  "authEnv \<Rightarrow> timestamp \<Rightarrow> jsstring \<Rightarrow> kakaoPhoneVerificationToken option dbprog" where
  "consumeKakaoPhoneVerificationToken env now token =
     (let P = kakaoTokenLive now (hashToken env token) in
      andThen (query (\<lambda>d. headOption (returning P (useKakaoToken now) (kakaoPhoneVerificationTokens d)))) (\<lambda>saved.
      andThen (modify (\<lambda>d. d\<lparr>kakaoPhoneVerificationTokens :=
        updateWhere P (useKakaoToken now) (kakaoPhoneVerificationTokens d)\<rparr>)) (\<lambda>_.
      ret saved)))"

definition repoFindPhoneVerificationToken ::
  "authEnv \<Rightarrow> timestamp \<Rightarrow> jsstring \<Rightarrow> db \<Rightarrow> phoneVerificationToken option" where
  "repoFindPhoneVerificationToken env now token d =
     findFirst (phoneTokenLive now (hashToken env token)) (phoneVerificationTokens d)"

definition findKakaoPhoneVerificationToken ::
  "authEnv \<Rightarrow> timestamp \<Rightarrow> jsstring \<Rightarrow> db \<Rightarrow> kakaoPhoneVerificationToken option" where
  "findKakaoPhoneVerificationToken env now token d =
     findFirst (kakaoTokenLive now (hashToken env token)) (kakaoPhoneVerificationTokens d)"

definition signupWithPhoneVerificationToken ::
  "authEnv \<Rightarrow> timestamp \<Rightarrow> uuid \<Rightarrow> jsstring \<Rightarrow> jsstring \<Rightarrow> jsstring \<Rightarrow> gender \<Rightarrow> jsstring \<Rightarrow> user option dbprog" where
  "signupWithPhoneVerificationToken env now userId email password userName g token = transaction (
     andThen (repoConsumePhoneVerificationToken env now token) (\<lambda>t.
     case t of
       None \<Rightarrow> ret None
     | Some phoneVerificationToken \<Rightarrow>
         let u = newUser now userId email (Some (pt_phoneE164 phoneVerificationToken)) password userName g in
         andThen (insertUser u) (\<lambda>_. ret (Some u))))"

definition repoSignin :: "jsstring \<Rightarrow> db \<Rightarrow> user option" where
  "repoSignin email d = findFirst (\<lambda>u. u_email u = email) (users d)"

definition repoSaveRefreshToken ::
  "uuid \<Rightarrow> timestamp \<Rightarrow> uuid \<Rightarrow> jsstring \<Rightarrow> jsstring \<Rightarrow> timestamp \<Rightarrow> unit dbprog" where
  "repoSaveRefreshToken i now userId deviceId token tokenExp =
     (let P = (\<lambda>t. rt_userId t = pgUuid userId \<and> rt_deviceId t = deviceId) in
      andThen (query (\<lambda>d. (existsRow P (refreshTokens d), keyTaken rt_id i (refreshTokens d),
        userExists (pgUuid userId) d))) (\<lambda>(exists, taken, known).
      if exists
      then modify (\<lambda>d. d\<lparr>refreshTokens := updateWhere P (\<lambda>t. t\<lparr>rt_refreshToken := token,
        rt_refreshTokenExp := tokenExp, rt_updatedAt := now\<rparr>) (refreshTokens d)\<rparr>)
      else
        andThen (throwIf taken (PgError UniqueViolation)) (\<lambda>_.
        andThen (throwIf (\<not> known) (PgError ForeignKeyViolation)) (\<lambda>_.
        modify (\<lambda>d. d\<lparr>refreshTokens := insertRow \<lparr>rt_id = i, rt_userId = pgUuid userId, rt_deviceId = deviceId,
          rt_refreshToken = token, rt_refreshTokenExp = tokenExp, rt_createdAt = now, rt_updatedAt = now\<rparr>
          (refreshTokens d)\<rparr>)))))"

definition rotateRefreshToken ::
  "timestamp \<Rightarrow> uuid \<Rightarrow> jsstring \<Rightarrow> jsstring \<Rightarrow> jsstring \<Rightarrow> timestamp \<Rightarrow> bool dbprog" where
  "rotateRefreshToken now userId deviceId expected token tokenExp = transaction (
     let P = (\<lambda>t. rt_userId t = pgUuid userId \<and> rt_deviceId t = deviceId \<and> rt_refreshToken t = expected \<and>
            now < rt_refreshTokenExp t) in
     andThen (query (userExists (pgUuid userId))) (\<lambda>known.
     if \<not> known then ret False
     else
       andThen (query (\<lambda>d. existsRow P (refreshTokens d))) (\<lambda>rotated.
       andThen (modify (\<lambda>d. d\<lparr>refreshTokens := updateWhere P (\<lambda>t. t\<lparr>rt_refreshToken := token,
         rt_refreshTokenExp := tokenExp, rt_updatedAt := now\<rparr>) (refreshTokens d)\<rparr>)) (\<lambda>_.
       ret rotated))))"

definition findRefreshToken :: "jsstring \<Rightarrow> jsstring \<Rightarrow> db \<Rightarrow> refreshToken option" where
  "findRefreshToken userId deviceId d =
     findFirst (\<lambda>t. rt_userId t = pgUuid userId \<and> rt_deviceId t = deviceId) (refreshTokens d)"

definition deleteRefreshToken :: "jsstring \<Rightarrow> jsstring \<Rightarrow> unit dbprog" where
  "deleteRefreshToken userId deviceId = modify (\<lambda>d. d\<lparr>refreshTokens :=
     deleteWhere (\<lambda>t. rt_userId t = pgUuid userId \<and> rt_deviceId t = deviceId) (refreshTokens d)\<rparr>)"

definition findUserByIdentity :: "jsstring \<Rightarrow> jsstring \<Rightarrow> db \<Rightarrow> user option" where
  "findUserByIdentity provider providerUserId d =
     Option.bind (findFirst (\<lambda>x. ai_provider x = provider \<and> ai_providerUserId x = providerUserId) (authIdentities d))
       (\<lambda>x. findUserRow (ai_userId x) d)"

definition repoCreateKakaoPhoneVerificationToken ::
  "authEnv \<Rightarrow> timestamp \<Rightarrow> jsstring \<Rightarrow> uuid option \<Rightarrow> jsstring \<Rightarrow> jsstring option \<Rightarrow> timestamp \<Rightarrow> unit dbprog" where
  "repoCreateKakaoPhoneVerificationToken env now token userId providerUserId email expiresAt =
     andThen (query (\<lambda>d. (keyTaken kt_tokenHash (hashToken env token) (kakaoPhoneVerificationTokens d),
       case userId of None \<Rightarrow> True | Some i \<Rightarrow> userExists (pgUuid i) d))) (\<lambda>(taken, known).
     andThen (throwIf taken (PgError UniqueViolation)) (\<lambda>_.
     andThen (throwIf (\<not> known) (PgError ForeignKeyViolation)) (\<lambda>_.
     modify (\<lambda>d. d\<lparr>kakaoPhoneVerificationTokens := insertRow \<lparr>kt_tokenHash = hashToken env token,
       kt_userId = map_option pgUuid userId, kt_providerUserId = providerUserId, kt_email = email,
       kt_expiresAt = expiresAt, kt_usedAt = None, kt_createdAt = now\<rparr> (kakaoPhoneVerificationTokens d)\<rparr>))))"

text \<open>Setting a phone fails when another user has it.\<close>

definition setPhone :: "timestamp \<Rightarrow> jsstring \<Rightarrow> jsstring \<Rightarrow> user option dbprog" where
  "setPhone now userId phone =
     (let P = (\<lambda>u. u_userId u = pgUuid userId);
          f = (\<lambda>u. u\<lparr>u_phone := Some phone, u_updatedAt := now\<rparr>) in
      andThen (query (\<lambda>d. (headOption (returning P f (users d)),
        existsRow P (users d) \<and> existsRow (\<lambda>u. \<not> P u \<and> u_phone u = Some phone) (users d)))) (\<lambda>(user, taken).
      andThen (throwIf taken (PgError UniqueViolation)) (\<lambda>_.
      andThen (modify (\<lambda>d. d\<lparr>users := updateWhere P f (users d)\<rparr>)) (\<lambda>_.
      ret user))))"

definition attachPhone :: "timestamp \<Rightarrow> jsstring \<Rightarrow> jsstring \<Rightarrow> user option dbprog" where
  "attachPhone now userId phone = setPhone now userId phone"

text \<open>Both tokens are consumed before either is tested.\<close>

definition consumeBothTokens :: "authEnv \<Rightarrow> timestamp \<Rightarrow> jsstring \<Rightarrow> jsstring \<Rightarrow> unit dbprog" where
  "consumeBothTokens env now phoneToken kakaoToken =
     andThen (repoConsumePhoneVerificationToken env now phoneToken) (\<lambda>p.
     andThen (consumeKakaoPhoneVerificationToken env now kakaoToken) (\<lambda>k.
     andThen (throwIf (p = None) PhoneVerificationTokenConsumeFailedError) (\<lambda>_.
     throwIf (k = None) KakaoPhoneVerificationTokenConsumeFailedError)))"

definition attachPhoneWithKakaoPhoneVerificationTokens ::
  "authEnv \<Rightarrow> timestamp \<Rightarrow> jsstring \<Rightarrow> jsstring \<Rightarrow> jsstring \<Rightarrow> jsstring \<Rightarrow> user option dbprog" where
  "attachPhoneWithKakaoPhoneVerificationTokens env now userId phone phoneToken kakaoToken = transaction (
     andThen (consumeBothTokens env now phoneToken kakaoToken) (\<lambda>_. setPhone now userId phone))"

definition consumeKakaoPhoneVerificationTokenForUser ::
  "authEnv \<Rightarrow> timestamp \<Rightarrow> jsstring \<Rightarrow> jsstring \<Rightarrow> user option dbprog" where
  "consumeKakaoPhoneVerificationTokenForUser env now userId token = transaction (
     andThen (consumeKakaoPhoneVerificationToken env now token) (\<lambda>k.
     andThen (throwIf (k = None) KakaoPhoneVerificationTokenConsumeFailedError) (\<lambda>_.
     query (findUserRow userId))))"

definition insertIdentity :: "uuid \<Rightarrow> timestamp \<Rightarrow> uuid \<Rightarrow> jsstring \<Rightarrow> unit dbprog" where
  "insertIdentity i now userId providerUserId =
     andThen (query (\<lambda>d. (keyTaken ai_id i (authIdentities d) \<or>
         keyTaken (\<lambda>x. (ai_provider x, ai_providerUserId x)) (js ''kakao'', providerUserId) (authIdentities d),
       userExists (pgUuid userId) d))) (\<lambda>(taken, known).
     andThen (throwIf taken (PgError UniqueViolation)) (\<lambda>_.
     andThen (throwIf (\<not> known) (PgError ForeignKeyViolation)) (\<lambda>_.
     modify (\<lambda>d. d\<lparr>authIdentities := insertRow \<lparr>ai_id = i, ai_userId = pgUuid userId, ai_provider = js ''kakao'',
       ai_providerUserId = providerUserId, ai_createdAt = now\<rparr> (authIdentities d)\<rparr>))))"

definition createKakaoUserWithToken ::
  "authEnv \<Rightarrow> uuid \<Rightarrow> timestamp \<Rightarrow> uuid \<Rightarrow> jsstring \<Rightarrow> jsstring \<Rightarrow> jsstring \<Rightarrow> jsstring \<Rightarrow> gender \<Rightarrow> jsstring \<Rightarrow>
   user dbprog" where
  "createKakaoUserWithToken env i now userId providerUserId email userName password g token = transaction (
     andThen (consumeKakaoPhoneVerificationToken env now token) (\<lambda>k.
     andThen (throwIf (k = None) KakaoPhoneVerificationTokenConsumeFailedError) (\<lambda>_.
     let u = newUser now userId email None password userName g in
     andThen (insertUser u) (\<lambda>_.
     andThen (insertIdentity i now userId providerUserId) (\<lambda>_.
     ret u)))))"

definition createKakaoPhoneUser ::
  "uuid \<Rightarrow> timestamp \<Rightarrow> uuid \<Rightarrow> jsstring \<Rightarrow> jsstring \<Rightarrow> jsstring \<Rightarrow> jsstring \<Rightarrow> gender \<Rightarrow> user dbprog" where
  "createKakaoPhoneUser i now userId providerUserId email password phone g = transaction (
     let name = hd (splitOn 64 email);
         u = newUser now userId email (Some phone) password (if name = [] then js ''kakao'' else name) g in
     andThen (insertUser u) (\<lambda>_.
     andThen (insertIdentity i now userId providerUserId) (\<lambda>_.
     ret u)))"

definition createKakaoPhoneUserWithTokens ::
  "authEnv \<Rightarrow> uuid \<Rightarrow> timestamp \<Rightarrow> uuid \<Rightarrow> jsstring \<Rightarrow> jsstring \<Rightarrow> jsstring \<Rightarrow> jsstring \<Rightarrow> jsstring \<Rightarrow> gender \<Rightarrow>
   jsstring \<Rightarrow> jsstring \<Rightarrow> user dbprog" where
  "createKakaoPhoneUserWithTokens env i now userId providerUserId email userName password phone g
     phoneToken kakaoToken = transaction (
     andThen (consumeBothTokens env now phoneToken kakaoToken) (\<lambda>_.
     let u = newUser now userId email (Some phone) password userName g in
     andThen (insertUser u) (\<lambda>_.
     andThen (insertIdentity i now userId providerUserId) (\<lambda>_.
     ret u))))"

section \<open>Service\<close>

text \<open>Only errors of the two marker classes and unique violations are translated; the transaction has
  been rolled back by then.\<close>

definition mapTokenConsumeError :: "'a dbprog \<Rightarrow> 'a dbprog" where
  "mapTokenConsumeError operation = tryCatch operation (\<lambda>e.
     if e = PhoneVerificationTokenConsumeFailedError then throw (Unauthorized ''InvalidPhoneVerificationToken'')
     else if e = KakaoPhoneVerificationTokenConsumeFailedError
     then throw (Unauthorized ''InvalidKakaoPhoneVerificationToken'')
     else throw e)"

definition isUniqueViolation :: "authEnv \<Rightarrow> app_error \<Rightarrow> bool" where
  "isUniqueViolation env e \<longleftrightarrow> errorCode env e = Some (js ''23505'')"

definition mapDuplicateUserError :: "authEnv \<Rightarrow> 'a dbprog \<Rightarrow> 'a dbprog" where
  "mapDuplicateUserError env operation = tryCatch operation (\<lambda>e.
     if isUniqueViolation env e then throw (BadRequest ''DuplicateUser'') else throw e)"

definition createAccessToken :: "authEnv \<Rightarrow> timestamp \<Rightarrow> user \<Rightarrow> jsstring" where
  "createAccessToken env now user = signAsync env (AccessClaims (u_userId user)) now"

definition createRefreshToken :: "authEnv \<Rightarrow> timestamp \<Rightarrow> user \<Rightarrow> jsstring \<Rightarrow> jsstring" where
  "createRefreshToken env now user deviceId = signAsync env (RefreshClaims (u_userId user) deviceId) now"

definition prepareRefreshToken :: "authEnv \<Rightarrow> jsstring \<Rightarrow> (jsstring \<times> timestamp) dbprog" where
  "prepareRefreshToken env token =
     (case decodeExp env token of
        None \<Rightarrow> throw (Unauthorized ''RefreshTokenExpUndefined'')
      | Some e \<Rightarrow> if e = 0 then throw (Unauthorized ''RefreshTokenExpUndefined'')
          else ret (bcryptHash env token, e * 1000))"

definition saveRefreshToken :: "authEnv \<Rightarrow> uuid \<Rightarrow> timestamp \<Rightarrow> uuid \<Rightarrow> jsstring \<Rightarrow> jsstring \<Rightarrow> unit dbprog" where
  "saveRefreshToken env i now userId deviceId token =
     andThen (prepareRefreshToken env token) (\<lambda>(hashed, tokenExp).
     repoSaveRefreshToken i now userId deviceId hashed tokenExp)"

definition issueTokens :: "authEnv \<Rightarrow> uuid \<Rightarrow> timestamp \<Rightarrow> user \<Rightarrow> jsstring \<Rightarrow> tokenPayload dbprog" where
  "issueTokens env i now user deviceId =
     (let accessToken = createAccessToken env now user;
          token = createRefreshToken env now user deviceId in
      andThen (saveRefreshToken env i now (u_userId user) deviceId token) (\<lambda>_.
      ret \<lparr>tp_accessToken = accessToken, tp_refreshToken = token\<rparr>))"

definition issueTokensForUser :: "authEnv \<Rightarrow> uuid \<Rightarrow> timestamp \<Rightarrow> user \<Rightarrow> jsstring \<Rightarrow> tokenPayload dbprog" where
  "issueTokensForUser env i now user deviceId = issueTokens env i now user deviceId"

definition findPhoneVerificationToken :: "authEnv \<Rightarrow> timestamp \<Rightarrow> jsstring \<Rightarrow> phoneVerificationToken dbprog" where
  "findPhoneVerificationToken env now token =
     andThen (query (repoFindPhoneVerificationToken env now token)) (\<lambda>t.
     case t of None \<Rightarrow> throw (Unauthorized ''InvalidPhoneVerificationToken'') | Some row \<Rightarrow> ret row)"

definition consumePhoneVerificationToken :: "authEnv \<Rightarrow> timestamp \<Rightarrow> jsstring \<Rightarrow> unit dbprog" where
  "consumePhoneVerificationToken env now token =
     andThen (repoConsumePhoneVerificationToken env now token) (\<lambda>t.
     throwIf (t = None) (Unauthorized ''InvalidPhoneVerificationToken''))"

text \<open>The generated values of a request: the identifier of a new user, of its identity and of the
  refresh token row, and the random password of a Kakao account.\<close>

definition signup :: "authEnv \<Rightarrow> (nat \<Rightarrow> uuid) \<Rightarrow> timestamp \<Rightarrow> signupAuthInput \<Rightarrow> jsstring \<Rightarrow> tokenPayload dbprog" where
  "signup env ids now input deviceId =
     andThen (throwIf (\<not> si_termsAccepted input) (BadRequest ''TermsNotAccepted'')) (\<lambda>_.
     andThen (normalizeEmail (si_email input)) (\<lambda>email.
     andThen (normalizeUserName (si_userName input)) (\<lambda>userName.
     andThen (validatePassword (si_password input)) (\<lambda>password.
     andThen (findPhoneVerificationToken env now (si_phoneVerificationToken input)) (\<lambda>_.
     andThen (mapDuplicateUserError env (signupWithPhoneVerificationToken env now (ids 0) email
       (bcryptHash env password) userName (si_gender input) (si_phoneVerificationToken input))) (\<lambda>user.
     case user of
       None \<Rightarrow> throw (Unauthorized ''InvalidPhoneVerificationToken'')
     | Some u \<Rightarrow> issueTokens env (ids 2) now u deviceId))))))"

definition signin :: "authEnv \<Rightarrow> (nat \<Rightarrow> uuid) \<Rightarrow> timestamp \<Rightarrow> signinAuthInput \<Rightarrow> jsstring \<Rightarrow> tokenPayload dbprog" where
  "signin env ids now input deviceId =
     andThen (normalizeSigninEmail (in_email input)) (\<lambda>email.
     andThen (query (\<lambda>d. case repoSignin email d of
         Some u \<Rightarrow> Some u
       | None \<Rightarrow> if email \<noteq> in_email input then repoSignin (in_email input) d else None)) (\<lambda>user.
     case user of
       None \<Rightarrow> throw (Unauthorized ''AuthRequired'')
     | Some u \<Rightarrow>
         andThen (throwIf (\<not> bcryptCompare env (in_password input) (u_password u)) (Unauthorized ''AuthRequired'')) (\<lambda>_.
         andThen (findPhoneVerificationToken env now (in_phoneVerificationToken input)) (\<lambda>t.
         andThen (throwIf (u_phone u \<noteq> Some (pt_phoneE164 t)) (Unauthorized ''PhoneVerificationRequired'')) (\<lambda>_.
         andThen (consumePhoneVerificationToken env now (in_phoneVerificationToken input)) (\<lambda>_.
         andThen (restoreIfWithinGrace now (u_userId u)) (\<lambda>_.
         issueTokens env (ids 2) now u deviceId)))))))"

definition createKakaoPhoneVerificationToken ::
  "authEnv \<Rightarrow> timestamp \<Rightarrow> kakaoProfile \<Rightarrow> uuid option \<Rightarrow> jsstring dbprog" where
  "createKakaoPhoneVerificationToken env now prof userId =
     (let token = signAsync env (KakaoClaims (kp_providerUserId prof)) now in
      andThen (repoCreateKakaoPhoneVerificationToken env now token userId (kp_providerUserId prof)
        (normalizeOptionalEmail (kp_email prof)) (now + 15 * 60 * 1000)) (\<lambda>_.
      ret token))"

definition loginWithKakao :: "authEnv \<Rightarrow> timestamp \<Rightarrow> kakaoProfile \<Rightarrow> jsstring dbprog" where
  "loginWithKakao env now prof =
     andThen (query (findUserByIdentity (js ''kakao'') (kp_providerUserId prof))) (\<lambda>foundUser.
     createKakaoPhoneVerificationToken env now prof (map_option u_userId foundUser))"

definition jsonField :: "jsstring \<Rightarrow> json \<Rightarrow> json option" where
  "jsonField k v = (case v of JObject fs \<Rightarrow> map_of fs k | _ \<Rightarrow> None)"

definition jsonText :: "json option \<Rightarrow> jsstring option" where
  "jsonText v = (case v of Some (JString s) \<Rightarrow> Some s | _ \<Rightarrow> None)"

text \<open>The answer of the endpoint: \<open>None\<close> is a failed request, a status that is not successful or a
  body that is not JSON.\<close>

definition getKakaoProfile :: "authEnv \<Rightarrow> jsstring \<Rightarrow> kakaoProfile dbprog" where
  "getKakaoProfile env accessToken =
     andThen (throwIf (trim accessToken = []) (Unauthorized ''AuthRequired'')) (\<lambda>_.
     case fetchKakao env accessToken of
       None \<Rightarrow> throw (Unauthorized ''AuthRequired'')
     | Some value \<Rightarrow>
         (case jsonField (js ''id'') value of
            None \<Rightarrow> throw (Unauthorized ''AuthRequired'')
          | Some i \<Rightarrow>
              let providerUserId = (case i of JString s \<Rightarrow> s | JInt n \<Rightarrow> numberText env i | JFraction \<Rightarrow> numberText env i
                    | _ \<Rightarrow> [])
              in andThen (throwIf (providerUserId = []) (Unauthorized ''AuthRequired'')) (\<lambda>_.
                 ret \<lparr>kp_providerUserId = providerUserId,
                   kp_email = jsonText (Option.bind (jsonField (js ''kakao_account'') value) (jsonField (js ''email''))),
                   kp_userName = normalizeOptionalUserName
                     (jsonText (Option.bind (jsonField (js ''properties'') value) (jsonField (js ''nickname''))))\<rparr>)))"

datatype kakaoLoginPayload = KakaoLoginSuccess tokenPayload | KakaoRequiresPhone jsstring "jsstring option"

definition loginWithKakaoAccessToken ::
  "authEnv \<Rightarrow> (nat \<Rightarrow> uuid) \<Rightarrow> timestamp \<Rightarrow> jsstring \<Rightarrow> jsstring \<Rightarrow> kakaoLoginPayload dbprog" where
  "loginWithKakaoAccessToken env ids now accessToken deviceId =
     andThen (getKakaoProfile env accessToken) (\<lambda>prof.
     andThen (query (findUserByIdentity (js ''kakao'') (kp_providerUserId prof))) (\<lambda>foundUser.
     case foundUser of
       Some u \<Rightarrow>
         if truthy (u_phone u)
         then
           andThen (restoreIfWithinGrace now (u_userId u)) (\<lambda>_.
           andThen (issueTokens env (ids 2) now u deviceId) (\<lambda>session.
           ret (KakaoLoginSuccess session)))
         else
           andThen (createKakaoPhoneVerificationToken env now prof (Some (u_userId u))) (\<lambda>token.
           ret (KakaoRequiresPhone token
             (if u_userName u \<noteq> [] then Some (u_userName u)
              else if truthy (kp_userName prof) then kp_userName prof else None)))
     | None \<Rightarrow>
         andThen (createKakaoPhoneVerificationToken env now prof None) (\<lambda>token.
         ret (KakaoRequiresPhone token (if truthy (kp_userName prof) then kp_userName prof else None)))))"

record completeKakaoInput =
  ck_phoneVerificationToken :: "jsstring option"
  ck_kakaoPhoneVerificationToken :: jsstring
  ck_userName :: jsstring
  ck_gender :: gender
  ck_termsAccepted :: bool

definition kakaoEmail :: "authEnv \<Rightarrow> kakaoPhoneVerificationToken \<Rightarrow> jsstring dbprog" where
  "kakaoEmail env k = normalizeEmail
     (case kt_email k of Some e \<Rightarrow> e
      | None \<Rightarrow> js ''kakao_'' @ take 32 (hashToken env (kt_providerUserId k)) @ js ''@kakao.local'')"

text \<open>Without a phone token: the Kakao token signs its user in or creates one.\<close>

definition completeKakaoOnly ::
  "authEnv \<Rightarrow> (nat \<Rightarrow> uuid) \<Rightarrow> timestamp \<Rightarrow> completeKakaoInput \<Rightarrow> jsstring \<Rightarrow> tokenPayload dbprog" where
  "completeKakaoOnly env ids now input deviceId =
     andThen (query (findKakaoPhoneVerificationToken env now (ck_kakaoPhoneVerificationToken input))) (\<lambda>found.
     case found of
       None \<Rightarrow> throw (Unauthorized ''InvalidKakaoPhoneVerificationToken'')
     | Some k \<Rightarrow>
         (case kt_userId k of
            Some userId \<Rightarrow>
              andThen (mapTokenConsumeError (consumeKakaoPhoneVerificationTokenForUser env now userId
                (ck_kakaoPhoneVerificationToken input))) (\<lambda>user.
              case user of
                None \<Rightarrow> throw (Unauthorized ''InvalidKakaoPhoneVerificationToken'')
              | Some u \<Rightarrow>
                  andThen (restoreIfWithinGrace now (u_userId u)) (\<lambda>_.
                  issueTokens env (ids 2) now u deviceId))
          | None \<Rightarrow>
              andThen (kakaoEmail env k) (\<lambda>email.
              andThen (normalizeUserName (ck_userName input)) (\<lambda>userName.
              andThen (mapDuplicateUserError env (mapTokenConsumeError (createKakaoUserWithToken env (ids 1) now
                (ids 0) (kt_providerUserId k) email userName (bcryptHash env (ids 3)) (ck_gender input)
                (ck_kakaoPhoneVerificationToken input)))) (\<lambda>u.
              issueTokens env (ids 2) now u deviceId)))))"

text \<open>With a phone token: the phone is attached to the user of the Kakao token, or a user is created.\<close>

definition completeKakaoWithPhone ::
  "authEnv \<Rightarrow> (nat \<Rightarrow> uuid) \<Rightarrow> timestamp \<Rightarrow> completeKakaoInput \<Rightarrow> jsstring \<Rightarrow> jsstring \<Rightarrow> tokenPayload dbprog" where
  "completeKakaoWithPhone env ids now input phoneToken deviceId =
     andThen (findPhoneVerificationToken env now phoneToken) (\<lambda>p.
     andThen (query (findKakaoPhoneVerificationToken env now (ck_kakaoPhoneVerificationToken input))) (\<lambda>found.
     case found of
       None \<Rightarrow> throw (Unauthorized ''InvalidKakaoPhoneVerificationToken'')
     | Some k \<Rightarrow>
         (case kt_userId k of
            Some userId \<Rightarrow>
              andThen (query (findUserRow userId)) (\<lambda>user.
              case user of
                None \<Rightarrow> throw (Unauthorized ''InvalidKakaoPhoneVerificationToken'')
              | Some u \<Rightarrow>
                  andThen (throwIf (truthy (u_phone u) \<and> u_phone u \<noteq> Some (pt_phoneE164 p))
                    (Unauthorized ''PhoneVerificationRequired'')) (\<lambda>_.
                  andThen (mapDuplicateUserError env (mapTokenConsumeError
                    (attachPhoneWithKakaoPhoneVerificationTokens env now (u_userId u) (pt_phoneE164 p) phoneToken
                      (ck_kakaoPhoneVerificationToken input)))) (\<lambda>updated.
                  case updated of
                    None \<Rightarrow> throw (Unauthorized ''InvalidKakaoPhoneVerificationToken'')
                  | Some u' \<Rightarrow>
                      andThen (restoreIfWithinGrace now (u_userId u')) (\<lambda>_.
                      issueTokens env (ids 2) now u' deviceId))))
          | None \<Rightarrow>
              andThen (kakaoEmail env k) (\<lambda>email.
              andThen (normalizeUserName (ck_userName input)) (\<lambda>userName.
              andThen (mapDuplicateUserError env (mapTokenConsumeError (createKakaoPhoneUserWithTokens env (ids 1) now
                (ids 0) (kt_providerUserId k) email userName (bcryptHash env (ids 3)) (pt_phoneE164 p) (ck_gender input)
                phoneToken (ck_kakaoPhoneVerificationToken input)))) (\<lambda>u.
              issueTokens env (ids 2) now u deviceId))))))"

definition completeKakaoPhoneSignup ::
  "authEnv \<Rightarrow> (nat \<Rightarrow> uuid) \<Rightarrow> timestamp \<Rightarrow> completeKakaoInput \<Rightarrow> jsstring \<Rightarrow> tokenPayload dbprog" where
  "completeKakaoPhoneSignup env ids now input deviceId =
     andThen (throwIf (\<not> ck_termsAccepted input) (BadRequest ''TermsNotAccepted'')) (\<lambda>_.
     if truthy (ck_phoneVerificationToken input)
     then completeKakaoWithPhone env ids now input (the (ck_phoneVerificationToken input)) deviceId
     else completeKakaoOnly env ids now input deviceId)"

definition refresh :: "authEnv \<Rightarrow> timestamp \<Rightarrow> refreshToken \<Rightarrow> tokenPayload dbprog" where
  "refresh env now validated =
     andThen (findUser (rt_userId validated)) (\<lambda>user.
     let accessToken = createAccessToken env now user;
         next = createRefreshToken env now user (rt_deviceId validated) in
     andThen (prepareRefreshToken env next) (\<lambda>(hashed, tokenExp).
     andThen (rotateRefreshToken now (rt_userId validated) (rt_deviceId validated) (rt_refreshToken validated)
       hashed tokenExp) (\<lambda>rotated.
     andThen (throwIf (\<not> rotated) (Unauthorized ''AuthRequired'')) (\<lambda>_.
     ret \<lparr>tp_accessToken = accessToken, tp_refreshToken = next\<rparr>))))"

definition logout :: "jsstring \<Rightarrow> jsstring \<Rightarrow> bool dbprog" where
  "logout userId deviceId = andThen (deleteRefreshToken userId deviceId) (\<lambda>_. ret True)"

definition validateUserRefreshToken ::
  "authEnv \<Rightarrow> timestamp \<Rightarrow> jsstring \<Rightarrow> jsstring \<Rightarrow> jsstring \<Rightarrow> db \<Rightarrow> refreshToken option" where
  "validateUserRefreshToken env now userId deviceId token d =
     (case findRefreshToken userId deviceId d of
        None \<Rightarrow> None
      | Some saved \<Rightarrow>
          if rt_refreshTokenExp saved \<le> now then None
          else if \<not> bcryptCompare env token (rt_refreshToken saved) then None
          else Some saved)"

section \<open>Token strategies\<close>

text \<open>The strategies run after the package has checked the signature, the issuer, the audience and
  the expiration of the token, on its payload.\<close>

definition isAccessTokenClaims :: "json \<Rightarrow> bool" where
  "isAccessTokenClaims v \<longleftrightarrow> jsonField (js ''tokenType'') v = Some (JString (js ''access'')) \<and>
     truthy (jsonText (jsonField (js ''userId'') v))"

definition isRefreshTokenClaims :: "json \<Rightarrow> bool" where
  "isRefreshTokenClaims v \<longleftrightarrow> jsonField (js ''tokenType'') v = Some (JString (js ''refresh'')) \<and>
     truthy (jsonText (jsonField (js ''userId'') v)) \<and> truthy (jsonText (jsonField (js ''deviceId'') v))"

definition accessTokenValidate :: "json \<Rightarrow> json dbprog" where
  "accessTokenValidate payload =
     andThen (throwIf (\<not> isAccessTokenClaims payload) (Unauthorized ''Unauthorized'')) (\<lambda>_.
     andThen (query (repoFindUser (the (jsonText (jsonField (js ''userId'') payload))))) (\<lambda>user.
     case user of
       None \<Rightarrow> throw (Unauthorized ''Unauthorized'')
     | Some u \<Rightarrow>
         andThen (throwIf (u_hiddenAt u \<noteq> None \<or> u_deletedAt u \<noteq> None) (Unauthorized ''Unauthorized'')) (\<lambda>_.
         ret payload)))"

text \<open>\<^verbatim>\<open>/^Bearer\s+(\S+)$/i\<close> on the trimmed header.\<close>

definition matchBearer :: "jsstring \<Rightarrow> jsstring option" where
  "matchBearer h =
     (let rest = drop 6 h; token = dropWhile isWhiteSpace rest in
      if map asciiLower (take 6 h) = js ''bearer'' \<and> rest \<noteq> token \<and> token \<noteq> [] \<and>
         list_all (\<lambda>c. \<not> isWhiteSpace c) token
      then Some token else None)"

definition refreshTokenFromRequest :: "jsstring option \<Rightarrow> jsstring option \<Rightarrow> jsstring option" where
  "refreshTokenFromRequest authorization cookie =
     (case Option.bind authorization (\<lambda>h. matchBearer (trim h)) of Some t \<Rightarrow> Some t | None \<Rightarrow> cookie)"

definition refreshTokenValidate ::
  "authEnv \<Rightarrow> timestamp \<Rightarrow> jsstring option \<Rightarrow> json \<Rightarrow> (json \<times> refreshToken) dbprog" where
  "refreshTokenValidate env now requestToken payload =
     andThen (throwIf (\<not> truthy requestToken \<or> \<not> isRefreshTokenClaims payload) (Unauthorized ''RefreshTokenUndefined'')) (\<lambda>_.
     andThen (query (validateUserRefreshToken env now (the (jsonText (jsonField (js ''userId'') payload)))
       (the (jsonText (jsonField (js ''deviceId'') payload))) (the requestToken))) (\<lambda>validated.
     case validated of
       None \<Rightarrow> throw (Unauthorized ''RefreshTokenWrong'')
     | Some t \<Rightarrow> ret (payload, t)))"

text \<open>The state check of the Kakao guard on the callback: \<open>None\<close> is a query parameter that is missing
  or not a string.\<close>

definition kakaoCallbackState :: "jsstring option \<Rightarrow> jsstring option \<Rightarrow> jsstring option \<Rightarrow> jsstring dbprog" where
  "kakaoCallbackState code state savedState =
     andThen (throwIf (code = None \<or> state = None \<or> \<not> truthy savedState \<or> state \<noteq> savedState)
       (Unauthorized ''InvalidOauthState'')) (\<lambda>_. ret (the state))"

text \<open>The device header: \<open>isUuid4\<close> stands for the tests of the package \<^verbatim>\<open>uuid\<close>.\<close>

definition deviceIdFromRequest :: "(jsstring \<Rightarrow> bool) \<Rightarrow> jsstring option \<Rightarrow> jsstring dbprog" where
  "deviceIdFromRequest isUuid4 header =
     (let deviceId = (case header of None \<Rightarrow> [] | Some h \<Rightarrow> trim h) in
      andThen (throwIf (\<not> isUuid4 deviceId) (Unauthorized ''AuthRequired'')) (\<lambda>_. ret deviceId))"

section \<open>Single-use tokens\<close>

interpretation phoneTokens: single_use_token pt_tokenHash pt_usedAt pt_expiresAt usePhoneToken
  by unfold_locales (simp_all add: usePhoneToken_def)

interpretation kakaoTokens: single_use_token kt_tokenHash kt_usedAt kt_expiresAt useKakaoToken
  by unfold_locales (simp_all add: useKakaoToken_def)

lemma phoneTokenLive_eq: "phoneTokenLive = phoneTokens.live"
  by (simp add: fun_eq_iff phoneTokenLive_def phoneTokens.live_def)

lemma kakaoTokenLive_eq: "kakaoTokenLive = kakaoTokens.live"
  by (simp add: fun_eq_iff kakaoTokenLive_def kakaoTokens.live_def)

text \<open>A spent token: its row is there and marked as used.\<close>

definition phoneTokenSpent :: "jsstring \<Rightarrow> db \<Rightarrow> bool" where
  "phoneTokenSpent h d \<longleftrightarrow> uniqueKey pt_tokenHash (phoneVerificationTokens d) \<and>
     existsRow (\<lambda>t. pt_tokenHash t = h \<and> pt_usedAt t \<noteq> None) (phoneVerificationTokens d)"

lemma phoneTokenSpent_cong:
  "phoneVerificationTokens d = phoneVerificationTokens d' \<Longrightarrow> phoneTokenSpent h d = phoneTokenSpent h d'"
  by (simp add: phoneTokenSpent_def)

lemma phoneTokenSpent_frame [simp]:
  "phoneTokenSpent h (d\<lparr>users := a\<rparr>) = phoneTokenSpent h d"
  "phoneTokenSpent h (d\<lparr>refreshTokens := b\<rparr>) = phoneTokenSpent h d"
  "phoneTokenSpent h (d\<lparr>authIdentities := c\<rparr>) = phoneTokenSpent h d"
  "phoneTokenSpent h (d\<lparr>kakaoPhoneVerificationTokens := e\<rparr>) = phoneTokenSpent h d"
  "phoneTokenSpent h (d\<lparr>phoneVerifications := f\<rparr>) = phoneTokenSpent h d"
  by (simp_all add: phoneTokenSpent_def)

lemma phoneTokenSpent_consume:
  assumes "phoneTokenSpent h d"
  shows "phoneTokenSpent h (d\<lparr>phoneVerificationTokens :=
    updateWhere (phoneTokenLive now h') (usePhoneToken now) (phoneVerificationTokens d)\<rparr>)"
proof -
  from assms obtain t where t: "t \<in> set (phoneVerificationTokens d)" "pt_tokenHash t = h" "pt_usedAt t \<noteq> None"
    by (auto simp: phoneTokenSpent_def existsRow_iff)
  then have "t \<in> set (updateWhere (phoneTokenLive now h') (usePhoneToken now) (phoneVerificationTokens d))"
    by (force simp: set_updateWhere phoneTokenLive_def)
  with t assms show ?thesis
    by (auto simp: phoneTokenSpent_def existsRow_iff phoneTokenLive_eq phoneTokens.consume_unique)
qed

lemma phoneTokenSpent_insert:
  "phoneTokenSpent h d \<Longrightarrow> \<not> keyTaken pt_tokenHash (pt_tokenHash t) (phoneVerificationTokens d) \<Longrightarrow>
   phoneTokenSpent h (d\<lparr>phoneVerificationTokens := insertRow t (phoneVerificationTokens d)\<rparr>)"
  by (auto simp: phoneTokenSpent_def existsRow_iff keyTaken_iff)

lemma spent_not_found:
  assumes "phoneTokenSpent (hashToken env token) d"
  shows "repoFindPhoneVerificationToken env now token d = None"
proof -
  from assms obtain t where t: "t \<in> set (phoneVerificationTokens d)" "pt_tokenHash t = hashToken env token"
    "pt_usedAt t \<noteq> None" and u: "uniqueKey pt_tokenHash (phoneVerificationTokens d)"
    by (auto simp: phoneTokenSpent_def existsRow_iff)
  show ?thesis
    unfolding repoFindPhoneVerificationToken_def findFirst_None_iff
    using uniqueKey_inj [OF u _ t(1)] t(2,3) by (auto simp: phoneTokenLive_def)
qed

lemma consumed_spent:
  assumes "uniqueKey pt_tokenHash (phoneVerificationTokens d)"
    and "repoConsumePhoneVerificationToken env now token d = (Inr (Some t), d')"
  shows "phoneTokenSpent (hashToken env token) d'" "pt_usedAt t = Some now"
    "\<exists>t0 \<in> set (phoneVerificationTokens d). phoneTokenLive now (hashToken env token) t0 \<and> t = usePhoneToken now t0"
proof -
  let ?P = "phoneTokenLive now (hashToken env token)"
  have h: "headOption (returning ?P (usePhoneToken now) (phoneVerificationTokens d)) = Some t"
    and d': "d' = d\<lparr>phoneVerificationTokens := updateWhere ?P (usePhoneToken now) (phoneVerificationTokens d)\<rparr>"
    using assms(2) by (auto simp: repoConsumePhoneVerificationToken_def Let_def)
  from headOption_SomeD [OF h] obtain t0 where t0: "t0 \<in> set (phoneVerificationTokens d)" "?P t0" "t = usePhoneToken now t0"
    by (auto simp: returning_def)
  then have "t \<in> set (updateWhere ?P (usePhoneToken now) (phoneVerificationTokens d))"
    by (auto simp: set_updateWhere)
  with t0 assms(1) show "phoneTokenSpent (hashToken env token) d'"
    by (auto simp: d' phoneTokenSpent_def existsRow_iff phoneTokenLive_eq phoneTokens.consume_unique)
       (auto simp: phoneTokens.live_def usePhoneToken_def intro!: bexI [of _ t])
  show "pt_usedAt t = Some now" using t0(3) by (simp add: usePhoneToken_def)
  show "\<exists>t0 \<in> set (phoneVerificationTokens d). ?P t0 \<and> t = usePhoneToken now t0" using t0 by blast
qed

end
