(* ===== verification/Phone.thy ===== *)
theory Phone
  imports Auth
begin

text \<open>
  Phone verification (\<^verbatim>\<open>src/modules/phone\<close>): requesting a code with its quotas, verifying it with a
  bounded number of attempts, the single-use token a new phone gets, signing up with it, and
  resetting a password. The database clock and the service clock are the parameter \<open>now\<close>; the
  delivery of the message is a parameter.
\<close>

section \<open>Data\<close>

datatype verificationReservation =
    Reserved phoneVerification
  | RetryTooSoon
  | PhoneLimit
  | IpLimit

definition PhoneVerificationPurpose :: "jsstring list" where
  "PhoneVerificationPurpose = [js ''signup'', js ''login'', js ''password_reset'']"

section \<open>Repository\<close>

text \<open>The order of two verifications of a phone: by creation, then by identifier.\<close>

definition verificationKey :: "phoneVerification \<Rightarrow> int \<times> jsstring" where
  "verificationKey v = (pv_createdAt v, pv_id v)"

definition isLatestVerification :: "db \<Rightarrow> phoneVerification \<Rightarrow> bool" where
  "isLatestVerification d v \<longleftrightarrow>
     \<not> existsRow (\<lambda>n. pv_phoneE164 n = pv_phoneE164 v \<and>
       (pv_createdAt v < pv_createdAt n \<or> pv_createdAt n = pv_createdAt v \<and> pv_id v < pv_id n))
       (phoneVerifications d)"

definition findUserByPhone :: "jsstring \<Rightarrow> db \<Rightarrow> user option" where
  "findUserByPhone phoneE164 d = findFirst (\<lambda>u. u_phone u = Some phoneE164) (users d)"

text \<open>The row that \<^verbatim>\<open>ORDER BY createdAt DESC, id DESC\<close> puts first.\<close>

fun latestOf :: "phoneVerification list \<Rightarrow> phoneVerification option" where
  "latestOf [] = None"
| "latestOf (v # vs) =
     (case latestOf vs of
        None \<Rightarrow> Some v
      | Some w \<Rightarrow> if verificationKey w \<le> verificationKey v then Some v else Some w)"

definition latestVerification :: "jsstring \<Rightarrow> db \<Rightarrow> phoneVerification option" where
  "latestVerification phoneE164 d =
     latestOf (filter (\<lambda>v. pv_phoneE164 v = phoneE164) (phoneVerifications d))"

definition newVerification ::
  "uuid \<Rightarrow> timestamp \<Rightarrow> jsstring \<Rightarrow> jsstring \<Rightarrow> jsstring \<Rightarrow> jsstring \<Rightarrow> phoneVerification" where
  "newVerification i now phoneE164 purpose requestIpHash userAgentHash =
     \<lparr>pv_id = i, pv_phoneE164 = phoneE164, pv_codeHash = js ''pending'', pv_purpose = purpose,
      pv_expiresAt = now, pv_verifiedAt = None, pv_attemptCount = 0, pv_requestIpHash = Some requestIpHash,
      pv_userAgentHash = Some userAgentHash, pv_createdAt = now\<rparr>"

definition requestsSince :: "(phoneVerification \<Rightarrow> bool) \<Rightarrow> timestamp \<Rightarrow> db \<Rightarrow> nat" where
  "requestsSince P since d = countWhere (\<lambda>v. P v \<and> since < pv_createdAt v) (phoneVerifications d)"

definition reserveVerification ::
  "uuid \<Rightarrow> timestamp \<Rightarrow> jsstring \<Rightarrow> jsstring \<Rightarrow> jsstring \<Rightarrow> jsstring \<Rightarrow> int \<Rightarrow> nat \<Rightarrow> nat \<Rightarrow>
   verificationReservation dbprog" where
  "reserveVerification i now phoneE164 purpose requestIpHash userAgentHash cooldownMs phoneLimit ipLimit = transaction (
     andThen (query (latestVerification phoneE164)) (\<lambda>latest.
     if (case latest of None \<Rightarrow> False | Some v \<Rightarrow> now - pv_createdAt v < cooldownMs) then ret RetryTooSoon
     else
       let since = now - 60 * 60 * 1000 in
       andThen (query (requestsSince (\<lambda>v. pv_phoneE164 v = phoneE164) since)) (\<lambda>phoneRequests.
       if phoneLimit \<le> phoneRequests then ret PhoneLimit
       else
         andThen (query (requestsSince (\<lambda>v. pv_requestIpHash v = Some requestIpHash) since)) (\<lambda>ipRequests.
         if ipLimit \<le> ipRequests then ret IpLimit
         else
           let v = newVerification i now phoneE164 purpose requestIpHash userAgentHash in
           andThen (query (\<lambda>d. keyTaken pv_id i (phoneVerifications d))) (\<lambda>taken.
           andThen (throwIf taken (PgError UniqueViolation)) (\<lambda>_.
           andThen (modify (\<lambda>d. d\<lparr>phoneVerifications := insertRow v (phoneVerifications d)\<rparr>)) (\<lambda>_.
           ret (Reserved v))))))))"

text \<open>An \<^verbatim>\<open>UPDATE\<close> of verifications that returns the first updated row; the condition is
  evaluated before any row changes.\<close>

definition updateVerifications ::
  "(db \<Rightarrow> phoneVerification \<Rightarrow> bool) \<Rightarrow> (phoneVerification \<Rightarrow> phoneVerification) \<Rightarrow> phoneVerification option dbprog" where
  "updateVerifications P f =
     andThen (query (\<lambda>d. headOption (returning (P d) f (phoneVerifications d)))) (\<lambda>r.
     andThen (modify (\<lambda>d. d\<lparr>phoneVerifications := updateWhere (P d) f (phoneVerifications d)\<rparr>)) (\<lambda>_.
     ret r))"

definition activateVerification ::
  "timestamp \<Rightarrow> jsstring \<Rightarrow> jsstring \<Rightarrow> int \<Rightarrow> phoneVerification option dbprog" where
  "activateVerification now i codeHash ttlMs = updateVerifications
     (\<lambda>d v. pv_id v = pgUuid i \<and> pv_codeHash v = js ''pending'' \<and> isLatestVerification d v)
     (\<lambda>v. v\<lparr>pv_codeHash := codeHash, pv_expiresAt := now + ttlMs\<rparr>)"

text \<open>A token of the verification blocks its deletion.\<close>

definition deleteVerification :: "jsstring \<Rightarrow> unit dbprog" where
  "deleteVerification i =
     andThen (query (\<lambda>d. existsRow (\<lambda>v. pv_id v = pgUuid i) (phoneVerifications d) \<and>
       existsRow (\<lambda>t. pt_verificationId t = pgUuid i) (phoneVerificationTokens d))) (\<lambda>referenced.
     andThen (throwIf referenced (PgError ForeignKeyViolation)) (\<lambda>_.
     modify (\<lambda>d. d\<lparr>phoneVerifications := deleteWhere (\<lambda>v. pv_id v = pgUuid i) (phoneVerifications d)\<rparr>)))"

definition MAX_CODE_ATTEMPTS :: int where
  "MAX_CODE_ATTEMPTS = 5"

definition claimVerificationAttempt ::
  "timestamp \<Rightarrow> jsstring \<Rightarrow> jsstring \<Rightarrow> jsstring list \<Rightarrow> phoneVerification option dbprog" where
  "claimVerificationAttempt now i phoneE164 purposes = updateVerifications
     (\<lambda>d v. pv_id v = pgUuid i \<and> pv_phoneE164 v = phoneE164 \<and> List.member purposes (pv_purpose v) \<and>
        pv_verifiedAt v = None \<and> now < pv_expiresAt v \<and> pv_attemptCount v < MAX_CODE_ATTEMPTS \<and>
        isLatestVerification d v)
     (\<lambda>v. v\<lparr>pv_attemptCount := pv_attemptCount v + 1\<rparr>)"

definition markVerified :: "timestamp \<Rightarrow> jsstring \<Rightarrow> phoneVerification option dbprog" where
  "markVerified now i = updateVerifications
     (\<lambda>d v. pv_id v = pgUuid i \<and> pv_verifiedAt v = None \<and> now < pv_expiresAt v \<and> 0 < pv_attemptCount v \<and>
        isLatestVerification d v)
     (\<lambda>v. v\<lparr>pv_verifiedAt := Some now\<rparr>)"

definition repoCreatePhoneVerificationToken ::
  "authEnv \<Rightarrow> timestamp \<Rightarrow> jsstring \<Rightarrow> jsstring \<Rightarrow> uuid \<Rightarrow> timestamp \<Rightarrow> unit dbprog" where
  "repoCreatePhoneVerificationToken env now token phoneE164 verificationId expiresAt =
     andThen (query (\<lambda>d. (keyTaken pt_tokenHash (hashToken env token) (phoneVerificationTokens d),
       keyTaken pv_id (pgUuid verificationId) (phoneVerifications d)))) (\<lambda>(taken, known).
     andThen (throwIf taken (PgError UniqueViolation)) (\<lambda>_.
     andThen (throwIf (\<not> known) (PgError ForeignKeyViolation)) (\<lambda>_.
     modify (\<lambda>d. d\<lparr>phoneVerificationTokens := insertRow \<lparr>pt_tokenHash = hashToken env token,
       pt_phoneE164 = phoneE164, pt_verificationId = pgUuid verificationId, pt_expiresAt = expiresAt,
       pt_usedAt = None, pt_createdAt = now\<rparr> (phoneVerificationTokens d)\<rparr>))))"

definition phoneFindPhoneVerificationToken ::
  "authEnv \<Rightarrow> timestamp \<Rightarrow> jsstring \<Rightarrow> db \<Rightarrow> phoneVerificationToken option" where
  "phoneFindPhoneVerificationToken env now token d =
     findFirst (phoneTokenLive now (hashToken env token)) (phoneVerificationTokens d)"

definition resetPasswordWithVerification ::
  "timestamp \<Rightarrow> jsstring \<Rightarrow> jsstring \<Rightarrow> jsstring \<Rightarrow> user option dbprog" where
  "resetPasswordWithVerification now verificationId phoneE164 password = transaction (
     andThen (query (findUserByPhone phoneE164)) (\<lambda>lockedUser.
     case lockedUser of
       None \<Rightarrow> ret None
     | Some l \<Rightarrow>
         andThen (updateVerifications
           (\<lambda>d v. pv_id v = pgUuid verificationId \<and> pv_phoneE164 v = phoneE164 \<and>
              pv_purpose v = js ''password_reset'' \<and> pv_verifiedAt v = None \<and> now < pv_expiresAt v \<and>
              0 < pv_attemptCount v \<and> isLatestVerification d v)
           (\<lambda>v. v\<lparr>pv_verifiedAt := Some now\<rparr>)) (\<lambda>verified.
         if verified = None then ret None
         else
           let P = (\<lambda>u. u_userId u = u_userId l);
               f = (\<lambda>u. u\<lparr>u_password := password, u_updatedAt := now\<rparr>) in
           andThen (query (\<lambda>d. headOption (returning P f (users d)))) (\<lambda>user.
           andThen (modify (\<lambda>d. d\<lparr>users := updateWhere P f (users d)\<rparr>)) (\<lambda>_.
           case user of
             None \<Rightarrow> throw (ErrorCode ''PASSWORD_RESET_USER_UPDATE_FAILED'')
           | Some u \<Rightarrow>
               andThen (modify (\<lambda>d. d\<lparr>refreshTokens :=
                 deleteWhere (\<lambda>t. rt_userId t = u_userId u) (refreshTokens d)\<rparr>)) (\<lambda>_.
               ret (Some u)))))))"

section \<open>Sending the message\<close>

text \<open>The HTTP sender tries twice; \<open>post k\<close> says whether the attempt number \<open>k\<close> is answered with
  success in time.\<close>

fun sendAttempts :: "(nat \<Rightarrow> bool) \<Rightarrow> nat list \<Rightarrow> bool" where
  "sendAttempts post [] = True"
| "sendAttempts post (attempt # rest) =
     (if post attempt then True else if attempt = 2 then False else sendAttempts post rest)"

definition httpSendCode :: "bool \<Rightarrow> jsstring option \<Rightarrow> (nat \<Rightarrow> bool) \<Rightarrow> bool" where
  "httpSendCode production authorization post \<longleftrightarrow>
     \<not> (production \<and> \<not> truthy authorization) \<and> sendAttempts post [1, 2]"

section \<open>Service\<close>

definition normalizeKoreanPhone :: "jsstring \<Rightarrow> jsstring dbprog" where
  "normalizeKoreanPhone phone =
     (let digits = filter isDigit phone in
      if take 3 digits = js ''010'' \<and> length digits = 11 then ret (js ''+82'' @ drop 1 digits)
      else if take 4 digits = js ''8210'' \<and> length digits = 12 then ret (js ''+'' @ digits)
      else throw (BadRequest ''KoreanPhoneOnly''))"

definition pepperedCode :: "jsstring \<Rightarrow> jsstring \<Rightarrow> jsstring \<Rightarrow> jsstring" where
  "pepperedCode pepper phoneE164 code = phoneE164 @ js '':'' @ code @ js '':'' @ pepper"

text \<open>\<^verbatim>\<open>String(n).padStart(6, "0")\<close> for a number below one million.\<close>

definition codeText :: "nat \<Rightarrow> jsstring" where
  "codeText n = map (\<lambda>k. 48 + n div 10 ^ k mod 10) (rev [0..<6])"

definition reservationError :: "verificationReservation \<Rightarrow> string option" where
  "reservationError r =
     (case r of Reserved _ \<Rightarrow> None
      | RetryTooSoon \<Rightarrow> Some ''PhoneCodeRetryTooSoon''
      | PhoneLimit \<Rightarrow> Some ''PhoneRequestLimitExceeded''
      | IpLimit \<Rightarrow> Some ''IpRequestLimitExceeded'')"

definition requestPhoneCode ::
  "authEnv \<Rightarrow> jsstring \<Rightarrow> (jsstring \<Rightarrow> jsstring \<Rightarrow> bool) \<Rightarrow> nat \<Rightarrow> uuid \<Rightarrow> timestamp \<Rightarrow> jsstring \<Rightarrow> jsstring \<Rightarrow>
   jsstring option \<Rightarrow> jsstring option \<Rightarrow> bool dbprog" where
  "requestPhoneCode env pepper sendCode random i now phone purpose ip userAgent =
     andThen (throwIf (\<not> List.member PhoneVerificationPurpose purpose) (BadRequest ''InvalidPhonePurpose'')) (\<lambda>_.
     andThen (normalizeKoreanPhone phone) (\<lambda>phoneE164.
     let requestIpHash = sha256Hex env (if truthy ip then the ip else js ''no-ip'');
         code = codeText random in
     andThen (reserveVerification i now phoneE164 purpose requestIpHash
       (sha256Hex env (case userAgent of None \<Rightarrow> [] | Some a \<Rightarrow> a)) 60000 5 20) (\<lambda>reservation.
     case reservation of
       Reserved v \<Rightarrow>
         tryCatch
           (andThen (throwIf (\<not> sendCode phoneE164 code) (ErrorCode ''SMS_PROVIDER_FAILED'')) (\<lambda>_.
            andThen (activateVerification now (pv_id v) (bcryptHash env (pepperedCode pepper phoneE164 code))
              (5 * 60000)) (\<lambda>activated.
            andThen (throwIf (activated = None) (ErrorCode ''PHONE_VERIFICATION_ACTIVATION_FAILED'')) (\<lambda>_.
            ret True))))
           (\<lambda>_.
            andThen (tryCatch (deleteVerification (pv_id v)) (\<lambda>_. ret ())) (\<lambda>_.
            throw (ServiceUnavailable ''SmsSendFailed'')))
     | r \<Rightarrow> throw (TooManyRequests (the (reservationError r))))))"

definition getUsableVerification :: "jsstring \<Rightarrow> jsstring option \<Rightarrow> phoneVerification dbprog" where
  "getUsableVerification phoneE164 purpose =
     andThen (query (latestVerification phoneE164)) (\<lambda>verification.
     case verification of
       None \<Rightarrow> throw (Unauthorized ''InvalidPhoneCode'')
     | Some v \<Rightarrow>
         andThen (throwIf (pv_verifiedAt v \<noteq> None) (Unauthorized ''InvalidPhoneCode'')) (\<lambda>_.
         andThen (throwIf (truthy purpose \<and> Some (pv_purpose v) \<noteq> purpose) (Unauthorized ''InvalidPhoneCode'')) (\<lambda>_.
         andThen (throwIf (MAX_CODE_ATTEMPTS \<le> pv_attemptCount v)
           (TooManyRequests ''PhoneCodeAttemptLimitExceeded'')) (\<lambda>_.
         ret v))))"

definition createPhoneVerificationToken ::
  "authEnv \<Rightarrow> uuid \<Rightarrow> timestamp \<Rightarrow> jsstring \<Rightarrow> uuid \<Rightarrow> jsstring dbprog" where
  "createPhoneVerificationToken env nonce now phoneE164 verificationId =
     (let token = signAsync env (PhoneClaims phoneE164 verificationId nonce) now in
      andThen (repoCreatePhoneVerificationToken env now token phoneE164 verificationId (now + 15 * 60 * 1000)) (\<lambda>_.
      ret token))"

text \<open>The attempt both services claim before they compare the code.\<close>

definition checkCode ::
  "authEnv \<Rightarrow> jsstring \<Rightarrow> timestamp \<Rightarrow> jsstring \<Rightarrow> jsstring \<Rightarrow> jsstring list \<Rightarrow> jsstring \<Rightarrow> phoneVerification dbprog" where
  "checkCode env pepper now i phoneE164 purposes code =
     andThen (claimVerificationAttempt now i phoneE164 purposes) (\<lambda>claimed.
     case claimed of
       None \<Rightarrow> throw (Unauthorized ''InvalidPhoneCode'')
     | Some c \<Rightarrow>
         andThen (throwIf (\<not> bcryptCompare env (pepperedCode pepper phoneE164 code) (pv_codeHash c))
           (Unauthorized ''InvalidPhoneCode'')) (\<lambda>_.
         ret c))"

datatype verifyPhoneCodePayload = ExistingUser tokenPayload | NewPhone jsstring

definition verifyPhoneCode ::
  "authEnv \<Rightarrow> jsstring \<Rightarrow> (nat \<Rightarrow> uuid) \<Rightarrow> timestamp \<Rightarrow> jsstring \<Rightarrow> jsstring \<Rightarrow> jsstring \<Rightarrow>
   verifyPhoneCodePayload dbprog" where
  "verifyPhoneCode env pepper ids now phone code deviceId =
     andThen (normalizeKoreanPhone phone) (\<lambda>phoneE164.
     andThen (getUsableVerification phoneE164 None) (\<lambda>verification.
     andThen (throwIf (pv_purpose verification \<noteq> js ''signup'' \<and> pv_purpose verification \<noteq> js ''login'')
       (Unauthorized ''InvalidPhoneCode'')) (\<lambda>_.
     andThen (checkCode env pepper now (pv_id verification) phoneE164 [js ''signup'', js ''login''] code) (\<lambda>claimed.
     andThen (markVerified now (pv_id claimed)) (\<lambda>verified.
     case verified of
       None \<Rightarrow> throw (Unauthorized ''InvalidPhoneCode'')
     | Some v \<Rightarrow>
         andThen (query (findUserByPhone phoneE164)) (\<lambda>user.
         case user of
           Some u \<Rightarrow> andThen (issueTokensForUser env (ids 2) now u deviceId) (\<lambda>t. ret (ExistingUser t))
         | None \<Rightarrow> andThen (createPhoneVerificationToken env (ids 0) now phoneE164 (pv_id v)) (\<lambda>t.
             ret (NewPhone t))))))))"

record completePhoneSignupInput =
  cs_phoneVerificationToken :: jsstring
  cs_email :: jsstring
  cs_password :: jsstring
  cs_userName :: "jsstring option"
  cs_gender :: "jsstring option"
  cs_termsAccepted :: bool

definition toGender :: "jsstring \<Rightarrow> gender" where
  "toGender g = (if g = js ''male'' then Male else Female)"

definition requireGender :: "jsstring option \<Rightarrow> gender dbprog" where
  "requireGender input =
     (let g = (case input of None \<Rightarrow> [] | Some s \<Rightarrow> trim s) in
      andThen (throwIf (\<not> isGender g) (BadRequest ''InvalidGender'')) (\<lambda>_. ret (toGender g)))"

definition completePhoneSignup ::
  "authEnv \<Rightarrow> (nat \<Rightarrow> uuid) \<Rightarrow> timestamp \<Rightarrow> completePhoneSignupInput \<Rightarrow> jsstring \<Rightarrow> tokenPayload dbprog" where
  "completePhoneSignup env ids now input deviceId =
     andThen (requireGender (cs_gender input)) (\<lambda>g.
     let given = (case cs_userName input of None \<Rightarrow> [] | Some s \<Rightarrow> trim s);
         local = hd (splitOn 64 (cs_email input)) in
     signup env ids now \<lparr>si_email = cs_email input, si_password = cs_password input,
       si_userName = (if given \<noteq> [] then given else if local \<noteq> [] then local else js ''user''),
       si_gender = g, si_phoneVerificationToken = cs_phoneVerificationToken input,
       si_termsAccepted = cs_termsAccepted input\<rparr> deviceId)"

definition phoneCompleteKakaoSignup ::
  "authEnv \<Rightarrow> (nat \<Rightarrow> uuid) \<Rightarrow> timestamp \<Rightarrow> jsstring option \<Rightarrow> jsstring \<Rightarrow> jsstring \<Rightarrow> jsstring option \<Rightarrow> bool \<Rightarrow>
   jsstring \<Rightarrow> tokenPayload dbprog" where
  "phoneCompleteKakaoSignup env ids now phoneToken kakaoToken userName inputGender termsAccepted deviceId =
     andThen (requireGender inputGender) (\<lambda>g.
     completeKakaoPhoneSignup env ids now \<lparr>ck_phoneVerificationToken = phoneToken,
       ck_kakaoPhoneVerificationToken = kakaoToken, ck_userName = userName, ck_gender = g,
       ck_termsAccepted = termsAccepted\<rparr> deviceId)"

definition resetPasswordWithPhone ::
  "authEnv \<Rightarrow> jsstring \<Rightarrow> timestamp \<Rightarrow> jsstring \<Rightarrow> jsstring \<Rightarrow> jsstring \<Rightarrow> bool dbprog" where
  "resetPasswordWithPhone env pepper now phone code password =
     andThen (validatePassword password) (\<lambda>nextPassword.
     andThen (normalizeKoreanPhone phone) (\<lambda>phoneE164.
     andThen (getUsableVerification phoneE164 (Some (js ''password_reset''))) (\<lambda>verification.
     andThen (checkCode env pepper now (pv_id verification) phoneE164 [js ''password_reset''] code) (\<lambda>claimed.
     andThen (resetPasswordWithVerification now (pv_id claimed) phoneE164 (bcryptHash env nextPassword)) (\<lambda>user.
     andThen (throwIf (user = None) (Unauthorized ''PhoneVerificationRequired'')) (\<lambda>_.
     ret True))))))"

section \<open>The requests of a client that is not signed in\<close>

datatype authStep =
    SignupStep "nat \<Rightarrow> uuid" timestamp signupAuthInput jsstring
  | SigninStep "nat \<Rightarrow> uuid" timestamp signinAuthInput jsstring
  | KakaoCallbackStep timestamp kakaoProfile
  | KakaoLoginStep "nat \<Rightarrow> uuid" timestamp jsstring jsstring
  | CompleteKakaoStep "nat \<Rightarrow> uuid" timestamp completeKakaoInput jsstring
  | RefreshStep timestamp refreshToken
  | LogoutStep jsstring jsstring
  | RequestCodeStep "jsstring \<Rightarrow> jsstring \<Rightarrow> bool" nat uuid timestamp jsstring jsstring "jsstring option" "jsstring option"
  | VerifyCodeStep "nat \<Rightarrow> uuid" timestamp jsstring jsstring jsstring
  | ResetPasswordStep timestamp jsstring jsstring jsstring

fun stepAuth :: "authEnv \<Rightarrow> jsstring \<Rightarrow> db \<Rightarrow> authStep \<Rightarrow> db" where
  "stepAuth env pepper d (SignupStep ids now input dev) = snd (signup env ids now input dev d)"
| "stepAuth env pepper d (SigninStep ids now input dev) = snd (signin env ids now input dev d)"
| "stepAuth env pepper d (KakaoCallbackStep now prof) = snd (loginWithKakao env now prof d)"
| "stepAuth env pepper d (KakaoLoginStep ids now tok dev) = snd (loginWithKakaoAccessToken env ids now tok dev d)"
| "stepAuth env pepper d (CompleteKakaoStep ids now input dev) = snd (completeKakaoPhoneSignup env ids now input dev d)"
| "stepAuth env pepper d (RefreshStep now row) = snd (refresh env now row d)"
| "stepAuth env pepper d (LogoutStep u dev) = snd (logout u dev d)"
| "stepAuth env pepper d (RequestCodeStep send n i now phone purpose ip agent) =
     snd (requestPhoneCode env pepper send n i now phone purpose ip agent d)"
| "stepAuth env pepper d (VerifyCodeStep ids now phone code dev) = snd (verifyPhoneCode env pepper ids now phone code dev d)"
| "stepAuth env pepper d (ResetPasswordStep now phone code pw) = snd (resetPasswordWithPhone env pepper now phone code pw d)"

text \<open>The services in terms of the writes they share: an invariant that these writes keep is kept by
  every request, apart from the one for a code.\<close>

locale sign_writes =
  fixes I :: "db \<Rightarrow> bool" and env :: authEnv
  assumes consume_phone: "preserves I (repoConsumePhoneVerificationToken env n1 t1)"
    and consume_kakao: "preserves I (consumeKakaoPhoneVerificationToken env n2 t2)"
    and create_phone: "preserves I (repoCreatePhoneVerificationToken env n3 t3 p3 v3 e3)"
    and create_kakao: "preserves I (repoCreateKakaoPhoneVerificationToken env n4 t4 u4 p4 m4 e4)"
    and insert_user: "preserves I (insertUser (newUser n5 i5 m5 p5 pw5 un5 g5))"
    and insert_identity: "preserves I (insertIdentity i6 n6 u6 p6)"
    and set_phone: "preserves I (setPhone n7 u7 p7)"
    and save_refresh: "preserves I (repoSaveRefreshToken i8 n8 u8 dev8 t8 e8)"
    and rotate_refresh: "preserves I (rotateRefreshToken n9 u9 dev9 x9 t9 e9)"
    and delete_refresh: "preserves I (deleteRefreshToken u10 dev10)"
    and restore: "preserves I (restoreScheduledDeletion n11 u11)"
    and claim: "preserves I (claimVerificationAttempt n15 i15 p15 ps15)"
    and mark: "preserves I (markVerified n16 i16)"
    and reset_password: "preserves I (resetPasswordWithVerification n17 i17 p17 pw17)"
begin

lemmas sign_keeps = consume_phone consume_kakao create_phone create_kakao insert_user insert_identity set_phone
  save_refresh rotate_refresh delete_refresh restore claim mark reset_password

lemma issueTokens_keeps: "preserves I (issueTokens env i now u dev)"
  unfolding issueTokens_def saveRefreshToken_def prepareRefreshToken_def Let_def
  by (intro preserves_intros sign_keeps)

lemma errors_keep: "preserves I m \<Longrightarrow> preserves I (mapDuplicateUserError env m)"
  "preserves I m \<Longrightarrow> preserves I (mapTokenConsumeError m)"
  unfolding mapDuplicateUserError_def mapTokenConsumeError_def by (intro preserves_intros; assumption)+

lemmas inputs = normalizeEmail_def normalizeUserName_def validatePassword_def normalizeSigninEmail_def
  findPhoneVerificationToken_def consumePhoneVerificationToken_def restoreIfWithinGrace_def validateUserUuid_def
  kakaoEmail_def Let_def

lemma signup_keeps: "preserves I (signup env ids now input dev)"
  unfolding signup_def signupWithPhoneVerificationToken_def inputs
  by (intro preserves_intros errors_keep sign_keeps issueTokens_keeps)

lemma signin_keeps: "preserves I (signin env ids now input dev)"
  unfolding signin_def inputs by (intro preserves_intros sign_keeps issueTokens_keeps)

lemma kakao_token_keeps: "preserves I (createKakaoPhoneVerificationToken env now prof u)"
  unfolding createKakaoPhoneVerificationToken_def inputs by (intro preserves_intros sign_keeps)

lemma kakao_logins_keep: "preserves I (loginWithKakao env now prof)"
  "preserves I (loginWithKakaoAccessToken env ids now tok dev)"
  unfolding loginWithKakao_def loginWithKakaoAccessToken_def getKakaoProfile_def inputs
  by (intro preserves_intros sign_keeps kakao_token_keeps issueTokens_keeps)+

lemma consumeBoth_keeps: "preserves I (consumeBothTokens env now p k)"
  unfolding consumeBothTokens_def by (intro preserves_intros sign_keeps)

lemma completeKakao_keeps: "preserves I (completeKakaoPhoneSignup env ids now input dev)"
  unfolding completeKakaoPhoneSignup_def completeKakaoOnly_def completeKakaoWithPhone_def inputs
    consumeKakaoPhoneVerificationTokenForUser_def createKakaoUserWithToken_def
    attachPhoneWithKakaoPhoneVerificationTokens_def createKakaoPhoneUserWithTokens_def
  by (intro preserves_intros errors_keep sign_keeps issueTokens_keeps consumeBoth_keeps)

lemma refresh_keeps: "preserves I (refresh env now row)"
  unfolding refresh_def findUser_def prepareRefreshToken_def inputs by (intro preserves_intros sign_keeps)

lemma logout_keeps: "preserves I (logout u dev)"
  unfolding logout_def by (intro preserves_intros sign_keeps)

lemma checkCode_keeps: "preserves I (checkCode env pepper now i p ps code)"
  unfolding checkCode_def by (intro preserves_intros sign_keeps)

lemma verifyPhoneCode_keeps: "preserves I (verifyPhoneCode env pepper ids now phone code dev)"
  unfolding verifyPhoneCode_def normalizeKoreanPhone_def getUsableVerification_def issueTokensForUser_def
    createPhoneVerificationToken_def Let_def
  by (intro preserves_intros sign_keeps checkCode_keeps issueTokens_keeps)

lemma resetPassword_keeps: "preserves I (resetPasswordWithPhone env pepper now phone code pw)"
  unfolding resetPasswordWithPhone_def validatePassword_def normalizeKoreanPhone_def getUsableVerification_def Let_def
  by (intro preserves_intros sign_keeps checkCode_keeps)

lemma stepAuth_quiet:
  "I d \<Longrightarrow> (\<And>send n i now phone purpose ip agent. e = RequestCodeStep send n i now phone purpose ip agent \<Longrightarrow> thesis) \<Longrightarrow>
   (I (stepAuth env pepper d e) \<Longrightarrow> thesis) \<Longrightarrow> thesis"
  by (cases e)
     (simp_all add: signup_keeps signin_keeps kakao_logins_keep completeKakao_keeps refresh_keeps logout_keeps
       verifyPhoneCode_keeps resetPassword_keeps preserves_def [THEN iffD1, rule_format])

end

text \<open>With the writes of a request for a code.\<close>

locale auth_writes = sign_writes I env for I env +
  assumes reserve: "preserves I (reserveVerification i12 n12 p12 pu12 ip12 ag12 c12 l12 m12)"
    and activate: "preserves I (activateVerification n13 i13 ch13 ttl13)"
    and delete_verification: "preserves I (deleteVerification i14)"
begin

lemmas writes = consume_phone consume_kakao create_phone create_kakao insert_user insert_identity set_phone
  save_refresh rotate_refresh delete_refresh restore reserve activate delete_verification claim mark reset_password

lemma requestPhoneCode_keeps: "preserves I (requestPhoneCode env pepper send n i now phone purpose ip agent)"
proof -
  have "preserves I (case r of
       Reserved v \<Rightarrow> tryCatch (andThen (throwIf (x v) e1) (\<lambda>_. andThen (activateVerification now (pv_id v) c t) (\<lambda>a.
         andThen (throwIf (a = None) e2) (\<lambda>_. ret True)))) (\<lambda>_. andThen (tryCatch (deleteVerification (pv_id v))
           (\<lambda>_. ret ())) (\<lambda>_. throw e3))
     | RetryTooSoon \<Rightarrow> throw f1 | PhoneLimit \<Rightarrow> throw f2 | IpLimit \<Rightarrow> throw f3)" for r x e1 c t e2 e3 f1 f2 f3
    by (cases r) (simp_all, (intro preserves_intros writes)+)
  then show ?thesis
    unfolding requestPhoneCode_def normalizeKoreanPhone_def Let_def
    by (intro preserves_intros writes)
qed

lemma stepAuth_keeps:
  assumes "I d"
  shows "I (stepAuth env pepper d e)"
  by (rule stepAuth_quiet [OF assms, of e])
     (simp_all add: requestPhoneCode_keeps [unfolded preserves_def, rule_format] assms)

end

sublocale auth_writes \<subseteq> invariant_machine "stepAuth env pepper" I for pepper
  by unfold_locales (rule stepAuth_keeps)

section \<open>What every request keeps\<close>

interpretation spent: auth_writes "phoneTokenSpent h" env for h env
proof
  show "preserves (phoneTokenSpent h) (repoConsumePhoneVerificationToken env now token)" for now token
    unfolding repoConsumePhoneVerificationToken_def Let_def
    by (intro preserves_intros preserves_modify phoneTokenSpent_consume)
  show "preserves (phoneTokenSpent h) (repoCreatePhoneVerificationToken env now token p v e)" for now token p v e
    by (auto simp: preserves_def repoCreatePhoneVerificationToken_def phoneTokenSpent_insert)
qed (unfold consumeKakaoPhoneVerificationToken_def repoCreateKakaoPhoneVerificationToken_def insertUser_def
  insertIdentity_def setPhone_def repoSaveRefreshToken_def rotateRefreshToken_def deleteRefreshToken_def
  restoreScheduledDeletion_def reserveVerification_def activateVerification_def deleteVerification_def
  claimVerificationAttempt_def markVerified_def resetPasswordWithVerification_def updateVerifications_def Let_def,
  (intro preserves_intros preserves_modify; simp)+)

text \<open>The keys and references of the tables that the authentication writes, and the bound on the
  attempts at a code.\<close>

definition accountKeys :: "db \<Rightarrow> bool" where
  "accountKeys d \<longleftrightarrow> uniqueKey u_userId (users d) \<and> uniqueKey u_email (users d) \<and> uniqueSome u_phone (users d)"

definition identityKeys :: "db \<Rightarrow> bool" where
  "identityKeys d \<longleftrightarrow> uniqueKey (\<lambda>x. (ai_provider x, ai_providerUserId x)) (authIdentities d) \<and>
     list_all (\<lambda>x. userExists (ai_userId x) d) (authIdentities d)"

definition sessionKeys :: "db \<Rightarrow> bool" where
  "sessionKeys d \<longleftrightarrow> uniqueKey (\<lambda>t. (rt_userId t, rt_deviceId t)) (refreshTokens d) \<and>
     list_all (\<lambda>t. userExists (rt_userId t) d) (refreshTokens d)"

definition tokenKeys :: "db \<Rightarrow> bool" where
  "tokenKeys d \<longleftrightarrow> uniqueKey pt_tokenHash (phoneVerificationTokens d) \<and>
     uniqueKey kt_tokenHash (kakaoPhoneVerificationTokens d)"

definition verificationKeys :: "db \<Rightarrow> bool" where
  "verificationKeys d \<longleftrightarrow> uniqueKey pv_id (phoneVerifications d) \<and>
     list_all (\<lambda>v. 0 \<le> pv_attemptCount v \<and> pv_attemptCount v \<le> MAX_CODE_ATTEMPTS) (phoneVerifications d) \<and>
     list_all (\<lambda>t. pt_verificationId t \<in> pv_id ` set (phoneVerifications d)) (phoneVerificationTokens d)"

definition authInv :: "db \<Rightarrow> bool" where
  "authInv d \<longleftrightarrow> accountKeys d \<and> identityKeys d \<and> sessionKeys d \<and> tokenKeys d \<and> verificationKeys d"

lemmas authInv_defs = authInv_def accountKeys_def identityKeys_def sessionKeys_def tokenKeys_def verificationKeys_def

lemma userExists_update:
  "(\<And>u. P u \<Longrightarrow> u_userId (f u) = u_userId u) \<Longrightarrow>
   userExists i (d\<lparr>users := updateWhere P f (users d)\<rparr>) = userExists i d"
  by (auto simp: userExists_def existsRow_iff set_updateWhere)

lemma userExists_frame [simp]:
  "userExists i (d\<lparr>refreshTokens := b\<rparr>) = userExists i d"
  "userExists i (d\<lparr>authIdentities := c\<rparr>) = userExists i d"
  by (simp_all add: userExists_def)

lemma authInv_users:
  assumes "authInv d" and "\<And>u. P u \<Longrightarrow> u_userId (f u) = u_userId u \<and> u_email (f u) = u_email u"
    and "uniqueSome u_phone (updateWhere P f (users d))"
  shows "authInv (d\<lparr>users := updateWhere P f (users d)\<rparr>)"
  using assms by (simp add: authInv_defs userExists_update uniqueKey_updateWhere)

lemma authInv_insertUser: "preserves authInv (insertUser u)"
proof (rule preservesI)
  fix d assume inv: "authInv d"
  have "userExists i (d\<lparr>users := insertRow u (users d)\<rparr>)" if "userExists i d" for i
    using that by (auto simp: userExists_def existsRow_iff)
  with inv show "authInv (snd (insertUser u d))"
    by (auto simp: insertUser_def authInv_defs keyTaken_iff list_all_iff phoneTaken_def existsRow_iff
        intro!: uniqueSome_insertRow)
qed

lemma authInv_setPhone: "preserves authInv (setPhone now i p)"
proof (rule preservesI)
  fix d assume inv: "authInv d"
  let ?P = "\<lambda>u. u_userId u = pgUuid i" and ?f = "\<lambda>u. u\<lparr>u_phone := Some p, u_updatedAt := now\<rparr>"
  have "authInv (d\<lparr>users := updateWhere ?P ?f (users d)\<rparr>)"
    if free: "existsRow ?P (users d) \<Longrightarrow> \<not> existsRow (\<lambda>u. \<not> ?P u \<and> u_phone u = Some p) (users d)"
  proof (cases "existsRow ?P (users d)")
    case True
    show ?thesis
    proof (rule authInv_users [OF inv])
      show "uniqueSome u_phone (updateWhere ?P ?f (users d))"
        using inv free [OF True] by (intro uniqueSome_set [where i = u_userId]) (auto simp: authInv_defs existsRow_iff)
    qed simp
  next
    case False
    then have "updateWhere ?P ?f (users d) = users d"
      by (intro updateWhere_none) (auto simp: existsRow_iff)
    with inv show ?thesis by simp
  qed
  with inv show "authInv (snd (setPhone now i p d))"
    by (auto simp: setPhone_def Let_def)
qed

lemma authInv_verifications:
  assumes "authInv d" and "\<And>v. P v \<Longrightarrow> 0 \<le> pv_attemptCount v \<Longrightarrow> pv_attemptCount v \<le> MAX_CODE_ATTEMPTS \<Longrightarrow>
    0 \<le> pv_attemptCount (f v) \<and> pv_attemptCount (f v) \<le> MAX_CODE_ATTEMPTS" and "\<And>v. pv_id (f v) = pv_id v"
  shows "authInv (d\<lparr>phoneVerifications := updateWhere P f (phoneVerifications d)\<rparr>)"
proof -
  have "list_all (\<lambda>v. 0 \<le> pv_attemptCount v \<and> pv_attemptCount v \<le> MAX_CODE_ATTEMPTS)
    (updateWhere P f (phoneVerifications d))"
    using assms(1,2) by (intro list_all_updateWhere) (auto simp: authInv_defs)
  with assms(1,3) show ?thesis
    by (simp add: authInv_defs uniqueKey_updateWhere image_updateWhere userExists_def)
qed

lemma authInv_updateVerifications:
  "(\<And>d v. P d v \<Longrightarrow> 0 \<le> pv_attemptCount v \<Longrightarrow> pv_attemptCount v \<le> MAX_CODE_ATTEMPTS \<Longrightarrow>
    0 \<le> pv_attemptCount (f v) \<and> pv_attemptCount (f v) \<le> MAX_CODE_ATTEMPTS) \<Longrightarrow> (\<And>v. pv_id (f v) = pv_id v) \<Longrightarrow>
   preserves authInv (updateVerifications P f)"
  unfolding updateVerifications_def
  by (intro preserves_intros preserves_modify authInv_verifications)


lemma authInv_sessions:
  "authInv d \<Longrightarrow> (\<And>t. P t \<Longrightarrow> rt_userId (f t) = rt_userId t \<and> rt_deviceId (f t) = rt_deviceId t) \<Longrightarrow>
   authInv (d\<lparr>refreshTokens := updateWhere P f (refreshTokens d)\<rparr>)"
  "authInv d \<Longrightarrow> authInv (d\<lparr>refreshTokens := deleteWhere Q (refreshTokens d)\<rparr>)"
  by (auto simp: authInv_defs uniqueKey_updateWhere uniqueKey_deleteWhere list_all_iff set_updateWhere)

lemma authInv_restore: "preserves authInv (restoreScheduledDeletion now i)"
  unfolding restoreScheduledDeletion_def Let_def
  by (intro preserves_intros preserves_modify authInv_users) (simp_all add: uniqueSome_updateWhere authInv_defs)

lemma authInv_saveRefresh: "preserves authInv (repoSaveRefreshToken i now u dev t e)"
proof (rule preservesI)
  fix d assume inv: "authInv d"
  have "authInv (d\<lparr>refreshTokens := insertRow r (refreshTokens d)\<rparr>)"
    if "\<not> existsRow (\<lambda>t. rt_userId t = rt_userId r \<and> rt_deviceId t = rt_deviceId r) (refreshTokens d)"
      "userExists (rt_userId r) d" for r
    using inv that by (auto simp: authInv_defs existsRow_iff image_iff)
  with inv show "authInv (snd (repoSaveRefreshToken i now u dev t e d))"
    by (auto simp: repoSaveRefreshToken_def Let_def intro!: authInv_sessions)
qed

lemma authInv_tokens:
  "preserves authInv (repoConsumePhoneVerificationToken env now token)"
  "preserves authInv (consumeKakaoPhoneVerificationToken env now token)"
  "preserves authInv (repoCreatePhoneVerificationToken env now token p v e)"
  "preserves authInv (repoCreateKakaoPhoneVerificationToken env now token w p m e)"
  "preserves authInv (insertIdentity i now u p)"
  by (auto simp: preserves_def repoConsumePhoneVerificationToken_def consumeKakaoPhoneVerificationToken_def
      repoCreatePhoneVerificationToken_def repoCreateKakaoPhoneVerificationToken_def insertIdentity_def Let_def
      authInv_defs phoneTokenLive_eq kakaoTokenLive_eq phoneTokens.consume_unique kakaoTokens.consume_unique
      keyTaken_iff userExists_def usePhoneToken_def intro!: list_all_updateWhere)

lemma authInv_reserve: "preserves authInv (reserveVerification i now p pu ip ag c l m)"
proof -
  have "authInv (d\<lparr>phoneVerifications := insertRow (newVerification i now p pu ip ag) (phoneVerifications d)\<rparr>)"
    if "authInv d" "\<not> keyTaken pv_id i (phoneVerifications d)" for d
    using that by (auto simp: authInv_defs newVerification_def keyTaken_iff list_all_iff MAX_CODE_ATTEMPTS_def userExists_def)
  then show ?thesis
    unfolding reserveVerification_def Let_def
    by (intro preserves_transaction) (auto simp: preserves_def)
qed

lemma authInv_reset: "preserves authInv (resetPasswordWithVerification now i p pw)"
  unfolding resetPasswordWithVerification_def Let_def
  by (intro preserves_intros authInv_updateVerifications preserves_modify authInv_users authInv_sessions)
     (simp_all add: uniqueSome_updateWhere authInv_defs)

interpretation accounts: auth_writes authInv env for env
proof
  show "preserves authInv (rotateRefreshToken now u dev x t e)" for now u dev x t e
    unfolding rotateRefreshToken_def Let_def
    by (intro preserves_intros preserves_modify authInv_sessions) simp_all
  show "preserves authInv (deleteRefreshToken u dev)" for u dev
    unfolding deleteRefreshToken_def by (intro preserves_modify authInv_sessions)
  show "preserves authInv (deleteVerification i)" for i
    by (rule preservesI)
       (auto simp: deleteVerification_def authInv_defs uniqueKey_deleteWhere list_all_iff userExists_def existsRow_iff
         image_except)
qed (auto simp: activateVerification_def claimVerificationAttempt_def markVerified_def
    intro!: authInv_insertUser authInv_setPhone authInv_restore authInv_saveRefresh authInv_tokens authInv_reserve
      authInv_reset authInv_updateVerifications)


section \<open>A phone token is spent once\<close>

text \<open>The requests that a phone token pays for.\<close>

datatype phoneTokenUse =
    UseSignup "nat \<Rightarrow> uuid" timestamp signupAuthInput jsstring
  | UseSignin "nat \<Rightarrow> uuid" timestamp signinAuthInput jsstring
  | UseKakao "nat \<Rightarrow> uuid" timestamp completeKakaoInput jsstring

fun runTokenUse :: "authEnv \<Rightarrow> phoneTokenUse \<Rightarrow> tokenPayload dbprog" where
  "runTokenUse env (UseSignup ids now input dev) = signup env ids now input dev"
| "runTokenUse env (UseSignin ids now input dev) = signin env ids now input dev"
| "runTokenUse env (UseKakao ids now input dev) = completeKakaoPhoneSignup env ids now input dev"

fun usedToken :: "phoneTokenUse \<Rightarrow> jsstring option" where
  "usedToken (UseSignup ids now input dev) = Some (si_phoneVerificationToken input)"
| "usedToken (UseSignin ids now input dev) = Some (in_phoneVerificationToken input)"
| "usedToken (UseKakao ids now input dev) =
     (if truthy (ck_phoneVerificationToken input) then ck_phoneVerificationToken input else None)"

lemma success_errors [success_simps]:
  "mapDuplicateUserError env m d = (Inr y, d') \<longleftrightarrow> m d = (Inr y, d')"
  "mapTokenConsumeError m d = (Inr y, d') \<longleftrightarrow> m d = (Inr y, d')"
  unfolding mapDuplicateUserError_def mapTokenConsumeError_def by (rule success_rethrow; simp)+

lemma success_inputs [success_simps]:
  "normalizeEmail e d = (Inr y, d') \<longleftrightarrow> d' = d \<and> y = trim e \<and> isValidEmail (trim e)"
  "normalizeUserName n d = (Inr y, d') \<longleftrightarrow> d' = d \<and> y = trim n \<and> trim n \<noteq> [] \<and>
     length (arrayFrom (trim n)) \<le> USER_NAME_MAX_LENGTH"
  "validatePassword pw d = (Inr y, d') \<longleftrightarrow> d' = d \<and> y = pw \<and> PASSWORD_MIN_BYTES \<le> byteLength pw \<and>
     byteLength pw \<le> BCRYPT_PASSWORD_MAX_BYTES"
  "normalizeSigninEmail e d = (Inr y, d') \<longleftrightarrow> d' = d \<and> y = trim e \<and> trim e \<noteq> [] \<and>
     length (arrayFrom (trim e)) \<le> EMAIL_MAX_LENGTH"
  "findPhoneVerificationToken env now token d = (Inr t, d') \<longleftrightarrow>
     d' = d \<and> repoFindPhoneVerificationToken env now token d = Some t"
  by (auto simp: normalizeEmail_def normalizeUserName_def validatePassword_def normalizeSigninEmail_def
      findPhoneVerificationToken_def Let_def success_simps)

lemma tokenUse_found:
  assumes "runTokenUse env x d = (Inr p, d')" and "usedToken x = Some token"
  shows "\<exists>now. repoFindPhoneVerificationToken env now token d \<noteq> None"
  using assms
  by (cases x) (auto simp: signup_def signin_def completeKakaoPhoneSignup_def completeKakaoWithPhone_def success_simps
     split: if_splits)

text \<open>The writes that spend the token; what follows them keeps it spent.\<close>

lemma consume_spends:
  assumes "authInv d" and "repoConsumePhoneVerificationToken env now token d = (Inr (Some t), d')"
  shows "phoneTokenSpent (hashToken env token) d'"
  using consumed_spent(1) [OF _ assms(2)] assms(1) by (simp add: authInv_defs)

lemma service_consume_spends:
  assumes "authInv d" and "consumePhoneVerificationToken env now token d = (Inr y, d')"
  shows "phoneTokenSpent (hashToken env token) d'"
  using assms by (auto simp: consumePhoneVerificationToken_def success_simps dest: consume_spends)

lemma consumeBoth_spends:
  assumes "authInv d" and "consumeBothTokens env now p k d = (Inr y, d')"
  shows "phoneTokenSpent (hashToken env p) d'"
  using assms
  by (auto simp: consumeBothTokens_def success_simps dest: consume_spends intro: preservesD [OF spent.consume_kakao])

lemma signup_spends:
  assumes "authInv d" and "signupWithPhoneVerificationToken env now i e pw n g token d = (Inr (Some u), d')"
  shows "phoneTokenSpent (hashToken env token) d'"
  using assms
  by (auto simp: signupWithPhoneVerificationToken_def Let_def success_simps dest!: consume_spends
      intro: preservesD [OF spent.insert_user])

lemma attach_spends:
  assumes "authInv d" and "attachPhoneWithKakaoPhoneVerificationTokens env now i ph p k d = (Inr u, d')"
  shows "phoneTokenSpent (hashToken env p) d'"
  using assms
  by (auto simp: attachPhoneWithKakaoPhoneVerificationTokens_def success_simps dest!: consumeBoth_spends
      intro: preservesD [OF spent.set_phone])

lemma createKakao_spends:
  assumes "authInv d" and "createKakaoPhoneUserWithTokens env i now w pid e n pw ph g p k d = (Inr u, d')"
  shows "phoneTokenSpent (hashToken env p) d'"
  using assms
  by (auto simp: createKakaoPhoneUserWithTokens_def Let_def success_simps dest!: consumeBoth_spends
      intro: preservesD [OF spent.insert_user] preservesD [OF spent.insert_identity])

lemma restoreGrace_spent: "preserves (phoneTokenSpent h) (restoreIfWithinGrace now i)"
  unfolding restoreIfWithinGrace_def validateUserUuid_def by (intro preserves_intros spent.restore)

lemmas kept_spent = preservesD [OF spent.issueTokens_keeps] preservesD [OF restoreGrace_spent]

lemma kakaoEmail_reads: "kakaoEmail env k d = (r, d') \<Longrightarrow> d' = d"
  by (auto simp: kakaoEmail_def normalizeEmail_def Let_def split: if_splits)

lemma tokenUse_spends:
  assumes "authInv d" and "runTokenUse env x d = (Inr p, d')" and "usedToken x = Some token"
  shows "phoneTokenSpent (hashToken env token) d'"
proof (cases x)
  case (UseSignup ids now input dev)
  with assms show ?thesis
    by (auto simp: signup_def success_simps dest!: signup_spends intro: kept_spent)
next
  case (UseSignin ids now input dev)
  with assms show ?thesis
    by (auto simp: signin_def success_simps dest!: service_consume_spends
        intro: kept_spent preservesD [OF restoreGrace_spent])
next
  case (UseKakao ids now input dev)
  with assms show ?thesis
    by (auto simp: completeKakaoPhoneSignup_def completeKakaoWithPhone_def success_simps split: if_splits
        dest!: kakaoEmail_reads createKakao_spends [rotated] attach_spends [rotated] intro: kept_spent)
qed

text \<open>C4. A phone verification token pays for one sign-up, sign-in or Kakao completion: once one of these has
  succeeded with it, none succeeds with it again, whatever requests come in between.\<close>

theorem phone_token_used_once:
  assumes "authInv d" and "runTokenUse env x d = (Inr p, d')" and "usedToken x = Some token"
    and "usedToken y = Some token"
  shows "\<exists>e. fst (runTokenUse env y (foldl (stepAuth env pepper) d' es)) = Inl e"
proof (cases "runTokenUse env y (foldl (stepAuth env pepper) d' es)")
  case (Pair r t)
  have "phoneTokenSpent (hashToken env token) (foldl (stepAuth env pepper) d' es)"
    by (rule spent.run_inv) (rule tokenUse_spends [OF assms(1-3)])
  then have "repoFindPhoneVerificationToken env now token (foldl (stepAuth env pepper) d' es) = None" for now
    by (rule spent_not_found)
  then show ?thesis
    using tokenUse_found [of env y "foldl (stepAuth env pepper) d' es" _ t token] assms(4) Pair by (cases r) auto
qed

text \<open>The requests of clients that are not signed in keep the accounts apart.\<close>

lemma accounts_unique:
  assumes "authInv d"
  shows "authInv (foldl (stepAuth env pepper) d es)"
  using assms by (rule accounts.run_inv)

section \<open>Sessions\<close>

text \<open>Issuing tokens stores the hash of the refresh token as the session of the device.\<close>

lemma saveRefreshToken_stores:
  assumes "repoSaveRefreshToken i now u dev t e d = (Inr y, d')"
  shows "\<exists>s. findRefreshToken u dev d' = Some s \<and> rt_refreshToken s = t \<and> rt_refreshTokenExp s = e"
proof -
  let ?P = "\<lambda>t. rt_userId t = pgUuid u \<and> rt_deviceId t = dev"
  show ?thesis
  proof (cases "existsRow ?P (refreshTokens d)")
    case True
    then obtain s where "findFirst ?P (refreshTokens d) = Some s"
      by (metis existsRow_iff findFirst_None_iff option.exhaust)
    with findFirst_SomeD [OF this] True assms show ?thesis
      by (auto simp: repoSaveRefreshToken_def findRefreshToken_def findFirst_updateWhere Let_def)
  next
    case False
    then have "findFirst ?P (refreshTokens d) = None"
      by (auto simp: existsRow_iff findFirst_None_iff)
    with False assms show ?thesis
      by (auto simp: repoSaveRefreshToken_def findRefreshToken_def findFirst_insertRow Let_def split: if_splits)
  qed
qed

lemma issueTokens_session:
  assumes "issueTokens env i now u dev d = (Inr p, d')"
  obtains s e where "findRefreshToken (u_userId u) dev d' = Some s"
    "rt_refreshToken s = bcryptHash env (tp_refreshToken p)" "decodeExp env (tp_refreshToken p) = Some e"
    "rt_refreshTokenExp s = e * 1000"
  using assms
  by (auto simp: issueTokens_def saveRefreshToken_def prepareRefreshToken_def Let_def success_simps
      split: prod.splits if_splits dest!: saveRefreshToken_stores)

text \<open>C18. Who signs in knows the password of the account and holds a live token for its phone; the
  token is spent and the device has a session with the token that was returned.\<close>

theorem signin_checks:
  assumes "authInv d" and "signin env ids now input dev d = (Inr p, d')"
  shows "\<exists>u \<in> set (users d). (u_email u = trim (in_email input) \<or> u_email u = in_email input) \<and>
      bcryptCompare env (in_password input) (u_password u) \<and>
      (\<exists>t \<in> set (phoneVerificationTokens d).
         phoneTokenLive now (hashToken env (in_phoneVerificationToken input)) t \<and> u_phone u = Some (pt_phoneE164 t)) \<and>
      phoneTokenSpent (hashToken env (in_phoneVerificationToken input)) d' \<and>
      (\<exists>s. findRefreshToken (u_userId u) dev d' = Some s \<and> rt_refreshToken s = bcryptHash env (tp_refreshToken p))"
proof -
  have spent: "phoneTokenSpent (hashToken env (in_phoneVerificationToken input)) d'"
    using tokenUse_spends [OF assms(1), of env "UseSignin ids now input dev" p d'] assms(2) by simp
  from assms(2) obtain u t d1 where u: "u \<in> set (users d)"
      "u_email u = trim (in_email input) \<or> u_email u = in_email input"
      "bcryptCompare env (in_password input) (u_password u)"
    and t: "repoFindPhoneVerificationToken env now (in_phoneVerificationToken input) d = Some t"
      "u_phone u = Some (pt_phoneE164 t)"
    and i: "issueTokens env (ids 2) now u dev d1 = (Inr p, d')"
    by (auto simp: signin_def success_simps repoSignin_def split: option.splits if_splits dest!: findFirst_SomeD)
  from findFirst_SomeD [OF t(1) [unfolded repoFindPhoneVerificationToken_def]] t(2) u spent issueTokens_session [OF i]
  show ?thesis by blast
qed

section \<open>Codes\<close>

lemma latestOf_None [simp]: "latestOf vs = None \<longleftrightarrow> vs = []"
  by (cases vs) (auto split: option.splits)

lemma latestOf_SomeD:
  "latestOf vs = Some v \<Longrightarrow> v \<in> set vs \<and> (\<forall>w \<in> set vs. verificationKey w \<le> verificationKey v)"
proof (induction vs arbitrary: v)
  case (Cons w vs)
  then show ?case
    by (auto split: option.splits if_splits)
qed simp

lemma latestOf_map:
  "(\<And>v. verificationKey (g v) = verificationKey v) \<Longrightarrow> latestOf (map g vs) = map_option g (latestOf vs)"
  by (induction vs) (auto split: option.splits)

lemma latestVerification_SomeD:
  assumes "latestVerification p d = Some v"
  shows "v \<in> set (phoneVerifications d)" "pv_phoneE164 v = p" "isLatestVerification d v"
    "\<And>w. w \<in> set (phoneVerifications d) \<Longrightarrow> pv_phoneE164 w = p \<Longrightarrow> verificationKey w \<le> verificationKey v"
  using latestOf_SomeD [OF assms [unfolded latestVerification_def]]
  by (auto simp: isLatestVerification_def existsRow_iff verificationKey_def)

lemma latestVerification_update:
  assumes "\<And>v. verificationKey (f v) = verificationKey v \<and> pv_phoneE164 (f v) = pv_phoneE164 v"
  shows "latestVerification p (d\<lparr>phoneVerifications := updateWhere P f (phoneVerifications d)\<rparr>) =
    map_option (\<lambda>v. if P v then f v else v) (latestVerification p d)"
proof -
  let ?g = "\<lambda>v. if P v then f v else v"
  have "filter (\<lambda>v. pv_phoneE164 v = p) (map ?g vs) = map ?g (filter (\<lambda>v. pv_phoneE164 v = p) vs)" for vs
    using assms by (induction vs) auto
  with assms show ?thesis
    by (simp add: latestVerification_def updateWhere_def latestOf_map)
qed

text \<open>The latest verification of a phone is the only row that counts as latest.\<close>

lemma latest_unique:
  assumes "verificationKeys d" and "latestVerification p d = Some v" and "w \<in> set (phoneVerifications d)"
    and "pv_phoneE164 w = p" and "isLatestVerification d w"
  shows "w = v"
proof -
  note v = latestVerification_SomeD [OF assms(2)]
  have "pv_id w = pv_id v"
    using v(4) [OF assms(3,4)] assms(4,5) v(1,2)
    by (auto simp: isLatestVerification_def existsRow_iff verificationKey_def less_eq_prod_def)
  then show ?thesis
    using uniqueKey_inj [of pv_id "phoneVerifications d" w v] assms(1,3) v(1) by (simp add: verificationKeys_def)
qed

text \<open>The row \<open>v\<close> replaced by \<open>v'\<close>.\<close>

definition replaced :: "phoneVerification \<Rightarrow> phoneVerification \<Rightarrow> db \<Rightarrow> db" where
  "replaced v v' d = d\<lparr>phoneVerifications := updateWhere (\<lambda>w. w = v) (\<lambda>_. v') (phoneVerifications d)\<rparr>"

text \<open>An update that can only meet the latest verification.\<close>

lemma updateVerifications_latest:
  assumes "verificationKeys d" and v: "latestVerification p d = Some v"
    and only: "\<And>w. w \<in> set (phoneVerifications d) \<Longrightarrow> P d w \<Longrightarrow> w = v"
  shows "updateVerifications P f d = (if P d v then (Inr (Some (f v)), replaced v (f v) d) else (Inr None, d))"
proof -
  have "distinct (phoneVerifications d)"
    using assms(1) by (simp add: verificationKeys_def uniqueKey_def distinct_map)
  then have f: "filter (P d) (phoneVerifications d) = (if P d v then [v] else [])"
    using latestVerification_SomeD(1) [OF v] only by (rule filter_only)
  have "updateWhere (P d) f (phoneVerifications d) = (if P d v
      then updateWhere (\<lambda>w. w = v) (\<lambda>_. f v) (phoneVerifications d) else phoneVerifications d)"
  proof (cases "P d v")
    case True
    have "(if P d w then f w else w) = (if w = v then f v else w)" if "w \<in> set (phoneVerifications d)" for w
      using only [OF that] True by metis
    then show ?thesis
      using True unfolding updateWhere_def by (simp cong: map_cong)
  next
    case False
    then have "\<not> P d w" if "w \<in> set (phoneVerifications d)" for w
      using only [OF that] by metis
    with False show ?thesis
      by (simp add: updateWhere_none)
  qed
  with f show ?thesis
    by (simp add: updateVerifications_def returning_def replaced_def)
qed

lemma replaced_latest:
  assumes "latestVerification p d = Some v" and "verificationKey v' = verificationKey v" and "pv_phoneE164 v' = pv_phoneE164 v"
  shows "latestVerification p (replaced v v' d) = Some v'"
proof -
  have "updateWhere (\<lambda>w. w = v) (\<lambda>_. v') t = updateWhere (\<lambda>w. w = v) (\<lambda>w. if w = v then v' else w) t" for t
    by (simp add: updateWhere_def)
  with assms show ?thesis
    unfolding replaced_def by (simp add: latestVerification_update)
qed

lemma replaced_keys:
  assumes "verificationKeys d" and "pv_id v' = pv_id v" and "0 \<le> pv_attemptCount v'" "pv_attemptCount v' \<le> MAX_CODE_ATTEMPTS"
  shows "verificationKeys (replaced v v' d)"
proof -
  have "map pv_id (updateWhere (\<lambda>w. w = v) (\<lambda>_. v') t) = map pv_id t" for t
    using assms(2) by (intro map_updateWhere) auto
  then have "pv_id ` set (updateWhere (\<lambda>w. w = v) (\<lambda>_. v') t) = pv_id ` set t" "uniqueKey pv_id (updateWhere (\<lambda>w. w = v) (\<lambda>_. v') t) = uniqueKey pv_id t" for t
    by (metis list.set_map, simp add: uniqueKey_def)
  with assms show ?thesis
    by (simp add: verificationKeys_def replaced_def list_all_updateWhere)
qed

text \<open>An attempt at the latest verification: either the row cannot be claimed and nothing happens, or
  its count goes up by one and the code decides.\<close>

definition claimable :: "timestamp \<Rightarrow> jsstring list \<Rightarrow> phoneVerification \<Rightarrow> bool" where
  "claimable now purposes v \<longleftrightarrow> pv_purpose v \<in> set purposes \<and> pv_verifiedAt v = None \<and> now < pv_expiresAt v \<and>
     pv_attemptCount v < MAX_CODE_ATTEMPTS \<and> canonicalUuid (pv_id v)"

definition attempt :: "phoneVerification \<Rightarrow> phoneVerification" where
  "attempt v = v\<lparr>pv_attemptCount := pv_attemptCount v + 1\<rparr>"

lemma claim_latest:
  assumes "verificationKeys d" and v: "latestVerification p d = Some v"
  shows "claimVerificationAttempt now (pv_id v) p ps d =
    (if claimable now ps v then (Inr (Some (attempt v)), replaced v (attempt v) d) else (Inr None, d))"
proof -
  let ?P = "\<lambda>d w. pv_id w = pgUuid (pv_id v) \<and> pv_phoneE164 w = p \<and> List.member ps (pv_purpose w) \<and>
        pv_verifiedAt w = None \<and> now < pv_expiresAt w \<and> pv_attemptCount w < MAX_CODE_ATTEMPTS \<and>
        isLatestVerification d w"
  have "updateVerifications ?P f d = (if ?P d v then (Inr (Some (f v)), replaced v (f v) d) else (Inr None, d))" for f
    by (rule updateVerifications_latest [OF assms]) (auto intro: latest_unique [OF assms])
  moreover have "?P d v = claimable now ps v"
    using latestVerification_SomeD [OF v] by (auto simp: claimable_def canonicalUuid_def)
  ultimately show ?thesis
    by (simp add: claimVerificationAttempt_def attempt_def)
qed

lemma checkCode_latest:
  assumes "verificationKeys d" and "latestVerification p d = Some v"
  shows "checkCode env pepper now (pv_id v) p ps code d =
    (if \<not> claimable now ps v then (Inl (Unauthorized ''InvalidPhoneCode''), d)
     else if bcryptCompare env (pepperedCode pepper p code) (pv_codeHash v) then (Inr (attempt v), replaced v (attempt v) d)
     else (Inl (Unauthorized ''InvalidPhoneCode''), replaced v (attempt v) d))"
  using claim_latest [OF assms, of now ps]
  by (auto simp: checkCode_def andThen_def throwIf_apply attempt_def)

lemma attempt_latest:
  assumes "verificationKeys d" and "latestVerification p d = Some v" and "claimable now ps v"
  shows "latestVerification p (replaced v (attempt v) d) = Some (attempt v)"
    "verificationKeys (replaced v (attempt v) d)" "0 \<le> pv_attemptCount v"
proof -
  show a: "0 \<le> pv_attemptCount v"
    using assms(1) latestVerification_SomeD(1) [OF assms(2)] by (auto simp: verificationKeys_def list_all_iff)
  show "latestVerification p (replaced v (attempt v) d) = Some (attempt v)"
    by (rule replaced_latest [OF assms(2)]) (simp_all add: attempt_def verificationKey_def)
  show "verificationKeys (replaced v (attempt v) d)"
    using a assms(3) by (intro replaced_keys [OF assms(1)]) (simp_all add: attempt_def claimable_def)
qed

lemma markVerified_latest:
  assumes "verificationKeys d" and v: "latestVerification p d = Some v" and "canonicalUuid (pv_id v)"
  shows "markVerified now (pv_id v) d =
    (if pv_verifiedAt v = None \<and> now < pv_expiresAt v \<and> 0 < pv_attemptCount v
     then (Inr (Some (v\<lparr>pv_verifiedAt := Some now\<rparr>)), replaced v (v\<lparr>pv_verifiedAt := Some now\<rparr>) d)
     else (Inr None, d))"
proof -
  let ?P = "\<lambda>d w. pv_id w = pgUuid (pv_id v) \<and> pv_verifiedAt w = None \<and> now < pv_expiresAt w \<and> 0 < pv_attemptCount w \<and>
        isLatestVerification d w"
  have latest: "isLatestVerification d v" "v \<in> set (phoneVerifications d)"
    using latestVerification_SomeD [OF v] by simp_all
  have "updateVerifications ?P f d = (if ?P d v then (Inr (Some (f v)), replaced v (f v) d) else (Inr None, d))" for f
    using uniqueKey_inj [of pv_id "phoneVerifications d" _ v] latest assms(1,3)
    by (intro updateVerifications_latest [OF assms(1,2)]) (auto simp: verificationKeys_def)
  with latest assms(3) show ?thesis
    by (auto simp: markVerified_def)
qed

lemma normalizeKoreanPhone_Inr:
  "normalizeKoreanPhone phone d = (Inr p, d') \<Longrightarrow> normalizeKoreanPhone phone = ret p \<and> d' = d"
  by (auto simp: normalizeKoreanPhone_def Let_def split: if_splits)

definition codePurposes :: "jsstring list" where
  "codePurposes = [js ''signup'', js ''login'']"

text \<open>Verifying a code, once the latest verification of the phone is known.\<close>

lemma verifyPhoneCode_latest:
  assumes "normalizeKoreanPhone phone = ret p" and "latestVerification p d = Some v"
  shows "verifyPhoneCode env pepper ids now phone code dev d =
    (if pv_verifiedAt v \<noteq> None then (Inl (Unauthorized ''InvalidPhoneCode''), d)
     else if MAX_CODE_ATTEMPTS \<le> pv_attemptCount v then (Inl (TooManyRequests ''PhoneCodeAttemptLimitExceeded''), d)
     else if pv_purpose v \<notin> set codePurposes then (Inl (Unauthorized ''InvalidPhoneCode''), d)
     else andThen (checkCode env pepper now (pv_id v) p codePurposes code) (\<lambda>claimed.
       andThen (markVerified now (pv_id claimed)) (\<lambda>verified.
       case verified of
         None \<Rightarrow> throw (Unauthorized ''InvalidPhoneCode'')
       | Some v \<Rightarrow>
           andThen (query (findUserByPhone p)) (\<lambda>user.
           case user of
             Some u \<Rightarrow> andThen (issueTokensForUser env (ids 2) now u dev) (\<lambda>t. ret (ExistingUser t))
           | None \<Rightarrow> andThen (createPhoneVerificationToken env (ids 0) now p (pv_id v)) (\<lambda>t.
               ret (NewPhone t))))) d)"
  using assms
  by (simp add: verifyPhoneCode_def getUsableVerification_def codePurposes_def truthy_def andThen_assoc)

lemma verifyPhoneCode_unknown:
  assumes "normalizeKoreanPhone phone = ret p" and "latestVerification p d = None"
  shows "verifyPhoneCode env pepper ids now phone code dev d = (Inl (Unauthorized ''InvalidPhoneCode''), d)"
  using assms by (simp add: verifyPhoneCode_def getUsableVerification_def andThen_assoc)

text \<open>Issuing a session or a phone token leaves the verifications alone.\<close>

lemma issue_verifications:
  "preserves (\<lambda>d. phoneVerifications d = V) (issueTokensForUser env i now u dev)"
  "preserves (\<lambda>d. phoneVerifications d = V) (createPhoneVerificationToken env i now p v)"
  unfolding issueTokensForUser_def issueTokens_def saveRefreshToken_def prepareRefreshToken_def repoSaveRefreshToken_def
    createPhoneVerificationToken_def repoCreatePhoneVerificationToken_def Let_def
  by (intro preserves_intros preserves_modify; simp)+

lemma verifyPhoneCode_success:
  assumes "authInv d" and "verifyPhoneCode env pepper ids now phone code dev d = (Inr r, d')"
  obtains p v where "normalizeKoreanPhone phone = ret p" "latestVerification p d = Some v"
    "claimable now codePurposes v" "bcryptCompare env (pepperedCode pepper p code) (pv_codeHash v)"
    "latestVerification p d' = Some ((attempt v)\<lparr>pv_verifiedAt := Some now\<rparr>)"
proof -
  from assms(2) obtain p where p: "normalizeKoreanPhone phone = ret p"
    by (auto simp: verifyPhoneCode_def success_simps dest: normalizeKoreanPhone_Inr)
  with assms(2) verifyPhoneCode_unknown [OF p] obtain v where v: "latestVerification p d = Some v"
    by (cases "latestVerification p d") auto
  have keys: "verificationKeys d"
    using assms(1) by (simp add: authInv_def)
  let ?w = "attempt v" and ?x = "(attempt v)\<lparr>pv_verifiedAt := Some now\<rparr>"
  have c: "claimable now codePurposes v" and b: "bcryptCompare env (pepperedCode pepper p code) (pv_codeHash v)"
    using assms(2) verifyPhoneCode_latest [OF p v] checkCode_latest [OF keys v]
    by (auto simp: success_simps andThen_def split: if_splits)
  note w = attempt_latest [OF keys v c]
  have m: "markVerified now (pv_id ?w) (replaced v ?w d) = (Inr (Some ?x), replaced ?w ?x (replaced v ?w d))"
    using markVerified_latest [OF w(2,1)] w(3) c by (simp add: attempt_def claimable_def)
  have "phoneVerifications d' = phoneVerifications (replaced ?w ?x (replaced v ?w d))"
    using assms(2) verifyPhoneCode_latest [OF p v] checkCode_latest [OF keys v] c b m
      preservesD [OF issue_verifications(1) refl] preservesD [OF issue_verifications(2) refl]
    by (auto simp: success_simps split: if_splits)
  moreover have "latestVerification p (replaced ?w ?x (replaced v ?w d)) = Some ?x"
    using w(1) by (rule replaced_latest) (simp_all add: verificationKey_def)
  ultimately have "latestVerification p d' = Some ?x"
    by (simp add: latestVerification_def)
  with p v c b that show ?thesis by blast
qed

section \<open>The bound on attempts\<close>

text \<open>A wrong guess at a verification that can still be claimed counts; nothing else changes.\<close>

lemma wrong_guess:
  assumes "verificationKeys d" and "normalizeKoreanPhone phone = ret p" and "latestVerification p d = Some v"
    and "claimable now codePurposes v" and "\<not> bcryptCompare env (pepperedCode pepper p code) (pv_codeHash v)"
  shows "verifyPhoneCode env pepper ids now phone code dev d =
    (Inl (Unauthorized ''InvalidPhoneCode''), replaced v (attempt v) d)"
  using assms(4,5) verifyPhoneCode_latest [OF assms(2,3)] checkCode_latest [OF assms(1,3)]
  by (auto simp: claimable_def)

text \<open>A guess: the time, the code and the device.\<close>

type_synonym guess = "timestamp \<times> jsstring \<times> jsstring"

definition wrongGuess :: "authEnv \<Rightarrow> jsstring \<Rightarrow> jsstring \<Rightarrow> phoneVerification \<Rightarrow> guess \<Rightarrow> bool" where
  "wrongGuess env pepper p v g = (case g of (now, code, dev) \<Rightarrow>
     now < pv_expiresAt v \<and> \<not> bcryptCompare env (pepperedCode pepper p code) (pv_codeHash v))"

definition guessCode ::
  "authEnv \<Rightarrow> jsstring \<Rightarrow> (nat \<Rightarrow> uuid) \<Rightarrow> jsstring \<Rightarrow> db \<Rightarrow> guess \<Rightarrow> db" where
  "guessCode env pepper ids phone d g = (case g of (now, code, dev) \<Rightarrow>
     snd (verifyPhoneCode env pepper ids now phone code dev d))"

lemma wrong_guesses:
  assumes "verificationKeys d" and "normalizeKoreanPhone phone = ret p" and "latestVerification p d = Some v"
    and "pv_verifiedAt v = None" and "pv_purpose v \<in> set codePurposes" and "canonicalUuid (pv_id v)"
    and "list_all (wrongGuess env pepper p v) gs"
  shows "latestVerification p (foldl (guessCode env pepper ids phone) d gs) =
    Some (v\<lparr>pv_attemptCount := min 5 (pv_attemptCount v + int (length gs))\<rparr>)"
  using assms
proof (induction gs arbitrary: d v)
  case Nil
  then have "pv_attemptCount v \<le> 5"
    using latestVerification_SomeD(1) by (fastforce simp: verificationKeys_def list_all_iff MAX_CODE_ATTEMPTS_def)
  with Nil show ?case by simp
next
  case (Cons g gs)
  obtain now code dev where g: "g = (now, code, dev)" by (cases g)
  show ?case
  proof (cases "pv_attemptCount v < MAX_CODE_ATTEMPTS")
    case True
    with Cons.prems g have c: "claimable now codePurposes v"
      by (simp add: claimable_def wrongGuess_def)
    have "guessCode env pepper ids phone d g = replaced v (attempt v) d"
      using wrong_guess [OF Cons.prems(1-3) c] Cons.prems(7) g by (simp add: guessCode_def wrongGuess_def)
    moreover have "list_all (wrongGuess env pepper p (attempt v)) gs"
      using Cons.prems(7) by (auto simp: list_all_iff wrongGuess_def attempt_def)
    ultimately show ?thesis
      using Cons.IH [OF attempt_latest(2) [OF Cons.prems(1,3) c] Cons.prems(2)
          attempt_latest(1) [OF Cons.prems(1,3) c]] Cons.prems
      by (simp add: attempt_def algebra_simps)
  next
    case False
    then have "guessCode env pepper ids phone d g = d" "5 \<le> pv_attemptCount v"
      using verifyPhoneCode_latest [OF Cons.prems(2,3)] Cons.prems(4) g
      by (simp_all add: guessCode_def MAX_CODE_ATTEMPTS_def)
    with Cons show ?thesis by simp
  qed
qed

text \<open>After five wrong guesses at the code of a phone, every further code is refused without being
  compared, the right one too, until another code is requested.\<close>

lemma code_attempts_bounded:
  assumes "authInv d" and "normalizeKoreanPhone phone = ret p" and "latestVerification p d = Some v"
    and "pv_verifiedAt v = None" and "pv_purpose v \<in> set codePurposes" and "canonicalUuid (pv_id v)"
    and "list_all (wrongGuess env pepper p v) gs" and "5 \<le> length gs"
    and "d' = foldl (guessCode env pepper ids phone) d gs"
  shows "verifyPhoneCode env pepper ids' now phone code dev d' =
    (Inl (TooManyRequests ''PhoneCodeAttemptLimitExceeded''), d')"
proof -
  have keys: "verificationKeys d" and "0 \<le> pv_attemptCount v"
    using assms(1) latestVerification_SomeD(1) [OF assms(3)] by (auto simp: authInv_defs list_all_iff)
  with assms(8) have "min 5 (pv_attemptCount v + int (length gs)) = 5"
    by simp
  with wrong_guesses [OF keys assms(2-7)] assms(9)
  have "latestVerification p d' = Some (v\<lparr>pv_attemptCount := 5\<rparr>)"
    by simp
  with verifyPhoneCode_latest [OF assms(2)] assms(4) show ?thesis
    by (simp add: MAX_CODE_ATTEMPTS_def)
qed

section \<open>The quotas on codes\<close>

text \<open>What a reservation says of the requests before it.\<close>

lemma reserve_Reserved:
  assumes "reserveVerification i now p pu ip ag c l m d = (Inr (Reserved v), d')"
  shows "v = newVerification i now p pu ip ag" "i \<notin> pv_id ` set (phoneVerifications d)"
    "d' = d\<lparr>phoneVerifications := insertRow v (phoneVerifications d)\<rparr>"
    "requestsSince (\<lambda>v. pv_phoneE164 v = p) (now - 60 * 60 * 1000) d < l"
    "requestsSince (\<lambda>v. pv_requestIpHash v = Some ip) (now - 60 * 60 * 1000) d < m"
    "\<And>w. w \<in> set (phoneVerifications d) \<Longrightarrow> pv_phoneE164 w = p \<Longrightarrow> pv_createdAt w \<le> now - c"
proof -
  show "v = newVerification i now p pu ip ag" "i \<notin> pv_id ` set (phoneVerifications d)"
    "d' = d\<lparr>phoneVerifications := insertRow v (phoneVerifications d)\<rparr>"
    "requestsSince (\<lambda>v. pv_phoneE164 v = p) (now - 60 * 60 * 1000) d < l"
    "requestsSince (\<lambda>v. pv_requestIpHash v = Some ip) (now - 60 * 60 * 1000) d < m"
    using assms by (auto simp: reserveVerification_def Let_def success_simps keyTaken_iff split: if_splits)
  fix w assume w: "w \<in> set (phoneVerifications d)" "pv_phoneE164 w = p"
  then obtain z where z: "latestVerification p d = Some z"
    by (cases "latestVerification p d") (auto simp: latestVerification_def filter_empty_conv)
  then have "now - pv_createdAt z \<ge> c"
    using assms by (auto simp: reserveVerification_def Let_def success_simps split: if_splits)
  moreover have "pv_createdAt w \<le> pv_createdAt z"
    using latestVerification_SomeD(4) [OF z w] by (auto simp: verificationKey_def less_eq_prod_def)
  ultimately show "pv_createdAt w \<le> now - c" by simp
qed

lemma reserve_other:
  "reserveVerification i now p pu ip ag c l m d = (Inr r, d') \<Longrightarrow> (\<And>v. r \<noteq> Reserved v) \<Longrightarrow> d' = d"
  by (auto simp: reserveVerification_def Let_def success_simps split: if_splits)

lemma reserve_error: "reserveVerification i now p pu ip ag c l m d = (Inl e, d') \<Longrightarrow> d' = d"
  unfolding reserveVerification_def by (rule transaction_rolls_back)

text \<open>The code that was sent makes its reservation the active one.\<close>

lemma activate_reserved:
  assumes "verificationKeys d" and "canonicalUuid i" and "d' = d\<lparr>phoneVerifications := insertRow v (phoneVerifications d)\<rparr>"
    and "v = newVerification i now p pu ip ag" and "i \<notin> pv_id ` set (phoneVerifications d)"
    and "\<And>w. w \<in> set (phoneVerifications d) \<Longrightarrow> pv_phoneE164 w = p \<Longrightarrow> pv_createdAt w < now"
  shows "activateVerification now i h ttl d' =
    (Inr (Some (v\<lparr>pv_codeHash := h, pv_expiresAt := now + ttl\<rparr>)),
     d\<lparr>phoneVerifications := insertRow (v\<lparr>pv_codeHash := h, pv_expiresAt := now + ttl\<rparr>) (phoneVerifications d)\<rparr>)"
proof -
  have id: "pv_id v = i" "pv_codeHash v = js ''pending''" "pv_phoneE164 v = p" "pv_createdAt v = now"
    by (simp_all add: assms(4) newVerification_def)
  have "isLatestVerification d' v"
    using assms(6) id by (fastforce simp: isLatestVerification_def existsRow_iff assms(3))
  moreover have "pv_id w \<noteq> i" if "w \<in> set (phoneVerifications d)" for w
    using assms(5) that by auto
  ultimately show ?thesis
    using id assms(2)
    by (simp add: activateVerification_def updateVerifications_def assms(3) insertRow_def returning_def updateWhere_def
        map_idI cong: map_cong)
qed


lemma delete_reserved:
  assumes "verificationKeys d" and "canonicalUuid i" and "i \<notin> pv_id ` set (phoneVerifications d)" and "pv_id v = i"
  shows "deleteVerification i (d\<lparr>phoneVerifications := insertRow v (phoneVerifications d)\<rparr>) = (Inr (), d)"
proof -
  have "\<not> existsRow (\<lambda>t. pt_verificationId t = i) (phoneVerificationTokens d)"
    using assms(1,3) by (auto simp: verificationKeys_def existsRow_iff list_all_iff)
  then show ?thesis
    using assms(2) deleteWhere_insertRow_fresh [OF assms(3,4)] by (simp add: deleteVerification_def)
qed

lemma latest_inserted:
  assumes "\<And>w. w \<in> set (phoneVerifications d) \<Longrightarrow> pv_phoneE164 w = pv_phoneE164 v \<Longrightarrow> pv_createdAt w < pv_createdAt v"
  shows "latestVerification (pv_phoneE164 v) (d\<lparr>phoneVerifications := insertRow v (phoneVerifications d)\<rparr>) = Some v"
proof -
  let ?d = "d\<lparr>phoneVerifications := insertRow v (phoneVerifications d)\<rparr>"
  obtain w where w: "latestVerification (pv_phoneE164 v) ?d = Some w"
    by (cases "latestVerification (pv_phoneE164 v) ?d") (auto simp: latestVerification_def insertRow_def filter_empty_conv)
  from latestVerification_SomeD [OF w] have "w \<in> insert v (set (phoneVerifications d))" "pv_phoneE164 w = pv_phoneE164 v"
    "verificationKey v \<le> verificationKey w"
    by simp_all
  with assms [of w] w show ?thesis
    by (auto simp: verificationKey_def less_eq_prod_def)
qed

definition activeCode :: "authEnv \<Rightarrow> jsstring \<Rightarrow> nat \<Rightarrow> timestamp \<Rightarrow> phoneVerification \<Rightarrow> phoneVerification" where
  "activeCode env pepper n now v =
     v\<lparr>pv_codeHash := bcryptHash env (pepperedCode pepper (pv_phoneE164 v) (codeText n)), pv_expiresAt := now + 5 * 60000\<rparr>"

lemma requestPhoneCode_cases:
  assumes "verificationKeys d" and "canonicalUuid i"
    and "requestPhoneCode env pepper send n i now phone purpose ip agent d = (r, d')"
  shows "(\<exists>e. r = Inl e) \<and> d' = d \<or>
    (\<exists>p v. r = Inr True \<and> normalizeKoreanPhone phone = ret p \<and> send p (codeText n) \<and>
       reserveVerification i now p purpose (sha256Hex env (if truthy ip then the ip else js ''no-ip''))
         (sha256Hex env (case agent of None \<Rightarrow> [] | Some a \<Rightarrow> a)) 60000 5 20 d =
         (Inr (Reserved v), d\<lparr>phoneVerifications := insertRow v (phoneVerifications d)\<rparr>) \<and>
       d' = d\<lparr>phoneVerifications := insertRow (activeCode env pepper n now v) (phoneVerifications d)\<rparr>)"
proof (cases "List.member PhoneVerificationPurpose purpose \<and> (\<exists>p. normalizeKoreanPhone phone = ret p)")
  case False
  have "(\<exists>p. normalizeKoreanPhone phone = ret p) \<or> (\<exists>e. normalizeKoreanPhone phone = throw e)"
    by (auto simp: normalizeKoreanPhone_def Let_def)
  with False assms(3) show ?thesis
    by (auto simp: requestPhoneCode_def andThen_def throwIf_apply split: if_splits)
next
  case True
  then obtain p where p: "normalizeKoreanPhone phone = ret p" and pu: "List.member PhoneVerificationPurpose purpose"
    by blast
  let ?R = "reserveVerification i now p purpose (sha256Hex env (if truthy ip then the ip else js ''no-ip''))
         (sha256Hex env (case agent of None \<Rightarrow> [] | Some a \<Rightarrow> a)) 60000 5 20 d"
  show ?thesis
  proof (cases "\<exists>v d1. ?R = (Inr (Reserved v), d1)")
    case True
    then obtain v d1 where R: "?R = (Inr (Reserved v), d1)" by blast
    note v = reserve_Reserved [OF R]
    have id: "pv_id v = i" "pv_phoneE164 v = p" by (simp_all add: v(1) newVerification_def)
    have fresh: "pv_createdAt w < now" if "w \<in> set (phoneVerifications d)" "pv_phoneE164 w = p" for w
      using v(6) [OF that] by simp
    note act = activate_reserved [OF assms(1,2) v(3,1,2) fresh]
    from R p pu assms(3) id(1) act delete_reserved [OF assms(1,2) v(2) id(1)] show ?thesis
      by (auto simp: requestPhoneCode_def tryCatch_def throwIf_apply activeCode_def v(3) id(2) Let_def split: if_splits)
  next
    case False
    with p pu assms(3) reserve_other [of i now p] reserve_error [of i now p] show ?thesis
      by (cases ?R; cases "fst ?R") (auto simp: requestPhoneCode_def Let_def split: verificationReservation.splits)
  qed
qed

text \<open>C23. A code is sent at most once a minute and five times an hour to a phone, and twenty times an
  hour for an address; the code that was sent is then the one the phone is checked against. A request
  that fails, in the delivery too, leaves nothing behind.\<close>

theorem code_requests_limited:
  assumes "authInv d" and "canonicalUuid i"
    and "requestPhoneCode env pepper send n i now phone purpose ip agent d = (r, d')"
  shows "if \<exists>e. r = Inl e then d' = d
    else \<exists>p v. normalizeKoreanPhone phone = ret p \<and> send p (codeText n) \<and> latestVerification p d' = Some v \<and>
      d' = d\<lparr>phoneVerifications := insertRow v (phoneVerifications d)\<rparr> \<and>
      pv_codeHash v = bcryptHash env (pepperedCode pepper p (codeText n)) \<and> pv_expiresAt v = now + 5 * 60000 \<and>
      pv_attemptCount v = 0 \<and> pv_verifiedAt v = None \<and>
      requestsSince (\<lambda>w. pv_phoneE164 w = p) (now - 60 * 60 * 1000) d' \<le> 5 \<and>
      requestsSince (\<lambda>w. pv_requestIpHash w = pv_requestIpHash v) (now - 60 * 60 * 1000) d' \<le> 20 \<and>
      list_all (\<lambda>w. pv_phoneE164 w = p \<longrightarrow> 60000 \<le> now - pv_createdAt w) (phoneVerifications d)"
proof -
  have keys: "verificationKeys d"
    using assms(1) by (simp add: authInv_def)
  from requestPhoneCode_cases [OF keys assms(2,3)] show ?thesis
  proof (elim disjE exE conjE)
    fix p v
    let ?v = "activeCode env pepper n now v" and ?ip = "sha256Hex env (if truthy ip then the ip else js ''no-ip'')"
    assume r: "r = Inr True" "normalizeKoreanPhone phone = ret p" "send p (codeText n)"
      and R: "reserveVerification i now p purpose ?ip (sha256Hex env (case agent of None \<Rightarrow> [] | Some a \<Rightarrow> a)) 60000 5 20 d =
         (Inr (Reserved v), d\<lparr>phoneVerifications := insertRow v (phoneVerifications d)\<rparr>)"
      and d': "d' = d\<lparr>phoneVerifications := insertRow ?v (phoneVerifications d)\<rparr>"
    note res = reserve_Reserved [OF R]
    have v: "pv_phoneE164 ?v = p" "pv_createdAt ?v = now" "pv_requestIpHash ?v = Some ?ip" "pv_attemptCount ?v = 0"
      "pv_verifiedAt ?v = None" "pv_expiresAt ?v = now + 5 * 60000"
      "pv_codeHash ?v = bcryptHash env (pepperedCode pepper p (codeText n))"
      by (simp_all add: activeCode_def res(1) newVerification_def)
    have "latestVerification (pv_phoneE164 ?v) d' = Some ?v"
      unfolding d' using res(6) v(1,2) by (intro latest_inserted) fastforce
    then have "normalizeKoreanPhone phone = ret p \<and> send p (codeText n) \<and> latestVerification p d' = Some ?v \<and>
      d' = d\<lparr>phoneVerifications := insertRow ?v (phoneVerifications d)\<rparr> \<and>
      pv_codeHash ?v = bcryptHash env (pepperedCode pepper p (codeText n)) \<and> pv_expiresAt ?v = now + 5 * 60000 \<and>
      pv_attemptCount ?v = 0 \<and> pv_verifiedAt ?v = None \<and>
      requestsSince (\<lambda>w. pv_phoneE164 w = p) (now - 60 * 60 * 1000) d' \<le> 5 \<and>
      requestsSince (\<lambda>w. pv_requestIpHash w = pv_requestIpHash ?v) (now - 60 * 60 * 1000) d' \<le> 20 \<and>
      list_all (\<lambda>w. pv_phoneE164 w = p \<longrightarrow> 60000 \<le> now - pv_createdAt w) (phoneVerifications d)"
      using r v res(4,5) res(6) by (fastforce simp: d' requestsSince_def list_all_iff)
    with r(1) show ?thesis by auto
  qed auto
qed

section \<open>Resetting a password\<close>

lemma updateVerifications_frame:
  assumes "updateVerifications P f d = (r, d')"
  shows "users d' = users d" "refreshTokens d' = refreshTokens d"
  using assms by (auto simp: updateVerifications_def)

lemma resetWithVerification_success:
  assumes "resetPasswordWithVerification now i p pw d = (Inr (Some u'), d')"
  obtains u where "findUserByPhone p d = Some u"
    "users d' = updateWhere (\<lambda>w. u_userId w = u_userId u) (\<lambda>w. w\<lparr>u_password := pw, u_updatedAt := now\<rparr>) (users d)"
    "refreshTokens d' = deleteWhere (\<lambda>t. rt_userId t = u_userId u) (refreshTokens d)"
proof -
  from assms obtain u d1 v where u: "findUserByPhone p d = Some u"
    and up: "updateVerifications (\<lambda>d v. pv_id v = pgUuid i \<and> pv_phoneE164 v = p \<and>
              pv_purpose v = js ''password_reset'' \<and> pv_verifiedAt v = None \<and> now < pv_expiresAt v \<and>
              0 < pv_attemptCount v \<and> isLatestVerification d v)
           (\<lambda>v. v\<lparr>pv_verifiedAt := Some now\<rparr>) d = (v, d1)"
    and h: "headOption (returning (\<lambda>w. u_userId w = u_userId u) (\<lambda>w. w\<lparr>u_password := pw, u_updatedAt := now\<rparr>) (users d1)) =
      Some u'"
    and d': "d' = d1\<lparr>users := updateWhere (\<lambda>w. u_userId w = u_userId u) (\<lambda>w. w\<lparr>u_password := pw, u_updatedAt := now\<rparr>)
        (users d1), refreshTokens := deleteWhere (\<lambda>t. rt_userId t = u_userId u') (refreshTokens d1)\<rparr>"
    by (auto simp: resetPasswordWithVerification_def Let_def success_simps split: if_splits)
  from headOption_SomeD [OF h] have "u_userId u' = u_userId u"
    by (auto simp: returning_def)
  with u updateVerifications_frame [OF up] d' that show ?thesis
    by simp
qed

lemma checkCode_frame:
  assumes "checkCode env pepper now i p ps code d = (r, d')"
  shows "users d' = users d" "refreshTokens d' = refreshTokens d"
proof -
  have "preserves (\<lambda>x. users x = users d \<and> refreshTokens x = refreshTokens d) (checkCode env pepper now i p ps code)"
    unfolding checkCode_def claimVerificationAttempt_def updateVerifications_def
    by (intro preserves_intros preserves_modify) simp
  from preservesD [OF this _ assms] show "users d' = users d" "refreshTokens d' = refreshTokens d"
    by simp_all
qed

text \<open>C24. A password is reset only with the right code of a verification for that purpose; afterwards
  the account with the phone has the new password and none of its sessions, and other accounts and
  their sessions are as before.\<close>

theorem reset_revokes_sessions:
  assumes "authInv d" and "list_all (\<lambda>u. canonicalUuid (u_userId u)) (users d)"
    and "resetPasswordWithPhone env pepper now phone code pw d = (Inr r, d')"
  shows "\<exists>p v u. normalizeKoreanPhone phone = ret p \<and> latestVerification p d = Some v \<and>
      claimable now [js ''password_reset''] v \<and> bcryptCompare env (pepperedCode pepper p code) (pv_codeHash v) \<and>
      u \<in> set (users d) \<and> u_phone u = Some p \<and>
      users d' = updateWhere (\<lambda>w. u_userId w = u_userId u)
        (\<lambda>w. w\<lparr>u_password := bcryptHash env pw, u_updatedAt := now\<rparr>) (users d) \<and>
      (\<forall>now' dev token. validateUserRefreshToken env now' (u_userId u) dev token d' = None) \<and>
      filter (\<lambda>t. rt_userId t \<noteq> u_userId u) (refreshTokens d') = filter (\<lambda>t. rt_userId t \<noteq> u_userId u) (refreshTokens d)"
proof -
  have keys: "verificationKeys d"
    using assms(1) by (simp add: authInv_def)
  from assms(3) obtain p v c d1 u' where p: "normalizeKoreanPhone phone = ret p" and v: "latestVerification p d = Some v"
    and c: "checkCode env pepper now (pv_id v) p [js ''password_reset''] code d = (Inr c, d1)"
    and r: "resetPasswordWithVerification now (pv_id c) p (bcryptHash env pw) d1 = (Inr (Some u'), d')"
    by (auto simp: resetPasswordWithPhone_def getUsableVerification_def success_simps dest!: normalizeKoreanPhone_Inr)
  from r obtain u where u: "findUserByPhone p d1 = Some u"
    "users d' = updateWhere (\<lambda>w. u_userId w = u_userId u) (\<lambda>w. w\<lparr>u_password := bcryptHash env pw, u_updatedAt := now\<rparr>) (users d1)"
    "refreshTokens d' = deleteWhere (\<lambda>t. rt_userId t = u_userId u) (refreshTokens d1)"
    by (rule resetWithVerification_success)
  note d1 = checkCode_frame [OF c]
  have mem: "u \<in> set (users d)" "u_phone u = Some p"
    using findFirst_SomeD [OF u(1) [unfolded findUserByPhone_def]] d1(1) by simp_all
  then have "canonicalUuid (u_userId u)"
    using assms(2) by (simp add: list_all_iff)
  then have "findRefreshToken (u_userId u) dev d' = None" for dev
    by (auto simp: findRefreshToken_def findFirst_None_iff u(3))
  then have none: "validateUserRefreshToken env now' (u_userId u) dev token d' = None" for now' dev token
    by (simp add: validateUserRefreshToken_def)
  have "claimable now [js ''password_reset''] v" "bcryptCompare env (pepperedCode pepper p code) (pv_codeHash v)"
    using c checkCode_latest [OF keys v] by (auto split: if_splits)
  with p v mem u(2,3) d1 none show ?thesis
    by (intro exI [of _ p] exI [of _ v] exI [of _ u] conjI) (simp_all add: deleteWhere_def)
qed

section \<open>A code is used once\<close>

text \<open>The latest verification of a phone has been used, so there is no code to accept.\<close>

definition codeSettled :: "jsstring \<Rightarrow> db \<Rightarrow> bool" where
  "codeSettled p d \<longleftrightarrow> (case latestVerification p d of None \<Rightarrow> False | Some v \<Rightarrow> pv_verifiedAt v \<noteq> None)"

text \<open>The steps that do not ask for a code of the phone; a new verification has a generated identifier.\<close>

fun leavesPhone :: "jsstring \<Rightarrow> authStep \<Rightarrow> bool" where
  "leavesPhone p (RequestCodeStep send n i now phone purpose ip agent) \<longleftrightarrow>
     canonicalUuid i \<and> fst (normalizeKoreanPhone phone emptyDb) \<noteq> Inr p"
| "leavesPhone p _ \<longleftrightarrow> True"

lemma codeSettled_update:
  assumes "\<And>v. verificationKey (f v) = verificationKey v \<and> pv_phoneE164 (f v) = pv_phoneE164 v"
    and "\<And>v. pv_verifiedAt v \<noteq> None \<Longrightarrow> pv_verifiedAt (f v) \<noteq> None"
  shows "preserves (codeSettled p) (updateVerifications P f)"
proof -
  have "codeSettled p (d\<lparr>phoneVerifications := updateWhere (P e) f (phoneVerifications d)\<rparr>)" if "codeSettled p d" for d e
    using that assms(2) by (auto simp: codeSettled_def latestVerification_update [OF assms(1)] split: option.splits)
  then show ?thesis unfolding updateVerifications_def by (intro preserves_intros preserves_modify)
qed

interpretation settled: sign_writes "codeSettled p" env for p env
proof
  show "preserves (codeSettled p) (claimVerificationAttempt now i q ps)" for now i q ps
    unfolding claimVerificationAttempt_def by (rule codeSettled_update) (simp_all add: verificationKey_def)
  show "preserves (codeSettled p) (markVerified now i)" for now i
    unfolding markVerified_def by (rule codeSettled_update) (simp_all add: verificationKey_def)
  have "preserves (codeSettled p) (updateVerifications P (\<lambda>v. v\<lparr>pv_verifiedAt := Some now\<rparr>))" for P now
    by (rule codeSettled_update) (simp_all add: verificationKey_def)
  then show "preserves (codeSettled p) (resetPasswordWithVerification now i q pw)" for now i q pw
    unfolding resetPasswordWithVerification_def Let_def
    by (intro preserves_intros preserves_modify) (simp_all add: codeSettled_def latestVerification_def)
qed (unfold repoConsumePhoneVerificationToken_def consumeKakaoPhoneVerificationToken_def
  repoCreatePhoneVerificationToken_def repoCreateKakaoPhoneVerificationToken_def insertUser_def insertIdentity_def
  setPhone_def repoSaveRefreshToken_def rotateRefreshToken_def deleteRefreshToken_def restoreScheduledDeletion_def Let_def,
  (intro preserves_intros preserves_modify; simp add: codeSettled_def latestVerification_def)+)

lemma otherPhone_settled:
  assumes "verificationKeys d" and "canonicalUuid i" and "normalizeKoreanPhone phone \<noteq> ret p" and "codeSettled p d"
  shows "codeSettled p (snd (requestPhoneCode env pepper send n i now phone purpose ip agent d))"
proof (cases "requestPhoneCode env pepper send n i now phone purpose ip agent d")
  case (Pair r d')
  from requestPhoneCode_cases [OF assms(1,2) Pair] show ?thesis
  proof (elim disjE exE conjE)
    fix q v
    assume q: "normalizeKoreanPhone phone = ret q" and d': "d' = d\<lparr>phoneVerifications := insertRow (activeCode env pepper n now v) (phoneVerifications d)\<rparr>"
      and R: "reserveVerification i now q purpose (sha256Hex env (if truthy ip then the ip else js ''no-ip''))
        (sha256Hex env (case agent of None \<Rightarrow> [] | Some a \<Rightarrow> a)) 60000 5 20 d = (Inr (Reserved v), d\<lparr>phoneVerifications := insertRow v (phoneVerifications d)\<rparr>)"
    have "pv_phoneE164 (activeCode env pepper n now v) = q"
      by (simp add: activeCode_def reserve_Reserved(1) [OF R] newVerification_def)
    moreover have "q \<noteq> p" using q assms(3) by auto
    ultimately have "latestVerification p d' = latestVerification p d"
      by (simp add: d' latestVerification_def insertRow_def)
    with assms(4) Pair show ?thesis by (simp add: codeSettled_def)
  qed (use assms(4) Pair in simp)
qed

interpretation settling: guarded_machine "stepAuth env pepper" "\<lambda>d. authInv d \<and> codeSettled p d" "leavesPhone p" for env pepper p
proof
  fix d e assume inv: "authInv d \<and> codeSettled p d" and ok: "leavesPhone p e"
  have "codeSettled p (stepAuth env pepper d e)"
  proof (rule settled.stepAuth_quiet [of p d e])
    fix send n i now phone purpose ip agent
    assume e: "e = RequestCodeStep send n i now phone purpose ip agent"
    with ok have "canonicalUuid i" "normalizeKoreanPhone phone \<noteq> ret p" by auto
    with e inv show ?thesis by (simp add: otherPhone_settled authInv_def)
  qed (use inv in simp)
  with inv accounts.stepAuth_keeps show "authInv (stepAuth env pepper d e) \<and> codeSettled p (stepAuth env pepper d e)" by blast
qed

text \<open>Both services that take a code check the latest verification and settle it.\<close>

lemma resetPassword_success:
  assumes "authInv d" and "resetPasswordWithPhone env pepper now phone code pw d = (Inr r, d')"
  obtains p v where "normalizeKoreanPhone phone = ret p" "latestVerification p d = Some v"
    "claimable now [js ''password_reset''] v" "bcryptCompare env (pepperedCode pepper p code) (pv_codeHash v)" "codeSettled p d'"
proof -
  have keys: "verificationKeys d"
    using assms(1) by (simp add: authInv_def)
  from assms(2) obtain p v c d1 u' where p: "normalizeKoreanPhone phone = ret p" and v: "latestVerification p d = Some v"
    and check: "checkCode env pepper now (pv_id v) p [js ''password_reset''] code d = (Inr c, d1)"
    and reset: "resetPasswordWithVerification now (pv_id c) p (bcryptHash env pw) d1 = (Inr (Some u'), d')"
    by (auto simp: resetPasswordWithPhone_def getUsableVerification_def success_simps dest!: normalizeKoreanPhone_Inr)
  from check checkCode_latest [OF keys v] have ok: "claimable now [js ''password_reset''] v"
    "bcryptCompare env (pepperedCode pepper p code) (pv_codeHash v)" "c = attempt v" "d1 = replaced v (attempt v) d"
    by (auto split: if_splits)
  note w = attempt_latest [OF keys v ok(1), folded ok(4)]
  let ?P = "\<lambda>d x. pv_id x = pgUuid (pv_id c) \<and> pv_phoneE164 x = p \<and> pv_purpose x = js ''password_reset'' \<and>
    pv_verifiedAt x = None \<and> now < pv_expiresAt x \<and> 0 < pv_attemptCount x \<and> isLatestVerification d x"
  have "updateVerifications ?P f d1 = (if ?P d1 (attempt v) then (Inr (Some (f (attempt v))), replaced (attempt v) (f (attempt v)) d1)
      else (Inr None, d1))" for f
    by (rule updateVerifications_latest [OF w(2,1)]) (auto intro: latest_unique [OF w(2,1)])
  with reset have "phoneVerifications d' = phoneVerifications (replaced (attempt v) ((attempt v)\<lparr>pv_verifiedAt := Some now\<rparr>) d1)"
    by (auto simp: resetPasswordWithVerification_def Let_def success_simps split: if_splits)
  moreover have "latestVerification p (replaced (attempt v) ((attempt v)\<lparr>pv_verifiedAt := Some now\<rparr>) d1) =
      Some ((attempt v)\<lparr>pv_verifiedAt := Some now\<rparr>)"
    by (rule replaced_latest [OF w(1)]) (simp_all add: verificationKey_def)
  ultimately have "codeSettled p d'"
    by (simp add: codeSettled_def latestVerification_def)
  with p v ok(1,2) that show thesis by blast
qed

lemma settled_refuses:
  assumes "normalizeKoreanPhone phone = ret p" and "codeSettled p d"
  shows "verifyPhoneCode env pepper ids now phone code dev d = (Inl (Unauthorized ''InvalidPhoneCode''), d)"
    and "\<exists>e. resetPasswordWithPhone env pepper now phone code pw d = (Inl e, d)"
proof -
  obtain v where v: "latestVerification p d = Some v" "pv_verifiedAt v \<noteq> None"
    using assms(2) by (auto simp: codeSettled_def split: option.splits)
  then show "verifyPhoneCode env pepper ids now phone code dev d = (Inl (Unauthorized ''InvalidPhoneCode''), d)"
    by (simp add: verifyPhoneCode_latest [OF assms(1) v(1)])
  show "\<exists>e. resetPasswordWithPhone env pepper now phone code pw d = (Inl e, d)"
    using v by (auto simp: resetPasswordWithPhone_def validatePassword_def assms(1) getUsableVerification_def andThen_assoc
        andThen_def throwIf_apply Let_def)
qed

text \<open>C20. A code pays once. Signing in or up with a code, or resetting a password with one, succeeds only for the latest
  verification of the phone, before it expires, within five attempts and if the code compares with the stored hash. From
  then on, whatever requests of the authentication follow, neither service accepts any code for the phone, however the
  phone is written, until a code is requested for it again.\<close>

theorem code_used_once:
  assumes "authInv d" and "verifyPhoneCode env pepper ids now phone code dev d = (Inr r, d') \<or>
      resetPasswordWithPhone env pepper now phone code pw d = (Inr ok, d')"
  shows "\<exists>p v. normalizeKoreanPhone phone = ret p \<and> latestVerification p d = Some v \<and> now < pv_expiresAt v \<and>
      pv_verifiedAt v = None \<and> pv_attemptCount v < 5 \<and> bcryptCompare env (pepperedCode pepper p code) (pv_codeHash v) \<and>
      (\<forall>es ids' now' phone' code' dev' pw'. list_all (leavesPhone p) es \<and> normalizeKoreanPhone phone' = ret p \<longrightarrow>
        (let d'' = foldl (stepAuth env pepper) d' es in
          verifyPhoneCode env pepper ids' now' phone' code' dev' d'' = (Inl (Unauthorized ''InvalidPhoneCode''), d'') \<and>
          (\<exists>e. resetPasswordWithPhone env pepper now' phone' code' pw' d'' = (Inl e, d''))))"
proof -
  have inv: "authInv d'"
    using assms preservesD [OF accounts.verifyPhoneCode_keeps assms(1)] preservesD [OF accounts.resetPassword_keeps assms(1)]
    by blast
  obtain p v ps where v: "normalizeKoreanPhone phone = ret p" "latestVerification p d = Some v" "claimable now ps v"
    "bcryptCompare env (pepperedCode pepper p code) (pv_codeHash v)" "codeSettled p d'"
    using assms(2)
  proof
    assume "verifyPhoneCode env pepper ids now phone code dev d = (Inr r, d')"
    with assms(1) show thesis by (rule verifyPhoneCode_success) (rule that, auto simp: codeSettled_def)
  next
    assume "resetPasswordWithPhone env pepper now phone code pw d = (Inr ok, d')"
    with assms(1) show thesis by (rule resetPassword_success) (rule that)
  qed
  have "codeSettled p (foldl (stepAuth env pepper) d' es)" if "list_all (leavesPhone p) es" for es
    using settling.guarded_run [of d' p es env pepper] inv v(5) that by simp
  with v settled_refuses show ?thesis
    by (intro exI [of _ p] exI [of _ v]) (simp add: claimable_def MAX_CODE_ATTEMPTS_def Let_def)
qed

section \<open>Rotating the refresh token\<close>

lemma rotate_stores:
  assumes "sessionKeys d" and "rotateRefreshToken now u dev x t e d = (Inr True, d')"
  shows "\<exists>s. findRefreshToken u dev d' = Some s \<and> rt_refreshToken s = t \<and> rt_refreshTokenExp s = e"
proof -
  let ?P = "\<lambda>s. rt_userId s = pgUuid u \<and> rt_deviceId s = dev \<and> rt_refreshToken s = x \<and> now < rt_refreshTokenExp s"
  let ?f = "\<lambda>s. s\<lparr>rt_refreshToken := t, rt_refreshTokenExp := e, rt_updatedAt := now\<rparr>"
  from assms(2) obtain s where s: "s \<in> set (refreshTokens d)" "?P s"
    and d': "d' = d\<lparr>refreshTokens := updateWhere ?P ?f (refreshTokens d)\<rparr>"
    by (auto simp: rotateRefreshToken_def Let_def success_simps existsRow_iff split: if_splits)
  have "findRefreshToken u dev d = Some s"
    unfolding findRefreshToken_def
    using assms(1) s by (intro findFirst_unique [where k = "\<lambda>t. (rt_userId t, rt_deviceId t)"]) (auto simp: sessionKeys_def)
  then have "findRefreshToken u dev d' = Some (?f s)"
    using s(2) by (simp add: findRefreshToken_def d' findFirst_updateWhere)
  then show ?thesis by simp
qed

text \<open>bcrypt reads the first 72 bytes of its input, and the refresh tokens of one user agree on
  them (the header, the key of the user and half of the identifier). So after a refresh the stored
  hash accepts every refresh token issued to the user before, the one that was just exchanged too.\<close>

lemma refresh_old_token_accepted:
  assumes "authInv d" and "\<And>t h. bcryptCompare env t h = bcryptCompare env (take 72 t) h"
    and "\<And>t. bcryptCompare env t (bcryptHash env t)"
    and "\<And>u dev dev' t t'. take 72 (signAsync env (RefreshClaims u dev) t) = take 72 (signAsync env (RefreshClaims u dev') t')"
    and "findUser (rt_userId row) d = (Inr user, d)"
    and "refresh env now row d = (Inr p, d')" and "decodeExp env (tp_refreshToken p) = Some e" and "now' < e * 1000"
  shows "\<exists>saved. validateUserRefreshToken env now' (rt_userId row) (rt_deviceId row)
    (createRefreshToken env before user dev0) d' = Some saved \<and> rt_refreshToken saved = bcryptHash env (tp_refreshToken p)"
proof -
  have tok: "tp_refreshToken p = createRefreshToken env now user (rt_deviceId row)"
    and rot: "rotateRefreshToken now (rt_userId row) (rt_deviceId row) (rt_refreshToken row) (bcryptHash env (tp_refreshToken p))
      (e * 1000) d = (Inr True, d')"
    using assms(5-7) by (auto simp: refresh_def Let_def prepareRefreshToken_def success_simps split: if_splits)
  from rotate_stores [OF _ rot] assms(1) obtain s where s: "findRefreshToken (rt_userId row) (rt_deviceId row) d' = Some s"
    "rt_refreshToken s = bcryptHash env (tp_refreshToken p)" "rt_refreshTokenExp s = e * 1000"
    by (auto simp: authInv_def)
  have "bcryptCompare env (createRefreshToken env before user dev0) (bcryptHash env (tp_refreshToken p))"
    using assms(2) [of "createRefreshToken env before user dev0"] assms(2) [of "tp_refreshToken p"] assms(3) [of "tp_refreshToken p"]
      assms(4) [of "u_userId user" dev0 before "rt_deviceId row" now]
    by (simp add: tok createRefreshToken_def)
  with s assms(8) show ?thesis
    by (simp add: validateUserRefreshToken_def)
qed

section \<open>Instances\<close>

text \<open>Sample functions for the packages, with the 72 bytes that bcrypt reads.\<close>

definition sampleSign :: "claims \<Rightarrow> timestamp \<Rightarrow> jsstring" where
  "sampleSign c now = (case c of
     AccessClaims u \<Rightarrow> 1 # u
   | RefreshClaims u dev \<Rightarrow> take 72 (u @ replicate 72 0) @ dev @ [nat now]
   | PhoneClaims p v n \<Rightarrow> 2 # p
   | KakaoClaims k \<Rightarrow> 3 # k)"

definition sampleEnv :: authEnv where
  "sampleEnv = \<lparr>bcryptHash = take 72, bcryptCompare = (\<lambda>t h. take 72 t = h), sha256Hex = (\<lambda>s. s),
     signAsync = sampleSign, decodeExp = (\<lambda>_. Some 100000), fetchKakao = (\<lambda>_. None), numberText = (\<lambda>_. []),
     errorCode = (\<lambda>_. None)\<rparr>"

definition samplePhone :: jsstring where
  "samplePhone = js ''01012345678''"

definition sampleE164 :: jsstring where
  "sampleE164 = js ''+821012345678''"

definition sampleAccount :: user where
  "sampleAccount = (sampleUser sampleAccountId)\<lparr>u_email := js ''tea'', u_phone := Some sampleE164, u_password := js ''green''\<rparr>"

definition sampleVerification :: "jsstring \<Rightarrow> phoneVerification" where
  "sampleVerification purpose = \<lparr>pv_id = js ''v1'', pv_phoneE164 = sampleE164,
     pv_codeHash = take 72 (pepperedCode (js ''pep'') sampleE164 (js ''000042'')), pv_purpose = purpose, pv_expiresAt = 300,
     pv_verifiedAt = None, pv_attemptCount = 0, pv_requestIpHash = None, pv_userAgentHash = None, pv_createdAt = 0\<rparr>"

definition sampleAuthDb :: "jsstring \<Rightarrow> db" where
  "sampleAuthDb purpose = emptyDb\<lparr>users := [sampleAccount],
     refreshTokens := [\<lparr>rt_id = js ''r1'', rt_userId = sampleAccountId, rt_deviceId = js ''d1'',
       rt_refreshToken = js ''old'', rt_refreshTokenExp = 1000, rt_createdAt = 0, rt_updatedAt = 0\<rparr>],
     phoneVerifications := [sampleVerification purpose],
     phoneVerificationTokens := [\<lparr>pt_tokenHash = js ''tok'', pt_phoneE164 = sampleE164, pt_verificationId = js ''v1'',
       pt_expiresAt = 300, pt_usedAt = None, pt_createdAt = 0\<rparr>]\<rparr>"

lemma sampleAuthDb_inv: "authInv (sampleAuthDb purpose)"
  by (simp add: authInv_defs sampleAuthDb_def sampleAccount_def sampleUser_def emptyDb_def
      sampleVerification_def MAX_CODE_ATTEMPTS_def
      userExists_def existsRow_def uniqueKey_def)

definition sampleSignin :: signinAuthInput where
  "sampleSignin = \<lparr>in_email = js '' tea'', in_password = js ''green'', in_phoneVerificationToken = js ''tok''\<rparr>"

definition sampleSignedIn :: db where
  "sampleSignedIn = snd (signin sampleEnv (\<lambda>k. [k]) 7 sampleSignin (js ''d2'') (sampleAuthDb (js ''login'')))"

lemmas auth_eval_simps [eval_simps] = sampleEnv_def sampleSign_def sampleAccount_def sampleVerification_def sampleAuthDb_def
  sampleSignin_def EMAIL_MAX_LENGTH_def normalizeSigninEmail_def repoSignin_def findPhoneVerificationToken_def
  repoFindPhoneVerificationToken_def hashToken_def phoneTokenLive_def usePhoneToken_def consumePhoneVerificationToken_def
  repoConsumePhoneVerificationToken_def restoreIfWithinGrace_def validateUserUuid_def restoreScheduledDeletion_def
  issueTokens_def saveRefreshToken_def prepareRefreshToken_def repoSaveRefreshToken_def createAccessToken_def
  createRefreshToken_def

lemma sampleSignin_run:
  "\<exists>p. signin sampleEnv (\<lambda>k. [k]) 7 sampleSignin (js ''d2'') (sampleAuthDb (js ''login'')) = (Inr p, sampleSignedIn)"
  by (simp add: sampleSignedIn_def signin_def eval_simps cong: run_congs)

theorem phone_token_used_once_witness:
  "\<exists>e. fst (runTokenUse sampleEnv (UseSignin (\<lambda>k. [k]) 9 sampleSignin (js ''d3''))
     (foldl (stepAuth sampleEnv []) sampleSignedIn [LogoutStep sampleAccountId (js ''d2'')])) = Inl e"
proof -
  from sampleSignin_run obtain p where
    "runTokenUse sampleEnv (UseSignin (\<lambda>k. [k]) 7 sampleSignin (js ''d2'')) (sampleAuthDb (js ''login'')) = (Inr p, sampleSignedIn)"
    by auto
  then show ?thesis
    by (rule phone_token_used_once [OF sampleAuthDb_inv, where token = "js ''tok''"]) (simp_all add: sampleSignin_def)
qed

lemma accounts_unique_witness:
  "authInv (foldl (stepAuth sampleEnv []) (sampleAuthDb (js ''login'')) [LogoutStep sampleAccountId (js ''d1'')])"
  by (rule accounts_unique) (rule sampleAuthDb_inv)

theorem signin_checks_witness:
  "\<exists>u \<in> set (users (sampleAuthDb (js ''login''))). bcryptCompare sampleEnv (js ''green'') (u_password u) \<and>
     phoneTokenSpent (hashToken sampleEnv (js ''tok'')) sampleSignedIn"
proof -
  from sampleSignin_run obtain p where
    "signin sampleEnv (\<lambda>k. [k]) 7 sampleSignin (js ''d2'') (sampleAuthDb (js ''login'')) = (Inr p, sampleSignedIn)"
    by blast
  from signin_checks [OF sampleAuthDb_inv this] show ?thesis
    by (auto simp: sampleSignin_def)
qed


lemma samplePhone_normal: "normalizeKoreanPhone samplePhone = ret sampleE164"
  by (simp add: normalizeKoreanPhone_def samplePhone_def sampleE164_def js_def isDigit_def fun_eq_iff)

lemma sampleVerification_latest: "latestVerification sampleE164 (sampleAuthDb purpose) = Some (sampleVerification purpose)"
  by (simp add: latestVerification_def sampleAuthDb_def sampleVerification_def emptyDb_def)

definition sampleVerified :: db where
  "sampleVerified = snd (verifyPhoneCode sampleEnv (js ''pep'') (\<lambda>k. [k]) 7 samplePhone (js ''000042'') (js ''d2'')
     (sampleAuthDb (js ''login'')))"

lemmas phone_eval_simps [eval_simps] = samplePhone_normal latestVerification_def getUsableVerification_def checkCode_def
  claimVerificationAttempt_def updateVerifications_def isLatestVerification_def markVerified_def findUserByPhone_def
  verificationKey_def issueTokensForUser_def MAX_CODE_ATTEMPTS_def truthy_def

lemma sampleVerified_run:
  "\<exists>r. verifyPhoneCode sampleEnv (js ''pep'') (\<lambda>k. [k]) 7 samplePhone (js ''000042'') (js ''d2'')
     (sampleAuthDb (js ''login'')) = (Inr r, sampleVerified)"
  by (simp add: sampleVerified_def verifyPhoneCode_def eval_simps cong: run_congs)

theorem code_used_once_witness:
  "let d = foldl (stepAuth sampleEnv (js ''pep'')) sampleVerified [LogoutStep sampleAccountId (js ''d2'')]
   in verifyPhoneCode sampleEnv (js ''pep'') (\<lambda>k. [k]) 8 samplePhone (js ''000042'') (js ''d3'') d =
     (Inl (Unauthorized ''InvalidPhoneCode''), d)"
proof -
  from sampleVerified_run obtain r where
    "verifyPhoneCode sampleEnv (js ''pep'') (\<lambda>k. [k]) 7 samplePhone (js ''000042'') (js ''d2'')
       (sampleAuthDb (js ''login'')) = (Inr r, sampleVerified)"
    by blast
  from code_used_once [OF sampleAuthDb_inv disjI1 [OF this]] obtain p where p: "normalizeKoreanPhone samplePhone = ret p"
    and refused: "\<And>es. list_all (leavesPhone p) es \<Longrightarrow>
      let d = foldl (stepAuth sampleEnv (js ''pep'')) sampleVerified es
      in verifyPhoneCode sampleEnv (js ''pep'') (\<lambda>k. [k]) 8 samplePhone (js ''000042'') (js ''d3'') d =
        (Inl (Unauthorized ''InvalidPhoneCode''), d)"
    unfolding Let_def by blast
  show ?thesis by (rule refused) simp
qed

definition sampleGuesses :: "guess list" where
  "sampleGuesses = replicate 5 (7, js ''000000'', js ''d2'')"

lemma code_attempts_bounded_witness:
  "fst (verifyPhoneCode sampleEnv (js ''pep'') (\<lambda>k. [k]) 8 samplePhone (js ''000042'') (js ''d2'')
     (foldl (guessCode sampleEnv (js ''pep'') (\<lambda>k. [k]) samplePhone) (sampleAuthDb (js ''login'')) sampleGuesses)) =
   Inl (TooManyRequests ''PhoneCodeAttemptLimitExceeded'')"
proof -
  have "list_all (wrongGuess sampleEnv (js ''pep'') sampleE164 (sampleVerification (js ''login''))) sampleGuesses"
    by (simp add: sampleGuesses_def list_all_iff wrongGuess_def sampleVerification_def sampleEnv_def pepperedCode_def js_def
        sampleE164_def)
  from code_attempts_bounded [OF sampleAuthDb_inv samplePhone_normal sampleVerification_latest _ _ _ this _ refl]
  show ?thesis
    by (simp add: sampleVerification_def codePurposes_def sampleGuesses_def string_simps canonicalUuid_def)
qed

definition sampleRequested :: "(app_error + bool) \<times> db" where
  "sampleRequested = requestPhoneCode sampleEnv (js ''pep'') (\<lambda>_ _. True) 42 (js ''v2'') 7200000 samplePhone (js ''login'')
     None None (sampleAuthDb (js ''login''))"

theorem code_requests_limited_witness:
  "\<exists>v. latestVerification sampleE164 (snd sampleRequested) = Some v \<and> pv_expiresAt v = 7500000 \<and>
     requestsSince (\<lambda>w. pv_phoneE164 w = sampleE164) 3600000 (snd sampleRequested) \<le> 5"
proof -
  have "fst sampleRequested = Inr True"
    by (simp add: sampleRequested_def requestPhoneCode_def PhoneVerificationPurpose_def reserveVerification_def requestsSince_def
        activateVerification_def newVerification_def eval_simps cong: run_congs)
  then have "requestPhoneCode sampleEnv (js ''pep'') (\<lambda>_ _. True) 42 (js ''v2'') 7200000 samplePhone (js ''login'')
     None None (sampleAuthDb (js ''login'')) = (Inr True, snd sampleRequested)"
    by (metis prod.collapse sampleRequested_def)
  from code_requests_limited [OF sampleAuthDb_inv _ this] show ?thesis
    by (auto simp: string_simps canonicalUuid_def samplePhone_normal fun_eq_iff)
qed


definition sampleReset :: "(app_error + bool) \<times> db" where
  "sampleReset = resetPasswordWithPhone sampleEnv (js ''pep'') 7 samplePhone (js ''000042'') (js ''oolongtea'')
     (sampleAuthDb (js ''password_reset''))"

lemma sampleReset_run: "fst sampleReset = Inr True"
  by (simp add: sampleReset_def resetPasswordWithPhone_def validatePassword_def PASSWORD_MIN_BYTES_def
      BCRYPT_PASSWORD_MAX_BYTES_def byteLength_def isHighSurrogate_def resetPasswordWithVerification_def
      eval_simps cong: run_congs)

theorem reset_revokes_sessions_witness:
  "\<exists>u \<in> set (users (sampleAuthDb (js ''password_reset''))).
     validateUserRefreshToken sampleEnv 8 (u_userId u) (js ''d1'') (js ''old'') (snd sampleReset) = None"
proof -
  have "resetPasswordWithPhone sampleEnv (js ''pep'') 7 samplePhone (js ''000042'') (js ''oolongtea'')
     (sampleAuthDb (js ''password_reset'')) = (Inr True, snd sampleReset)"
    by (metis prod.collapse sampleReset_def sampleReset_run)
  moreover have "list_all (\<lambda>u. canonicalUuid (u_userId u)) (users (sampleAuthDb (js ''password_reset'')))"
    by (simp add: sampleAuthDb_def sampleAccount_def sampleUser_def sample_ids)
  ultimately show ?thesis
    using reset_revokes_sessions [OF sampleAuthDb_inv] by blast
qed

definition sampleSession :: refreshToken where
  "sampleSession = \<lparr>rt_id = js ''r1'', rt_userId = sampleAccountId, rt_deviceId = js ''d1'',
     rt_refreshToken = js ''old'', rt_refreshTokenExp = 1000, rt_createdAt = 0, rt_updatedAt = 0\<rparr>"

definition sampleRefreshed :: "(app_error + tokenPayload) \<times> db" where
  "sampleRefreshed = refresh sampleEnv 7 sampleSession (sampleAuthDb (js ''login''))"

lemma sampleRefreshed_run: "\<exists>p. fst sampleRefreshed = Inr p"
  by (simp add: sampleRefreshed_def refresh_def findUser_def repoFindUser_def rotateRefreshToken_def sampleSession_def
      eval_simps cong: run_congs)

lemma refresh_old_token_accepted_witness:
  "\<exists>saved. validateUserRefreshToken sampleEnv 8 sampleAccountId (js ''d1'')
     (createRefreshToken sampleEnv 0 sampleAccount (js ''d1'')) (snd sampleRefreshed) = Some saved"
proof -
  from sampleRefreshed_run obtain p where
    run: "refresh sampleEnv 7 sampleSession (sampleAuthDb (js ''login'')) = (Inr p, snd sampleRefreshed)"
    by (metis prod.collapse sampleRefreshed_def)
  have user: "findUser (rt_userId sampleSession) (sampleAuthDb (js ''login'')) = (Inr sampleAccount, sampleAuthDb (js ''login''))"
    by (simp add: findUser_def repoFindUser_def sampleSession_def eval_simps)
  have "\<exists>saved. validateUserRefreshToken sampleEnv 8 (rt_userId sampleSession) (rt_deviceId sampleSession)
     (createRefreshToken sampleEnv 0 sampleAccount (js ''d1'')) (snd sampleRefreshed) = Some saved \<and>
     rt_refreshToken saved = bcryptHash sampleEnv (tp_refreshToken p)"
    by (rule refresh_old_token_accepted [OF sampleAuthDb_inv _ _ _ user run, of 100000])
       (simp_all add: sampleEnv_def sampleSign_def)
  then show ?thesis
    by (auto simp: sampleSession_def)
qed

end
