(* ===== verification/Upload.thy ===== *)
theory Upload
  imports Billing User
begin

text \<open>
  Profile uploads (\<^verbatim>\<open>src/modules/upload\<close>): creating an upload within its quotas, finalizing it under a
  lease (read the staged object, normalise the image, write the final object, publish it) and the
  cleanup of staged and abandoned objects in leased batches. The object store's client, the image
  library and the URL parser are the record \<open>uploadEnv\<close>; time is the parameter \<open>now\<close>.
\<close>

section \<open>Parameters\<close>

type_synonym bytes = "nat list"

record headObjectOutput =
  ho_ContentLength :: "int option"
  ho_ContentType :: "jsstring option"
  ho_ETag :: "jsstring option"

text \<open>The body of an object is missing, cannot be read, or is a sequence of bytes.\<close>

datatype objectBody = NoBody | BrokenBody | Body bytes

record getObjectOutput =
  go_Body :: objectBody
  go_ContentLength :: "int option"
  go_ContentRange :: "jsstring option"

record imageMetadata =
  im_format :: "jsstring option"
  im_width :: "nat option"
  im_height :: "nat option"

record parsedUrl =
  url_protocol :: jsstring
  url_username :: jsstring
  url_password :: jsstring
  url_search :: jsstring
  url_hash :: jsstring
  url_href :: jsstring

text \<open>A request to the object store that fails is \<open>None\<close> or \<open>False\<close>; so is an image or a URL that
  cannot be decoded.\<close>

record uploadEnv =
  configGet :: config
  isUuidText :: "jsstring \<Rightarrow> bool"
  signedUrl :: "jsstring \<Rightarrow> jsstring \<Rightarrow> int \<Rightarrow> jsstring"
  headObject :: "jsstring \<Rightarrow> headObjectOutput option"
  getObject :: "jsstring \<Rightarrow> jsstring \<Rightarrow> int \<Rightarrow> getObjectOutput option"
  putObject :: "jsstring \<Rightarrow> bytes \<Rightarrow> bool"
  deleteObjectOk :: "jsstring \<Rightarrow> bool"
  readMetadata :: "bytes \<Rightarrow> imageMetadata option"
  toJpeg :: "bytes \<Rightarrow> bytes option"
  contentSha256 :: "bytes \<Rightarrow> jsstring"
  parseUrl :: "jsstring \<Rightarrow> parsedUrl option"

section \<open>Repository\<close>

definition MAX_ACTIVE_UPLOADS_PER_USER :: nat where
  "MAX_ACTIVE_UPLOADS_PER_USER = 5"

definition MAX_UPLOAD_CREATES_PER_WINDOW :: nat where
  "MAX_UPLOAD_CREATES_PER_WINDOW = 20"

definition UPLOAD_CREATE_WINDOW_MS :: int where
  "UPLOAD_CREATE_WINDOW_MS = 60 * 60 * 1000"

definition newUpload ::
  "uuid \<Rightarrow> uuid \<Rightarrow> jsstring \<Rightarrow> jsstring \<Rightarrow> int \<Rightarrow> timestamp \<Rightarrow> timestamp \<Rightarrow> profileUpload" where
  "newUpload i userId stagingKey expectedContentType expectedSizeBytes expiresAt now =
     \<lparr>pu_id = pgUuid i, pu_userId = pgUuid userId, pu_status = Pending, pu_stagingKey = stagingKey,
      pu_finalKey = None, pu_expectedContentType = expectedContentType,
      pu_expectedSizeBytes = expectedSizeBytes, pu_finalContentType = None, pu_finalSizeBytes = None,
      pu_publicUrl = None, pu_expiresAt = expiresAt, pu_processingLeaseExpiresAt = None,
      pu_cleanupLeaseExpiresAt = None, pu_cleanupAttempts = 0, pu_failureCode = None,
      pu_stagingDeletedAt = None, pu_finalDeletionPendingAt = None, pu_finalDeletedAt = None,
      pu_verifiedAt = None, pu_createdAt = now, pu_updatedAt = now\<rparr>"

definition openStatus :: "profileUploadStatus \<Rightarrow> bool" where
  "openStatus s \<longleftrightarrow> s = Pending \<or> s = Processing"

definition recentUploads :: "jsstring \<Rightarrow> timestamp \<Rightarrow> db \<Rightarrow> profileUpload list" where
  "recentUploads userId now d =
     filter (\<lambda>u. pu_userId u = pgUuid userId \<and> now - UPLOAD_CREATE_WINDOW_MS \<le> pu_createdAt u) (profileUploads d)"

definition activeUploads :: "jsstring \<Rightarrow> timestamp \<Rightarrow> db \<Rightarrow> profileUpload list" where
  "activeUploads userId now d =
     filter (\<lambda>u. openStatus (pu_status u) \<and> now < pu_expiresAt u) (recentUploads userId now d)"

definition createPending ::
  "uuid \<Rightarrow> jsstring \<Rightarrow> jsstring \<Rightarrow> jsstring \<Rightarrow> int \<Rightarrow> timestamp \<Rightarrow> timestamp \<Rightarrow> profileUpload dbprog" where
  "createPending i userId stagingKey expectedContentType expectedSizeBytes expiresAt now = transaction (
     andThen (query (\<lambda>d. (length (activeUploads userId now d), length (recentUploads userId now d)))) (\<lambda>(active, recent).
     andThen (throwIf (MAX_ACTIVE_UPLOADS_PER_USER \<le> active) (TooManyRequests ''UPLOAD_ACTIVE_LIMIT_EXCEEDED'')) (\<lambda>_.
     andThen (throwIf (MAX_UPLOAD_CREATES_PER_WINDOW \<le> recent) (TooManyRequests ''UPLOAD_RATE_LIMIT_EXCEEDED'')) (\<lambda>_.
     andThen (query (\<lambda>d. (keyTaken pu_id (pgUuid i) (profileUploads d) \<or>
       keyTaken pu_stagingKey stagingKey (profileUploads d), userExists (pgUuid userId) d))) (\<lambda>(taken, known).
     andThen (throwIf taken (PgError UniqueViolation)) (\<lambda>_.
     andThen (throwIf (\<not> known) (PgError ForeignKeyViolation)) (\<lambda>_.
     let u = newUpload i userId stagingKey expectedContentType expectedSizeBytes expiresAt now in
     andThen (modify (\<lambda>d. d\<lparr>profileUploads := insertRow u (profileUploads d)\<rparr>)) (\<lambda>_.
     ret u))))))))"

datatype finalizeUploadClaim =
    FinalizeClaimed profileUpload
  | FinalizeVerified profileUpload
  | FinalizeExpired profileUpload
  | FinalizeBusy profileUpload

text \<open>An \<^verbatim>\<open>UPDATE\<close> of uploads that returns the first updated row.\<close>

definition updateUploads ::
  "(profileUpload \<Rightarrow> bool) \<Rightarrow> (profileUpload \<Rightarrow> profileUpload) \<Rightarrow> profileUpload option dbprog" where
  "updateUploads P f =
     andThen (query (\<lambda>d. headOption (returning P f (profileUploads d)))) (\<lambda>r.
     andThen (modify (\<lambda>d. d\<lparr>profileUploads := updateWhere P f (profileUploads d)\<rparr>)) (\<lambda>_.
     ret r))"

definition expireUpload :: "timestamp \<Rightarrow> profileUpload \<Rightarrow> profileUpload" where
  "expireUpload now u = u\<lparr>pu_status := Failed, pu_failureCode := Some ''UPLOAD_EXPIRED'',
     pu_processingLeaseExpiresAt := None, pu_updatedAt := now\<rparr>"

definition processUpload :: "timestamp \<Rightarrow> timestamp \<Rightarrow> profileUpload \<Rightarrow> profileUpload" where
  "processUpload now lease u = u\<lparr>pu_status := Processing, pu_processingLeaseExpiresAt := Some lease,
     pu_cleanupLeaseExpiresAt := (if pu_finalDeletionPendingAt u \<noteq> None then Some lease else pu_cleanupLeaseExpiresAt u),
     pu_updatedAt := now\<rparr>"

definition uploadBusy :: "timestamp \<Rightarrow> profileUpload \<Rightarrow> bool" where
  "uploadBusy now u \<longleftrightarrow> pu_status u = Processing \<and>
     (case pu_processingLeaseExpiresAt u of None \<Rightarrow> False | Some l \<Rightarrow> now < l)"

definition findUpload :: "jsstring \<Rightarrow> jsstring \<Rightarrow> db \<Rightarrow> profileUpload option" where
  "findUpload uploadId userId d =
     findFirst (\<lambda>u. pu_id u = pgUuid uploadId \<and> pu_userId u = pgUuid userId) (profileUploads d)"

definition claimFinalize ::
  "jsstring \<Rightarrow> jsstring \<Rightarrow> timestamp \<Rightarrow> timestamp \<Rightarrow> finalizeUploadClaim dbprog" where
  "claimFinalize uploadId userId now lease = transaction (
     andThen (query (findUpload uploadId userId)) (\<lambda>found.
     case found of
       None \<Rightarrow> throw (ErrorCode ''UPLOAD_NOT_FOUND'')
     | Some u \<Rightarrow>
         if pu_status u = Verified then ret (FinalizeVerified u)
         else if pu_status u = Failed
         then throw (ErrorCode (case pu_failureCode u of None \<Rightarrow> ''UPLOAD_FINALIZE_FAILED'' | Some c \<Rightarrow> c))
         else if pu_expiresAt u \<le> now
         then
           andThen (updateUploads (\<lambda>x. pu_id x = pu_id u) (expireUpload now)) (\<lambda>expired.
           case expired of
             None \<Rightarrow> throw (ErrorCode ''UPLOAD_STATE_CONFLICT'')
           | Some x \<Rightarrow> ret (FinalizeExpired x))
         else if uploadBusy now u then ret (FinalizeBusy u)
         else
           andThen (updateUploads (\<lambda>x. pu_id x = pu_id u) (processUpload now lease)) (\<lambda>claimed.
           case claimed of
             None \<Rightarrow> throw (ErrorCode ''UPLOAD_STATE_CONFLICT'')
           | Some x \<Rightarrow> ret (FinalizeClaimed x))))"

record finalObject =
  fo_finalKey :: jsstring
  fo_publicUrl :: jsstring
  fo_contentType :: jsstring
  fo_sizeBytes :: int

definition leasedUpload :: "jsstring \<Rightarrow> timestamp \<Rightarrow> profileUpload \<Rightarrow> bool" where
  "leasedUpload uploadId lease u \<longleftrightarrow> pu_id u = pgUuid uploadId \<and> pu_status u = Processing \<and>
     pu_processingLeaseExpiresAt u = Some lease"

definition preparable :: "jsstring \<Rightarrow> jsstring \<Rightarrow> finalObject \<Rightarrow> timestamp \<Rightarrow> profileUpload \<Rightarrow> bool" where
  "preparable uploadId userId x lease u \<longleftrightarrow> leasedUpload uploadId lease u \<and> pu_userId u = pgUuid userId \<and>
     (pu_finalKey u = None \<or> pu_finalKey u = Some (fo_finalKey x)) \<and> pu_finalDeletedAt u = None"

definition prepareUpload :: "finalObject \<Rightarrow> timestamp \<Rightarrow> timestamp \<Rightarrow> profileUpload \<Rightarrow> profileUpload" where
  "prepareUpload x lease now u = u\<lparr>pu_finalKey := Some (fo_finalKey x), pu_publicUrl := Some (fo_publicUrl x),
     pu_finalContentType := Some (fo_contentType x), pu_finalSizeBytes := Some (fo_sizeBytes x),
     pu_finalDeletionPendingAt :=
       (case pu_finalDeletionPendingAt u of None \<Rightarrow> Some now | Some t \<Rightarrow> Some t),
     pu_finalDeletedAt := None, pu_cleanupLeaseExpiresAt := Some lease, pu_updatedAt := now\<rparr>"

text \<open>The final key is unique: the statement fails when another row has it.\<close>

definition prepareFinalObject ::
  "jsstring \<Rightarrow> jsstring \<Rightarrow> finalObject \<Rightarrow> timestamp \<Rightarrow> timestamp \<Rightarrow> unit dbprog" where
  "prepareFinalObject uploadId userId x lease now =
     andThen (query (\<lambda>d. existsRow (preparable uploadId userId x lease) (profileUploads d) \<and>
       existsRow (\<lambda>u. pu_id u \<noteq> pgUuid uploadId \<and> pu_finalKey u = Some (fo_finalKey x)) (profileUploads d))) (\<lambda>taken.
     andThen (throwIf taken (PgError UniqueViolation)) (\<lambda>_.
     andThen (updateUploads (preparable uploadId userId x lease) (prepareUpload x lease now)) (\<lambda>prepared.
     throwIf (prepared = None) (ErrorCode ''UPLOAD_STATE_CONFLICT''))))"

definition verifiable :: "jsstring \<Rightarrow> jsstring \<Rightarrow> finalObject \<Rightarrow> timestamp \<Rightarrow> profileUpload \<Rightarrow> bool" where
  "verifiable uploadId userId x lease u \<longleftrightarrow> leasedUpload uploadId lease u \<and> pu_userId u = pgUuid userId \<and>
     pu_finalKey u = Some (fo_finalKey x) \<and> pu_finalDeletionPendingAt u \<noteq> None"

definition verifyUpload :: "finalObject \<Rightarrow> timestamp \<Rightarrow> profileUpload \<Rightarrow> profileUpload" where
  "verifyUpload x now u = u\<lparr>pu_status := Verified, pu_finalKey := Some (fo_finalKey x),
     pu_publicUrl := Some (fo_publicUrl x), pu_finalContentType := Some (fo_contentType x),
     pu_finalSizeBytes := Some (fo_sizeBytes x), pu_verifiedAt := Some now, pu_processingLeaseExpiresAt := None,
     pu_cleanupLeaseExpiresAt := None, pu_finalDeletionPendingAt := None, pu_finalDeletedAt := None,
     pu_failureCode := None, pu_updatedAt := now\<rparr>"

definition uploadMarkVerified ::
  "jsstring \<Rightarrow> jsstring \<Rightarrow> finalObject \<Rightarrow> timestamp \<Rightarrow> timestamp \<Rightarrow> profileUpload dbprog" where
  "uploadMarkVerified uploadId userId x lease now =
     andThen (updateUploads (verifiable uploadId userId x lease) (verifyUpload x now)) (\<lambda>upload.
     case upload of
       Some u \<Rightarrow> ret u
     | None \<Rightarrow>
         andThen (query (findUpload uploadId userId)) (\<lambda>existing.
         case existing of
           None \<Rightarrow> throw (ErrorCode ''UPLOAD_STATE_CONFLICT'')
         | Some e \<Rightarrow>
             if pu_status e = Verified \<and> pu_finalKey e = Some (fo_finalKey x) then ret e
             else throw (ErrorCode ''UPLOAD_STATE_CONFLICT'')))"

definition markFailed :: "jsstring \<Rightarrow> string \<Rightarrow> timestamp \<Rightarrow> timestamp \<Rightarrow> unit dbprog" where
  "markFailed uploadId failureCode lease now =
     andThen (updateUploads (leasedUpload uploadId lease) (\<lambda>u. u\<lparr>pu_status := Failed,
       pu_failureCode := Some failureCode, pu_processingLeaseExpiresAt := None, pu_updatedAt := now\<rparr>)) (\<lambda>_.
     ret ())"

definition releaseFinalizeLease :: "jsstring \<Rightarrow> timestamp \<Rightarrow> timestamp \<Rightarrow> unit dbprog" where
  "releaseFinalizeLease uploadId lease now =
     andThen (updateUploads (leasedUpload uploadId lease) (\<lambda>u. u\<lparr>pu_status := Pending,
       pu_processingLeaseExpiresAt := None, pu_updatedAt := now\<rparr>)) (\<lambda>_.
     ret ())"

definition markStagingDeleted :: "jsstring \<Rightarrow> timestamp \<Rightarrow> unit dbprog" where
  "markStagingDeleted uploadId now =
     andThen (updateUploads (\<lambda>u. pu_id u = pgUuid uploadId) (\<lambda>u. u\<lparr>pu_stagingDeletedAt := Some now,
       pu_cleanupLeaseExpiresAt := None, pu_updatedAt := now\<rparr>)) (\<lambda>_.
     ret ())"

text \<open>A comparison with a null lease is not true.\<close>

definition leasePassed :: "timestamp \<Rightarrow> timestamp option \<Rightarrow> bool" where
  "leasePassed now lease = (case lease of None \<Rightarrow> False | Some l \<Rightarrow> l \<le> now)"

definition finalRequired :: "profileUpload \<Rightarrow> bool" where
  "finalRequired u \<longleftrightarrow> pu_finalDeletionPendingAt u \<noteq> None \<and> pu_finalDeletedAt u = None"

definition cleanupDue :: "timestamp \<Rightarrow> profileUpload \<Rightarrow> bool" where
  "cleanupDue now u \<longleftrightarrow>
     (pu_cleanupLeaseExpiresAt u = None \<or> leasePassed now (pu_cleanupLeaseExpiresAt u)) \<and>
     (pu_stagingDeletedAt u = None \<and>
        (pu_status u = Failed \<or> pu_status u = Verified \<or> pu_status u = Pending \<and> pu_expiresAt u \<le> now \<or>
         pu_status u = Processing \<and> pu_expiresAt u \<le> now \<and> leasePassed now (pu_processingLeaseExpiresAt u)) \<or>
      finalRequired u)"

text \<open>\<^verbatim>\<open>ASC\<close> puts the rows without a pending deletion last.\<close>

definition cleanupKey :: "profileUpload \<Rightarrow> (bool \<times> int) \<times> int \<times> int \<times> jsstring" where
  "cleanupKey u =
     ((pu_finalDeletionPendingAt u = None, case pu_finalDeletionPendingAt u of None \<Rightarrow> 0 | Some t \<Rightarrow> t),
      pu_expiresAt u, pu_createdAt u, pu_id u)"

definition claimCleanup :: "timestamp \<Rightarrow> timestamp \<Rightarrow> profileUpload \<Rightarrow> profileUpload" where
  "claimCleanup now lease u = u\<lparr>
     pu_status := (if openStatus (pu_status u) then Failed else pu_status u),
     pu_failureCode := (if openStatus (pu_status u) then Some ''UPLOAD_EXPIRED'' else pu_failureCode u),
     pu_processingLeaseExpiresAt := None, pu_cleanupLeaseExpiresAt := Some lease,
     pu_cleanupAttempts := pu_cleanupAttempts u + 1, pu_updatedAt := now\<rparr>"

record cleanupUploadClaim =
  cl_jobs :: "profileUpload list"
  cl_hasMore :: bool

definition claimCleanupBatch :: "timestamp \<Rightarrow> timestamp \<Rightarrow> nat \<Rightarrow> cleanupUploadClaim dbprog" where
  "claimCleanupBatch now lease limit = transaction (
     andThen (query (\<lambda>d. claimRows pu_id cleanupKey (cleanupDue now) (claimCleanup now lease) limit
       (profileUploads d))) (\<lambda>(jobs, t).
     if jobs = [] then ret \<lparr>cl_jobs = [], cl_hasMore = False\<rparr>
     else
       andThen (modify (\<lambda>d. d\<lparr>profileUploads := t\<rparr>)) (\<lambda>_.
       andThen (query (\<lambda>d. existsRow (cleanupDue now) (profileUploads d))) (\<lambda>more.
       ret \<lparr>cl_jobs = jobs, cl_hasMore = more\<rparr>))))"

definition cleanedUpload :: "bool \<Rightarrow> bool \<Rightarrow> timestamp option \<Rightarrow> timestamp \<Rightarrow> profileUpload \<Rightarrow> profileUpload" where
  "cleanedUpload stagingDeleted finalDeleted nextAttemptAt now u =
     (let u1 = (if stagingDeleted then u\<lparr>pu_stagingDeletedAt := Some now\<rparr> else u);
          u2 = (if finalDeleted then u1\<lparr>pu_finalKey := None, pu_publicUrl := None, pu_finalContentType := None,
            pu_finalSizeBytes := None, pu_verifiedAt := None, pu_finalDeletedAt := Some now\<rparr> else u1)
      in u2\<lparr>pu_cleanupLeaseExpiresAt := nextAttemptAt, pu_updatedAt := now\<rparr>)"

text \<open>The check constraint \<^verbatim>\<open>profile_uploads_final_deletion_state_check\<close>.\<close>

definition finalDeletionState :: "profileUpload \<Rightarrow> bool" where
  "finalDeletionState u \<longleftrightarrow> pu_finalDeletionPendingAt u = None \<and> pu_finalDeletedAt u = None \<or>
     pu_finalDeletionPendingAt u \<noteq> None \<and> (pu_finalKey u \<noteq> None \<or> pu_finalDeletedAt u \<noteq> None)"

definition applyCleanupResult ::
  "jsstring \<Rightarrow> timestamp \<Rightarrow> bool \<Rightarrow> bool \<Rightarrow> timestamp option \<Rightarrow> timestamp \<Rightarrow> unit dbprog" where
  "applyCleanupResult uploadId lease stagingDeleted finalDeleted nextAttemptAt now =
     (let P = (\<lambda>u. pu_id u = pgUuid uploadId \<and> pu_cleanupLeaseExpiresAt u = Some lease);
          f = cleanedUpload stagingDeleted finalDeleted nextAttemptAt now in
      andThen (query (\<lambda>d. existsRow (\<lambda>u. P u \<and> \<not> finalDeletionState (f u)) (profileUploads d))) (\<lambda>bad.
      andThen (throwIf bad (PgError CheckViolation)) (\<lambda>_.
      andThen (updateUploads P f) (\<lambda>_.
      ret ()))))"

section \<open>Object store\<close>

definition configText :: "uploadEnv \<Rightarrow> string \<Rightarrow> jsstring" where
  "configText env key = (case configGet env key of None \<Rightarrow> [] | Some v \<Rightarrow> trim v)"

text \<open>The settings without which no request to the store is made.\<close>

definition connection :: "uploadEnv \<Rightarrow> bool" where
  "connection env \<longleftrightarrow> configText env ''R2_ACCOUNT_ID'' \<noteq> [] \<and> configText env ''R2_ACCESS_KEY_ID'' \<noteq> [] \<and>
     configText env ''R2_SECRET_ACCESS_KEY'' \<noteq> [] \<and> configText env ''R2_BUCKET'' \<noteq> []"

definition createPresignedPutUrl :: "uploadEnv \<Rightarrow> jsstring \<Rightarrow> jsstring \<Rightarrow> int \<Rightarrow> jsstring dbprog" where
  "createPresignedPutUrl env key contentType sizeBytes =
     andThen (throwIf (\<not> connection env) (ErrorCode ''R2_CONFIG_REQUIRED'')) (\<lambda>_.
     ret (signedUrl env key contentType sizeBytes))"

definition normalizeContentType :: "jsstring option \<Rightarrow> jsstring" where
  "normalizeContentType v = (case v of None \<Rightarrow> [] | Some s \<Rightarrow> toLowerCase (trim (hd (splitOn 59 s))))"

text \<open>\<^verbatim>\<open>/^bytes \d+-\d+\/(\d+)$/\<close>: the digits after the slash.\<close>

definition matchContentRange :: "jsstring \<Rightarrow> jsstring option" where
  "matchContentRange v =
     (let a = drop 6 v; from = takeWhile isDigit a; r1 = dropWhile isDigit a;
          b = drop 1 r1; to = takeWhile isDigit b; r2 = dropWhile isDigit b;
          c = drop 1 r2
      in if take 6 v = js ''bytes '' \<and> from \<noteq> [] \<and> take 1 r1 = js ''-'' \<and> to \<noteq> [] \<and> take 1 r2 = js ''/'' \<and>
            c \<noteq> [] \<and> list_all isDigit c
         then Some c else None)"

definition contentRangeTotal :: "jsstring option \<Rightarrow> int option" where
  "contentRangeTotal v =
     (case Option.bind v matchContentRange of
        None \<Rightarrow> None
      | Some ds \<Rightarrow> if decimal ds \<le> MAX_SAFE_INTEGER then Some (decimal ds) else None)"

text \<open>Reading ends in the bytes, in an \<^verbatim>\<open>UploadObjectValidationError\<close>, or in another error.\<close>

datatype stagingRead = StagingBytes bytes | StagingInvalid string | StagingUnavailable

definition readStagingBody :: "getObjectOutput \<Rightarrow> int \<Rightarrow> stagingRead" where
  "readStagingBody obj expectedSizeBytes =
     (if go_Body obj = NoBody then StagingInvalid ''UPLOAD_OBJECT_BODY_MISSING''
      else if go_ContentLength obj \<noteq> Some expectedSizeBytes then StagingInvalid ''UPLOAD_OBJECT_SIZE_MISMATCH''
      else if (case contentRangeTotal (go_ContentRange obj) of None \<Rightarrow> False | Some n \<Rightarrow> n \<noteq> expectedSizeBytes)
      then StagingInvalid ''UPLOAD_OBJECT_SIZE_MISMATCH''
      else case go_Body obj of
        Body bs \<Rightarrow> if int (length bs) \<noteq> expectedSizeBytes then StagingInvalid ''UPLOAD_OBJECT_SIZE_MISMATCH''
          else StagingBytes bs
      | _ \<Rightarrow> StagingUnavailable)"

definition readStagingObject :: "uploadEnv \<Rightarrow> jsstring \<Rightarrow> jsstring \<Rightarrow> int \<Rightarrow> stagingRead" where
  "readStagingObject env key expectedContentType expectedSizeBytes =
     (if \<not> connection env then StagingUnavailable
      else case headObject env key of
        None \<Rightarrow> StagingUnavailable
      | Some h \<Rightarrow>
          if ho_ContentLength h \<noteq> Some expectedSizeBytes then StagingInvalid ''UPLOAD_OBJECT_SIZE_MISMATCH''
          else if normalizeContentType (ho_ContentType h) \<noteq> expectedContentType
          then StagingInvalid ''UPLOAD_OBJECT_CONTENT_TYPE_MISMATCH''
          else if \<not> truthy (ho_ETag h) then StagingInvalid ''UPLOAD_OBJECT_ETAG_MISSING''
          else case getObject env key (the (ho_ETag h)) expectedSizeBytes of
            None \<Rightarrow> StagingUnavailable
          | Some obj \<Rightarrow> readStagingBody obj expectedSizeBytes)"

definition putFinalObject :: "uploadEnv \<Rightarrow> jsstring \<Rightarrow> bytes \<Rightarrow> bool" where
  "putFinalObject env key body \<longleftrightarrow> connection env \<and> putObject env key body"

definition deleteObject :: "uploadEnv \<Rightarrow> jsstring \<Rightarrow> bool" where
  "deleteObject env key \<longleftrightarrow> connection env \<and> deleteObjectOk env key"

section \<open>Service\<close>

definition MAX_UPLOAD_BYTES :: int where
  "MAX_UPLOAD_BYTES = 10 * 1024 * 1024"

definition MAX_IMAGE_DIMENSION :: nat where
  "MAX_IMAGE_DIMENSION = 4096"

definition UPLOAD_URL_TTL_MS :: int where
  "UPLOAD_URL_TTL_MS = 5 * 60 * 1000"

definition FINALIZE_LEASE_MS :: int where
  "FINALIZE_LEASE_MS = 2 * 60 * 1000"

definition CLEANUP_LEASE_MS :: int where
  "CLEANUP_LEASE_MS = 60 * 1000"

definition FINAL_CONTENT_TYPE :: jsstring where
  "FINAL_CONTENT_TYPE = js ''image/jpeg''"

definition ALLOWED_IMAGE_TYPES :: "(jsstring \<times> jsstring list) list" where
  "ALLOWED_IMAGE_TYPES = [(js ''image/jpeg'', [js ''jpg'', js ''jpeg'']), (js ''image/png'', [js ''png'']),
     (js ''image/webp'', [js ''webp'']), (js ''image/gif'', [js ''gif''])]"

definition DECODED_FORMAT_BY_CONTENT_TYPE :: "(jsstring \<times> jsstring) list" where
  "DECODED_FORMAT_BY_CONTENT_TYPE = [(js ''image/jpeg'', js ''jpeg''), (js ''image/png'', js ''png''),
     (js ''image/webp'', js ''webp''), (js ''image/gif'', js ''gif'')]"

definition lastIndexOf :: "nat \<Rightarrow> jsstring \<Rightarrow> nat option" where
  "lastIndexOf c s = List.find (\<lambda>k. s ! k = c) (rev [0..<length s])"

fun includesPair :: "nat \<Rightarrow> jsstring \<Rightarrow> bool" where
  "includesPair c (a # b # s) \<longleftrightarrow> a = c \<and> b = c \<or> includesPair c (b # s)"
| "includesPair c _ \<longleftrightarrow> False"

definition isAlphanumeric :: "nat \<Rightarrow> bool" where
  "isAlphanumeric c \<longleftrightarrow> isDigit c \<or> 65 \<le> c \<and> c \<le> 90 \<or> 97 \<le> c \<and> c \<le> 122"

definition safeExtension :: "jsstring \<Rightarrow> jsstring option" where
  "safeExtension filename =
     (if 255 < length filename \<or> List.member filename 47 \<or> List.member filename 92 then None
      else if list_ex (\<lambda>c. c \<le> 31 \<or> c = 127) filename \<or> includesPair 46 filename then None
      else case lastIndexOf 46 filename of
        None \<Rightarrow> None
      | Some dotIndex \<Rightarrow>
          if dotIndex < 1 then None
          else
            let extension = drop (dotIndex + 1) filename in
            if 1 \<le> length extension \<and> length extension \<le> 5 \<and> list_all isAlphanumeric extension
            then Some (toLowerCase extension) else None)"

record uploadMetadata =
  um_contentType :: jsstring
  um_extension :: jsstring
  um_sizeBytes :: int

definition validateUploadInput ::
  "uploadEnv \<Rightarrow> jsstring \<Rightarrow> jsstring \<Rightarrow> jsstring \<Rightarrow> int \<Rightarrow> uploadMetadata dbprog" where
  "validateUploadInput env userId inputName inputType sizeBytes =
     (let filename = trim inputName; contentType = toLowerCase (trim inputType) in
      andThen (throwIf (filename = []) (ErrorCode ''UPLOAD_FILENAME_REQUIRED'')) (\<lambda>_.
      andThen (throwIf (\<not> isUuidText env userId) (ErrorCode ''UPLOAD_USER_ID_INVALID'')) (\<lambda>_.
      case map_of ALLOWED_IMAGE_TYPES contentType of
        None \<Rightarrow> throw (ErrorCode ''UPLOAD_CONTENT_TYPE_UNSUPPORTED'')
      | Some allowedExtensions \<Rightarrow>
          andThen (throwIf (sizeBytes < 1 \<or> MAX_UPLOAD_BYTES < sizeBytes) (ErrorCode ''UPLOAD_SIZE_INVALID'')) (\<lambda>_.
          andThen (throwIf (case safeExtension filename of None \<Rightarrow> True
              | Some e \<Rightarrow> e = [] \<or> \<not> List.member allowedExtensions e)
            (ErrorCode ''UPLOAD_EXTENSION_UNSUPPORTED'')) (\<lambda>_.
          ret \<lparr>um_contentType = contentType, um_extension = hd allowedExtensions, um_sizeBytes = sizeBytes\<rparr>)))))"

definition stripSlashes :: "jsstring \<Rightarrow> jsstring" where
  "stripSlashes s = rev (dropWhile (\<lambda>c. c = 47) (rev s))"

definition profilePublicBaseUrl :: "uploadEnv \<Rightarrow> jsstring dbprog" where
  "profilePublicBaseUrl env =
     (let configured = stripSlashes (configText env ''R2_PUBLIC_BASE_URL'');
          valid = (case parseUrl env (configured @ js ''/'') of
            None \<Rightarrow> False
          | Some u \<Rightarrow> url_protocol u = js ''https:'' \<and> url_username u = [] \<and> url_password u = [] \<and>
              url_search u = [] \<and> url_hash u = [] \<and> url_href u = configured @ js ''/'')
      in andThen (throwIf (configured = [] \<or> \<not> valid) (ErrorCode ''R2_CONFIG_REQUIRED'')) (\<lambda>_.
         ret configured))"

record createUploadPayload =
  cu_id :: uuid
  cu_putUrl :: jsstring
  cu_expiresAt :: timestamp

definition createUpload ::
  "uploadEnv \<Rightarrow> uuid \<Rightarrow> timestamp \<Rightarrow> jsstring \<Rightarrow> jsstring \<Rightarrow> jsstring \<Rightarrow> int \<Rightarrow> createUploadPayload dbprog" where
  "createUpload env i now userId filename contentType sizeBytes =
     andThen (validateUploadInput env userId filename contentType sizeBytes) (\<lambda>metadata.
     andThen (profilePublicBaseUrl env) (\<lambda>_.
     let expiresAt = now + UPLOAD_URL_TTL_MS;
         stagingKey = js ''profile-staging/'' @ userId @ js ''/'' @ i @ js ''.'' @ um_extension metadata in
     andThen (createPresignedPutUrl env stagingKey (um_contentType metadata) (um_sizeBytes metadata)) (\<lambda>putUrl.
     andThen (createPending i userId stagingKey (um_contentType metadata) (um_sizeBytes metadata) expiresAt now) (\<lambda>_.
     ret \<lparr>cu_id = i, cu_putUrl = putUrl, cu_expiresAt = expiresAt\<rparr>))))"

text \<open>The image library's decision; every error of it is caught by the caller.\<close>

definition normalizeProfileImage :: "uploadEnv \<Rightarrow> bytes \<Rightarrow> jsstring \<Rightarrow> bytes option" where
  "normalizeProfileImage env bs expectedContentType =
     (case readMetadata env bs of
        None \<Rightarrow> None
      | Some m \<Rightarrow>
          if \<not> truthy (im_format m) \<or> im_format m \<noteq> map_of DECODED_FORMAT_BY_CONTENT_TYPE expectedContentType then None
          else case (im_width m, im_height m) of
            (Some w, Some h) \<Rightarrow>
              if w = 0 \<or> h = 0 \<or> MAX_IMAGE_DIMENSION < w \<or> MAX_IMAGE_DIMENSION < h then None else toJpeg env bs
          | _ \<Rightarrow> None)"

record verifiedUploadPayload =
  vu_id :: uuid
  vu_publicUrl :: jsstring
  vu_contentType :: jsstring
  vu_sizeBytes :: int

definition finalizedPayload :: "profileUpload \<Rightarrow> verifiedUploadPayload dbprog" where
  "finalizedPayload u =
     (if \<not> truthy (pu_publicUrl u) \<or> \<not> truthy (pu_finalContentType u) \<or> pu_finalSizeBytes u = None \<or> pu_finalSizeBytes u = Some 0
      then throw (ErrorCode ''UPLOAD_VERIFIED_METADATA_INVALID'')
      else ret \<lparr>vu_id = pu_id u, vu_publicUrl = the (pu_publicUrl u), vu_contentType = the (pu_finalContentType u),
        vu_sizeBytes = the (pu_finalSizeBytes u)\<rparr>)"

definition finalizeLease :: "profileUpload \<Rightarrow> timestamp dbprog" where
  "finalizeLease u = (case pu_processingLeaseExpiresAt u of
     None \<Rightarrow> throw (ErrorCode ''UPLOAD_PROCESSING_LEASE_INVALID'') | Some l \<Rightarrow> ret l)"

definition finalObjectFor :: "uploadEnv \<Rightarrow> jsstring \<Rightarrow> jsstring \<Rightarrow> profileUpload \<Rightarrow> bytes \<Rightarrow> finalObject" where
  "finalObjectFor env baseUrl userId u normalized =
     (let finalKey = js ''profiles/'' @ userId @ js ''/'' @ pu_id u @ js ''/'' @ contentSha256 env normalized @ js ''.jpg''
      in \<lparr>fo_finalKey = finalKey, fo_publicUrl = baseUrl @ js ''/'' @ finalKey, fo_contentType = FINAL_CONTENT_TYPE,
          fo_sizeBytes = int (length normalized)\<rparr>)"

text \<open>From the normalised image to the published upload.\<close>

definition publishUpload ::
  "uploadEnv \<Rightarrow> timestamp \<Rightarrow> jsstring \<Rightarrow> profileUpload \<Rightarrow> timestamp \<Rightarrow> bytes \<Rightarrow> verifiedUploadPayload dbprog" where
  "publishUpload env now userId u lease normalized =
     andThen (profilePublicBaseUrl env) (\<lambda>baseUrl.
     let x = finalObjectFor env baseUrl userId u normalized in
     andThen (prepareFinalObject (pu_id u) userId x lease now) (\<lambda>_.
     if \<not> putFinalObject env (fo_finalKey x) normalized
     then
       andThen (releaseFinalizeLease (pu_id u) lease now) (\<lambda>_.
       throw (ErrorCode ''UPLOAD_FINAL_WRITE_FAILED''))
     else
       andThen (uploadMarkVerified (pu_id u) userId x lease now) (\<lambda>verified.
       andThen (if deleteObject env (pu_stagingKey u) then markStagingDeleted (pu_id u) now else ret ()) (\<lambda>_.
       finalizedPayload verified))))"

definition finalizeUpload ::
  "uploadEnv \<Rightarrow> timestamp \<Rightarrow> jsstring \<Rightarrow> jsstring \<Rightarrow> verifiedUploadPayload dbprog" where
  "finalizeUpload env now userId uploadId =
     andThen (throwIf (\<not> isUuidText env userId) (ErrorCode ''UPLOAD_USER_ID_INVALID'')) (\<lambda>_.
     andThen (throwIf (\<not> isUuidText env uploadId) (ErrorCode ''UPLOAD_ID_INVALID'')) (\<lambda>_.
     andThen (claimFinalize uploadId userId now (now + FINALIZE_LEASE_MS)) (\<lambda>claim.
     case claim of
       FinalizeVerified u \<Rightarrow> finalizedPayload u
     | FinalizeExpired u \<Rightarrow> throw (ErrorCode ''UPLOAD_EXPIRED'')
     | FinalizeBusy u \<Rightarrow> throw (ErrorCode ''UPLOAD_PROCESSING'')
     | FinalizeClaimed u \<Rightarrow>
         andThen (finalizeLease u) (\<lambda>lease.
         case readStagingObject env (pu_stagingKey u) (pu_expectedContentType u) (pu_expectedSizeBytes u) of
           StagingInvalid e \<Rightarrow>
             andThen (markFailed (pu_id u) e lease now) (\<lambda>_. throw (ErrorCode e))
         | StagingUnavailable \<Rightarrow>
             andThen (releaseFinalizeLease (pu_id u) lease now) (\<lambda>_. throw (ErrorCode ''UPLOAD_OBJECT_UNAVAILABLE''))
         | StagingBytes inputBytes \<Rightarrow>
             (case normalizeProfileImage env inputBytes (pu_expectedContentType u) of
                None \<Rightarrow>
                  andThen (markFailed (pu_id u) ''UPLOAD_IMAGE_INVALID'' lease now) (\<lambda>_.
                  throw (ErrorCode ''UPLOAD_IMAGE_INVALID''))
              | Some normalized \<Rightarrow> publishUpload env now userId u lease normalized)))))"

definition validateUploadBatchLimit :: "int \<Rightarrow> nat dbprog" where
  "validateUploadBatchLimit limit =
     (if limit < 1 \<or> 100 < limit then throw (ErrorCode ''UPLOAD_BATCH_LIMIT_INVALID'') else ret (nat limit))"

definition cleanupRetryDelay :: "int \<Rightarrow> int" where
  "cleanupRetryDelay n = min (30000 * 2 ^ nat (max 0 (n - 1))) (60 * 60 * 1000)"

datatype cleanupOutcome = CleanupSucceeded | CleanupRetry

definition cleanupJob :: "uploadEnv \<Rightarrow> timestamp \<Rightarrow> profileUpload \<Rightarrow> cleanupOutcome dbprog" where
  "cleanupJob env now u =
     (let stagingRequired = (pu_stagingDeletedAt u = None);
          stagingDeleted = (if stagingRequired then deleteObject env (pu_stagingKey u) else True);
          finalDeleted = (if finalRequired u \<and> truthy (pu_finalKey u) then deleteObject env (the (pu_finalKey u)) else True);
          completed = (stagingDeleted \<and> finalDeleted) in
      case pu_cleanupLeaseExpiresAt u of
        None \<Rightarrow> throw (ErrorCode ''UPLOAD_CLEANUP_LEASE_INVALID'')
      | Some lease \<Rightarrow>
          andThen (applyCleanupResult (pu_id u) lease (stagingRequired \<and> stagingDeleted) (finalRequired u \<and> finalDeleted)
            (if completed then None else Some (now + cleanupRetryDelay (pu_cleanupAttempts u))) now) (\<lambda>_.
          ret (if completed then CleanupSucceeded else CleanupRetry)))"

text \<open>Every job runs; an error of one is kept until all are done.\<close>

fun settleCleanupJobs :: "uploadEnv \<Rightarrow> timestamp \<Rightarrow> profileUpload list \<Rightarrow> (app_error + cleanupOutcome) list dbprog" where
  "settleCleanupJobs env now [] = ret []"
| "settleCleanupJobs env now (u # us) =
     andThen (tryCatch (andThen (cleanupJob env now u) (\<lambda>o'. ret (Inr o'))) (\<lambda>e. ret (Inl e))) (\<lambda>r.
     andThen (settleCleanupJobs env now us) (\<lambda>rs.
     ret (r # rs)))"

fun unwrapOutcomes :: "(app_error + cleanupOutcome) list \<Rightarrow> cleanupOutcome list dbprog" where
  "unwrapOutcomes [] = ret []"
| "unwrapOutcomes (Inl e # rs) = throw e"
| "unwrapOutcomes (Inr x # rs) = andThen (unwrapOutcomes rs) (\<lambda>xs. ret (x # xs))"

record uploadMaintenanceBatchResult =
  ur_claimed :: nat
  ur_succeeded :: nat
  ur_retryScheduled :: nat
  ur_permanentlyFailed :: nat
  ur_hasMore :: bool

definition cleanupExpiredStagingBatch :: "uploadEnv \<Rightarrow> timestamp \<Rightarrow> int \<Rightarrow> uploadMaintenanceBatchResult dbprog" where
  "cleanupExpiredStagingBatch env now limit =
     andThen (validateUploadBatchLimit limit) (\<lambda>n.
     andThen (claimCleanupBatch now (now + CLEANUP_LEASE_MS) n) (\<lambda>claimed.
     andThen (settleCleanupJobs env now (cl_jobs claimed)) (\<lambda>settled.
     andThen (unwrapOutcomes settled) (\<lambda>outcomes.
     ret \<lparr>ur_claimed = length outcomes,
       ur_succeeded = countWhere (\<lambda>x. x = CleanupSucceeded) outcomes,
       ur_retryScheduled = countWhere (\<lambda>x. x = CleanupRetry) outcomes,
       ur_permanentlyFailed = 0, ur_hasMore = cl_hasMore claimed\<rparr>))))"

section \<open>Leased cleanup\<close>

interpretation cleanups: lease_queue pu_id cleanupKey cleanupDue claimCleanup
  by unfold_locales
     (auto simp: claimCleanup_def cleanupDue_def leasePassed_def openStatus_def finalRequired_def
       split: if_splits profileUploadStatus.splits)

lemma claimCleanupBatch_eq:
  "claimCleanupBatch now lease limit d =
     (let (jobs, t) = cleanups.batch now lease limit (profileUploads d)
      in if jobs = [] then (Inr \<lparr>cl_jobs = [], cl_hasMore = False\<rparr>, d)
         else (Inr \<lparr>cl_jobs = jobs, cl_hasMore = existsRow (cleanupDue now) t\<rparr>, d\<lparr>profileUploads := t\<rparr>))"
  by (simp add: claimCleanupBatch_def cleanups.batch_def transaction_def split: prod.splits)

lemma claimCleanupBatch_batch:
  assumes "claimCleanupBatch now lease limit d = (Inr b, d')"
  shows "cl_jobs b = fst (cleanups.batch now lease limit (profileUploads d))"
    "profileUploads d' = snd (cleanups.batch now lease limit (profileUploads d))"
  using assms cleanups.batch_empty [of now lease limit "profileUploads d"]
  by (auto simp: claimCleanupBatch_eq case_prod_beta Let_def split: if_splits)

section \<open>The life of an upload\<close>

text \<open>The statements of requests and workers, in any order and with any arguments: what one of them did
  between two statements of another is a step as well. The deletion of the owner's account is the
  update that the account deletion makes of the uploads.\<close>

datatype uploadStep =
    CreateStep uuid jsstring jsstring jsstring int timestamp timestamp
  | ClaimFinalizeStep jsstring jsstring timestamp timestamp
  | PrepareStep jsstring jsstring finalObject timestamp timestamp
  | VerifyStep jsstring jsstring finalObject timestamp timestamp
  | FailStep jsstring string timestamp timestamp
  | ReleaseStep jsstring timestamp timestamp
  | StagingDeletedStep jsstring timestamp
  | ClaimCleanupStep timestamp timestamp nat
  | CleanupResultStep jsstring timestamp bool bool "timestamp option" timestamp
  | OwnerDeletedStep timestamp uuid

fun stepUpload :: "db \<Rightarrow> uploadStep \<Rightarrow> db" where
  "stepUpload d (CreateStep i userId key ct bs expiresAt now) = snd (createPending i userId key ct bs expiresAt now d)"
| "stepUpload d (ClaimFinalizeStep uploadId userId now lease) = snd (claimFinalize uploadId userId now lease d)"
| "stepUpload d (PrepareStep uploadId userId x lease now) = snd (prepareFinalObject uploadId userId x lease now d)"
| "stepUpload d (VerifyStep uploadId userId x lease now) = snd (uploadMarkVerified uploadId userId x lease now d)"
| "stepUpload d (FailStep uploadId code lease now) = snd (markFailed uploadId code lease now d)"
| "stepUpload d (ReleaseStep uploadId lease now) = snd (releaseFinalizeLease uploadId lease now d)"
| "stepUpload d (StagingDeletedStep uploadId now) = snd (markStagingDeleted uploadId now d)"
| "stepUpload d (ClaimCleanupStep now lease limit) = snd (claimCleanupBatch now lease limit d)"
| "stepUpload d (CleanupResultStep uploadId lease s f nextAt now) = snd (applyCleanupResult uploadId lease s f nextAt now d)"
| "stepUpload d (OwnerDeletedStep now userId) = failUploads now userId d"

fun deletesOwner :: "uuid \<Rightarrow> uploadStep \<Rightarrow> bool" where
  "deletesOwner u (OwnerDeletedStep now userId) \<longleftrightarrow> userId = u"
| "deletesOwner u _ \<longleftrightarrow> False"

text \<open>What holds of every row.\<close>

definition uploadRowOk :: "profileUpload \<Rightarrow> bool" where
  "uploadRowOk u \<longleftrightarrow> finalDeletionState u \<and>
     (pu_status u = Processing \<longleftrightarrow> pu_processingLeaseExpiresAt u \<noteq> None) \<and>
     (pu_status u = Verified \<longrightarrow> pu_finalDeletionPendingAt u = None \<and> pu_finalKey u \<noteq> None \<and> pu_publicUrl u \<noteq> None \<and>
        pu_finalContentType u \<noteq> None \<and> pu_finalSizeBytes u \<noteq> None)"

definition uploadInv :: "db \<Rightarrow> bool" where
  "uploadInv d \<longleftrightarrow> uniqueKey pu_id (profileUploads d) \<and> uniqueSome pu_finalKey (profileUploads d) \<and>
     list_all uploadRowOk (profileUploads d)"

text \<open>The moves of an upload: a failed one stays failed, a published one keeps its object and its address
  unless its owner is deleted, and only an upload in processing is published.\<close>

definition uploadMove :: "bool \<Rightarrow> profileUpload \<Rightarrow> profileUpload \<Rightarrow> bool" where
  "uploadMove deleted u v \<longleftrightarrow> pu_id v = pu_id u \<and> pu_userId v = pu_userId u \<and>
     (pu_status u = Failed \<longrightarrow> pu_status v = Failed) \<and>
     (pu_status u = Verified \<and> \<not> deleted \<longrightarrow>
        pu_status v = Verified \<and> pu_finalKey v = pu_finalKey u \<and> pu_publicUrl v = pu_publicUrl u) \<and>
     (pu_status v = Verified \<and> pu_status u \<noteq> Verified \<longrightarrow> pu_status u = Processing)"

text \<open>A step moves every upload and adds only uploads that are pending.\<close>

definition uploadsMoved :: "(uuid \<Rightarrow> bool) \<Rightarrow> db \<Rightarrow> db \<Rightarrow> bool" where
  "uploadsMoved deleted d d' \<longleftrightarrow> uploadInv d' \<and>
     (\<forall>u \<in> set (profileUploads d). \<exists>v \<in> set (profileUploads d'). uploadMove (deleted (pu_userId u)) u v) \<and>
     (\<forall>v \<in> set (profileUploads d'). pu_id v \<notin> pu_id ` set (profileUploads d) \<longrightarrow> pu_status v = Pending)"

lemma uploadMove_refl [simp]: "uploadMove deleted u u"
  by (simp add: uploadMove_def)

lemma uploadsMoved_refl: "uploadInv d \<Longrightarrow> uploadsMoved deleted d d"
  by (auto simp: uploadsMoved_def intro: uploadMove_refl)

text \<open>An update moves the uploads if it moves the rows it meets.\<close>

lemma uploadsMoved_update:
  assumes inv: "uploadInv d"
    and moves: "\<And>u. u \<in> set (profileUploads d) \<Longrightarrow> P u \<Longrightarrow> uploadRowOk u \<Longrightarrow> uploadMove (deleted (pu_userId u)) u (f u) \<and> uploadRowOk (f u)"
    and final: "uniqueSome pu_finalKey (updateWhere P f (profileUploads d))"
  shows "uploadsMoved deleted d (d\<lparr>profileUploads := updateWhere P f (profileUploads d)\<rparr>)"
proof -
  have ok: "list_all uploadRowOk (profileUploads d)"
    using inv by (simp add: uploadInv_def)
  then have ids: "map pu_id (updateWhere P f (profileUploads d)) = map pu_id (profileUploads d)"
    using moves by (intro map_updateWhere) (auto simp: uploadMove_def list_all_iff)
  then have "uploadInv (d\<lparr>profileUploads := updateWhere P f (profileUploads d)\<rparr>)"
    using inv moves final ok by (auto simp: uploadInv_def uniqueKey_def list_all_iff set_updateWhere)
  moreover have "\<exists>v \<in> set (updateWhere P f (profileUploads d)). uploadMove (deleted (pu_userId u)) u v"
    if "u \<in> set (profileUploads d)" for u
    using that ok moves [OF that] by (intro updateWhere_bex) (auto simp: list_all_iff)
  moreover have "pu_id ` set (updateWhere P f (profileUploads d)) = pu_id ` set (profileUploads d)"
    using ids by (metis list.set_map)
  ultimately show ?thesis
    by (auto simp: uploadsMoved_def)
qed

text \<open>Most updates leave the final key alone or clear it.\<close>

lemma uploadsMoved_keep:
  assumes inv: "uploadInv d"
    and moves: "\<And>u. u \<in> set (profileUploads d) \<Longrightarrow> P u \<Longrightarrow> uploadRowOk u \<Longrightarrow> uploadMove (deleted (pu_userId u)) u (f u) \<and>
      uploadRowOk (f u) \<and> (pu_finalKey (f u) = pu_finalKey u \<or> pu_finalKey (f u) = None)"
  shows "uploadsMoved deleted d (d\<lparr>profileUploads := updateWhere P f (profileUploads d)\<rparr>)"
  using inv moves
  by (intro uploadsMoved_update uniqueSome_updateWhere) (auto simp: uploadInv_def list_all_iff)

lemma snd_updateUploads:
  "snd (andThen (updateUploads P f) (\<lambda>r. ret (h r)) d) = d\<lparr>profileUploads := updateWhere P f (profileUploads d)\<rparr>"
  "snd (updateUploads P f d) = d\<lparr>profileUploads := updateWhere P f (profileUploads d)\<rparr>"
  by (simp_all add: updateUploads_def andThen_assoc)

lemmas upload_row_defs = uploadMove_def uploadRowOk_def finalDeletionState_def leasedUpload_def

lemma createPending_moves: "uploadInv d \<Longrightarrow> uploadsMoved deleted d (snd (createPending i u key ct bs e now d))"
proof -
  assume inv: "uploadInv d"
  have "uploadsMoved deleted d (d\<lparr>profileUploads := insertRow (newUpload i u key ct bs e now) (profileUploads d)\<rparr>)"
    if "\<not> keyTaken pu_id (pgUuid i) (profileUploads d)"
    using inv that
    by (auto simp: uploadsMoved_def uploadInv_def newUpload_def keyTaken_iff uploadRowOk_def finalDeletionState_def
        intro: uploadMove_refl intro!: uniqueSome_insertRow)
  with uploadsMoved_refl [OF inv] show ?thesis
    unfolding createPending_def
    by (intro transaction_keeps [where I = "uploadsMoved deleted d"]) (auto simp: Let_def)
qed

lemma status_moves:
  assumes "uploadInv d"
  shows "uploadsMoved deleted d (snd (markFailed i c lease now d))"
    and "uploadsMoved deleted d (snd (releaseFinalizeLease i lease now d))"
    and "uploadsMoved deleted d (snd (markStagingDeleted i now d))"
  unfolding markFailed_def releaseFinalizeLease_def markStagingDeleted_def snd_updateUploads
  by (rule uploadsMoved_keep [OF assms]; simp add: upload_row_defs)+


lemma findUpload_SomeD:
  "findUpload i u d = Some x \<Longrightarrow> x \<in> set (profileUploads d) \<and> pu_id x = pgUuid i \<and> pu_userId x = pgUuid u"
  by (auto simp: findUpload_def dest: findFirst_SomeD)

lemma claim_row:
  assumes "uploadRowOk x" and "openStatus (pu_status x)"
  shows "uploadMove b x (expireUpload now x)" "uploadRowOk (expireUpload now x)" "pu_finalKey (expireUpload now x) = pu_finalKey x"
    "uploadMove b x (processUpload now lease x)" "uploadRowOk (processUpload now lease x)"
    "pu_finalKey (processUpload now lease x) = pu_finalKey x"
  using assms by (auto simp: upload_row_defs expireUpload_def processUpload_def openStatus_def)

lemma claimFinalize_moves:
  assumes inv: "uploadInv d"
  shows "uploadsMoved deleted d (snd (claimFinalize i u now lease d))"
proof (cases "findUpload i u d")
  case None
  with uploadsMoved_refl [OF inv] show ?thesis
    by (simp add: claimFinalize_def transaction_def)
next
  case (Some x)
  note x = findUpload_SomeD [OF Some]
  have only: "y = x" if "y \<in> set (profileUploads d)" "pu_id y = pu_id x" for y
    using uniqueKey_inj [of pu_id "profileUploads d" y x] inv x that by (simp add: uploadInv_def)
  have "uploadsMoved deleted d (d\<lparr>profileUploads := updateWhere (\<lambda>y. pu_id y = pu_id x) f (profileUploads d)\<rparr>)"
    if "openStatus (pu_status x)" "f = expireUpload now \<or> f = processUpload now lease" for f
  proof (rule uploadsMoved_keep [OF inv])
    fix y assume "y \<in> set (profileUploads d)" "pu_id y = pu_id x" "uploadRowOk y"
    with only have "uploadRowOk x" "y = x" by blast+
    with that show "uploadMove (deleted (pu_userId y)) y (f y) \<and> uploadRowOk (f y) \<and>
        (pu_finalKey (f y) = pu_finalKey y \<or> pu_finalKey (f y) = None)"
      by (elim disjE) (simp_all add: claim_row)
  qed
  moreover have "openStatus (pu_status x)" if "pu_status x \<noteq> Verified" "pu_status x \<noteq> Failed"
    using that by (cases "pu_status x") (simp_all add: openStatus_def)
  ultimately show ?thesis
    unfolding claimFinalize_def using uploadsMoved_refl [OF inv] Some
    by (intro transaction_keeps [where I = "uploadsMoved deleted d"])
       (auto simp: updateUploads_def andThen_assoc split: option.splits)
qed

lemma prepare_moves:
  assumes inv: "uploadInv d"
  shows "uploadsMoved deleted d (snd (prepareFinalObject i u x lease now d))"
proof -
  let ?P = "preparable i u x lease" and ?f = "prepareUpload x lease now"
  have "uploadsMoved deleted d (d\<lparr>profileUploads := updateWhere ?P ?f (profileUploads d)\<rparr>)"
    if free: "existsRow ?P (profileUploads d) \<Longrightarrow>
      \<not> existsRow (\<lambda>w. pu_id w \<noteq> pgUuid i \<and> pu_finalKey w = Some (fo_finalKey x)) (profileUploads d)"
  proof (cases "existsRow ?P (profileUploads d)")
    case True
    have "uniqueSome pu_finalKey (updateWhere ?P ?f (profileUploads d))"
      using inv free [OF True]
      by (intro uniqueSome_set [where i = pu_id and a = "pgUuid i" and v = "fo_finalKey x"])
         (auto simp: uploadInv_def existsRow_iff prepareUpload_def preparable_def leasedUpload_def)
    then show ?thesis
      by (intro uploadsMoved_update [OF inv])
         (auto simp: upload_row_defs preparable_def prepareUpload_def split: option.splits)
  next
    case False
    then have "updateWhere ?P ?f (profileUploads d) = profileUploads d"
      by (intro updateWhere_none) (auto simp: existsRow_iff)
    with uploadsMoved_refl [OF inv] show ?thesis by simp
  qed
  with uploadsMoved_refl [OF inv] show ?thesis
    by (auto simp: prepareFinalObject_def updateUploads_def andThen_assoc throwIf_apply)
qed

lemma verify_moves:
  assumes inv: "uploadInv d"
  shows "uploadsMoved deleted d (snd (uploadMarkVerified i u x lease now d))"
proof -
  let ?P = "verifiable i u x lease" and ?f = "verifyUpload x now"
  have "uploadsMoved deleted d (d\<lparr>profileUploads := updateWhere ?P ?f (profileUploads d)\<rparr>)"
    by (rule uploadsMoved_keep [OF inv]) (auto simp: upload_row_defs verifiable_def verifyUpload_def)
  then show ?thesis
    by (auto simp: uploadMarkVerified_def updateUploads_def andThen_assoc split: option.splits)
qed

lemma cleanup_moves:
  assumes inv: "uploadInv d"
  shows "uploadsMoved deleted d (snd (claimCleanupBatch now lease limit d))"
    and "uploadsMoved deleted d (snd (applyCleanupResult i l s f nextAt now d))"
proof -
  obtain b d' where b: "claimCleanupBatch now lease limit d = (Inr b, d')"
    by (cases "cleanups.batch now lease limit (profileUploads d)";
        cases "fst (cleanups.batch now lease limit (profileUploads d)) = []") (auto simp: claimCleanupBatch_eq)
  have "d' = d\<lparr>profileUploads := updateWhere (\<lambda>r. pu_id r \<in> set (cleanups.ids now limit (profileUploads d)))
      (claimCleanup now lease) (profileUploads d)\<rparr>"
    using b cleanups.batch_empty [of now lease limit "profileUploads d"]
    by (auto simp: claimCleanupBatch_eq cleanups.batch_update case_prod_beta Let_def split: if_splits)
  then show "uploadsMoved deleted d (snd (claimCleanupBatch now lease limit d))"
    unfolding b snd_conv
    by (simp only:) (rule uploadsMoved_keep [OF inv], auto simp: upload_row_defs claimCleanup_def openStatus_def)
  let ?P = "\<lambda>u. pu_id u = pgUuid i \<and> pu_cleanupLeaseExpiresAt u = Some l" and ?f = "cleanedUpload s f nextAt now"
  have "uploadsMoved deleted d (d\<lparr>profileUploads := updateWhere ?P ?f (profileUploads d)\<rparr>)"
    if "\<not> existsRow (\<lambda>u. ?P u \<and> \<not> finalDeletionState (?f u)) (profileUploads d)"
    using that
    by (intro uploadsMoved_keep [OF inv])
       (auto simp: upload_row_defs cleanedUpload_def existsRow_iff Let_def split: if_splits)
  with uploadsMoved_refl [OF inv] show "uploadsMoved deleted d (snd (applyCleanupResult i l s f nextAt now d))"
    by (auto simp: applyCleanupResult_def Let_def snd_updateUploads)
qed

lemma owner_moves:
  assumes inv: "uploadInv d"
  shows "uploadsMoved (\<lambda>w. userId = w) d (failUploads now userId d)"
proof -
  let ?g = "\<lambda>p. if pu_finalKey p \<noteq> None \<and> pu_finalDeletedAt p = None
    then requestFinalDeletion now (failUpload now p) else failUpload now p"
  have "failUploads now userId d = d\<lparr>profileUploads := updateWhere (\<lambda>p. pu_userId p = userId) ?g (profileUploads d)\<rparr>"
    by (simp add: failUploads_def updateWhere_def failUpload_def cong: if_cong)
  then show ?thesis
    by (simp only:) (rule uploadsMoved_keep [OF inv],
      auto simp: upload_row_defs failUpload_def requestFinalDeletion_def)
qed

lemma stepUpload_moves:
  assumes "uploadInv d"
  shows "uploadsMoved (\<lambda>w. deletesOwner w e) d (stepUpload d e)"
proof (cases e)
  case (OwnerDeletedStep now userId)
  with owner_moves [OF assms, of userId now] show ?thesis by simp
qed (simp_all add: assms createPending_moves claimFinalize_moves prepare_moves verify_moves status_moves cleanup_moves)


interpretation uploads: invariant_machine stepUpload uploadInv
  using stepUpload_moves by unfold_locales (auto simp: uploadsMoved_def)

definition failedUpload :: "uuid \<Rightarrow> db \<Rightarrow> bool" where
  "failedUpload i d \<longleftrightarrow> i \<in> pu_id ` set (profileUploads d) \<and>
     list_all (\<lambda>u. pu_id u = i \<longrightarrow> pu_status u = Failed) (profileUploads d)"

definition publishedAs :: "uuid \<Rightarrow> uuid \<Rightarrow> jsstring option \<Rightarrow> jsstring option \<Rightarrow> db \<Rightarrow> bool" where
  "publishedAs i w k url d \<longleftrightarrow> existsRow (\<lambda>u. pu_id u = i \<and> pu_userId u = w \<and> pu_status u = Verified \<and> pu_finalKey u = k \<and>
     pu_publicUrl u = url) (profileUploads d)"

lemma moved_failed:
  assumes "uploadsMoved deleted d d'" and "failedUpload i d"
  shows "failedUpload i d'"
proof -
  from assms obtain u v where v: "v \<in> set (profileUploads d')" "pu_id v = i" "pu_status v = Failed"
    unfolding failedUpload_def uploadsMoved_def list_all_iff uploadMove_def by (smt (verit) image_iff)
  have "uniqueKey pu_id (profileUploads d')"
    using assms(1) by (simp add: uploadsMoved_def uploadInv_def)
  with v show ?thesis
    unfolding failedUpload_def list_all_iff by (metis image_eqI uniqueKey_inj)
qed

lemma moved_published:
  assumes "uploadsMoved deleted d d'" and "publishedAs i w k url d" and "\<not> deleted w"
  shows "publishedAs i w k url d'"
  using assms unfolding publishedAs_def uploadsMoved_def existsRow_iff uploadMove_def by blast

interpretation failures: invariant_machine stepUpload "\<lambda>d. uploadInv d \<and> failedUpload i d" for i
  using stepUpload_moves moved_failed uploads.step_inv by unfold_locales blast

interpretation publications: guarded_machine stepUpload "\<lambda>d. uploadInv d \<and> publishedAs i w k url d"
  "\<lambda>e. \<not> deletesOwner w e" for i w k url
  using stepUpload_moves moved_published uploads.step_inv by unfold_locales blast

lemma cleanup_job_row:
  assumes "uploadInv d" and "claimCleanupBatch now lease limit d = (Inr b, d')" and "job \<in> set (cl_jobs b)"
  obtains r where "r \<in> set (profileUploads d)" "job = claimCleanup now lease r" "job \<in> set (profileUploads d')"
proof -
  have u: "uniqueKey pu_id (profileUploads d)"
    using assms(1) by (simp add: uploadInv_def)
  have j: "job \<in> set (fst (cleanups.batch now lease limit (profileUploads d)))"
    using assms(3) claimCleanupBatch_batch(1) [OF assms(2)] by simp
  from cleanups.batch_jobs_due [OF u j] obtain r where "r \<in> set (profileUploads d)" "job = claimCleanup now lease r" .
  moreover have "job \<in> set (profileUploads d')"
    using j unfolding claimCleanupBatch_batch(2) [OF assms(2)]
    by (auto simp: cleanups.batch_eq returning_def set_updateWhere)
  ultimately show ?thesis using that by blast
qed

text \<open>C25. A published upload stays published under its key and address while requests and workers
  go on, until its owner's account is deleted, and no cleanup job is made that would delete its object.\<close>

theorem published_upload_kept:
  assumes "uploadInv d" and "u \<in> set (profileUploads d)" and "pu_status u = Verified"
    and "list_all (\<lambda>e. \<not> deletesOwner (pu_userId u) e) es" and "d' = foldl stepUpload d es"
  shows "existsRow (\<lambda>v. pu_id v = pu_id u \<and> pu_status v = Verified \<and> pu_finalKey v = pu_finalKey u \<and>
      pu_publicUrl v = pu_publicUrl u) (profileUploads d') \<and>
    (\<forall>b d''. claimCleanupBatch now lease limit d' = (Inr b, d'') \<longrightarrow>
      list_all (\<lambda>job. finalRequired job \<longrightarrow> pu_finalKey job \<noteq> pu_finalKey u) (cl_jobs b))"
proof -
  have "publishedAs (pu_id u) (pu_userId u) (pu_finalKey u) (pu_publicUrl u) d"
    using assms(2,3) by (auto simp: publishedAs_def existsRow_iff)
  with publications.guarded_run [OF _ assms(4)] assms(1,5)
  have kept: "uploadInv d'" "publishedAs (pu_id u) (pu_userId u) (pu_finalKey u) (pu_publicUrl u) d'"
    by blast+
  then obtain v where v: "v \<in> set (profileUploads d')" "pu_id v = pu_id u" "pu_status v = Verified"
    "pu_finalKey v = pu_finalKey u" "pu_publicUrl v = pu_publicUrl u"
    by (auto simp: publishedAs_def existsRow_iff)
  then have ok: "uploadRowOk v"
    using kept(1) by (simp add: uploadInv_def list_all_iff)
  then obtain k where k: "pu_finalKey v = Some k"
    using v(3) by (auto simp: uploadRowOk_def)
  have "pu_finalKey job \<noteq> pu_finalKey u"
    if run: "claimCleanupBatch now lease limit d' = (Inr b, d'')" "job \<in> set (cl_jobs b)" "finalRequired job" for b d'' job
  proof
    assume same: "pu_finalKey job = pu_finalKey u"
    from cleanup_job_row [OF kept(1) run(1,2)] obtain r where r: "r \<in> set (profileUploads d')"
      "job = claimCleanup now lease r" .
    with same v(4) k have "r = v"
      using uniqueSome_inj [of pu_finalKey "profileUploads d'" r v k] kept(1) v(1)
      by (simp add: uploadInv_def claimCleanup_def)
    with r(2) run(3) ok v(3) show False
      by (simp add: claimCleanup_def finalRequired_def uploadRowOk_def)
  qed
  with v show ?thesis
    by (auto simp: existsRow_iff list_all_iff)
qed

text \<open>C27. An upload whose final object a cleanup job deletes is failed when the job is claimed and stays
  failed, so no worker publishes the object that the job removes.\<close>

theorem cleaned_upload_never_published:
  assumes "uploadInv d" and "claimCleanupBatch now lease limit d = (Inr b, d1)" and "job \<in> set (cl_jobs b)"
    and "finalRequired job"
  shows "list_all (\<lambda>u. pu_id u = pu_id job \<longrightarrow> pu_status u = Failed) (profileUploads (foldl stepUpload d1 es))"
proof -
  from assms(1-3) obtain r where r: "r \<in> set (profileUploads d)" "job = claimCleanup now lease r"
    "job \<in> set (profileUploads d1)"
    by (rule cleanup_job_row)
  have inv1: "uploadInv d1"
    using uploads.step_inv [OF assms(1), of "ClaimCleanupStep now lease limit"] assms(2) by simp
  have "uploadRowOk r"
    using assms(1) r(1) by (simp add: uploadInv_def list_all_iff)
  with assms(4) r(2) have "pu_status job = Failed"
    by (cases "pu_status r") (auto simp: finalRequired_def claimCleanup_def uploadRowOk_def openStatus_def)
  with r(3) inv1 have "failedUpload (pu_id job) d1"
    unfolding failedUpload_def list_all_iff uploadInv_def by (metis image_eqI uniqueKey_inj)
  with inv1 failures.run_inv [of d1 "pu_id job" es] show ?thesis
    by (simp add: failedUpload_def)
qed


section \<open>Finalizing\<close>

lemma findUpload_unique:
  assumes "uploadInv d" and "u \<in> set (profileUploads d)" and "pu_id u = pgUuid i" and "pu_userId u = pgUuid w"
  shows "findUpload i w d = Some u"
  unfolding findUpload_def using assms by (intro findFirst_unique [where k = pu_id]) (auto simp: uploadInv_def)

lemma updateUploads_Inr:
  "updateUploads P f d = (Inr r, d') \<longleftrightarrow> r = headOption (returning P f (profileUploads d)) \<and>
     d' = d\<lparr>profileUploads := updateWhere P f (profileUploads d)\<rparr>"
  by (auto simp: updateUploads_def success_simps)

lemma returned_row:
  assumes "headOption (returning P f t) = Some v"
  obtains u where "u \<in> set t" "P u" "v = f u" "v \<in> set (updateWhere P f t)"
  using headOption_SomeD [OF assms] by (auto simp: returning_def set_updateWhere)

lemma markVerified_found:
  assumes "uploadInv d" and "uploadMarkVerified i w x lease now d = (Inr v, d')"
  shows "findUpload i w d' = Some v" "pu_status v = Verified" "uploadInv d'"
proof -
  show inv: "uploadInv d'"
    using uploads.step_inv [OF assms(1), of "VerifyStep i w x lease now"] assms(2) by simp
  let ?P = "verifiable i w x lease" and ?f = "verifyUpload x now"
  have "findUpload i w d' = Some v \<and> pu_status v = Verified"
  proof (cases "headOption (returning ?P ?f (profileUploads d))")
    case None
    then show ?thesis
      using assms(2) by (auto simp: uploadMarkVerified_def updateUploads_Inr success_simps split: if_splits)
  next
    case (Some y)
    with assms(2) have d': "d' = d\<lparr>profileUploads := updateWhere ?P ?f (profileUploads d)\<rparr>" and v: "v = y"
      by (auto simp: uploadMarkVerified_def updateUploads_Inr success_simps)
    from returned_row [OF Some] obtain u where u: "?P u" "y = ?f u" "y \<in> set (updateWhere ?P ?f (profileUploads d))" .
    then have "pu_id v = pgUuid i" "pu_userId v = pgUuid w" "v \<in> set (profileUploads d')"
      by (simp_all add: v d' verifiable_def leasedUpload_def verifyUpload_def)
    then show ?thesis
      using findUpload_unique [OF inv] u(2) v by (simp add: verifyUpload_def)
  qed
  then show "findUpload i w d' = Some v" "pu_status v = Verified" by simp_all
qed

lemma markStagingDeleted_found:
  assumes "findUpload i w d = Some v" and "markStagingDeleted j now d = (r, d')"
  shows "\<exists>v'. findUpload i w d' = Some v' \<and> pu_id v' = pu_id v \<and> pu_status v' = pu_status v \<and> pu_publicUrl v' = pu_publicUrl v \<and>
    pu_finalContentType v' = pu_finalContentType v \<and> pu_finalSizeBytes v' = pu_finalSizeBytes v"
proof -
  have "d' = d\<lparr>profileUploads := updateWhere (\<lambda>u. pu_id u = pgUuid j) (\<lambda>u. u\<lparr>pu_stagingDeletedAt := Some now,
       pu_cleanupLeaseExpiresAt := None, pu_updatedAt := now\<rparr>) (profileUploads d)\<rparr>"
    using assms(2) by (auto simp: markStagingDeleted_def updateUploads_def andThen_assoc)
  with assms(1) show ?thesis
    by (auto simp: findUpload_def findFirst_updateWhere)
qed

lemma finalizedPayload_cong:
  "pu_id v' = pu_id v \<Longrightarrow> pu_publicUrl v' = pu_publicUrl v \<Longrightarrow> pu_finalContentType v' = pu_finalContentType v \<Longrightarrow>
   pu_finalSizeBytes v' = pu_finalSizeBytes v \<Longrightarrow> finalizedPayload v' d = finalizedPayload v d"
  by (simp add: finalizedPayload_def)

lemma finalizedPayload_Inr:
  "finalizedPayload v d = (Inr p, d') \<longleftrightarrow> d' = d \<and> truthy (pu_publicUrl v) \<and> truthy (pu_finalContentType v) \<and>
     pu_finalSizeBytes v \<noteq> None \<and> pu_finalSizeBytes v \<noteq> Some 0 \<and>
     p = \<lparr>vu_id = pu_id v, vu_publicUrl = the (pu_publicUrl v), vu_contentType = the (pu_finalContentType v),
        vu_sizeBytes = the (pu_finalSizeBytes v)\<rparr>"
  by (auto simp: finalizedPayload_def)

text \<open>What a successful request leaves: the upload is found, is verified, and answers with the payload.\<close>

definition publishedWith :: "jsstring \<Rightarrow> jsstring \<Rightarrow> verifiedUploadPayload \<Rightarrow> db \<Rightarrow> bool" where
  "publishedWith uploadId userId p d = (case findUpload uploadId userId d of
     None \<Rightarrow> False | Some v \<Rightarrow> pu_status v = Verified \<and> finalizedPayload v d = (Inr p, d))"

lemma publish_success:
  assumes "uploadInv d" and "pu_id u = pgUuid uploadId"
    and "publishUpload env now userId u lease normalized d = (Inr p, d')"
  shows "publishedWith uploadId userId p d'"
proof -
  from assms(3) obtain x d1 d2 v where x: "prepareFinalObject (pu_id u) userId x lease now d = (Inr (), d1)"
    and v: "uploadMarkVerified (pu_id u) userId x lease now d1 = (Inr v, d2)"
    and p: "finalizedPayload v d' = (Inr p, d')" and s: "d' = d2 \<or> (\<exists>r. markStagingDeleted (pu_id u) now d2 = (r, d'))"
    by (auto simp: publishUpload_def profilePublicBaseUrl_def Let_def success_simps finalizedPayload_Inr split: if_splits)
  have inv1: "uploadInv d1"
    using uploads.step_inv [OF assms(1), of "PrepareStep (pu_id u) userId x lease now"] x by simp
  note m = markVerified_found [OF inv1 v]
  have f: "findUpload uploadId userId d2 = Some v"
    using m(1) assms(2) by (simp add: findUpload_def)
  from s show ?thesis
  proof
    assume "d' = d2"
    with f m(2) p show ?thesis by (simp add: publishedWith_def)
  next
    assume "\<exists>r. markStagingDeleted (pu_id u) now d2 = (r, d')"
    then obtain r where "markStagingDeleted (pu_id u) now d2 = (r, d')" ..
    from markStagingDeleted_found [OF f this] obtain v' where v': "findUpload uploadId userId d' = Some v'"
      "pu_id v' = pu_id v" "pu_status v' = pu_status v" "pu_publicUrl v' = pu_publicUrl v"
      "pu_finalContentType v' = pu_finalContentType v" "pu_finalSizeBytes v' = pu_finalSizeBytes v"
      by blast
    with m(2) p finalizedPayload_cong [OF v'(2,4,5,6)] show ?thesis
      by (simp add: publishedWith_def)
  qed
qed

lemma finalize_success:
  assumes "uploadInv d" and "finalizeUpload env now userId uploadId d = (Inr p, d')"
  shows "publishedWith uploadId userId p d'"
proof -
  from assms(2) obtain c d1 where c: "claimFinalize uploadId userId now (now + FINALIZE_LEASE_MS) d = (Inr c, d1)"
    by (auto simp: finalizeUpload_def success_simps)
  have inv1: "uploadInv d1"
    using uploads.step_inv [OF assms(1), of "ClaimFinalizeStep uploadId userId now (now + FINALIZE_LEASE_MS)"] c by simp
  from c obtain u where u: "findUpload uploadId userId d = Some u"
    by (auto simp: claimFinalize_def success_simps)
  show ?thesis
  proof (cases c)
    case (FinalizeVerified w)
    with c u have "w = u" "d1 = d" "pu_status u = Verified"
      by (auto simp: claimFinalize_def success_simps updateUploads_Inr split: if_splits)
    with assms(2) c FinalizeVerified u show ?thesis
      by (auto simp: finalizeUpload_def success_simps publishedWith_def finalizedPayload_Inr)
  next
    case (FinalizeClaimed w)
    from c u FinalizeClaimed have "pu_id w = pgUuid uploadId"
      using findUpload_SomeD [OF u]
      by (auto simp: claimFinalize_def success_simps updateUploads_Inr processUpload_def split: if_splits elim!: returned_row)
    moreover from assms(2) c FinalizeClaimed obtain lease normalized where
      "publishUpload env now userId w lease normalized d1 = (Inr p, d')"
      by (cases "readStagingObject env (pu_stagingKey w) (pu_expectedContentType w) (pu_expectedSizeBytes w)")
         (auto simp: finalizeUpload_def finalizeLease_def success_simps)
    ultimately show ?thesis
      using publish_success [OF inv1] by blast
  qed (use assms(2) c in \<open>auto simp: finalizeUpload_def success_simps\<close>)
qed

text \<open>C29. A finalized upload is published, and finalizing it again gives the same answer and changes
  nothing, whatever the object store does by then.\<close>

theorem finalize_idempotent:
  assumes "uploadInv d" and "finalizeUpload env now userId uploadId d = (Inr p, d')"
    and "isUuidText env' userId" and "isUuidText env' uploadId"
  shows "publishedWith uploadId userId p d' \<and> finalizeUpload env' now' userId uploadId d' = (Inr p, d')"
proof -
  have p: "publishedWith uploadId userId p d'"
    using assms(1,2) by (rule finalize_success)
  then show ?thesis
    using assms(3,4)
    by (auto simp: publishedWith_def finalizeUpload_def claimFinalize_def transaction_def split: option.splits)
qed

section \<open>Creating an upload\<close>

lemma createPending_Inr:
  assumes "createPending i w key ct bs e now d = (Inr u, d')"
  shows "u = newUpload i w key ct bs e now" "d' = d\<lparr>profileUploads := insertRow u (profileUploads d)\<rparr>"
    "length (activeUploads w now d) < 5" "length (recentUploads w now d) < 20"
  using assms
  by (auto simp: createPending_def Let_def success_simps MAX_ACTIVE_UPLOADS_PER_USER_def MAX_UPLOAD_CREATES_PER_WINDOW_def)

lemma validateUploadInput_Inr:
  assumes "validateUploadInput env w name ct bs d = (Inr m, d')"
  shows "d' = d" "um_contentType m \<in> fst ` set ALLOWED_IMAGE_TYPES" "1 \<le> um_sizeBytes m" "um_sizeBytes m \<le> MAX_UPLOAD_BYTES"
  using assms
  by (auto simp: validateUploadInput_def Let_def success_simps dest!: map_of_SomeD intro: rev_image_eqI)

lemma upload_inputs_read:
  "reads (validateUploadInput env w name ct bs)" "reads (profilePublicBaseUrl env)" "reads (createPresignedPutUrl env k t b)"
  unfolding validateUploadInput_def profilePublicBaseUrl_def createPresignedPutUrl_def Let_def
  by (intro readsI preserves_intros)+

lemma createPending_atomic: "atomic (createPending i w k t b e now)"
  unfolding createPending_def by (rule atomic_basic)

lemma createUpload_atomic: "atomic (createUpload env i now w name ct bs)"
  unfolding createUpload_def Let_def
  by (intro atomic_reads atomic_total upload_inputs_read createPending_atomic neverThrows_basic)

text \<open>C37. A user has at most five open uploads and creates at most twenty an hour; an upload is an image of
  an allowed type of at most ten megabytes, waits five minutes, and a request that fails stores nothing.\<close>

theorem upload_quota:
  assumes "createUpload env i now w name ct bs d = (r, d')"
  shows "if \<exists>e. r = Inl e then d' = d
    else \<exists>u. d' = d\<lparr>profileUploads := insertRow u (profileUploads d)\<rparr> \<and> pu_status u = Pending \<and>
      pu_expectedContentType u \<in> fst ` set ALLOWED_IMAGE_TYPES \<and> 1 \<le> pu_expectedSizeBytes u \<and>
      pu_expectedSizeBytes u \<le> MAX_UPLOAD_BYTES \<and> pu_expiresAt u = now + 5 * 60 * 1000 \<and>
      length (activeUploads w now d') \<le> 5 \<and> length (recentUploads w now d') \<le> 20"
proof (cases r)
  case (Inl e)
  with assms atomicD [OF createUpload_atomic] show ?thesis by auto
next
  case (Inr p)
  with assms obtain m key d1 u where m: "validateUploadInput env w name ct bs d = (Inr m, d)"
    and u: "createPending i w key (um_contentType m) (um_sizeBytes m) (now + UPLOAD_URL_TTL_MS) now d = (Inr u, d')"
    by (auto simp: createUpload_def profilePublicBaseUrl_def createPresignedPutUrl_def Let_def success_simps
        dest: validateUploadInput_Inr(1))
  note c = createPending_Inr [OF u] and v = validateUploadInput_Inr [OF m]
  have "length (activeUploads w now d') \<le> 5" "length (recentUploads w now d') \<le> 20"
    using c(3,4) by (simp_all add: c(2) activeUploads_def recentUploads_def insertRow_def)
  moreover have "pu_status u = Pending \<and> pu_expectedContentType u = um_contentType m \<and>
      pu_expectedSizeBytes u = um_sizeBytes m \<and> pu_expiresAt u = now + 5 * 60 * 1000"
    by (simp add: c(1) newUpload_def UPLOAD_URL_TTL_MS_def)
  ultimately show ?thesis
    using c(2) v Inr by simp (rule exI [of _ u], simp)
qed

section \<open>Instances\<close>

lemma sampleProfileDb_uploads: "uploadInv sampleProfileDb"
  by (simp add: uploadInv_def sampleProfileDb_def sampleUpload_def uploadRowOk_def finalDeletionState_def uniqueKey_def emptyDb_def)

theorem published_upload_kept_witness:
  "existsRow (\<lambda>v. pu_id v = sampleUploadId \<and> pu_status v = Verified \<and> pu_finalKey v = Some (js ''f'') \<and>
      pu_publicUrl v = Some (js ''u''))
    (profileUploads (foldl stepUpload sampleProfileDb [ClaimCleanupStep 5 65 10, FailStep sampleUploadId ''X'' 7 9]))"
proof -
  have "sampleUpload \<in> set (profileUploads sampleProfileDb)" "pu_status sampleUpload = Verified"
    by (simp_all add: sampleProfileDb_def sampleUpload_def)
  from published_upload_kept [OF sampleProfileDb_uploads this, of "[ClaimCleanupStep 5 65 10, FailStep sampleUploadId ''X'' 7 9]"]
  show ?thesis
    by (simp add: sampleUpload_def)
qed

definition sampleAbandoned :: profileUpload where
  "sampleAbandoned = sampleUpload\<lparr>pu_status := Processing, pu_processingLeaseExpiresAt := Some 3,
     pu_finalDeletionPendingAt := Some 1, pu_cleanupLeaseExpiresAt := Some 3\<rparr>"

definition sampleAbandonedDb :: db where
  "sampleAbandonedDb = emptyDb\<lparr>users := [sampleUser sampleAccountId], profileUploads := [sampleAbandoned]\<rparr>"

lemma sampleAbandonedDb_uploads: "uploadInv sampleAbandonedDb"
  by (simp add: uploadInv_def sampleAbandonedDb_def sampleAbandoned_def sampleUpload_def uploadRowOk_def finalDeletionState_def
      uniqueKey_def emptyDb_def)

lemma sampleCleanup_run:
  "claimCleanupBatch 5 65 10 sampleAbandonedDb =
     (Inr \<lparr>cl_jobs = [claimCleanup 5 65 sampleAbandoned], cl_hasMore = False\<rparr>,
      sampleAbandonedDb\<lparr>profileUploads := [claimCleanup 5 65 sampleAbandoned]\<rparr>)"
  by (simp add: claimCleanupBatch_def claimRows_def sampleAbandonedDb_def sampleAbandoned_def sampleUpload_def cleanupDue_def
      finalRequired_def leasePassed_def claimCleanup_def openStatus_def eval_simps)

theorem cleaned_upload_never_published_witness:
  "list_all (\<lambda>u. pu_id u = sampleUploadId \<longrightarrow> pu_status u = Failed)
     (profileUploads (foldl stepUpload (sampleAbandonedDb\<lparr>profileUploads := [claimCleanup 5 65 sampleAbandoned]\<rparr>)
       [VerifyStep sampleUploadId sampleAccountId \<lparr>fo_finalKey = js ''f'', fo_publicUrl = js ''u'',
          fo_contentType = js ''image/jpeg'', fo_sizeBytes = 1\<rparr> 3 6]))"
proof -
  let ?job = "claimCleanup 5 65 sampleAbandoned"
  have "?job \<in> set (cl_jobs \<lparr>cl_jobs = [?job], cl_hasMore = False\<rparr>)" "finalRequired ?job"
    by (simp_all add: finalRequired_def claimCleanup_def sampleAbandoned_def sampleUpload_def)
  note failed = cleaned_upload_never_published [OF sampleAbandonedDb_uploads sampleCleanup_run this]
  have "pu_id ?job = sampleUploadId"
    by (simp add: claimCleanup_def sampleAbandoned_def sampleUpload_def)
  from failed [unfolded this] show ?thesis .
qed

definition sampleUploadEnv :: uploadEnv where
  "sampleUploadEnv = \<lparr>configGet = (\<lambda>_. Some (js ''x'')), isUuidText = (\<lambda>_. True), signedUrl = (\<lambda>_ _ _. js ''put''),
     headObject = (\<lambda>_. Some \<lparr>ho_ContentLength = Some 1, ho_ContentType = Some (js ''image/png''), ho_ETag = Some (js ''e'')\<rparr>),
     getObject = (\<lambda>_ _ _. Some \<lparr>go_Body = Body [7], go_ContentLength = Some 1, go_ContentRange = None\<rparr>),
     putObject = (\<lambda>_ _. True), deleteObjectOk = (\<lambda>_. True),
     readMetadata = (\<lambda>_. Some \<lparr>im_format = Some (js ''png''), im_width = Some 10, im_height = Some 10\<rparr>),
     toJpeg = (\<lambda>_. Some [8, 9]), contentSha256 = (\<lambda>_. js ''h''),
     parseUrl = (\<lambda>u. Some \<lparr>url_protocol = js ''https:'', url_username = [], url_password = [], url_search = [], url_hash = [],
       url_href = u\<rparr>)\<rparr>"

definition samplePendingDb :: db where
  "samplePendingDb = emptyDb\<lparr>users := [sampleUser sampleAccountId],
     profileUploads := [newUpload sampleUploadId sampleAccountId (js ''s'') (js ''image/png'') 1 300000 0]\<rparr>"

lemma samplePendingDb_uploads: "uploadInv samplePendingDb"
  by (simp add: uploadInv_def samplePendingDb_def newUpload_def uploadRowOk_def finalDeletionState_def uniqueKey_def emptyDb_def)

definition sampleFinalized :: "(app_error + verifiedUploadPayload) \<times> db" where
  "sampleFinalized = finalizeUpload sampleUploadEnv 5 sampleAccountId sampleUploadId samplePendingDb"

lemmas upload_eval_simps [eval_simps] = sampleUploadEnv_def samplePendingDb_def newUpload_def claimFinalize_def
  findUpload_def uploadBusy_def updateUploads_def processUpload_def finalizeLease_def readStagingObject_def connection_def
  configText_def normalizeContentType_def readStagingBody_def contentRangeTotal_def normalizeProfileImage_def
  DECODED_FORMAT_BY_CONTENT_TYPE_def MAX_IMAGE_DIMENSION_def publishUpload_def profilePublicBaseUrl_def stripSlashes_def
  finalObjectFor_def prepareFinalObject_def preparable_def leasedUpload_def prepareUpload_def putFinalObject_def
  uploadMarkVerified_def verifiable_def verifyUpload_def deleteObject_def markStagingDeleted_def finalizedPayload_def
  FINAL_CONTENT_TYPE_def truthy_def

lemma sampleFinalized_run: "\<exists>p. fst sampleFinalized = Inr p"
  by (simp add: sampleFinalized_def finalizeUpload_def eval_simps cong: run_congs)

theorem finalize_idempotent_witness:
  "finalizeUpload sampleUploadEnv 900000 sampleAccountId sampleUploadId (snd sampleFinalized) = sampleFinalized"
proof -
  from sampleFinalized_run obtain p where p: "finalizeUpload sampleUploadEnv 5 sampleAccountId sampleUploadId samplePendingDb =
    (Inr p, snd sampleFinalized)"
    by (metis prod.collapse sampleFinalized_def)
  have "isUuidText sampleUploadEnv w" for w
    by (simp add: sampleUploadEnv_def)
  with finalize_idempotent [OF samplePendingDb_uploads p] show ?thesis
    by (simp add: p sampleFinalized_def [symmetric])
       (metis p prod.collapse sampleFinalized_def)
qed

definition sampleCreated :: "(app_error + createUploadPayload) \<times> db" where
  "sampleCreated = createUpload sampleUploadEnv (js ''n1'') 5 sampleAccountId (js ''me.PNG'') (js ''image/png'') 9 samplePendingDb"

theorem upload_quota_witness:
  "\<exists>u. profileUploads (snd sampleCreated) = insertRow u (profileUploads samplePendingDb) \<and> pu_expiresAt u = 300005"
proof -
  have "\<exists>p. fst sampleCreated = Inr p"
    by (simp add: sampleCreated_def createUpload_def validateUploadInput_def ALLOWED_IMAGE_TYPES_def MAX_UPLOAD_BYTES_def
        safeExtension_def lastIndexOf_def isAlphanumeric_def isDigit_def createPresignedPutUrl_def createPending_def
        activeUploads_def recentUploads_def UPLOAD_CREATE_WINDOW_MS_def openStatus_def MAX_ACTIVE_UPLOADS_PER_USER_def
        MAX_UPLOAD_CREATES_PER_WINDOW_def sampleUploadId_def eval_simps cong: run_congs)
  then have "\<not> (\<exists>e. fst sampleCreated = Inl e)" by auto
  moreover have "createUpload sampleUploadEnv (js ''n1'') 5 sampleAccountId (js ''me.PNG'') (js ''image/png'') 9 samplePendingDb =
    (fst sampleCreated, snd sampleCreated)"
    by (simp add: sampleCreated_def)
  ultimately show ?thesis
    using upload_quota [of sampleUploadEnv "js ''n1''" 5 sampleAccountId "js ''me.PNG''" "js ''image/png''" 9 samplePendingDb
      "fst sampleCreated" "snd sampleCreated"] by auto
qed

end
