(* ===== verification/Chat.thy ===== *)
theory Chat
  imports Matching
begin

text \<open>
  The chat component (\<^verbatim>\<open>src/modules/chat\<close>): the rooms of a user with their last message and the number
  of unread messages, pages of messages around a cursor, sending with an idempotency key, editing,
  deleting, read receipts, blocks and reports. What the service publishes to the subscribers of a
  room is part of the result of the operation. Timestamps of a payload are kept as instants instead
  of their ISO text.
\<close>

section \<open>Data\<close>

record chatRoomPayload =
  ch_id :: uuid
  ch_name :: jsstring
  ch_lastMessage :: "jsstring option"
  ch_unreadCount :: nat

record chatMessagePayload =
  cm_id :: uuid
  cm_roomId :: uuid
  cm_senderUserId :: "uuid option"
  cm_text :: jsstring
  cm_idempotencyKey :: "jsstring option"
  cm_createdAt :: timestamp

datatype chatMessageEventType = Added | Edited | Deleted

record chatMessageEventPayload =
  ce_type :: chatMessageEventType
  ce_message :: chatMessagePayload

record chatMessagesInput =
  mi_roomId :: jsstring
  mi_first :: "int option"
  mi_after :: "jsstring option"
  mi_before :: "jsstring option"

record sendChatMessageInput =
  si_roomId :: jsstring
  si_text :: jsstring
  si_idempotencyKey :: "jsstring option"

definition FIRST_MESSAGE_MAX_LENGTH :: nat where
  "FIRST_MESSAGE_MAX_LENGTH = 30"

definition MESSAGE_MAX_LENGTH :: nat where
  "MESSAGE_MAX_LENGTH = 90"

definition REPORT_REASON_MAX_LENGTH :: nat where
  "REPORT_REASON_MAX_LENGTH = 120"

definition IDEMPOTENCY_KEY_MAX_LENGTH :: nat where
  "IDEMPOTENCY_KEY_MAX_LENGTH = 128"

section \<open>Repository\<close>

text \<open>Messages are ordered by \<^verbatim>\<open>("createdAt", id)\<close>. Identifiers are unique, so a descending order is the
  reverse of the ascending one.\<close>

definition messageKey :: "message \<Rightarrow> timestamp \<times> uuid" where
  "messageKey m = (m_createdAt m, m_id m)"

definition activeIn :: "uuid \<Rightarrow> message \<Rightarrow> bool" where
  "activeIn roomId m \<longleftrightarrow> m_roomId m = roomId \<and> m_deletedAt m = None"

definition timeline :: "uuid \<Rightarrow> db \<Rightarrow> message list" where
  "timeline roomId d = sort_key messageKey (filter (activeIn roomId) (messages d))"

definition latestMessage :: "uuid \<Rightarrow> db \<Rightarrow> message option" where
  "latestMessage roomId d = headOption (rev (timeline roomId d))"

definition findReceipt :: "uuid \<Rightarrow> uuid \<Rightarrow> db \<Rightarrow> readReceipt option" where
  "findReceipt roomId userId d =
     findFirst (\<lambda>r. rr_roomId r = roomId \<and> rr_userId r = userId) (readReceipts d)"

text \<open>The condition of the join. The comparison of rows is unknown, hence not true, when the receipt has
  no message and the times are equal.\<close>

definition afterReceipt :: "readReceipt option \<Rightarrow> message \<Rightarrow> bool" where
  "afterReceipt receipt m =
     (case receipt of
        None \<Rightarrow> True
      | Some r \<Rightarrow>
          (case rr_lastReadMessageId r of
             None \<Rightarrow> rr_readAt r < m_createdAt m
           | Some i \<Rightarrow> (rr_readAt r, i) < messageKey m))"

definition unreadBy :: "uuid \<Rightarrow> readReceipt option \<Rightarrow> uuid \<Rightarrow> message \<Rightarrow> bool" where
  "unreadBy userId receipt roomId m \<longleftrightarrow>
     activeIn roomId m \<and> m_senderUserId m \<noteq> None \<and> m_senderUserId m \<noteq> Some userId \<and> afterReceipt receipt m"

definition unreadCount :: "uuid \<Rightarrow> uuid \<Rightarrow> db \<Rightarrow> nat" where
  "unreadCount userId roomId d =
     countWhere (unreadBy userId (findReceipt roomId userId d) roomId) (messages d)"

text \<open>The rooms of the matches of a user, named after the other user, the last changed first. A room
  belongs to one match, so the groups of the statement are the matches.\<close>

definition matchRoom :: "uuid \<Rightarrow> db \<Rightarrow> matchRow \<Rightarrow> (room \<times> chatRoomPayload) option" where
  "matchRoom userId d m =
     (case findFirst (\<lambda>r. r_id r = mt_roomId m) (rooms d) of None \<Rightarrow> None
      | Some r \<Rightarrow>
          (case findFirst (\<lambda>u. u_userId u = (if mt_userLowId m = userId then mt_userHighId m
                 else mt_userLowId m)) (users d) of None \<Rightarrow> None
           | Some u \<Rightarrow> Some (r, \<lparr>ch_id = r_id r, ch_name = u_userName u,
               ch_lastMessage = map_option m_text (latestMessage (r_id r) d),
               ch_unreadCount = unreadCount userId (r_id r) d\<rparr>)))"

definition repoRooms :: "jsstring \<Rightarrow> db \<Rightarrow> chatRoomPayload list" where
  "repoRooms user d =
     (let userId = pgUuid user;
          mine = filter (\<lambda>m. mt_userLowId m = userId \<or> mt_userHighId m = userId) (matchesTable d)
      in map snd (rev (sort_key (\<lambda>(r, _). (r_updatedAt r, r_id r))
           (List.map_filter (matchRoom userId d) mine))))"

definition findMessageCursor :: "jsstring \<Rightarrow> jsstring \<Rightarrow> db \<Rightarrow> uuid option" where
  "findMessageCursor messageId roomId d =
     map_option m_id (findFirst (\<lambda>m. m_id m = pgUuid messageId \<and> activeIn (pgUuid roomId) m) (messages d))"

definition isRoomMember :: "jsstring \<Rightarrow> jsstring \<Rightarrow> db \<Rightarrow> bool" where
  "isRoomMember roomId userId d =
     existsRow (\<lambda>r. rm_roomId r = pgUuid roomId \<and> rm_userId r = pgUuid userId) (roomMembers d)"

definition otherRoomMemberIds :: "jsstring \<Rightarrow> jsstring \<Rightarrow> db \<Rightarrow> uuid list" where
  "otherRoomMemberIds roomId userId d =
     map rm_userId (filter (\<lambda>r. rm_roomId r = pgUuid roomId \<and> rm_userId r \<noteq> pgUuid userId) (roomMembers d))"

text \<open>\<^verbatim>\<open>a ?? b\<close>: the second operand when the first is missing.\<close>

definition nullish :: "'a option \<Rightarrow> 'a option \<Rightarrow> 'a option" where
  "nullish a b = (case a of None \<Rightarrow> b | Some x \<Rightarrow> Some x)"

text \<open>A cursor that is no active message of the room selects nothing.\<close>

definition repoMessages ::
  "jsstring \<Rightarrow> nat \<Rightarrow> jsstring option \<Rightarrow> jsstring option \<Rightarrow> db \<Rightarrow> message list" where
  "repoMessages roomId limit after before d =
     (let cursorId = nullish after before;
          rows = timeline (pgUuid roomId) d;
          selected =
            (if truthy cursorId then
               (case findFirst (\<lambda>m. m_id m = pgUuid (the cursorId) \<and> activeIn (pgUuid roomId) m) (messages d) of
                  None \<Rightarrow> []
                | Some c \<Rightarrow> filter (\<lambda>m. if truthy after then messageKey c < messageKey m
                    else messageKey m < messageKey c) rows)
             else rows)
      in if truthy after then take limit selected else rev (take limit (rev selected)))"

text \<open>The receipt of the newest message, unless the stored one is as new.\<close>

definition receiptAdvances :: "readReceipt \<Rightarrow> readReceipt \<Rightarrow> bool" where
  "receiptAdvances new old \<longleftrightarrow> rr_readAt old < rr_readAt new \<or>
     rr_readAt new = rr_readAt old \<and>
       (case (rr_lastReadMessageId new, rr_lastReadMessageId old) of
          (Some i, Some j) \<Rightarrow> j < i
        | _ \<Rightarrow> False)"

definition newReceipt :: "uuid \<Rightarrow> uuid \<Rightarrow> message \<Rightarrow> readReceipt" where
  "newReceipt roomId userId m = \<lparr>rr_roomId = roomId, rr_userId = userId, rr_lastReadMessageId = Some (m_id m),
     rr_readAt = m_createdAt m\<rparr>"

definition repoMarkRoomRead :: "jsstring \<Rightarrow> jsstring \<Rightarrow> unit dbprog" where
  "repoMarkRoomRead room user =
     (let roomId = pgUuid room; userId = pgUuid user;
          P = (\<lambda>r. rr_roomId r = roomId \<and> rr_userId r = userId) in
     andThen (query (latestMessage roomId)) (\<lambda>latest.
     case latest of
       None \<Rightarrow> ret ()
     | Some m \<Rightarrow>
         let new = newReceipt roomId userId m in
         andThen (query (\<lambda>d. existsRow P (readReceipts d))) (\<lambda>exists.
         if exists then
           modify (\<lambda>d. d\<lparr>readReceipts := updateWhere (\<lambda>r. P r \<and> receiptAdvances new r)
             (\<lambda>r. r\<lparr>rr_lastReadMessageId := rr_lastReadMessageId new, rr_readAt := rr_readAt new\<rparr>)
             (readReceipts d)\<rparr>)
         else
           andThen (query (\<lambda>d. userExists userId d \<and> keyTaken r_id roomId (rooms d))) (\<lambda>known.
           andThen (throwIf (\<not> known) (PgError ForeignKeyViolation)) (\<lambda>_.
           modify (\<lambda>d. d\<lparr>readReceipts := insertRow new (readReceipts d)\<rparr>))))))"

definition ensureRoom :: "timestamp \<Rightarrow> jsstring \<Rightarrow> unit dbprog" where
  "ensureRoom now roomId = modify (\<lambda>d.
     if keyTaken r_id (pgUuid roomId) (rooms d) then d
     else d\<lparr>rooms := insertRow \<lparr>r_id = pgUuid roomId, r_name = [45824, 54868], r_createdAt = now,
       r_updatedAt = now\<rparr> (rooms d)\<rparr>)"

definition sentUnder :: "jsstring \<Rightarrow> jsstring \<Rightarrow> jsstring \<Rightarrow> message \<Rightarrow> bool" where
  "sentUnder key roomId senderUserId m \<longleftrightarrow> m_idempotencyKey m = Some key \<and>
     m_roomId m = pgUuid roomId \<and> m_senderUserId m = Some (pgUuid senderUserId)"

definition findMessageByIdempotencyKey ::
  "jsstring \<Rightarrow> jsstring \<Rightarrow> jsstring \<Rightarrow> db \<Rightarrow> message option" where
  "findMessageByIdempotencyKey key roomId senderUserId d =
     findFirst (sentUnder key roomId senderUserId) (messages d)"

definition activeMessageCount :: "jsstring \<Rightarrow> db \<Rightarrow> nat" where
  "activeMessageCount roomId d = countWhere (activeIn (pgUuid roomId)) (messages d)"

definition touchRoom :: "timestamp \<Rightarrow> uuid \<Rightarrow> unit dbprog" where
  "touchRoom now roomId = modify (\<lambda>d. d\<lparr>rooms := updateWhere (\<lambda>r. r_id r = roomId)
     (\<lambda>r. r\<lparr>r_updatedAt := now\<rparr>) (rooms d)\<rparr>)"

definition newMessage ::
  "uuid \<Rightarrow> timestamp \<Rightarrow> jsstring \<Rightarrow> jsstring \<Rightarrow> jsstring \<Rightarrow> jsstring option \<Rightarrow> message" where
  "newMessage i now roomId senderUserId text key = \<lparr>m_id = i, m_roomId = pgUuid roomId,
     m_senderUserId = Some (pgUuid senderUserId), m_text = text, m_idempotencyKey = key, m_deletedAt = None,
     m_createdAt = now, m_updatedAt = now\<rparr>"

text \<open>A missing key conflicts with no row. The target of \<^verbatim>\<open>ON CONFLICT\<close> is the triple only: a taken
  identifier is an error.\<close>

definition createMessage ::
  "uuid \<Rightarrow> timestamp \<Rightarrow> jsstring \<Rightarrow> jsstring \<Rightarrow> jsstring \<Rightarrow> jsstring option \<Rightarrow> (message option \<times> bool) dbprog" where
  "createMessage i now roomId senderUserId text key = transaction (
     andThen (query (\<lambda>d. case key of None \<Rightarrow> False
       | Some k \<Rightarrow> existsRow (sentUnder k roomId senderUserId) (messages d))) (\<lambda>conflict.
     if conflict then
       andThen (query (\<lambda>d. if truthy key then findMessageByIdempotencyKey (the key) roomId senderUserId d
         else None)) (\<lambda>replayed.
       ret (replayed, False))
     else
       let m = newMessage i now roomId senderUserId text key in
       andThen (query (\<lambda>d. keyTaken m_id i (messages d))) (\<lambda>taken.
       andThen (throwIf taken (PgError UniqueViolation)) (\<lambda>_.
       andThen (query (\<lambda>d. keyTaken r_id (pgUuid roomId) (rooms d) \<and> userExists (pgUuid senderUserId) d)) (\<lambda>known.
       andThen (throwIf (\<not> known) (PgError ForeignKeyViolation)) (\<lambda>_.
       andThen (modify (\<lambda>d. d\<lparr>messages := insertRow m (messages d)\<rparr>)) (\<lambda>_.
       andThen (touchRoom now (pgUuid roomId)) (\<lambda>_.
       ret (Some m, True)))))))))"

text \<open>The update and \<^verbatim>\<open>RETURNING\<close> of one's own message that is not deleted.\<close>

definition updateOwnMessage ::
  "jsstring \<Rightarrow> jsstring \<Rightarrow> (message \<Rightarrow> message) \<Rightarrow> message option dbprog" where
  "updateOwnMessage messageId senderUserId f =
     (let P = (\<lambda>m. m_id m = pgUuid messageId \<and> m_senderUserId m = Some (pgUuid senderUserId) \<and>
        m_deletedAt m = None) in
     andThen (query (\<lambda>d. headOption (returning P f (messages d)))) (\<lambda>message.
     andThen (modify (\<lambda>d. d\<lparr>messages := updateWhere P f (messages d)\<rparr>)) (\<lambda>_.
     ret message)))"

definition repoEditMessage :: "timestamp \<Rightarrow> jsstring \<Rightarrow> jsstring \<Rightarrow> jsstring \<Rightarrow> message option dbprog" where
  "repoEditMessage now messageId senderUserId text =
     andThen (updateOwnMessage messageId senderUserId (\<lambda>m. m\<lparr>m_text := text, m_updatedAt := now\<rparr>)) (\<lambda>message.
     andThen (case message of None \<Rightarrow> ret () | Some m \<Rightarrow> touchRoom now (m_roomId m)) (\<lambda>_.
     ret message))"

definition repoDeleteMessage :: "timestamp \<Rightarrow> jsstring \<Rightarrow> jsstring \<Rightarrow> message option dbprog" where
  "repoDeleteMessage now messageId senderUserId =
     updateOwnMessage messageId senderUserId (\<lambda>m. m\<lparr>m_deletedAt := Some now, m_updatedAt := now\<rparr>)"

definition findRoom :: "jsstring \<Rightarrow> db \<Rightarrow> room option" where
  "findRoom roomId d = findFirst (\<lambda>r. r_id r = pgUuid roomId) (rooms d)"

definition repoBlockUser :: "timestamp \<Rightarrow> jsstring \<Rightarrow> jsstring \<Rightarrow> unit dbprog" where
  "repoBlockUser now blockerUserId blockedUserId =
     (let b = \<lparr>ub_blockerUserId = pgUuid blockerUserId, ub_blockedUserId = pgUuid blockedUserId,
        ub_createdAt = now\<rparr> in
     andThen (query (\<lambda>d. keyTaken (\<lambda>r. (ub_blockerUserId r, ub_blockedUserId r))
       (ub_blockerUserId b, ub_blockedUserId b) (userBlocks d))) (\<lambda>conflict.
     if conflict then ret ()
     else
       andThen (query (\<lambda>d. userExists (ub_blockerUserId b) d \<and> userExists (ub_blockedUserId b) d)) (\<lambda>known.
       andThen (throwIf (\<not> known) (PgError ForeignKeyViolation)) (\<lambda>_.
       modify (\<lambda>d. d\<lparr>userBlocks := insertRow b (userBlocks d)\<rparr>)))))"

definition repoReportMessage ::
  "uuid \<Rightarrow> timestamp \<Rightarrow> jsstring \<Rightarrow> jsstring \<Rightarrow> jsstring \<Rightarrow> bool dbprog" where
  "repoReportMessage i now reporterUserId messageId reason =
     (let reporter = pgUuid reporterUserId;
          P = (\<lambda>r. mr_messageId r = pgUuid messageId \<and> mr_reporterUserId r = reporter) in
     andThen (query (\<lambda>d. existsRow (\<lambda>m. m_id m = pgUuid messageId \<and> m_deletedAt m = None \<and>
       existsRow (\<lambda>r. rm_roomId r = m_roomId m \<and> rm_userId r = reporter) (roomMembers d)) (messages d))) (\<lambda>found.
     if \<not> found then ret False
     else
       andThen (query (\<lambda>d. existsRow P (messageReports d))) (\<lambda>conflict.
       if conflict then
         andThen (modify (\<lambda>d. d\<lparr>messageReports := updateWhere P
           (\<lambda>r. r\<lparr>mr_reason := reason, mr_createdAt := now\<rparr>) (messageReports d)\<rparr>)) (\<lambda>_. ret True)
       else
         andThen (query (\<lambda>d. keyTaken mr_id i (messageReports d))) (\<lambda>taken.
         andThen (throwIf taken (PgError UniqueViolation)) (\<lambda>_.
         andThen (query (userExists reporter)) (\<lambda>known.
         andThen (throwIf (\<not> known) (PgError ForeignKeyViolation)) (\<lambda>_.
         andThen (modify (\<lambda>d. d\<lparr>messageReports := insertRow \<lparr>mr_id = i, mr_messageId = pgUuid messageId,
           mr_reporterUserId = reporter, mr_reason = reason, mr_createdAt = now\<rparr> (messageReports d)\<rparr>)) (\<lambda>_.
         ret True))))))))"

section \<open>Service\<close>

definition rowToMessage :: "message \<Rightarrow> chatMessagePayload" where
  "rowToMessage m = \<lparr>cm_id = m_id m, cm_roomId = m_roomId m, cm_senderUserId = m_senderUserId m,
     cm_text = m_text m, cm_idempotencyKey = m_idempotencyKey m, cm_createdAt = m_createdAt m\<rparr>"

definition validateChatUuid :: "jsstring \<Rightarrow> string \<Rightarrow> unit dbprog" where
  "validateChatUuid input error = throwIf (\<not> uuidRegex input) (ErrorCode error)"

definition validateMessageText :: "jsstring \<Rightarrow> jsstring dbprog" where
  "validateMessageText input =
     (let text = trim input in
     andThen (throwIf (text = []) (ErrorCode ''MESSAGE_TEXT_REQUIRED'')) (\<lambda>_.
     andThen (throwIf (MESSAGE_MAX_LENGTH < length text) (ErrorCode ''MESSAGE_TEXT_TOO_LONG'')) (\<lambda>_.
     ret text)))"

definition validateIdempotencyKey :: "jsstring option \<Rightarrow> jsstring option dbprog" where
  "validateIdempotencyKey input =
     (case input of
        None \<Rightarrow> ret None
      | Some s \<Rightarrow>
          let key = trim s in
          andThen (throwIf (key = []) (ErrorCode ''IDEMPOTENCY_KEY_INVALID'')) (\<lambda>_.
          andThen (throwIf (IDEMPOTENCY_KEY_MAX_LENGTH < length key) (ErrorCode ''IDEMPOTENCY_KEY_TOO_LONG'')) (\<lambda>_.
          ret (Some key))))"

definition validateReportReason :: "jsstring \<Rightarrow> jsstring dbprog" where
  "validateReportReason input =
     (let reason = trim input in
     andThen (throwIf (reason = []) (ErrorCode ''REPORT_REASON_REQUIRED'')) (\<lambda>_.
     andThen (throwIf (REPORT_REASON_MAX_LENGTH < length reason) (ErrorCode ''REPORT_REASON_TOO_LONG'')) (\<lambda>_.
     ret reason)))"

text \<open>What is published to the subscribers of the chat.\<close>

definition publishMessageEvent :: "chatMessageEventType \<Rightarrow> message \<Rightarrow> chatMessageEventPayload" where
  "publishMessageEvent type m = \<lparr>ce_type = type, ce_message = rowToMessage m\<rparr>"

definition requireRoomMember :: "jsstring \<Rightarrow> jsstring \<Rightarrow> unit dbprog" where
  "requireRoomMember roomId userId =
     andThen (query (isRoomMember roomId userId)) (\<lambda>member.
     throwIf (\<not> member) (Unauthorized ''the chat room is not accessible''))"

definition chatRooms :: "jsstring \<Rightarrow> chatRoomPayload list dbprog" where
  "chatRooms userId =
     andThen (validateChatUuid userId ''USER_ID_INVALID'') (\<lambda>_. query (repoRooms userId))"

definition assertRoomMember :: "jsstring \<Rightarrow> jsstring \<Rightarrow> unit dbprog" where
  "assertRoomMember roomId userId =
     andThen (validateChatUuid roomId ''ROOM_ID_INVALID'') (\<lambda>_. requireRoomMember roomId userId)"

definition chatMessages :: "jsstring \<Rightarrow> chatMessagesInput \<Rightarrow> chatMessagePayload list dbprog" where
  "chatMessages userId input =
     andThen (assertRoomMember (mi_roomId input) userId) (\<lambda>_.
     let limit = min (case mi_first input of None \<Rightarrow> 50 | Some n \<Rightarrow> n) 100 in
     andThen (throwIf (limit < 1) (ErrorCode ''MESSAGE_PAGE_SIZE_INVALID'')) (\<lambda>_.
     andThen (throwIf (truthy (mi_after input) \<and> truthy (mi_before input))
       (ErrorCode ''MESSAGE_CURSOR_INVALID'')) (\<lambda>_.
     let cursorId = nullish (mi_after input) (mi_before input) in
     andThen (if truthy cursorId then validateChatUuid (the cursorId) ''MESSAGE_CURSOR_INVALID'' else ret ()) (\<lambda>_.
     andThen (query (\<lambda>d. if truthy cursorId then findMessageCursor (the cursorId) (mi_roomId input) d
       else None)) (\<lambda>cursor.
     andThen (throwIf (truthy cursorId \<and> cursor = None) (ErrorCode ''MESSAGE_CURSOR_INVALID'')) (\<lambda>_.
     andThen (query (repoMessages (mi_roomId input) (nat limit)
       (if truthy (mi_after input) then cursor else None)
       (if truthy (mi_before input) then cursor else None))) (\<lambda>rows.
     ret (map rowToMessage rows))))))))"

definition messageNotification :: "uuid \<Rightarrow> jsstring \<Rightarrow> jsstring \<Rightarrow> uuid \<Rightarrow> createNotificationInput" where
  "messageNotification recipientId text roomId messageId = \<lparr>ni_userId = recipientId, ni_type = MessageN,
     ni_title = [49352, 32, 47700, 49884, 51648, 44032, 32, 46020, 52265, 54664, 50612, 50836],
     ni_body = take 60 text, ni_route = Some (js ''/rooms/'' @ roomId), ni_sourceId = Some messageId\<rparr>"

text \<open>\<^verbatim>\<open>Promise.allSettled\<close>: every recipient is notified, and no failure is passed on.\<close>

definition notifyMembers ::
  "(nat \<Rightarrow> nat \<Rightarrow> uuid) \<Rightarrow> timestamp \<Rightarrow> bool \<Rightarrow> uuid list \<Rightarrow> jsstring \<Rightarrow> jsstring \<Rightarrow> uuid \<Rightarrow> unit dbprog" where
  "notifyMembers ids now pushEnabled recipientIds text roomId messageId =
     forEach (enumerate 0 recipientIds) (\<lambda>(k, recipientId).
       tryCatch (andThen (notify (ids k) now pushEnabled (messageNotification recipientId text roomId messageId))
         (\<lambda>_. ret ())) (\<lambda>_. ret ()))"

text \<open>The message of the request: the new one, or the one an earlier request made under the key.\<close>

definition createdMessage ::
  "uuid \<Rightarrow> timestamp \<Rightarrow> jsstring \<Rightarrow> jsstring \<Rightarrow> jsstring \<Rightarrow> jsstring option \<Rightarrow> (message \<times> bool) dbprog" where
  "createdMessage i now roomId userId text key =
     andThen (createMessage i now roomId userId text key) (\<lambda>(message, created).
     case message of
       None \<Rightarrow> throw (ErrorCode ''MESSAGE_CREATE_FAILED'')
     | Some m \<Rightarrow>
         andThen (throwIf (m_deletedAt m \<noteq> None) (ErrorCode ''IDEMPOTENCY_KEY_ALREADY_USED'')) (\<lambda>_.
         ret (m, created)))"

definition deliverMessage ::
  "uuid \<Rightarrow> (nat \<Rightarrow> nat \<Rightarrow> uuid) \<Rightarrow> timestamp \<Rightarrow> bool \<Rightarrow> jsstring \<Rightarrow> jsstring \<Rightarrow> jsstring \<Rightarrow> jsstring option \<Rightarrow>
   (chatMessagePayload \<times> chatMessageEventPayload option) dbprog" where
  "deliverMessage i ids now pushEnabled userId roomId text key =
     andThen (query (activeMessageCount roomId)) (\<lambda>cnt.
     andThen (throwIf (cnt = 0 \<and> FIRST_MESSAGE_MAX_LENGTH < length text)
       (ErrorCode ''FIRST_MESSAGE_TEXT_TOO_LONG'')) (\<lambda>_.
     andThen (createdMessage i now roomId userId text key) (\<lambda>(m, created).
     if created then
       andThen (query (otherRoomMemberIds roomId userId)) (\<lambda>recipientIds.
       andThen (notifyMembers ids now pushEnabled recipientIds text roomId (m_id m)) (\<lambda>_.
       ret (rowToMessage m, Some (publishMessageEvent Added m))))
     else ret (rowToMessage m, None))))"

definition sendMessage ::
  "uuid \<Rightarrow> (nat \<Rightarrow> nat \<Rightarrow> uuid) \<Rightarrow> timestamp \<Rightarrow> bool \<Rightarrow> jsstring \<Rightarrow> sendChatMessageInput \<Rightarrow>
   (chatMessagePayload \<times> chatMessageEventPayload option) dbprog" where
  "sendMessage i ids now pushEnabled userId input =
     andThen (validateMessageText (si_text input)) (\<lambda>text.
     andThen (validateChatUuid (si_roomId input) ''ROOM_ID_INVALID'') (\<lambda>_.
     andThen (requireRoomMember (si_roomId input) userId) (\<lambda>_.
     andThen (validateIdempotencyKey (si_idempotencyKey input)) (\<lambda>key.
     andThen (query (\<lambda>d. case key of None \<Rightarrow> None
       | Some k \<Rightarrow> findMessageByIdempotencyKey k (si_roomId input) userId d)) (\<lambda>existing.
     case existing of
       Some m \<Rightarrow>
         andThen (throwIf (m_deletedAt m \<noteq> None) (ErrorCode ''IDEMPOTENCY_KEY_ALREADY_USED'')) (\<lambda>_.
         ret (rowToMessage m, None))
     | None \<Rightarrow> deliverMessage i ids now pushEnabled userId (si_roomId input) text key)))))"

definition editMessage ::
  "timestamp \<Rightarrow> jsstring \<Rightarrow> jsstring \<Rightarrow> jsstring \<Rightarrow> (chatMessagePayload \<times> chatMessageEventPayload) dbprog" where
  "editMessage now userId messageId text =
     andThen (validateChatUuid messageId ''MESSAGE_ID_INVALID'') (\<lambda>_.
     andThen (validateMessageText text) (\<lambda>valid.
     andThen (repoEditMessage now messageId userId valid) (\<lambda>message.
     case message of
       None \<Rightarrow> throw (ErrorCode ''MESSAGE_NOT_FOUND'')
     | Some m \<Rightarrow> ret (rowToMessage m, publishMessageEvent Edited m))))"

definition deleteMessage ::
  "timestamp \<Rightarrow> jsstring \<Rightarrow> jsstring \<Rightarrow> (bool \<times> chatMessageEventPayload option) dbprog" where
  "deleteMessage now userId messageId =
     andThen (validateChatUuid messageId ''MESSAGE_ID_INVALID'') (\<lambda>_.
     andThen (repoDeleteMessage now messageId userId) (\<lambda>message.
     ret (message \<noteq> None, map_option (publishMessageEvent Deleted) message)))"

definition markRoomRead :: "jsstring \<Rightarrow> jsstring \<Rightarrow> bool dbprog" where
  "markRoomRead userId roomId =
     andThen (validateChatUuid roomId ''ROOM_ID_INVALID'') (\<lambda>_.
     andThen (requireRoomMember roomId userId) (\<lambda>_.
     andThen (repoMarkRoomRead roomId userId) (\<lambda>_.
     ret True)))"

text \<open>The comparison is the one of JavaScript strings.\<close>

definition blockUser :: "timestamp \<Rightarrow> jsstring \<Rightarrow> jsstring \<Rightarrow> bool dbprog" where
  "blockUser now blockerUserId blockedUserId =
     andThen (validateChatUuid blockerUserId ''USER_ID_INVALID'') (\<lambda>_.
     andThen (validateChatUuid blockedUserId ''USER_ID_INVALID'') (\<lambda>_.
     andThen (throwIf (blockerUserId = blockedUserId) (ErrorCode ''BLOCK_SELF_NOT_ALLOWED'')) (\<lambda>_.
     andThen (repoBlockUser now blockerUserId blockedUserId) (\<lambda>_.
     ret True))))"

definition reportMessage :: "uuid \<Rightarrow> timestamp \<Rightarrow> jsstring \<Rightarrow> jsstring \<Rightarrow> jsstring \<Rightarrow> bool dbprog" where
  "reportMessage i now reporterUserId messageId reason =
     andThen (validateChatUuid reporterUserId ''USER_ID_INVALID'') (\<lambda>_.
     andThen (validateChatUuid messageId ''MESSAGE_ID_INVALID'') (\<lambda>_.
     andThen (validateReportReason reason) (\<lambda>valid.
     andThen (repoReportMessage i now reporterUserId messageId valid) (\<lambda>reported.
     andThen (throwIf (\<not> reported) (ErrorCode ''MESSAGE_NOT_FOUND_OR_FORBIDDEN'')) (\<lambda>_.
     ret True)))))"

section \<open>What succeeds\<close>

lemma success_chat_checks [success_simps]:
  "validateChatUuid v e d = (Inr y, u) \<longleftrightarrow> uuidRegex v \<and> u = d"
  "validateMessageText w d = (Inr x, u) \<longleftrightarrow> x = trim w \<and> trim w \<noteq> [] \<and> length (trim w) \<le> MESSAGE_MAX_LENGTH \<and> u = d"
  "requireRoomMember r a d = (Inr y, u) \<longleftrightarrow> isRoomMember r a d \<and> u = d"
  "validateIdempotencyKey (Some v) d = (Inr z, u) \<longleftrightarrow>
     z = Some (trim v) \<and> trim v \<noteq> [] \<and> length (trim v) \<le> IDEMPOTENCY_KEY_MAX_LENGTH \<and> u = d"
  "validateIdempotencyKey None d = (Inr z, u) \<longleftrightarrow> z = None \<and> u = d"
  by (auto simp: validateChatUuid_def validateMessageText_def requireRoomMember_def validateIdempotencyKey_def
      throwIf_apply Let_def split: if_splits)

section \<open>Sending under a key\<close>

definition messageStored :: "timestamp \<Rightarrow> message \<Rightarrow> db \<Rightarrow> db" where
  "messageStored now m d = d\<lparr>messages := insertRow m (messages d), rooms := updateWhere (\<lambda>r. r_id r = m_roomId m)
     (\<lambda>r. r\<lparr>r_updatedAt := now\<rparr>) (rooms d)\<rparr>"

lemma newMessage_columns [simp]:
  "m_id (newMessage i now r a t k) = i" "m_roomId (newMessage i now r a t k) = pgUuid r"
  "m_senderUserId (newMessage i now r a t k) = Some (pgUuid a)" "m_text (newMessage i now r a t k) = t"
  "m_idempotencyKey (newMessage i now r a t k) = k" "m_deletedAt (newMessage i now r a t k) = None"
  "m_createdAt (newMessage i now r a t k) = now"
  by (simp_all add: newMessage_def)

lemma createMessage_replay:
  assumes "findMessageByIdempotencyKey k roomId a d = Some m" and "k \<noteq> []"
  shows "createMessage i now roomId a text (Some k) d = (Inr (Some m, False), d)"
proof -
  have "existsRow (sentUnder k roomId a) (messages d)"
    using findFirst_SomeD [OF assms(1) [unfolded findMessageByIdempotencyKey_def]] by (auto simp: existsRow_iff)
  with assms show ?thesis
    by (simp add: createMessage_def truthy_def)
qed

text \<open>Without an earlier message the new one is stored.\<close>

lemma createMessage_new:
  assumes "case key of None \<Rightarrow> True | Some k \<Rightarrow> findMessageByIdempotencyKey k roomId a d = None"
    and "createMessage i now roomId a text key d = (Inr (r, c), d')"
  shows "r = Some (newMessage i now roomId a text key)" "c"
    "d' = messageStored now (newMessage i now roomId a text key) d" "i \<notin> m_id ` set (messages d)"
proof -
  have "\<not> (case key of None \<Rightarrow> False | Some k \<Rightarrow> existsRow (sentUnder k roomId a) (messages d))"
    using assms(1) by (auto simp: findMessageByIdempotencyKey_def findFirst_None_iff existsRow_iff split: option.splits)
  with assms(2) show "r = Some (newMessage i now roomId a text key)" "c"
    "d' = messageStored now (newMessage i now roomId a text key) d" "i \<notin> m_id ` set (messages d)"
    by (auto simp: createMessage_def success_simps touchRoom_def keyTaken_iff messageStored_def Let_def)
qed

lemma found_stored:
  "findMessageByIdempotencyKey k roomId a d = None \<Longrightarrow>
   findMessageByIdempotencyKey k roomId a (messageStored now (newMessage i now roomId a text (Some k)) d) =
     Some (newMessage i now roomId a text (Some k))"
  by (simp add: findMessageByIdempotencyKey_def messageStored_def findFirst_insertRow sentUnder_def)

text \<open>Keys are not empty: \<open>c # cs\<close> is the trimmed key.\<close>

interpretation sent: keyed_create
  "\<lambda>(c, cs, roomId, a) d. findMessageByIdempotencyKey (c # cs) roomId a d"
  "\<lambda>_ m. m_deletedAt m = None"
  "\<lambda>(c, cs, roomId, a) (i, now, text). createdMessage i now roomId a text (Some (c # cs))"
proof unfold_locales
  fix k :: "nat \<times> nat list \<times> jsstring \<times> jsstring" and v :: "uuid \<times> timestamp \<times> jsstring" and d d' r c
  obtain x xs roomId a where k: "k = (x, xs, roomId, a)" by (cases k)
  obtain i now w where v: "v = (i, now, w)" by (cases v)
  let ?find = "case k of (c, cs, roomId, a) \<Rightarrow> findMessageByIdempotencyKey (c # cs) roomId a"
  let ?create = "case k of (c, cs, roomId, a) \<Rightarrow> \<lambda>(i, now, text). createdMessage i now roomId a text (Some (c # cs))"
  assume found: "?find d = Some r"
  have run: "createMessage i now roomId a w (Some (x # xs)) d = (Inr (Some r, False), d)"
    using found k by (intro createMessage_replay) simp_all
  { assume "m_deletedAt r = None"
    with run show "?create v d = (Inr (r, False), d)" by (simp add: k v createdMessage_def) }
  { assume "m_deletedAt r \<noteq> None"
    with run show "\<exists>e. ?create v d = (Inl e, d)" by (simp add: k v createdMessage_def) }
next
  fix k :: "nat \<times> nat list \<times> jsstring \<times> jsstring" and v :: "uuid \<times> timestamp \<times> jsstring" and d d' r c
  obtain x xs roomId a where k: "k = (x, xs, roomId, a)" by (cases k)
  obtain i now w where v: "v = (i, now, w)" by (cases v)
  assume "(case k of (c, cs, roomId, a) \<Rightarrow> findMessageByIdempotencyKey (c # cs) roomId a) d = None"
    and "(case k of (c, cs, roomId, a) \<Rightarrow> \<lambda>(i, now, text). createdMessage i now roomId a text (Some (c # cs))) v d
      = (Inr (r, c), d')"
  then have none: "findMessageByIdempotencyKey (x # xs) roomId a d = None"
    and run: "createMessage i now roomId a w (Some (x # xs)) d = (Inr (Some r, c), d')"
    by (auto simp: k v createdMessage_def success_simps)
  from createMessage_new [OF _ run] none
  show "c \<and> (case k of (c, cs, roomId, a) \<Rightarrow> findMessageByIdempotencyKey (c # cs) roomId a) d' = Some r \<and>
      m_deletedAt r = None"
    by (simp add: k found_stored)
qed

text \<open>The notifications leave the chat alone.\<close>

definition chatView where
  "chatView d = (users d, rooms d, roomMembers d, messages d, readReceipts d, userBlocks d, messageReports d, matchesTable d)"

lemma notifyMembers_view: "preserves (\<lambda>x. chatView x = v) (notifyMembers ids now enabled rs text roomId i)"
  unfolding notifyMembers_def
  by (intro preserves_intros notify_frame) (simp_all add: chatView_def)

lemma notifyMembers_total: "neverThrows (notifyMembers ids now enabled rs text roomId i)"
  unfolding notifyMembers_def
proof (rule neverThrows_forEach)
  fix x :: "nat \<times> uuid"
  obtain k r where "x = (k, r)" by (cases x)
  then show "neverThrows (case x of (k, recipientId) \<Rightarrow> tryCatch (andThen (notify (ids k) now enabled
      (messageNotification recipientId text roomId i)) (\<lambda>_. ret ())) (\<lambda>_. ret ()))"
    by (simp only: prod.case) (intro atomic_intros)
qed

lemma success_deliver:
  assumes "deliverMessage i ids now enabled a roomId text key d = (Inr (p, ev), d')"
  obtains m c d1 where "createdMessage i now roomId a text key d = (Inr (m, c), d1)" "p = rowToMessage m"
    "ev = (if c then Some (publishMessageEvent Added m) else None)"
    "d' = (if c then snd (notifyMembers ids now enabled (otherRoomMemberIds roomId a d1) text roomId (m_id m) d1) else d1)"
    "activeMessageCount roomId d = 0 \<Longrightarrow> length text \<le> FIRST_MESSAGE_MAX_LENGTH"
proof -
  from assms obtain m c d1 where run: "createdMessage i now roomId a text key d = (Inr (m, c), d1)"
    "activeMessageCount roomId d = 0 \<Longrightarrow> length text \<le> FIRST_MESSAGE_MAX_LENGTH"
    and rest: "(if c then andThen (query (otherRoomMemberIds roomId a)) (\<lambda>recipientIds.
         andThen (notifyMembers ids now enabled recipientIds text roomId (m_id m)) (\<lambda>_.
         ret (rowToMessage m, Some (publishMessageEvent Added m))))
       else ret (rowToMessage m, None)) d1 = (Inr (p, ev), d')"
    unfolding deliverMessage_def by (auto simp: success_simps)
  from rest have "p = rowToMessage m" "ev = (if c then Some (publishMessageEvent Added m) else None)"
    "d' = (if c then snd (notifyMembers ids now enabled (otherRoomMemberIds roomId a d1) text roomId (m_id m) d1) else d1)"
    by (auto simp: success_simps split: if_splits)
  with run show thesis by (intro that [of m c d1]) auto
qed

lemma notifyMembers_chat: "chatView (snd (notifyMembers ids now enabled rs text roomId i d)) = chatView d"
  using notifyMembers_view [of "chatView d"] by (simp add: preserves_def)

text \<open>What a request under a key left behind: the message a lookup finds is the answer.\<close>

lemma sendMessage_keyed:
  assumes "sendMessage i ids now enabled a \<lparr>si_roomId = roomId, si_text = text, si_idempotencyKey = Some key\<rparr> d =
      (Inr (p, ev), d')"
  obtains m where "findMessageByIdempotencyKey (trim key) roomId a d' = Some m" "m_deletedAt m = None"
    "p = rowToMessage m" "uuidRegex roomId" "isRoomMember roomId a d'" "trim key \<noteq> []"
    "length (trim key) \<le> IDEMPOTENCY_KEY_MAX_LENGTH"
proof -
  from assms have checks: "uuidRegex roomId" "isRoomMember roomId a d" "trim key \<noteq> []"
      "length (trim key) \<le> IDEMPOTENCY_KEY_MAX_LENGTH"
    and run: "(case findMessageByIdempotencyKey (trim key) roomId a d of
       Some m \<Rightarrow> andThen (throwIf (m_deletedAt m \<noteq> None) (ErrorCode ''IDEMPOTENCY_KEY_ALREADY_USED'')) (\<lambda>_.
         ret (rowToMessage m, None))
     | None \<Rightarrow> deliverMessage i ids now enabled a roomId (trim text) (Some (trim key))) d = (Inr (p, ev), d')"
    unfolding sendMessage_def by (auto simp: success_simps)
  show thesis
  proof (cases "findMessageByIdempotencyKey (trim key) roomId a d")
    case (Some m)
    with run checks show thesis by (intro that [of m]) (auto simp: success_simps)
  next
    case None
    with run have "deliverMessage i ids now enabled a roomId (trim text) (Some (trim key)) d = (Inr (p, ev), d')"
      by simp
    then obtain m c d1 where run: "createdMessage i now roomId a (trim text) (Some (trim key)) d = (Inr (m, c), d1)"
      "p = rowToMessage m" "chatView d' = chatView d1"
      by (rule success_deliver) (simp add: notifyMembers_chat)
    obtain x xs where key: "trim key = x # xs" using checks(3) by (cases "trim key") simp
    from sent.create_stores [where k = "(x, xs, roomId, a)" and v = "(i, now, trim text)"] run(1) key
    have "findMessageByIdempotencyKey (trim key) roomId a d1 = Some m" "m_deletedAt m = None" by auto
    moreover from run(1) have "roomMembers d1 = roomMembers d"
      by (auto simp: createdMessage_def success_simps createMessage_def touchRoom_def Let_def split: if_splits)
    ultimately show thesis using run checks
      by (intro that [of m]) (auto simp: chatView_def findMessageByIdempotencyKey_def isRoomMember_def)
  qed
qed

text \<open>C11. Sending is idempotent: after a message was sent under a key, the same user may repeat the request in the
  room under the key, at any time and with any valid text. The answer is the first message, nothing is published, and
  neither the messages nor the notifications change; a request that looked for the key before the first one stored its
  message ends the same way.\<close>

theorem message_idempotent:
  assumes "sendMessage i ids now enabled userId \<lparr>si_roomId = roomId, si_text = text, si_idempotencyKey = Some key\<rparr> d =
      (Inr (payload, event), d')"
    and "trim text' \<noteq> []" and "length (trim text') \<le> MESSAGE_MAX_LENGTH"
  shows "sendMessage i' ids' now' enabled' userId
      \<lparr>si_roomId = roomId, si_text = text', si_idempotencyKey = Some key\<rparr> d' = (Inr (payload, None), d') \<and>
    deliverMessage i' ids' now' enabled' userId roomId (trim text') (Some (trim key)) d' = (Inr (payload, None), d')"
proof -
  obtain m where m: "findMessageByIdempotencyKey (trim key) roomId userId d' = Some m" "m_deletedAt m = None"
    "payload = rowToMessage m" "uuidRegex roomId" "isRoomMember roomId userId d'" "trim key \<noteq> []"
    "length (trim key) \<le> IDEMPOTENCY_KEY_MAX_LENGTH"
    using assms(1) by (rule sendMessage_keyed)
  have "m \<in> set (messages d')" "activeIn (pgUuid roomId) m"
    using findFirst_SomeD [OF m(1) [unfolded findMessageByIdempotencyKey_def]] m(2)
    by (simp_all add: sentUnder_def activeIn_def)
  then have "activeMessageCount roomId d' \<noteq> 0"
    by (auto simp: activeMessageCount_def countWhere_def filter_empty_conv)
  moreover have "createMessage i' now' roomId userId (trim text') (Some (trim key)) d' = (Inr (Some m, False), d')"
    using m(1,6) by (rule createMessage_replay)
  ultimately show ?thesis
    using m assms(2,3)
    by (simp add: sendMessage_def deliverMessage_def createdMessage_def validateMessageText_def validateChatUuid_def
        requireRoomMember_def validateIdempotencyKey_def andThen_assoc throwIf_apply andThen_def)
qed

section \<open>Pages of messages\<close>

lemma timeline_sorted:
  assumes "uniqueKey m_id (messages d)"
  shows "sorted_wrt (<) (map messageKey (timeline roomId d))"
proof -
  have "distinct (map messageKey (filter (activeIn roomId) (messages d)))"
    using assms by (auto simp: uniqueKey_def distinct_map inj_on_def messageKey_def)
  then show ?thesis unfolding timeline_def by (rule strict_sort_key)
qed

lemma set_timeline: "set (timeline roomId d) = {m \<in> set (messages d). activeIn roomId m}"
  by (simp add: timeline_def)

text \<open>An active message of the room is found by its identifier.\<close>

lemma cursor_found:
  assumes "uniqueKey m_id (messages d)" and "k < length (timeline roomId d)"
    and "canonicalUuid (m_id (timeline roomId d ! k))"
  shows "findFirst (\<lambda>m. m_id m = pgUuid (m_id (timeline roomId d ! k)) \<and> activeIn roomId m) (messages d) =
    Some (timeline roomId d ! k)"
proof (rule findFirst_unique [OF assms(1)])
  have "timeline roomId d ! k \<in> set (timeline roomId d)" using assms(2) by simp
  then show "timeline roomId d ! k \<in> set (messages d)"
    "m_id (timeline roomId d ! k) = pgUuid (m_id (timeline roomId d ! k)) \<and> activeIn roomId (timeline roomId d ! k)"
    using assms(3) by (simp_all add: set_timeline)
qed (use assms(3) in simp)

lemma uuid_truthy: "uuidRegex v \<Longrightarrow> truthy (Some v)"
  by (auto simp: truthy_def dest: length_uuid)

lemma repoMessages_pages:
  assumes "uniqueKey m_id (messages d)" and "k < length (timeline (pgUuid roomId) d)"
    and "m = timeline (pgUuid roomId) d ! k" and "canonicalUuid (m_id m)" and "truthy (Some (m_id m))"
  shows "repoMessages roomId n (Some (m_id m)) None d = take n (drop (Suc k) (timeline (pgUuid roomId) d))"
    and "repoMessages roomId n None (Some (m_id m)) d = drop (k - n) (take k (timeline (pgUuid roomId) d))"
proof -
  let ?L = "timeline (pgUuid roomId) d"
  note beyond = filter_beyond_nth [OF timeline_sorted [OF assms(1)] assms(2)]
  have found: "findFirst (\<lambda>x. m_id x = m_id m \<and> activeIn (pgUuid roomId) x) (messages d) = Some m"
    using cursor_found [OF assms(1,2)] assms(3,4) by simp
  have short: "truthy None = False" by (simp add: truthy_def)
  show "repoMessages roomId n (Some (m_id m)) None d = take n (drop (Suc k) ?L)"
    using assms(3,4,5) found beyond(1) by (simp add: repoMessages_def nullish_def)
  show "repoMessages roomId n None (Some (m_id m)) d = drop (k - n) (take k ?L)"
    using assms(2,3,4,5) found beyond(2) by (simp add: repoMessages_def nullish_def short rev_take_rev)
qed

lemma chatMessages_run:
  assumes "uuidRegex roomId" and "isRoomMember roomId a d" and "1 \<le> n" and "n \<le> 100"
  shows "chatMessages a \<lparr>mi_roomId = roomId, mi_first = Some (int n), mi_after = None, mi_before = None\<rparr> d =
      (Inr (map rowToMessage (repoMessages roomId n None None d)), d)"
    and "uuidRegex c \<Longrightarrow> findMessageCursor c roomId d = Some c \<Longrightarrow>
      chatMessages a \<lparr>mi_roomId = roomId, mi_first = Some (int n), mi_after = Some c, mi_before = None\<rparr> d =
      (Inr (map rowToMessage (repoMessages roomId n (Some c) None d)), d)"
    and "uuidRegex c \<Longrightarrow> findMessageCursor c roomId d = Some c \<Longrightarrow>
      chatMessages a \<lparr>mi_roomId = roomId, mi_first = Some (int n), mi_after = None, mi_before = Some c\<rparr> d =
      (Inr (map rowToMessage (repoMessages roomId n None (Some c) d)), d)"
  using assms uuid_truthy [of c]
  by (simp_all add: chatMessages_def assertRoomMember_def validateChatUuid_def requireRoomMember_def andThen_assoc
      nullish_def truthy_def min_def Let_def)

text \<open>C13. Pages of messages are slices of the room's timeline, the active messages in the order of creation time and
  identifier: without a cursor the newest \<open>n\<close>, after a message the next \<open>n\<close> beyond it, before a message the \<open>n\<close> that
  lead up to it. So pages neither skip nor repeat a message.\<close>

theorem message_pages:
  assumes "uniqueKey m_id (messages d)" and "uuidRegex roomId" and "isRoomMember roomId userId d"
    and "1 \<le> n" and "n \<le> 100" and "k < length (timeline (pgUuid roomId) d)"
    and "uuidRegex (m_id (timeline (pgUuid roomId) d ! k))" and "canonicalUuid (m_id (timeline (pgUuid roomId) d ! k))"
  shows "let L = timeline (pgUuid roomId) d;
      page = (\<lambda>after before. chatMessages userId
        \<lparr>mi_roomId = roomId, mi_first = Some (int n), mi_after = after, mi_before = before\<rparr> d)
    in page None None = (Inr (map rowToMessage (drop (length L - n) L)), d) \<and>
      page (Some (m_id (L ! k))) None = (Inr (map rowToMessage (take n (drop (Suc k) L))), d) \<and>
      page None (Some (m_id (L ! k))) = (Inr (map rowToMessage (drop (k - n) (take k L))), d) \<and>
      sorted_wrt (<) (map messageKey L) \<and>
      set L = {m \<in> set (messages d). m_roomId m = pgUuid roomId \<and> m_deletedAt m = None}"
proof -
  let ?L = "timeline (pgUuid roomId) d"
  have "findMessageCursor (m_id (?L ! k)) roomId d = Some (m_id (?L ! k))"
    using cursor_found [OF assms(1,6,8)] by (simp add: findMessageCursor_def)
  moreover have "repoMessages roomId n None None d = drop (length ?L - n) ?L"
    by (simp add: repoMessages_def nullish_def truthy_def rev_take_rev Let_def)
  ultimately show ?thesis
    using chatMessages_run [OF assms(2-5)] assms(7) repoMessages_pages [OF assms(1,6) refl assms(8) uuid_truthy [OF assms(7)]]
      timeline_sorted [OF assms(1)]
    by (simp add: set_timeline activeIn_def Let_def)
qed

section \<open>Reading a room\<close>

lemma latest_last:
  assumes "uniqueKey m_id (messages d)" and "latestMessage roomId d = Some m" and "q \<in> set (messages d)"
    and "activeIn roomId q"
  shows "messageKey q \<le> messageKey m"
proof -
  let ?L = "timeline roomId d"
  have ne: "?L \<noteq> []" and m: "m = last ?L"
    using assms(2) by (auto simp: latestMessage_def headOption_def hd_rev split: list.splits)
  have "q \<in> set ?L"
    using assms(3,4) by (simp add: set_timeline)
  then obtain k where k: "k < length ?L" "q = ?L ! k"
    by (metis in_set_conv_nth)
  have "sorted (map messageKey ?L)"
    using timeline_sorted [OF assms(1)] by (rule strict_sorted_imp_sorted)
  then show ?thesis
    using k ne m by (simp add: last_conv_nth sorted_iff_nth_mono)
qed

lemma latest_None: "latestMessage roomId d = None \<longleftrightarrow> (\<forall>m \<in> set (messages d). \<not> activeIn roomId m)"
  by (auto simp: latestMessage_def set_timeline simp flip: set_empty)


lemma findReceipt_exists:
  "existsRow (\<lambda>r. rr_roomId r = roomId \<and> rr_userId r = a) (readReceipts d) \<longleftrightarrow> findReceipt roomId a d \<noteq> None"
  by (auto simp: findReceipt_def findFirst_None_iff existsRow_iff)

lemma repoMarkRoomRead_cases:
  assumes "repoMarkRoomRead room user d = (Inr u, d')"
  obtains
    (nothing) "latestMessage (pgUuid room) d = None" "d' = d"
  | (first) m where "latestMessage (pgUuid room) d = Some m" "findReceipt (pgUuid room) (pgUuid user) d = None"
      "d' = d\<lparr>readReceipts := insertRow (newReceipt (pgUuid room) (pgUuid user) m) (readReceipts d)\<rparr>"
  | (again) m r where "latestMessage (pgUuid room) d = Some m" "findReceipt (pgUuid room) (pgUuid user) d = Some r"
      "d' = d\<lparr>readReceipts := updateWhere (\<lambda>r. (rr_roomId r = pgUuid room \<and> rr_userId r = pgUuid user) \<and>
          receiptAdvances (newReceipt (pgUuid room) (pgUuid user) m) r)
        (\<lambda>r. r\<lparr>rr_lastReadMessageId := Some (m_id m), rr_readAt := m_createdAt m\<rparr>) (readReceipts d)\<rparr>"
proof (cases "latestMessage (pgUuid room) d")
  case None
  with assms have "d' = d" by (simp add: repoMarkRoomRead_def success_simps Let_def)
  with None show thesis by (rule nothing)
next
  case (Some m)
  show thesis
  proof (cases "findReceipt (pgUuid room) (pgUuid user) d")
    case None
    with Some assms first show thesis
      by (auto simp: repoMarkRoomRead_def success_simps Let_def findReceipt_exists)
  next
    case (Some r)
    with \<open>latestMessage (pgUuid room) d = Some m\<close> assms again show thesis
      by (simp add: repoMarkRoomRead_def success_simps Let_def findReceipt_exists newReceipt_def)
  qed
qed

text \<open>The receipt a run leaves is that of the newest message, or one that is as far.\<close>

lemma repoMarkRoomRead_receipt:
  assumes "repoMarkRoomRead room user d = (Inr u, d')" and "latestMessage (pgUuid room) d = Some m"
  obtains r where "findReceipt (pgUuid room) (pgUuid user) d' = Some r"
    "r = newReceipt (pgUuid room) (pgUuid user) m \<or>
     findReceipt (pgUuid room) (pgUuid user) d = Some r \<and> \<not> receiptAdvances (newReceipt (pgUuid room) (pgUuid user) m) r"
    "\<And>q. findReceipt (pgUuid room) (pgUuid user) d = Some q \<Longrightarrow>
      r = q \<or> receiptAdvances (newReceipt (pgUuid room) (pgUuid user) m) q"
  using assms(1)
proof (cases rule: repoMarkRoomRead_cases)
  case nothing
  with assms(2) show thesis by simp
next
  case (first m')
  with assms(2) show thesis
    by (intro that [of "newReceipt (pgUuid room) (pgUuid user) m"])
      (simp_all add: findReceipt_def findFirst_insertRow newReceipt_def)
next
  case (again m' r)
  then have mine: "rr_roomId r = pgUuid room" "rr_userId r = pgUuid user"
    using findFirst_SomeD [OF again(2) [unfolded findReceipt_def]] by simp_all
  let ?r = "if receiptAdvances (newReceipt (pgUuid room) (pgUuid user) m) r
    then newReceipt (pgUuid room) (pgUuid user) m else r"
  have "findReceipt (pgUuid room) (pgUuid user) d' = Some ?r"
    using again assms(2) mine by (simp add: findReceipt_def findFirst_updateWhere newReceipt_def)
  then show thesis
    by (rule that) (use again(2) in auto)
qed

lemma repoMarkRoomRead_frame:
  assumes "repoMarkRoomRead room user d = (Inr u, d')"
  shows "messages d' = messages d"
    and "(r, b) \<noteq> (pgUuid room, pgUuid user) \<Longrightarrow> findReceipt r b d' = findReceipt r b d"
proof -
  show "messages d' = messages d"
    using assms by (cases rule: repoMarkRoomRead_cases) simp_all
  assume other: "(r, b) \<noteq> (pgUuid room, pgUuid user)"
  show "findReceipt r b d' = findReceipt r b d"
    using assms
  proof (cases rule: repoMarkRoomRead_cases)
    case (first m)
    with other show ?thesis
      by (auto simp: findReceipt_def findFirst_insertRow newReceipt_def split: option.split)
  next
    case (again m q)
    then show ?thesis
      unfolding findReceipt_def by (simp, intro findFirst_updateWhere_other) (use other in auto)
  qed simp
qed

lemma not_after_receipt:
  assumes "messageKey q \<le> messageKey m"
    and "r = newReceipt roomId a m \<or> \<not> receiptAdvances (newReceipt roomId a m) r"
  shows "\<not> afterReceipt (Some r) q"
  using assms by (auto simp: afterReceipt_def receiptAdvances_def newReceipt_def messageKey_def split: option.splits)

lemma after_advanced:
  "receiptAdvances (newReceipt roomId a m) q \<Longrightarrow> afterReceipt (Some (newReceipt roomId a m)) x \<Longrightarrow> afterReceipt (Some q) x"
  by (auto simp: afterReceipt_def receiptAdvances_def newReceipt_def messageKey_def split: option.splits)

lemma repoMarkRoomRead_only:
  assumes "repoMarkRoomRead room user d = (Inr u, d')"
  shows "d' = d\<lparr>readReceipts := readReceipts d'\<rparr>"
    and "filter (\<lambda>r. (rr_roomId r, rr_userId r) \<noteq> (pgUuid room, pgUuid user)) (readReceipts d') =
      filter (\<lambda>r. (rr_roomId r, rr_userId r) \<noteq> (pgUuid room, pgUuid user)) (readReceipts d)"
proof -
  show "d' = d\<lparr>readReceipts := readReceipts d'\<rparr>"
    using assms by (cases rule: repoMarkRoomRead_cases) simp_all
  have kept: "filter Q (updateWhere P f t) = filter Q t" if "\<And>r. P r \<Longrightarrow> \<not> Q r \<and> \<not> Q (f r)" for P Q f and t :: "readReceipt table"
    using that by (induction t) (auto simp: updateWhere_def)
  show "filter (\<lambda>r. (rr_roomId r, rr_userId r) \<noteq> (pgUuid room, pgUuid user)) (readReceipts d') =
      filter (\<lambda>r. (rr_roomId r, rr_userId r) \<noteq> (pgUuid room, pgUuid user)) (readReceipts d)"
    using assms
  proof (cases rule: repoMarkRoomRead_cases)
    case (again m r)
    show ?thesis unfolding again(3) by (simp, intro kept) auto
  qed (simp_all add: insertRow_def newReceipt_def)
qed

text \<open>C14. Marking a room as read clears its unread count, and changes nothing else: no table but the receipts is written,
  of the receipts only the one of the user in the room; the count of the user in the room is zero, every other count
  stays, and the receipt of the user never moves back.\<close>

theorem mark_read_clears:
  assumes "uniqueKey m_id (messages d)" and "markRoomRead userId roomId d = (Inr ok, d')"
  shows "unreadCount (pgUuid userId) (pgUuid roomId) d' = 0 \<and>
    d' = d\<lparr>readReceipts := readReceipts d'\<rparr> \<and>
    filter (\<lambda>r. (rr_roomId r, rr_userId r) \<noteq> (pgUuid roomId, pgUuid userId)) (readReceipts d') =
      filter (\<lambda>r. (rr_roomId r, rr_userId r) \<noteq> (pgUuid roomId, pgUuid userId)) (readReceipts d) \<and>
    (\<forall>r b. (r, b) \<noteq> (pgUuid roomId, pgUuid userId) \<longrightarrow>
       findReceipt r b d' = findReceipt r b d \<and> unreadCount b r d' = unreadCount b r d) \<and>
    (\<forall>m. afterReceipt (findReceipt (pgUuid roomId) (pgUuid userId) d') m \<longrightarrow>
       afterReceipt (findReceipt (pgUuid roomId) (pgUuid userId) d) m)"
proof -
  from assms(2) have run: "repoMarkRoomRead roomId userId d = (Inr (), d')"
    by (auto simp: markRoomRead_def success_simps)
  note frame = repoMarkRoomRead_frame [OF run]
  let ?old = "findReceipt (pgUuid roomId) (pgUuid userId) d" and ?new = "findReceipt (pgUuid roomId) (pgUuid userId) d'"
  have "(\<forall>q \<in> set (messages d). \<not> (activeIn (pgUuid roomId) q \<and> afterReceipt ?new q)) \<and>
      (\<forall>q. afterReceipt ?new q \<longrightarrow> afterReceipt ?old q)"
  proof (cases "latestMessage (pgUuid roomId) d")
    case None
    moreover have "d' = d"
      using run None by (cases rule: repoMarkRoomRead_cases) simp_all
    ultimately show ?thesis by (simp add: latest_None)
  next
    case (Some m)
    with run obtain r where r: "?new = Some r" "r = newReceipt (pgUuid roomId) (pgUuid userId) m \<or>
        ?old = Some r \<and> \<not> receiptAdvances (newReceipt (pgUuid roomId) (pgUuid userId) m) r"
        "\<And>q. ?old = Some q \<Longrightarrow> r = q \<or> receiptAdvances (newReceipt (pgUuid roomId) (pgUuid userId) m) q"
      by (rule repoMarkRoomRead_receipt) blast
    have "\<not> (activeIn (pgUuid roomId) q \<and> afterReceipt ?new q)" if "q \<in> set (messages d)" for q
    proof
      assume "activeIn (pgUuid roomId) q \<and> afterReceipt ?new q"
      moreover from this latest_last [OF assms(1) Some that] have "\<not> afterReceipt (Some r) q"
        using r(2) by (intro not_after_receipt [of q m r "pgUuid roomId" "pgUuid userId"]) auto
      ultimately show False using r(1) by simp
    qed
    moreover have "afterReceipt ?old q" if "afterReceipt ?new q" for q
    proof (cases ?old)
      case (Some p)
      with r that show ?thesis using after_advanced by (metis option.inject)
    qed (simp add: afterReceipt_def)
    ultimately show ?thesis by blast
  qed
  then show ?thesis
    using frame repoMarkRoomRead_only [OF run] by (auto simp: unreadCount_def countWhere_def filter_empty_conv unreadBy_def)
qed

section \<open>Every run of the chat\<close>

datatype chatStep =
    SendStep uuid "nat \<Rightarrow> nat \<Rightarrow> uuid" timestamp bool jsstring sendChatMessageInput
  | EditStep timestamp jsstring jsstring jsstring
  | DeleteStep timestamp jsstring jsstring
  | ReadStep jsstring jsstring
  | BlockStep timestamp jsstring jsstring
  | ReportStep uuid timestamp jsstring jsstring jsstring

fun stepChat :: "db \<Rightarrow> chatStep \<Rightarrow> db" where
  "stepChat d (SendStep i ids now enabled userId input) = snd (sendMessage i ids now enabled userId input d)"
| "stepChat d (EditStep now userId messageId text) = snd (editMessage now userId messageId text d)"
| "stepChat d (DeleteStep now userId messageId) = snd (deleteMessage now userId messageId d)"
| "stepChat d (ReadStep userId roomId) = snd (markRoomRead userId roomId d)"
| "stepChat d (BlockStep now blocker blocked) = snd (blockUser now blocker blocked d)"
| "stepChat d (ReportStep i now userId messageId reason) = snd (reportMessage i now userId messageId reason d)"

fun chatActor :: "chatStep \<Rightarrow> uuid" where
  "chatActor (SendStep i ids now enabled userId input) = pgUuid userId"
| "chatActor (EditStep now userId messageId text) = pgUuid userId"
| "chatActor (DeleteStep now userId messageId) = pgUuid userId"
| "chatActor (ReadStep userId roomId) = pgUuid userId"
| "chatActor (BlockStep now blocker blocked) = pgUuid blocker"
| "chatActor (ReportStep i now userId messageId reason) = pgUuid userId"

definition idempotencyTriple :: "message \<Rightarrow> (uuid \<times> uuid \<times> jsstring) option" where
  "idempotencyTriple m = (case (m_senderUserId m, m_idempotencyKey m) of
     (Some a, Some k) \<Rightarrow> Some (m_roomId m, a, k) | _ \<Rightarrow> None)"

definition goodText :: "jsstring \<Rightarrow> bool" where
  "goodText t \<longleftrightarrow> t \<noteq> [] \<and> length t \<le> MESSAGE_MAX_LENGTH"

text \<open>A message is short and not empty, and its sender is a member of the room; a report is made by a member of the
  room of a message. Keys are unique.\<close>

definition messageOk :: "db \<Rightarrow> message \<Rightarrow> bool" where
  "messageOk d m \<longleftrightarrow> goodText (m_text m) \<and> (case m_senderUserId m of None \<Rightarrow> False | Some a \<Rightarrow> inRoom (m_roomId m) a d)"

definition reportOk :: "db \<Rightarrow> messageReport \<Rightarrow> bool" where
  "reportOk d r \<longleftrightarrow> existsRow (\<lambda>m. m_id m = mr_messageId r \<and> inRoom (m_roomId m) (mr_reporterUserId r) d) (messages d)"

definition chatInv :: "db \<Rightarrow> bool" where
  "chatInv d \<longleftrightarrow> uniqueKey m_id (messages d) \<and> uniqueSome idempotencyTriple (messages d) \<and>
     uniqueKey (\<lambda>r. (rr_roomId r, rr_userId r)) (readReceipts d) \<and>
     list_all (messageOk d) (messages d) \<and> list_all (reportOk d) (messageReports d) \<and>
     uniqueKey (\<lambda>r. (mr_messageId r, mr_reporterUserId r)) (messageReports d)"

lemma inRoom_messages [simp]: "inRoom r a (d\<lparr>messages := x\<rparr>) = inRoom r a d"
  by (simp add: inRoom_def)

lemma messageOk_messages [simp]: "messageOk (d\<lparr>messages := x\<rparr>) = messageOk d"
  by (simp add: fun_eq_iff messageOk_def split: option.split)

lemma chatInv_cong:
  assumes "messages d' = messages d" "readReceipts d' = readReceipts d" "messageReports d' = messageReports d"
    "roomMembers d' = roomMembers d"
  shows "chatInv d' = chatInv d"
proof -
  have "messageOk d' = messageOk d" "reportOk d' = reportOk d"
    using assms by (auto simp: fun_eq_iff messageOk_def reportOk_def inRoom_def split: option.splits)
  with assms show ?thesis by (simp add: chatInv_def)
qed

lemma chatInv_frame [simp]:
  "chatInv (d\<lparr>rooms := x1\<rparr>) = chatInv d" "chatInv (d\<lparr>notifications := x2\<rparr>) = chatInv d"
  "chatInv (d\<lparr>pushOutboxes := x3\<rparr>) = chatInv d" "chatInv (d\<lparr>userBlocks := x4\<rparr>) = chatInv d"
  by (rule chatInv_cong; simp)+

lemma notifyMembers_inv: "preserves chatInv (notifyMembers ids now enabled rs text roomId i)"
  unfolding notifyMembers_def by (intro preserves_intros notify_frame) simp_all

lemma chatInv_insert:
  assumes "chatInv d" and "m_id m \<notin> m_id ` set (messages d)" and "goodText (m_text m)"
    and "m_senderUserId m = Some a" and "inRoom (m_roomId m) a d"
    and "\<And>q. q \<in> set (messages d) \<Longrightarrow> idempotencyTriple m \<noteq> None \<Longrightarrow> idempotencyTriple q \<noteq> idempotencyTriple m"
  shows "chatInv (d\<lparr>messages := insertRow m (messages d)\<rparr>)"
proof -
  let ?d = "d\<lparr>messages := insertRow m (messages d)\<rparr>"
  have "reportOk ?d r" if "reportOk d r" for r
    using that by (auto simp: reportOk_def existsRow_iff)
  moreover have "uniqueSome idempotencyTriple (insertRow m (messages d))"
    using assms(1,6) by (intro uniqueSome_insertRow) (auto simp: chatInv_def)
  moreover have "messageOk d m"
    using assms(3-5) by (simp add: messageOk_def)
  ultimately show ?thesis
    using assms(1,2) by (auto simp: chatInv_def list_all_iff)
qed

text \<open>An update that keeps the identity and the sender of a message and writes a good text.\<close>

lemma chatInv_update:
  assumes "chatInv d" and "\<And>m. m_id (f m) = m_id m" "\<And>m. m_roomId (f m) = m_roomId m"
    and "\<And>m. m_senderUserId (f m) = m_senderUserId m" "\<And>m. m_idempotencyKey (f m) = m_idempotencyKey m"
    and "\<And>m. goodText (m_text m) \<Longrightarrow> goodText (m_text (f m))"
  shows "chatInv (d\<lparr>messages := updateWhere P f (messages d)\<rparr>)"
proof -
  let ?d = "d\<lparr>messages := updateWhere P f (messages d)\<rparr>"
  have "list_all (messageOk d) (updateWhere P f (messages d))"
    using assms(1) by (intro list_all_updateWhere) (auto simp: chatInv_def messageOk_def assms(3,4,6) split: option.splits)
  moreover have "reportOk ?d r" if "reportOk d r" for r
  proof -
    obtain m where "m \<in> set (messages d)" "m_id m = mr_messageId r" "inRoom (m_roomId m) (mr_reporterUserId r) d"
      using \<open>reportOk d r\<close> by (auto simp: reportOk_def existsRow_iff)
    then show ?thesis
      unfolding reportOk_def existsRow_iff by simp (rule updateWhere_bex, simp_all add: assms(2,3))
  qed
  moreover have "uniqueSome idempotencyTriple (updateWhere P f (messages d))"
    using assms(1) by (intro uniqueSome_updateWhere) (simp_all add: chatInv_def idempotencyTriple_def assms(3-5) split: option.split)
  ultimately show ?thesis
    using assms(1) by (auto simp: chatInv_def uniqueKey_updateWhere assms(2) list_all_iff)
qed


lemma triple_new:
  assumes "case key of None \<Rightarrow> True | Some k \<Rightarrow> findMessageByIdempotencyKey k roomId a d = None"
    and "q \<in> set (messages d)" and "idempotencyTriple (newMessage i now roomId a text key) \<noteq> None"
  shows "idempotencyTriple q \<noteq> idempotencyTriple (newMessage i now roomId a text key)"
  using assms by (auto simp: idempotencyTriple_def findMessageByIdempotencyKey_def findFirst_None_iff sentUnder_def
      split: option.splits)

lemma isRoomMember_inRoom: "isRoomMember roomId a d = inRoom (pgUuid roomId) (pgUuid a) d"
  by (simp add: isRoomMember_def inRoom_def)

lemma messageStored_inv:
  assumes "chatInv d" and "isRoomMember roomId a d" and "goodText text" and "i \<notin> m_id ` set (messages d)"
    and "case key of None \<Rightarrow> True | Some k \<Rightarrow> findMessageByIdempotencyKey k roomId a d = None"
  shows "chatInv (messageStored now (newMessage i now roomId a text key) d)"
proof -
  have "chatInv (d\<lparr>messages := insertRow (newMessage i now roomId a text key) (messages d)\<rparr>)"
    using assms triple_new [OF assms(5)] by (intro chatInv_insert) (simp_all add: isRoomMember_inRoom)
  then show ?thesis by (simp add: messageStored_def)
qed

text \<open>A request to send ends in the state it found, or it stored one message and notified the others.\<close>

lemma createMessage_atomic: "atomic (createMessage i now roomId a text key)"
  unfolding createMessage_def by (rule atomic_basic)

lemma createMessage_kept:
  assumes "createMessage i now roomId a text key d = (Inr (r, c), d')"
  shows "c \<and> (\<exists>m. r = Some m \<and> m_deletedAt m = None) \<or> d' = d"
proof (cases "case key of None \<Rightarrow> False | Some k \<Rightarrow> existsRow (sentUnder k roomId a) (messages d)")
  case True
  with assms show ?thesis by (simp add: createMessage_def success_simps)
next
  case False
  then have "case key of None \<Rightarrow> True | Some k \<Rightarrow> findMessageByIdempotencyKey k roomId a d = None"
    by (auto simp: findMessageByIdempotencyKey_def findFirst_None_iff existsRow_iff split: option.splits)
  from createMessage_new [OF this assms] show ?thesis by simp
qed

lemma createdMessage_atomic: "atomic (createdMessage i now roomId a text key)"
  unfolding atomic_def
proof (intro allI impI)
  fix d e d'
  assume "createdMessage i now roomId a text key d = (Inl e, d')"
  then consider "createMessage i now roomId a text key d = (Inl e, d')"
    | r c where "createMessage i now roomId a text key d = (Inr (r, c), d')" "\<not> (\<exists>m. r = Some m \<and> m_deletedAt m = None)"
    by (auto simp: createdMessage_def andThen_Inl_iff throwIf_apply split: option.splits if_splits)
  then show "d' = d"
    using atomicD [OF createMessage_atomic] createMessage_kept by cases metis+
qed

lemma deliverMessage_atomic: "atomic (deliverMessage i ids now enabled a roomId text key)"
proof -
  have "neverThrows (if c then andThen (query (otherRoomMemberIds roomId a)) (\<lambda>rs.
       andThen (notifyMembers ids now enabled rs text roomId (m_id m)) (\<lambda>_.
       ret (rowToMessage m, Some (publishMessageEvent Added m))))
     else ret (rowToMessage m, None))" for m c
    by (intro atomic_intros notifyMembers_total)
  then have "atomic (andThen (createdMessage i now roomId a text key) (\<lambda>(m, c). if c then andThen (query (otherRoomMemberIds roomId a)) (\<lambda>rs.
       andThen (notifyMembers ids now enabled rs text roomId (m_id m)) (\<lambda>_.
       ret (rowToMessage m, Some (publishMessageEvent Added m))))
     else ret (rowToMessage m, None)))"
    by (intro atomic_total createdMessage_atomic) (simp split: prod.split)
  then show ?thesis
    unfolding deliverMessage_def
    by (rule atomic_reads [OF readsI [OF preserves_query] atomic_reads [OF readsI [OF preserves_throwIf]]])
qed

lemma chat_checks_read:
  "reads (validateChatUuid v e)" "reads (validateMessageText w)" "reads (requireRoomMember r a)"
  "reads (validateIdempotencyKey k)" "reads (validateReportReason w)" "reads (query g)"
  by (auto simp: reads_def validateChatUuid_def validateMessageText_def requireRoomMember_def validateIdempotencyKey_def
      validateReportReason_def throwIf_apply Let_def andThen_def split: option.splits)

lemma sendMessage_atomic: "atomic (sendMessage i ids now enabled a input)"
  unfolding sendMessage_def
  by (intro atomic_reads chat_checks_read) (auto intro!: atomic_intros atomic_reads deliverMessage_atomic
      simp: reads_def throwIf_apply split: option.split)

lemma sendMessage_stores:
  assumes "sendMessage i ids now enabled a input d = (Inr r, d')"
  obtains "d' = d"
  | key rs where "isRoomMember (si_roomId input) a d" "goodText (trim (si_text input))" "i \<notin> m_id ` set (messages d)"
      "case key of None \<Rightarrow> True | Some k \<Rightarrow> findMessageByIdempotencyKey k (si_roomId input) a d = None"
      "d' = snd (notifyMembers ids now enabled rs (trim (si_text input)) (si_roomId input) i
        (messageStored now (newMessage i now (si_roomId input) a (trim (si_text input)) key) d))"
proof -
  from assms obtain key where checks: "isRoomMember (si_roomId input) a d" "goodText (trim (si_text input))"
    and run: "(case (case key of None \<Rightarrow> None | Some k \<Rightarrow> findMessageByIdempotencyKey k (si_roomId input) a d) of
       Some m \<Rightarrow> andThen (throwIf (m_deletedAt m \<noteq> None) (ErrorCode ''IDEMPOTENCY_KEY_ALREADY_USED'')) (\<lambda>_.
         ret (rowToMessage m, None))
     | None \<Rightarrow> deliverMessage i ids now enabled a (si_roomId input) (trim (si_text input)) key) d = (Inr r, d')"
    unfolding sendMessage_def by (auto simp: success_basic(1,5) success_chat_checks goodText_def
        simp del: not_None_eq dest!: readsD [OF chat_checks_read(4)])
  show thesis
  proof (cases "case key of None \<Rightarrow> None | Some k \<Rightarrow> findMessageByIdempotencyKey k (si_roomId input) a d")
    case (Some m)
    with run have "d' = d" by (simp add: success_simps)
    then show thesis by (rule that(1))
  next
    case None
    then have none: "case key of None \<Rightarrow> True | Some k \<Rightarrow> findMessageByIdempotencyKey k (si_roomId input) a d = None"
      by (cases key) simp_all
    obtain p ev where r: "r = (p, ev)" by (cases r)
    from None run r have "deliverMessage i ids now enabled a (si_roomId input) (trim (si_text input)) key d = (Inr (p, ev), d')"
      by simp
    then obtain m c d1 where create: "createdMessage i now (si_roomId input) a (trim (si_text input)) key d = (Inr (m, c), d1)"
      and told: "d' = (if c then snd (notifyMembers ids now enabled (otherRoomMemberIds (si_roomId input) a d1)
        (trim (si_text input)) (si_roomId input) (m_id m) d1) else d1)"
      by (rule success_deliver)
    from create have "createMessage i now (si_roomId input) a (trim (si_text input)) key d = (Inr (Some m, c), d1)"
      by (auto simp: createdMessage_def success_simps)
    from createMessage_new [OF none this] told checks none show thesis
      by (intro that(2)) auto
  qed
qed

lemma sendMessage_inv: "preserves chatInv (sendMessage i ids now enabled a input)"
proof (rule preservesI)
  fix d
  assume inv: "chatInv d"
  show "chatInv (snd (sendMessage i ids now enabled a input d))"
  proof (cases "sendMessage i ids now enabled a input d")
    case (Pair r d')
    show ?thesis
    proof (cases r)
      case (Inl e)
      with Pair have "d' = d" by (intro atomicD [OF sendMessage_atomic]) simp
      with Pair inv show ?thesis by simp
    next
      case (Inr x)
      with Pair have "sendMessage i ids now enabled a input d = (Inr x, d')" by simp
      then show ?thesis
      proof (cases rule: sendMessage_stores)
        case (2 key rs)
        with messageStored_inv [OF inv] have "chatInv (messageStored now
            (newMessage i now (si_roomId input) a (trim (si_text input)) key) d)"
          by simp
        with notifyMembers_inv Pair 2(5) show ?thesis
          by (simp add: preserves_def)
      qed (use Pair inv in simp)
    qed
  qed
qed

lemma updateOwnMessage_inv:
  assumes "\<And>m. m_id (f m) = m_id m" "\<And>m. m_roomId (f m) = m_roomId m"
    and "\<And>m. m_senderUserId (f m) = m_senderUserId m" "\<And>m. m_idempotencyKey (f m) = m_idempotencyKey m"
    and "\<And>m. goodText (m_text m) \<Longrightarrow> goodText (m_text (f m))"
  shows "preserves chatInv (updateOwnMessage messageId a f)"
  unfolding updateOwnMessage_def
  by (intro preserves_intros preserves_modify) (rule chatInv_update [OF _ assms])

lemma touchRoom_inv: "preserves chatInv (touchRoom now r)"
  unfolding touchRoom_def by (rule preserves_modify) simp

lemma repoEditMessage_inv: "goodText text \<Longrightarrow> preserves chatInv (repoEditMessage now messageId a text)"
  unfolding repoEditMessage_def by (intro preserves_intros updateOwnMessage_inv touchRoom_inv) simp_all

lemma repoDeleteMessage_inv: "preserves chatInv (repoDeleteMessage now messageId a)"
  unfolding repoDeleteMessage_def by (rule updateOwnMessage_inv) simp_all

lemma editMessage_inv: "preserves chatInv (editMessage now a messageId text)"
proof -
  have "preserves chatInv (andThen (validateMessageText text) (\<lambda>valid. andThen (repoEditMessage now messageId a valid)
      (\<lambda>message. case message of None \<Rightarrow> throw (ErrorCode ''MESSAGE_NOT_FOUND'')
       | Some m \<Rightarrow> ret (rowToMessage m, publishMessageEvent Edited m))))"
  proof (rule preserves_checked [OF chat_checks_read(2)])
    fix x and d :: db
    assume "validateMessageText text d = (Inr x, d)" and inv: "chatInv d"
    then have "goodText x" by (simp add: success_chat_checks goodText_def)
    then have "preserves chatInv (andThen (repoEditMessage now messageId a x)
      (\<lambda>message. case message of None \<Rightarrow> throw (ErrorCode ''MESSAGE_NOT_FOUND'')
       | Some m \<Rightarrow> ret (rowToMessage m, publishMessageEvent Edited m)))"
      by (intro preserves_intros repoEditMessage_inv)
    with inv show "chatInv (snd (andThen (repoEditMessage now messageId a x)
      (\<lambda>message. case message of None \<Rightarrow> throw (ErrorCode ''MESSAGE_NOT_FOUND'')
       | Some m \<Rightarrow> ret (rowToMessage m, publishMessageEvent Edited m)) d))"
      by (simp add: preserves_def)
  qed
  then show ?thesis
    unfolding editMessage_def by (rule preserves_andThen [OF preserves_reads [OF chat_checks_read(1)]])
qed

lemma deleteMessage_inv: "preserves chatInv (deleteMessage now a messageId)"
  unfolding deleteMessage_def
  by (intro preserves_intros preserves_reads [OF chat_checks_read(1)] repoDeleteMessage_inv)

lemma blockUser_inv: "preserves chatInv (blockUser now a b)"
  unfolding blockUser_def repoBlockUser_def Let_def
  by (intro preserves_intros preserves_reads [OF chat_checks_read(1)] preserves_modify) simp_all

lemma chatInv_receipts:
  assumes "chatInv d" and "uniqueKey (\<lambda>r. (rr_roomId r, rr_userId r)) R"
  shows "chatInv (d\<lparr>readReceipts := R\<rparr>)"
proof -
  have "messageOk (d\<lparr>readReceipts := R\<rparr>) = messageOk d" "reportOk (d\<lparr>readReceipts := R\<rparr>) = reportOk d"
    by (auto simp: fun_eq_iff messageOk_def reportOk_def inRoom_def split: option.splits)
  with assms show ?thesis by (simp add: chatInv_def)
qed

lemma markRoomRead_inv: "preserves chatInv (markRoomRead a roomId)"
proof -
  have "preserves chatInv (repoMarkRoomRead room user)" for room user
  proof (rule preservesI)
    fix d
    assume inv: "chatInv d"
    obtain r d' where run: "repoMarkRoomRead room user d = (r, d')" by (metis surj_pair)
    show "chatInv (snd (repoMarkRoomRead room user d))"
    proof (cases r)
      case (Inl e)
      with run inv show ?thesis
        by (auto simp: repoMarkRoomRead_def Let_def andThen_def throwIf_apply split: option.splits if_splits)
    next
      case (Inr u)
      with run have "repoMarkRoomRead room user d = (Inr u, d')" by simp
      then show ?thesis
      proof (cases rule: repoMarkRoomRead_cases)
        case (first m)
        then have "\<forall>r \<in> set (readReceipts d). (rr_roomId r, rr_userId r) \<noteq> (pgUuid room, pgUuid user)"
          by (auto simp: findReceipt_def findFirst_None_iff)
        then have "uniqueKey (\<lambda>r. (rr_roomId r, rr_userId r)) (readReceipts d')"
          using inv first(3) by (auto simp: newReceipt_def chatInv_def)
        with chatInv_receipts [OF inv] first(3) run show ?thesis by simp
      next
        case (again m q)
        then have "uniqueKey (\<lambda>r. (rr_roomId r, rr_userId r)) (readReceipts d')"
          using inv by (simp add: uniqueKey_updateWhere chatInv_def)
        with chatInv_receipts [OF inv] again(3) run show ?thesis by simp
      qed (use run inv in simp)
    qed
  qed
  then show ?thesis
    unfolding markRoomRead_def
    by (intro preserves_intros preserves_reads [OF chat_checks_read(1)] preserves_reads [OF chat_checks_read(3)])
qed

lemma chatInv_reports:
  assumes "chatInv d" and "list_all (reportOk d) R" and "uniqueKey (\<lambda>r. (mr_messageId r, mr_reporterUserId r)) R"
  shows "chatInv (d\<lparr>messageReports := R\<rparr>)"
proof -
  have "messageOk (d\<lparr>messageReports := R\<rparr>) = messageOk d" "reportOk (d\<lparr>messageReports := R\<rparr>) = reportOk d"
    by (auto simp: fun_eq_iff messageOk_def reportOk_def inRoom_def split: option.splits)
  with assms show ?thesis by (simp add: chatInv_def)
qed

lemma repoReportMessage_inv: "preserves chatInv (repoReportMessage i now a messageId reason)"
proof (rule preservesI)
  fix d
  assume inv: "chatInv d"
  let ?P = "\<lambda>r. mr_messageId r = pgUuid messageId \<and> mr_reporterUserId r = pgUuid a"
  let ?found = "existsRow (\<lambda>m. m_id m = pgUuid messageId \<and> m_deletedAt m = None \<and>
       existsRow (\<lambda>r. rm_roomId r = m_roomId m \<and> rm_userId r = pgUuid a) (roomMembers d)) (messages d)"
  let ?new = "\<lparr>mr_id = i, mr_messageId = pgUuid messageId, mr_reporterUserId = pgUuid a, mr_reason = reason, mr_createdAt = now\<rparr>"
  have new: "reportOk d ?new" if ?found
    using that by (auto simp: reportOk_def existsRow_iff inRoom_def)
  have "chatInv (d\<lparr>messageReports := insertRow ?new (messageReports d)\<rparr>)" if ?found "\<not> existsRow ?P (messageReports d)"
    using inv new [OF that(1)] that(2) by (intro chatInv_reports) (auto simp: chatInv_def existsRow_iff)
  moreover have "chatInv (d\<lparr>messageReports := updateWhere ?P (\<lambda>r. r\<lparr>mr_reason := reason, mr_createdAt := now\<rparr>) (messageReports d)\<rparr>)"
  proof (rule chatInv_reports [OF inv])
    show "list_all (reportOk d) (updateWhere ?P (\<lambda>r. r\<lparr>mr_reason := reason, mr_createdAt := now\<rparr>) (messageReports d))"
      using inv by (intro list_all_updateWhere) (simp_all add: chatInv_def reportOk_def)
  qed (use inv in \<open>simp add: chatInv_def uniqueKey_updateWhere\<close>)
  ultimately show "chatInv (snd (repoReportMessage i now a messageId reason d))"
    using inv by (auto simp: repoReportMessage_def Let_def)
qed

lemma reportMessage_inv: "preserves chatInv (reportMessage i now a messageId reason)"
  unfolding reportMessage_def
  by (intro preserves_intros preserves_reads [OF chat_checks_read(1)] preserves_reads [OF chat_checks_read(5)]
      repoReportMessage_inv)

interpretation chat: invariant_machine stepChat chatInv
proof
  fix d e
  assume "chatInv d"
  then show "chatInv (stepChat d e)"
    using sendMessage_inv editMessage_inv deleteMessage_inv markRoomRead_inv blockUser_inv reportMessage_inv
    by (cases e) (simp_all add: preserves_def)
qed

text \<open>The messages other users have sent.\<close>

definition othersMessages :: "uuid \<Rightarrow> db \<Rightarrow> message list" where
  "othersMessages a d = filter (\<lambda>m. m_senderUserId m \<noteq> Some a) (messages d)"

lemma othersMessages_frame [simp]:
  "othersMessages a (d\<lparr>rooms := x1\<rparr>) = othersMessages a d" "othersMessages a (d\<lparr>notifications := x2\<rparr>) = othersMessages a d"
  "othersMessages a (d\<lparr>pushOutboxes := x3\<rparr>) = othersMessages a d" "othersMessages a (d\<lparr>userBlocks := x4\<rparr>) = othersMessages a d"
  "othersMessages a (d\<lparr>readReceipts := x5\<rparr>) = othersMessages a d" "othersMessages a (d\<lparr>messageReports := x6\<rparr>) = othersMessages a d"
  by (simp_all add: othersMessages_def)

lemma updateOwnMessage_others:
  assumes "\<And>m. m_senderUserId (f m) = m_senderUserId m"
  shows "preserves (\<lambda>d. othersMessages (pgUuid a) d = v) (updateOwnMessage messageId a f)"
proof -
  have "filter (\<lambda>m. m_senderUserId m \<noteq> Some (pgUuid a)) (updateWhere (\<lambda>m. m_id m = pgUuid messageId \<and>
      m_senderUserId m = Some (pgUuid a) \<and> m_deletedAt m = None) f t) = filter (\<lambda>m. m_senderUserId m \<noteq> Some (pgUuid a)) t" for t
    by (induction t) (auto simp: updateWhere_def assms)
  then show ?thesis
    unfolding updateOwnMessage_def Let_def
    by (intro preserves_intros preserves_modify) (simp add: othersMessages_def)
qed

lemma notifyMembers_others: "preserves (\<lambda>d. othersMessages a d = v) (notifyMembers ids now enabled rs text roomId i)"
  unfolding notifyMembers_def by (intro preserves_intros notify_frame) simp_all

lemma createMessage_others: "preserves (\<lambda>d. othersMessages (pgUuid a) d = v) (createMessage i now roomId a text key)"
  unfolding createMessage_def Let_def touchRoom_def
  by (intro preserves_intros preserves_modify) (simp_all add: othersMessages_def insertRow_def)

lemmas chat_checks_preserve = chat_checks_read [THEN preserves_reads]

lemma stepChat_others: "othersMessages (chatActor e) (stepChat d e) = othersMessages (chatActor e) d"
proof -
  have "preserves (\<lambda>x. othersMessages (pgUuid a) x = v) (sendMessage i ids now enabled a input)" for i ids now enabled a input v
    unfolding sendMessage_def deliverMessage_def createdMessage_def
    by (intro preserves_intros chat_checks_preserve(1-4) createMessage_others notifyMembers_others)
  moreover have "preserves (\<lambda>x. othersMessages (pgUuid a) x = v) (editMessage now a messageId w)" for now a messageId w v
    unfolding editMessage_def repoEditMessage_def touchRoom_def
    by (intro preserves_intros chat_checks_preserve(1-4) updateOwnMessage_others preserves_modify) simp_all
  moreover have "preserves (\<lambda>x. othersMessages (pgUuid a) x = v) (deleteMessage now a messageId)" for now a messageId v
    unfolding deleteMessage_def repoDeleteMessage_def
    by (intro preserves_intros chat_checks_preserve(1-4) updateOwnMessage_others) simp_all
  moreover have "preserves (\<lambda>x. othersMessages (pgUuid a) x = v) (markRoomRead a roomId)" for a roomId v
    unfolding markRoomRead_def repoMarkRoomRead_def Let_def
    by (intro preserves_intros chat_checks_preserve(1-4) preserves_modify) simp_all
  moreover have "preserves (\<lambda>x. othersMessages (pgUuid a) x = v) (blockUser now a b)" for now a b v
    unfolding blockUser_def repoBlockUser_def Let_def
    by (intro preserves_intros chat_checks_preserve(1-4) preserves_modify) simp_all
  moreover have "preserves (\<lambda>x. othersMessages (pgUuid a) x = v) (reportMessage i now a messageId reason)" for i now a messageId reason v
    unfolding reportMessage_def repoReportMessage_def Let_def
    by (intro preserves_intros chat_checks_preserve(1-5) preserves_modify) simp_all
  ultimately show ?thesis
    by (cases e) (simp_all add: preserves_def)
qed

definition noChat :: "db \<Rightarrow> bool" where
  "noChat d \<longleftrightarrow> messages d = [] \<and> readReceipts d = [] \<and> messageReports d = []"

lemma noChat_inv: "noChat d \<Longrightarrow> chatInv d"
  by (simp add: noChat_def chatInv_def)

text \<open>C12. What every run of the chat keeps: each message has a text of 1 to 90 units and was sent by a member of its
  room, no two messages of a sender in a room share an idempotency key, each user has one receipt for a room and one
  report for a message, and only members of the room report. No request touches the messages of others.\<close>

theorem chat_messages_owned:
  assumes "noChat d"
  shows "let s = foldl stepChat d es in
    list_all (\<lambda>m. m_text m \<noteq> [] \<and> length (m_text m) \<le> 90 \<and>
      (\<exists>a. m_senderUserId m = Some a \<and> inRoom (m_roomId m) a s)) (messages s) \<and>
    uniqueKey m_id (messages s) \<and> uniqueSome idempotencyTriple (messages s) \<and>
    uniqueKey (\<lambda>r. (rr_roomId r, rr_userId r)) (readReceipts s) \<and>
    uniqueKey (\<lambda>r. (mr_messageId r, mr_reporterUserId r)) (messageReports s) \<and>
    list_all (reportOk s) (messageReports s) \<and>
    othersMessages (chatActor e) (stepChat s e) = othersMessages (chatActor e) s"
proof -
  have "chatInv (foldl stepChat d es)"
    using noChat_inv [OF assms] by (rule chat.run_inv)
  then show ?thesis
    by (auto simp: chatInv_def Let_def stepChat_others list_all_iff messageOk_def goodText_def MESSAGE_MAX_LENGTH_def
        split: option.splits)
qed

section \<open>Samples\<close>

definition sampleRoomId :: uuid where
  "sampleRoomId = js ''00000000-0000-4000-8000-0000000000c3''"

lemma sample_room [eval_simps]: "map asciiLower sampleRoomId = sampleRoomId" "canonicalUuid sampleRoomId"
  by (simp_all add: sampleRoomId_def string_simps canonicalUuid_def)

lemma sample_room_uuid [eval_simps]: "uuidRegex sampleRoomId"
  by (simp add: sampleRoomId_def uuidRegex_def matchesClasses_def uuidClasses_def isHexDigit_def
      isDigit_def js_def numeral_eq_Suc replicate_Suc)

text \<open>Two matched users in their room.\<close>

definition sampleChatDb :: db where
  "sampleChatDb = emptyDb\<lparr>users := [sampleSingle sampleAccountId, sampleSingle samplePeerId],
     rooms := [\<lparr>r_id = sampleRoomId, r_name = [], r_createdAt = 0, r_updatedAt = 0\<rparr>],
     roomMembers := [\<lparr>rm_roomId = sampleRoomId, rm_userId = sampleAccountId, rm_joinedAt = 0\<rparr>,
       \<lparr>rm_roomId = sampleRoomId, rm_userId = samplePeerId, rm_joinedAt = 0\<rparr>]\<rparr>"

lemmas chat_eval_simps [eval_simps] = sampleChatDb_def sendMessage_def deliverMessage_def createdMessage_def
  createMessage_def validateMessageText_def validateChatUuid_def validateIdempotencyKey_def requireRoomMember_def
  isRoomMember_def findMessageByIdempotencyKey_def sentUnder_def activeMessageCount_def activeIn_def touchRoom_def
  newMessage_def otherRoomMemberIds_def notifyMembers_def messageNotification_def publishMessageEvent_def
  MESSAGE_MAX_LENGTH_def FIRST_MESSAGE_MAX_LENGTH_def IDEMPOTENCY_KEY_MAX_LENGTH_def markRoomRead_def
  repoMarkRoomRead_def newReceipt_def latestMessage_def timeline_def messageKey_def truthy_def

definition sampleSend :: sendChatMessageInput where
  "sampleSend = \<lparr>si_roomId = sampleRoomId, si_text = js ''hi '', si_idempotencyKey = Some (js ''k1'')\<rparr>"

definition sampleSent :: "(app_error + chatMessagePayload \<times> chatMessageEventPayload option) \<times> db" where
  "sampleSent = sendMessage sampleUploadId sampleIds 1000 True sampleAccountId sampleSend sampleChatDb"

lemma sampleSent_run: "\<exists>p ev d. sampleSent = (Inr (p, Some ev), d) \<and> length (messages d) = 1 \<and> length (notifications d) = 1"
  unfolding sampleSent_def sampleSend_def
  by (simp add: eval_simps notify_def createWithPushOutbox_def newNotification_def sampleIds_def cong: run_congs)

theorem message_idempotent_witness:
  "\<exists>p ev d. sampleSent = (Inr (p, Some ev), d) \<and>
     sendMessage samplePeerId sampleIds 2000 True sampleAccountId sampleSend d = (Inr (p, None), d)"
proof -
  obtain p ev d where run: "sampleSent = (Inr (p, Some ev), d)" using sampleSent_run by blast
  have "trim (js ''hi '') \<noteq> []" "length (trim (js ''hi '')) \<le> MESSAGE_MAX_LENGTH"
    by (simp_all add: eval_simps)
  from message_idempotent [OF run [unfolded sampleSent_def sampleSend_def] this, of samplePeerId sampleIds 2000 True] run
  show ?thesis by (auto simp: sampleSend_def)
qed

definition sampleTalkDb :: db where
  "sampleTalkDb = sampleChatDb\<lparr>messages := [
     newMessage samplePeerId 2000 sampleRoomId samplePeerId (js ''two'') None,
     newMessage sampleAccountId 1000 sampleRoomId samplePeerId (js ''one'') None]\<rparr>"

lemma sampleTalk_timeline:
  "uniqueKey m_id (messages sampleTalkDb)" "isRoomMember sampleRoomId sampleAccountId sampleTalkDb"
  "timeline sampleRoomId sampleTalkDb = [newMessage sampleAccountId 1000 sampleRoomId samplePeerId (js ''one'') None,
     newMessage samplePeerId 2000 sampleRoomId samplePeerId (js ''two'') None]"
  by (simp_all add: sampleTalkDb_def eval_simps)

theorem message_pages_witness:
  "chatMessages sampleAccountId \<lparr>mi_roomId = sampleRoomId, mi_first = Some 1, mi_after = Some sampleAccountId,
     mi_before = None\<rparr> sampleTalkDb =
     (Inr [rowToMessage (newMessage samplePeerId 2000 sampleRoomId samplePeerId (js ''two'') None)], sampleTalkDb)"
  using message_pages [OF sampleTalk_timeline(1) sample_room_uuid sampleTalk_timeline(2), of 1 0]
  by (simp add: sampleTalk_timeline sample_room sample_ids sample_uuid Let_def)

definition sampleRead :: "(app_error + bool) \<times> db" where
  "sampleRead = markRoomRead sampleAccountId sampleRoomId sampleTalkDb"

lemma sampleRead_run: "\<exists>d. sampleRead = (Inr True, d) \<and> unreadCount sampleAccountId sampleRoomId sampleTalkDb = 2"
  unfolding sampleRead_def sampleTalkDb_def
  by (simp add: eval_simps unreadCount_def unreadBy_def findReceipt_def afterReceipt_def cong: run_congs)

theorem mark_read_clears_witness:
  "\<exists>d. sampleRead = (Inr True, d) \<and> unreadCount sampleAccountId sampleRoomId sampleTalkDb = 2 \<and>
     unreadCount sampleAccountId sampleRoomId d = 0"
proof -
  obtain d where run: "sampleRead = (Inr True, d)" "unreadCount sampleAccountId sampleRoomId sampleTalkDb = 2"
    using sampleRead_run by blast
  from mark_read_clears [OF sampleTalk_timeline(1) run(1) [unfolded sampleRead_def]] run
  show ?thesis by (auto simp: sample_room sample_ids)
qed

theorem chat_messages_owned_witness:
  "noChat sampleChatDb \<and>
   (let s = foldl stepChat sampleChatDb [SendStep sampleUploadId sampleIds 1000 True sampleAccountId sampleSend] in
    length (messages s) = 1 \<and>
    othersMessages samplePeerId (stepChat s (DeleteStep 2000 samplePeerId sampleAccountId)) = othersMessages samplePeerId s)"
proof -
  have start: "noChat sampleChatDb"
    by (simp add: noChat_def sampleChatDb_def emptyDb_def)
  from chat_messages_owned [OF start, of "[SendStep sampleUploadId sampleIds 1000 True sampleAccountId sampleSend]"
      "DeleteStep 2000 samplePeerId sampleAccountId"] start sampleSent_run
  show ?thesis by (auto simp: Let_def sampleSent_def sample_peer pgUuid_canonical)
qed

text \<open>\<^verbatim>\<open>blockUser\<close> compares the identifiers as strings, so a user who writes the own identifier in upper case
  blocks oneself.\<close>

lemma sample_upper_peer: "samplePeerId \<noteq> samplePeerUpper"
  by (simp add: samplePeerUpper_def samplePeerId_def js_def)

lemma upper_case_self_block:
  "\<exists>d. blockUser 0 samplePeerId samplePeerUpper sampleChatDb = (Inr True, d) \<and>
     map (\<lambda>b. (ub_blockerUserId b, ub_blockedUserId b)) (userBlocks d) = [(samplePeerId, samplePeerId)]"
  by (simp add: eval_simps blockUser_def repoBlockUser_def sample_upper_peer cong: run_congs)

end
