(* ===== verification/Community.thy ===== *)
theory Community
  imports Notification User
begin

text \<open>
  The community component (\<^verbatim>\<open>src/modules/community\<close>): posts and comments created under a key of the
  client, which becomes the identifier of the row, the lists of both, and the reports. Timestamps of
  a payload are kept as instants instead of their ISO text.
\<close>

section \<open>Data\<close>

record communityPostPayload =
  cpp_postId :: uuid
  cpp_authorName :: jsstring
  cpp_title :: jsstring
  cpp_body :: jsstring
  cpp_commentCount :: nat
  cpp_postCreatedAt :: timestamp

record communityCommentPayload =
  cq_id :: uuid
  cq_postId :: uuid
  cq_authorName :: jsstring
  cq_body :: jsstring
  cq_createdAt :: timestamp

record createCommunityPostInput =
  cpi_idempotencyKey :: jsstring
  cpi_title :: jsstring
  cpi_body :: jsstring

definition DEFAULT_COMMUNITY_NAME :: jsstring where
  "DEFAULT_COMMUNITY_NAME = [51061, 47749]"

definition TITLE_MAX_LENGTH :: nat where
  "TITLE_MAX_LENGTH = 80"

definition BODY_MAX_LENGTH :: nat where
  "BODY_MAX_LENGTH = 1000"

definition COMMENT_MAX_LENGTH :: nat where
  "COMMENT_MAX_LENGTH = 500"

definition COMMUNITY_REASON_MAX_LENGTH :: nat where
  "COMMUNITY_REASON_MAX_LENGTH = 120"

section \<open>Repository\<close>

definition findProfile :: "jsstring \<Rightarrow> db \<Rightarrow> communityProfile option" where
  "findProfile userId d = findFirst (\<lambda>p. cf_userId p = pgUuid userId) (communityProfiles d)"

definition joinedName :: "uuid \<Rightarrow> db \<Rightarrow> jsstring" where
  "joinedName userId d =
     (case findFirst (\<lambda>p. cf_userId p = userId) (communityProfiles d) of
        None \<Rightarrow> DEFAULT_COMMUNITY_NAME | Some p \<Rightarrow> cf_name p)"

definition activeComment :: "uuid \<Rightarrow> communityComment \<Rightarrow> bool" where
  "activeComment postId c \<longleftrightarrow> cc_postId c = postId \<and> cc_deletedAt c = None"

definition postKey :: "communityPost \<Rightarrow> timestamp \<times> uuid" where
  "postKey p = (cp_createdAt p, cp_id p)"

definition commentKey :: "communityComment \<Rightarrow> timestamp \<times> uuid" where
  "commentKey c = (cc_createdAt c, cc_id c)"

definition postRow :: "jsstring \<Rightarrow> nat \<Rightarrow> communityPost \<Rightarrow> communityPostPayload" where
  "postRow authorName commentCount p = \<lparr>cpp_postId = cp_id p, cpp_authorName = authorName, cpp_title = cp_title p,
     cpp_body = cp_body p, cpp_commentCount = commentCount, cpp_postCreatedAt = cp_createdAt p\<rparr>"

definition commentRow :: "jsstring \<Rightarrow> communityComment \<Rightarrow> communityCommentPayload" where
  "commentRow authorName c = \<lparr>cq_id = cc_id c, cq_postId = cc_postId c, cq_authorName = authorName,
     cq_body = cc_body c, cq_createdAt = cc_createdAt c\<rparr>"

text \<open>A user has one profile and the groups of the statement are the posts, so the count of a group is the
  number of the active comments of the post.\<close>

definition repoPosts :: "db \<Rightarrow> communityPostPayload list" where
  "repoPosts d = map (\<lambda>p. postRow (joinedName (cp_authorUserId p) d)
       (countWhere (activeComment (cp_id p)) (communityComments d)) p)
     (take 50 (rev (sort_key postKey (filter (\<lambda>p. cp_deletedAt p = None) (communityPosts d)))))"

definition repoComments :: "jsstring \<Rightarrow> db \<Rightarrow> communityCommentPayload list" where
  "repoComments postId d = map (\<lambda>c. commentRow (joinedName (cc_authorUserId c) d) c)
     (take 100 (sort_key commentKey (filter (activeComment (pgUuid postId)) (communityComments d))))"

text \<open>A repeated request is one that agrees with the stored row; the texts of the request are compared with
  the canonical ones of the row.\<close>

definition repoCreatePost ::
  "timestamp \<Rightarrow> jsstring \<Rightarrow> jsstring \<Rightarrow> jsstring \<Rightarrow> jsstring \<Rightarrow> (communityPost \<times> bool) dbprog" where
  "repoCreatePost now i userId title body =
     andThen (query (\<lambda>d. findFirst (\<lambda>p. cp_id p = pgUuid i) (communityPosts d))) (\<lambda>replayed.
     case replayed of
       None \<Rightarrow>
         let p = \<lparr>cp_id = pgUuid i, cp_authorUserId = pgUuid userId, cp_title = title, cp_body = body,
           cp_deletedAt = None, cp_createdAt = now, cp_updatedAt = now\<rparr> in
         andThen (query (userExists (pgUuid userId))) (\<lambda>known.
         andThen (throwIf (\<not> known) (PgError ForeignKeyViolation)) (\<lambda>_.
         andThen (modify (\<lambda>d. d\<lparr>communityPosts := insertRow p (communityPosts d)\<rparr>)) (\<lambda>_.
         ret (p, True))))
     | Some p \<Rightarrow>
         andThen (throwIf (cp_authorUserId p \<noteq> userId \<or> cp_title p \<noteq> title \<or> cp_body p \<noteq> body \<or>
             cp_deletedAt p \<noteq> None)
           (ErrorCode ''COMMUNITY_POST_IDEMPOTENCY_KEY_ALREADY_USED'')) (\<lambda>_.
         ret (p, False)))"

definition findPost :: "jsstring \<Rightarrow> db \<Rightarrow> communityPost option" where
  "findPost postId d = findFirst (\<lambda>p. cp_id p = pgUuid postId \<and> cp_deletedAt p = None) (communityPosts d)"

definition repoCreateComment ::
  "timestamp \<Rightarrow> jsstring \<Rightarrow> jsstring \<Rightarrow> jsstring \<Rightarrow> jsstring \<Rightarrow> (communityComment \<times> bool) dbprog" where
  "repoCreateComment now i userId postId body =
     andThen (query (\<lambda>d. findFirst (\<lambda>c. cc_id c = pgUuid i) (communityComments d))) (\<lambda>replayed.
     case replayed of
       None \<Rightarrow>
         let c = \<lparr>cc_id = pgUuid i, cc_postId = pgUuid postId, cc_authorUserId = pgUuid userId, cc_body = body,
           cc_deletedAt = None, cc_createdAt = now, cc_updatedAt = now\<rparr> in
         andThen (query (\<lambda>d. keyTaken cp_id (pgUuid postId) (communityPosts d) \<and> userExists (pgUuid userId) d)) (\<lambda>known.
         andThen (throwIf (\<not> known) (PgError ForeignKeyViolation)) (\<lambda>_.
         andThen (modify (\<lambda>d. d\<lparr>communityComments := insertRow c (communityComments d)\<rparr>)) (\<lambda>_.
         ret (c, True))))
     | Some c \<Rightarrow>
         andThen (throwIf (cc_authorUserId c \<noteq> userId \<or> cc_postId c \<noteq> postId \<or> cc_body c \<noteq> body \<or>
             cc_deletedAt c \<noteq> None)
           (ErrorCode ''COMMUNITY_COMMENT_IDEMPOTENCY_KEY_ALREADY_USED'')) (\<lambda>_.
         ret (c, False)))"

definition findComment :: "jsstring \<Rightarrow> db \<Rightarrow> communityComment option" where
  "findComment commentId d = findFirst (\<lambda>c. cc_id c = pgUuid commentId \<and> cc_deletedAt c = None) (communityComments d)"

definition repoReportPost ::
  "uuid \<Rightarrow> timestamp \<Rightarrow> jsstring \<Rightarrow> jsstring \<Rightarrow> jsstring \<Rightarrow> unit dbprog" where
  "repoReportPost i now userId postId reason =
     (let P = (\<lambda>r. pr_postId r = pgUuid postId \<and> pr_reporterUserId r = pgUuid userId) in
     andThen (query (\<lambda>d. existsRow P (communityPostReports d))) (\<lambda>conflict.
     if conflict then
       modify (\<lambda>d. d\<lparr>communityPostReports := updateWhere P (\<lambda>r. r\<lparr>pr_reason := reason, pr_createdAt := now\<rparr>)
         (communityPostReports d)\<rparr>)
     else
       andThen (query (\<lambda>d. keyTaken pr_id i (communityPostReports d))) (\<lambda>taken.
       andThen (throwIf taken (PgError UniqueViolation)) (\<lambda>_.
       andThen (query (\<lambda>d. keyTaken cp_id (pgUuid postId) (communityPosts d) \<and> userExists (pgUuid userId) d)) (\<lambda>known.
       andThen (throwIf (\<not> known) (PgError ForeignKeyViolation)) (\<lambda>_.
       modify (\<lambda>d. d\<lparr>communityPostReports := insertRow \<lparr>pr_id = i, pr_postId = pgUuid postId,
         pr_reporterUserId = pgUuid userId, pr_reason = reason, pr_createdAt = now\<rparr> (communityPostReports d)\<rparr>)))))))"

definition repoReportComment ::
  "uuid \<Rightarrow> timestamp \<Rightarrow> jsstring \<Rightarrow> jsstring \<Rightarrow> jsstring \<Rightarrow> unit dbprog" where
  "repoReportComment i now userId commentId reason =
     (let P = (\<lambda>r. cr_commentId r = pgUuid commentId \<and> cr_reporterUserId r = pgUuid userId) in
     andThen (query (\<lambda>d. existsRow P (communityCommentReports d))) (\<lambda>conflict.
     if conflict then
       modify (\<lambda>d. d\<lparr>communityCommentReports := updateWhere P (\<lambda>r. r\<lparr>cr_reason := reason, cr_createdAt := now\<rparr>)
         (communityCommentReports d)\<rparr>)
     else
       andThen (query (\<lambda>d. keyTaken cr_id i (communityCommentReports d))) (\<lambda>taken.
       andThen (throwIf taken (PgError UniqueViolation)) (\<lambda>_.
       andThen (query (\<lambda>d. keyTaken cc_id (pgUuid commentId) (communityComments d) \<and> userExists (pgUuid userId) d)) (\<lambda>known.
       andThen (throwIf (\<not> known) (PgError ForeignKeyViolation)) (\<lambda>_.
       modify (\<lambda>d. d\<lparr>communityCommentReports := insertRow \<lparr>cr_id = i, cr_commentId = pgUuid commentId,
         cr_reporterUserId = pgUuid userId, cr_reason = reason, cr_createdAt = now\<rparr> (communityCommentReports d)\<rparr>)))))))"

section \<open>Service\<close>

definition validateCommunityText :: "jsstring \<Rightarrow> nat \<Rightarrow> string \<Rightarrow> jsstring dbprog" where
  "validateCommunityText input maxLength field =
     (let v = trim input in
     andThen (throwIf (v = []) (ErrorCode (field @ ''_REQUIRED''))) (\<lambda>_.
     andThen (throwIf (maxLength < length v) (ErrorCode (field @ ''_TOO_LONG''))) (\<lambda>_.
     ret v)))"

definition validateCommunityUuid :: "jsstring \<Rightarrow> string \<Rightarrow> unit dbprog" where
  "validateCommunityUuid input error = throwIf (\<not> uuidRegex input) (ErrorCode error)"

definition authorName :: "jsstring \<Rightarrow> db \<Rightarrow> jsstring" where
  "authorName userId d = (case findProfile userId d of None \<Rightarrow> DEFAULT_COMMUNITY_NAME | Some p \<Rightarrow> cf_name p)"

definition communityPostsOf :: "communityPostPayload list dbprog" where
  "communityPostsOf = query repoPosts"

definition communityCommentsOf :: "jsstring \<Rightarrow> communityCommentPayload list dbprog" where
  "communityCommentsOf postId =
     andThen (validateCommunityUuid postId ''COMMUNITY_POST_ID_INVALID'') (\<lambda>_. query (repoComments postId))"

definition createPost :: "timestamp \<Rightarrow> jsstring \<Rightarrow> createCommunityPostInput \<Rightarrow> communityPostPayload dbprog" where
  "createPost now userId input =
     andThen (validateCommunityUuid userId ''USER_ID_INVALID'') (\<lambda>_.
     andThen (validateCommunityUuid (cpi_idempotencyKey input) ''COMMUNITY_POST_IDEMPOTENCY_KEY_INVALID'') (\<lambda>_.
     andThen (validateCommunityText (cpi_title input) TITLE_MAX_LENGTH ''COMMUNITY_TITLE'') (\<lambda>title.
     andThen (validateCommunityText (cpi_body input) BODY_MAX_LENGTH ''COMMUNITY_BODY'') (\<lambda>body.
     andThen (query (authorName userId)) (\<lambda>name.
     andThen (repoCreatePost now (cpi_idempotencyKey input) userId title body) (\<lambda>(post, _).
     ret (postRow name 0 post)))))))"

definition commentNotification :: "uuid \<Rightarrow> jsstring \<Rightarrow> uuid \<Rightarrow> createNotificationInput" where
  "commentNotification authorUserId postId commentId = \<lparr>ni_userId = authorUserId, ni_type = CommentN,
     ni_title = [49352, 32, 45843, 44544, 51060, 32, 45804, 47160, 50612, 50836],
     ni_body = [45236, 32, 44544, 50640, 32, 45224, 44596, 32, 45843, 44544, 51012, 32, 54869, 51064, 54644, 32,
       48372, 49464, 50836, 46],
     ni_route = Some (js ''/community/'' @ postId), ni_sourceId = Some commentId\<rparr>"

definition createComment ::
  "(nat \<Rightarrow> uuid) \<Rightarrow> timestamp \<Rightarrow> bool \<Rightarrow> jsstring \<Rightarrow> jsstring \<Rightarrow> jsstring \<Rightarrow> jsstring \<Rightarrow>
   communityCommentPayload dbprog" where
  "createComment ids now pushEnabled userId postId body idempotencyKey =
     andThen (validateCommunityUuid userId ''USER_ID_INVALID'') (\<lambda>_.
     andThen (validateCommunityUuid postId ''COMMUNITY_POST_ID_INVALID'') (\<lambda>_.
     andThen (validateCommunityUuid idempotencyKey ''COMMUNITY_COMMENT_IDEMPOTENCY_KEY_INVALID'') (\<lambda>_.
     andThen (query (findPost postId)) (\<lambda>found.
     case found of
       None \<Rightarrow> throw (ErrorCode ''COMMUNITY_POST_NOT_FOUND'')
     | Some post \<Rightarrow>
         andThen (query (authorName userId)) (\<lambda>name.
         andThen (validateCommunityText body COMMENT_MAX_LENGTH ''COMMUNITY_COMMENT'') (\<lambda>valid.
         andThen (repoCreateComment now idempotencyKey userId postId valid) (\<lambda>(comment, created).
         andThen (if created \<and> cp_authorUserId post \<noteq> userId
           then tryCatch (andThen (notify ids now pushEnabled
             (commentNotification (cp_authorUserId post) postId (cc_id comment))) (\<lambda>_. ret ())) (\<lambda>_. ret ())
           else ret ()) (\<lambda>_.
         ret (commentRow name comment)))))))))"

definition reportPost :: "uuid \<Rightarrow> timestamp \<Rightarrow> jsstring \<Rightarrow> jsstring \<Rightarrow> jsstring \<Rightarrow> bool dbprog" where
  "reportPost i now userId postId reason =
     andThen (validateCommunityUuid userId ''USER_ID_INVALID'') (\<lambda>_.
     andThen (validateCommunityUuid postId ''COMMUNITY_POST_ID_INVALID'') (\<lambda>_.
     andThen (validateCommunityText reason COMMUNITY_REASON_MAX_LENGTH ''COMMUNITY_REPORT_REASON'') (\<lambda>valid.
     andThen (repoReportPost i now userId postId valid) (\<lambda>_.
     ret True))))"

definition reportComment :: "uuid \<Rightarrow> timestamp \<Rightarrow> jsstring \<Rightarrow> jsstring \<Rightarrow> jsstring \<Rightarrow> bool dbprog" where
  "reportComment i now userId commentId reason =
     andThen (validateCommunityUuid userId ''USER_ID_INVALID'') (\<lambda>_.
     andThen (validateCommunityUuid commentId ''COMMUNITY_COMMENT_ID_INVALID'') (\<lambda>_.
     andThen (query (findComment commentId)) (\<lambda>found.
     andThen (throwIf (found = None) (ErrorCode ''COMMUNITY_COMMENT_NOT_FOUND'')) (\<lambda>_.
     andThen (validateCommunityText reason COMMUNITY_REASON_MAX_LENGTH ''COMMUNITY_REPORT_REASON'') (\<lambda>valid.
     andThen (repoReportComment i now userId commentId valid) (\<lambda>_.
     ret True))))))"

section \<open>Creating under a key\<close>

lemma success_community_checks [success_simps]:
  "validateCommunityUuid v e d = (Inr y, u) \<longleftrightarrow> uuidRegex v \<and> u = d"
  "validateCommunityText w n f d = (Inr x, u) \<longleftrightarrow> x = trim w \<and> trim w \<noteq> [] \<and> length (trim w) \<le> n \<and> u = d"
  by (auto simp: validateCommunityUuid_def validateCommunityText_def throwIf_apply Let_def split: if_splits)

text \<open>The identifiers of the author and of the post are those the database returns.\<close>

interpretation posted: keyed_create
  "\<lambda>i d. findFirst (\<lambda>p. cp_id p = pgUuid i) (communityPosts d)"
  "\<lambda>(now, userId, title, body) p. cp_authorUserId p = pgUuid userId \<and> cp_title p = title \<and> cp_body p = body \<and>
     cp_deletedAt p = None"
  "\<lambda>i (now, userId, title, body). repoCreatePost now i (pgUuid userId) title body"
  by unfold_locales (auto simp: repoCreatePost_def throwIf_apply success_simps findFirst_insertRow Let_def split: prod.splits)

interpretation commented: keyed_create
  "\<lambda>i d. findFirst (\<lambda>c. cc_id c = pgUuid i) (communityComments d)"
  "\<lambda>(now, userId, postId, body) c. cc_authorUserId c = pgUuid userId \<and> cc_postId c = pgUuid postId \<and> cc_body c = body \<and>
     cc_deletedAt c = None"
  "\<lambda>i (now, userId, postId, body). repoCreateComment now i (pgUuid userId) (pgUuid postId) body"
  by unfold_locales (auto simp: repoCreateComment_def throwIf_apply success_simps findFirst_insertRow Let_def split: prod.splits)

definition communityView where
  "communityView d = (communityPosts d, communityComments d, communityProfiles d)"

lemma notify_community: "preserves (\<lambda>x. communityView x = v) (notify ids now enabled input)"
  by (rule notify_frame) (simp_all add: communityView_def)

lemma repoCreateComment_view:
  assumes "repoCreateComment now i userId postId body d = (Inr r, d')"
  shows "communityPosts d' = communityPosts d" "communityProfiles d' = communityProfiles d"
  using assms by (auto simp: repoCreateComment_def success_simps Let_def)

lemma createComment_Inr:
  assumes "createComment ids now enabled userId postId body key d = (Inr p, d')"
  obtains post c created d1 where "uuidRegex userId" "uuidRegex postId" "uuidRegex key" "findPost postId d = Some post"
    "repoCreateComment now key userId postId (trim body) d = (Inr (c, created), d1)"
    "communityView d' = communityView d1" "p = commentRow (authorName userId d) c"
proof -
  from assms obtain post c created d1 u where run: "uuidRegex userId" "uuidRegex postId" "uuidRegex key"
    "findPost postId d = Some post" "repoCreateComment now key userId postId (trim body) d = (Inr (c, created), d1)"
    and told: "(if created \<and> cp_authorUserId post \<noteq> userId
           then tryCatch (andThen (notify ids now enabled
             (commentNotification (cp_authorUserId post) postId (cc_id c))) (\<lambda>_. ret ())) (\<lambda>_. ret ())
           else ret ()) d1 = (Inr u, d')" and p: "p = commentRow (authorName userId d) c"
    unfolding createComment_def by (auto simp: success_basic success_case_prod success_option success_community_checks)
  have "preserves (\<lambda>x. communityView x = communityView d1) (if created \<and> cp_authorUserId post \<noteq> userId
           then tryCatch (andThen (notify ids now enabled
             (commentNotification (cp_authorUserId post) postId (cc_id c))) (\<lambda>_. ret ())) (\<lambda>_. ret ())
           else ret ())"
    by (intro preserves_intros notify_community)
  from preservesD [OF this refl told] told run p show thesis
    by (intro that) auto
qed


section \<open>Samples\<close>

definition samplePost :: communityPost where
  "samplePost = \<lparr>cp_id = sampleAccountId, cp_authorUserId = js ''b2'', cp_title = js ''tea'', cp_body = js ''time'',
     cp_deletedAt = None, cp_createdAt = 0, cp_updatedAt = 0\<rparr>"

definition sampleCommunityDb :: db where
  "sampleCommunityDb = sampleDb\<lparr>users := [sampleUser sampleAccountId, sampleUser (js ''b2'')],
     communityPosts := [samplePost]\<rparr>"

definition sampleComment :: "(app_error + communityCommentPayload) \<times> db" where
  "sampleComment = createComment (\<lambda>k. [k]) 1000 True sampleAccountId sampleAccountId (js ''nice '') sampleAccountId sampleCommunityDb"

lemmas community_eval_simps [eval_simps] = samplePost_def sampleCommunityDb_def createComment_def commentNotification_def
  validateCommunityUuid_def validateCommunityText_def findPost_def authorName_def findProfile_def repoCreateComment_def
  commentRow_def COMMENT_MAX_LENGTH_def

lemma sampleComment_run:
  "\<exists>p d. sampleComment = (Inr p, d) \<and> length (communityComments d) = 1 \<and> length (notifications d) = 1"
  unfolding sampleComment_def
  by (simp add: eval_simps notify_def createWithPushOutbox_def newNotification_def cong: run_congs)


text \<open>A request whose post identifier is in upper case succeeds, and its repetition is refused: the stored
  identifier is in lower case.\<close>

definition sampleUpperPost :: jsstring where
  "sampleUpperPost = js ''0000000A-0000-4000-8000-000000000000''"

lemma sample_upper_post [eval_simps]: "uuidRegex sampleUpperPost" "map asciiLower sampleUpperPost \<noteq> sampleUpperPost"
  by (simp_all add: sampleUpperPost_def uuidRegex_def matchesClasses_def uuidClasses_def isHexDigit_def isDigit_def
      string_simps numeral_eq_Suc replicate_Suc)

lemma upper_case_retry_refused:
  "\<exists>p d. createComment (\<lambda>k. [k]) 1000 False sampleAccountId sampleUpperPost (js ''nice'') sampleAccountId
       (sampleCommunityDb\<lparr>communityPosts := [samplePost\<lparr>cp_id := pgUuid sampleUpperPost\<rparr>]\<rparr>) = (Inr p, d) \<and>
     createComment (\<lambda>k. [k, 1]) 2000 False sampleAccountId sampleUpperPost (js ''nice'') sampleAccountId d =
       (Inl (ErrorCode ''COMMUNITY_COMMENT_IDEMPOTENCY_KEY_ALREADY_USED''), d)"
  by (simp add: eval_simps notify_def createWithPushOutbox_def newNotification_def cong: run_congs)

end
