(* ===== verification/Maintenance.thy ===== *)
theory Maintenance
  imports Upload
begin

text \<open>
  The maintenance process (\<^verbatim>\<open>src/maintenance\<close>): the advisory lock that lets one process at a time run the
  jobs, the cycle of four bounded jobs, each isolated from the failures of the others, the loop that
  repeats the cycle until the process is told to stop, and the heartbeat file. The state holds the
  database beside what the processes share: the lock with the session that holds it, and for this
  process its log, its heartbeat and whether its application context is open. Which calls of the network and the file
  system fail, and when the stop signal arrives, is input.
\<close>

section \<open>State\<close>

datatype maintenanceJob = AccountDeletion | PushOutbox | PushReceipts | StagingCleanup

datatype maintenanceEvent =
    JobCompleted maintenanceJob batchResult
  | JobFailed maintenanceJob app_error
  | CycleSkipped
  | CycleFailed app_error

datatype lockOutcome = Acquired | Skipped

text \<open>An advisory lock of the database counts how often its session has taken it.\<close>

record maintenanceState =
  mx_db :: db
  mx_lock :: "(nat \<times> nat) option"
  mx_log :: "maintenanceEvent list"
  mx_heartbeat :: bool
  mx_contextOpen :: bool

type_synonym 'a maintprog = "(maintenanceState, 'a) prog"

record lockFaults =
  lf_connect :: "app_error option"
  lf_lock :: "app_error option"
  lf_unlock :: "app_error option"

definition fault :: "app_error option \<Rightarrow> ('s, unit) prog" where
  "fault e = (case e of None \<Rightarrow> ret () | Some x \<Rightarrow> throw x)"

definition onDb :: "'a dbprog \<Rightarrow> 'a maintprog" where
  "onDb m s = (case m (mx_db s) of (r, d) \<Rightarrow> (r, s\<lparr>mx_db := d\<rparr>))"

definition logEvent :: "maintenanceEvent \<Rightarrow> unit maintprog" where
  "logEvent e = modify (\<lambda>s. s\<lparr>mx_log := mx_log s @ [e]\<rparr>)"

section \<open>The lock\<close>

definition tryAdvisoryLock :: "nat \<Rightarrow> bool maintprog" where
  "tryAdvisoryLock c =
     andThen (query mx_lock) (\<lambda>held.
     case held of
       None \<Rightarrow> andThen (modify (\<lambda>s. s\<lparr>mx_lock := Some (c, 1)\<rparr>)) (\<lambda>_. ret True)
     | Some (h, n) \<Rightarrow>
         if h = c then andThen (modify (\<lambda>s. s\<lparr>mx_lock := Some (c, n + 1)\<rparr>)) (\<lambda>_. ret True)
         else ret False)"

definition advisoryUnlock :: "nat \<Rightarrow> bool maintprog" where
  "advisoryUnlock c =
     andThen (query mx_lock) (\<lambda>held.
     case held of
       None \<Rightarrow> ret False
     | Some (h, n) \<Rightarrow>
         if h \<noteq> c then ret False
         else andThen (modify (\<lambda>s. s\<lparr>mx_lock := (if n \<le> 1 then None else Some (h, n - 1))\<rparr>)) (\<lambda>_. ret True))"

text \<open>A client that is destroyed ends its session, and the database drops the locks of the session.\<close>

definition releaseClient :: "nat \<Rightarrow> bool \<Rightarrow> unit maintprog" where
  "releaseClient c destroyClient = modify (\<lambda>s.
     if destroyClient then s\<lparr>mx_lock := (case mx_lock s of None \<Rightarrow> None
       | Some (h, n) \<Rightarrow> if h = c then None else Some (h, n))\<rparr> else s)"

definition unlockClient :: "lockFaults \<Rightarrow> nat \<Rightarrow> (bool \<times> app_error option) maintprog" where
  "unlockClient f c =
     (case lf_unlock f of
        Some e \<Rightarrow> ret (True, Some e)
      | None \<Rightarrow> andThen (advisoryUnlock c) (\<lambda>unlocked. ret (\<not> unlocked, None)))"

definition runExclusive :: "lockFaults \<Rightarrow> nat \<Rightarrow> unit maintprog \<Rightarrow> lockOutcome maintprog" where
  "runExclusive f c task =
     andThen (fault (lf_connect f)) (\<lambda>_.
     andThen (fault (lf_lock f)) (\<lambda>_.
     andThen (tryAdvisoryLock c) (\<lambda>acquired.
     if \<not> acquired then ret Skipped
     else
       andThen (tryCatch (andThen task (\<lambda>_. ret None)) (\<lambda>e. ret (Some e))) (\<lambda>taskError.
       andThen (unlockClient f c) (\<lambda>(destroyClient, unlockError).
       andThen (releaseClient c destroyClient) (\<lambda>_.
       andThen (fault taskError) (\<lambda>_.
       andThen (fault unlockError) (\<lambda>_.
       ret Acquired))))))))"

section \<open>The cycle\<close>

record maintenanceServices =
  ms_send :: expoSend
  ms_receipts :: expoReceipts
  ms_pushEnabled :: bool
  ms_upload :: uploadEnv

definition uploadBatch :: "uploadMaintenanceBatchResult \<Rightarrow> batchResult" where
  "uploadBatch r = \<lparr>br_claimed = ur_claimed r, br_succeeded = ur_succeeded r, br_retryScheduled = ur_retryScheduled r,
     br_permanentlyFailed = ur_permanentlyFailed r, br_hasMore = ur_hasMore r\<rparr>"

definition maintenanceJobs :: "maintenanceServices \<Rightarrow> timestamp \<Rightarrow> (maintenanceJob \<times> batchResult dbprog) list" where
  "maintenanceJobs services now =
     [(AccountDeletion, processDueAccountDeletionBatch now 100),
      (PushOutbox, processPushOutboxBatch (ms_send services) (ms_pushEnabled services) now 100),
      (PushReceipts, processPushReceiptBatch (ms_receipts services) (ms_pushEnabled services) now 100),
      (StagingCleanup, andThen (cleanupExpiredStagingBatch (ms_upload services) now 100) (\<lambda>r. ret (uploadBatch r)))]"

definition runJob :: "maintenanceJob \<times> batchResult dbprog \<Rightarrow> unit maintprog" where
  "runJob j = (case j of (job, execute) \<Rightarrow>
     tryCatch (andThen (onDb execute) (\<lambda>result. logEvent (JobCompleted job result))) (\<lambda>e. logEvent (JobFailed job e)))"

definition heartbeatReset :: "app_error option \<Rightarrow> unit maintprog" where
  "heartbeatReset f = andThen (fault f) (\<lambda>_. modify (\<lambda>s. s\<lparr>mx_heartbeat := False\<rparr>))"

text \<open>The file is written beside and renamed, so a failure leaves the old one.\<close>

definition heartbeatWrite :: "app_error option \<Rightarrow> unit maintprog" where
  "heartbeatWrite f = andThen (fault f) (\<lambda>_. modify (\<lambda>s. s\<lparr>mx_heartbeat := True\<rparr>))"

definition runCycle ::
  "maintenanceServices \<Rightarrow> lockFaults \<Rightarrow> nat \<Rightarrow> timestamp \<Rightarrow> app_error option \<Rightarrow> lockOutcome maintprog" where
  "runCycle services f c now heartbeatFault =
     andThen (runExclusive f c (forEach (maintenanceJobs services now) runJob)) (\<lambda>outcome.
     andThen (if outcome = Skipped then logEvent CycleSkipped else ret ()) (\<lambda>_.
     andThen (heartbeatWrite heartbeatFault) (\<lambda>_.
     ret outcome)))"

section \<open>The loop\<close>

text \<open>A round of the loop: the clock and the failures of its cycle, its database session, how its sleep
  ended, and whether the signal is aborted at each of the three places that ask.\<close>

record round =
  rd_session :: nat
  rd_now :: timestamp
  rd_lockFaults :: lockFaults
  rd_heartbeatFault :: "app_error option"
  rd_sleepFault :: "app_error option"
  rd_abortedBefore :: bool
  rd_abortedAfter :: bool
  rd_abortedAsleep :: bool

text \<open>The loop over the rounds that have come: \<open>None\<close> says that it is still running.\<close>

fun runRounds :: "maintenanceServices \<Rightarrow> round list \<Rightarrow> unit option maintprog" where
  "runRounds services [] = ret None"
| "runRounds services (r # rs) =
     (if rd_abortedBefore r then ret (Some ())
      else
        andThen (tryCatch (andThen (runCycle services (rd_lockFaults r) (rd_session r) (rd_now r) (rd_heartbeatFault r))
          (\<lambda>_. ret ())) (\<lambda>e. logEvent (CycleFailed e))) (\<lambda>_.
        if rd_abortedAfter r then ret (Some ())
        else
          (case rd_sleepFault r of
             None \<Rightarrow> runRounds services rs
           | Some e \<Rightarrow> if rd_abortedAsleep r then ret (Some ()) else throw e)))"

definition maintenanceRun :: "maintenanceServices \<Rightarrow> app_error option \<Rightarrow> round list \<Rightarrow> unit option maintprog" where
  "maintenanceRun services resetFault rs = andThen (heartbeatReset resetFault) (\<lambda>_. runRounds services rs)"

text \<open>\<^verbatim>\<open>try/finally\<close>: the last part runs when the run has ended, with a result or an error.\<close>

definition runMaintenanceApplication ::
  "maintenanceServices \<Rightarrow> app_error option \<Rightarrow> app_error option \<Rightarrow> round list \<Rightarrow> unit option maintprog" where
  "runMaintenanceApplication services contextFault resetFault rs =
     andThen (tryCatch
       (andThen (fault contextFault) (\<lambda>_.
        andThen (modify (\<lambda>s. s\<lparr>mx_contextOpen := True\<rparr>)) (\<lambda>_.
        andThen (maintenanceRun services resetFault rs) (\<lambda>x. ret (Inr x)))))
       (\<lambda>e. ret (Inl e))) (\<lambda>ended.
     if ended = Inr None then ret None
     else
       andThen (modify (\<lambda>s. s\<lparr>mx_contextOpen := False\<rparr>)) (\<lambda>_.
       case ended of Inl e \<Rightarrow> throw e | Inr x \<Rightarrow> ret x))"

section \<open>What a cycle does\<close>

text \<open>The jobs in their order, each on the database the one before left, failed or not.\<close>

fun afterJobs :: "(maintenanceJob \<times> batchResult dbprog) list \<Rightarrow> db \<Rightarrow> db" where
  "afterJobs [] d = d"
| "afterJobs ((job, m) # jobs) d = afterJobs jobs (snd (m d))"

fun jobEvents :: "(maintenanceJob \<times> batchResult dbprog) list \<Rightarrow> db \<Rightarrow> maintenanceEvent list" where
  "jobEvents [] d = []"
| "jobEvents ((job, m) # jobs) d =
     (case fst (m d) of Inl e \<Rightarrow> JobFailed job e | Inr x \<Rightarrow> JobCompleted job x) # jobEvents jobs (snd (m d))"

lemma runJob_run:
  "runJob (job, m) s = (Inr (), s\<lparr>mx_db := snd (m (mx_db s)), mx_log := mx_log s @
     [case fst (m (mx_db s)) of Inl e \<Rightarrow> JobFailed job e | Inr x \<Rightarrow> JobCompleted job x]\<rparr>)"
  by (simp add: runJob_def tryCatch_def andThen_def onDb_def logEvent_def split: prod.split sum.split)

lemma runJobs_run:
  "forEach jobs runJob s = (Inr (), s\<lparr>mx_db := afterJobs jobs (mx_db s), mx_log := mx_log s @ jobEvents jobs (mx_db s)\<rparr>)"
proof (induction jobs arbitrary: s)
  case (Cons j jobs)
  obtain job m where "j = (job, m)" by (cases j)
  with Cons show ?case by (simp add: andThen_def runJob_run)
qed simp

definition holdsLock :: "nat \<Rightarrow> maintenanceState \<Rightarrow> bool" where
  "holdsLock c s \<longleftrightarrow> (case mx_lock s of None \<Rightarrow> False | Some (h, n) \<Rightarrow> h = c)"

definition cycleState :: "maintenanceServices \<Rightarrow> timestamp \<Rightarrow> maintenanceState \<Rightarrow> maintenanceState" where
  "cycleState sv now s = s\<lparr>mx_db := afterJobs (maintenanceJobs sv now) (mx_db s),
     mx_log := mx_log s @ jobEvents (maintenanceJobs sv now) (mx_db s)\<rparr>"

lemma runExclusive_jobs:
  assumes "\<not> holdsLock c s" and "runExclusive f c (forEach (maintenanceJobs sv now) runJob) s = (r, s')"
  shows "s' = (if lf_connect f = None \<and> lf_lock f = None \<and> mx_lock s = None then cycleState sv now s else s)"
    and "lf_connect f = None \<Longrightarrow> lf_lock f = None \<Longrightarrow> mx_lock s \<noteq> None \<Longrightarrow> r = Inr Skipped"
    and "r = Inr Skipped \<Longrightarrow> mx_lock s \<noteq> None"
  using assms
  by (auto simp: runExclusive_def fault_def tryAdvisoryLock_def unlockClient_def advisoryUnlock_def releaseClient_def
      holdsLock_def cycleState_def runJobs_run andThen_def tryCatch_def split: option.splits prod.splits)

lemma runCycle_state:
  assumes "\<not> holdsLock c s" and "runCycle sv f c now hb s = (r, s')"
  shows "mx_db s' = (if lf_connect f = None \<and> lf_lock f = None \<and> mx_lock s = None
      then afterJobs (maintenanceJobs sv now) (mx_db s) else mx_db s)"
    and "mx_lock s' = mx_lock s"
    and "lf_connect f = None \<Longrightarrow> lf_lock f = None \<Longrightarrow> mx_lock s = None \<Longrightarrow>
      mx_log s' = mx_log s @ jobEvents (maintenanceJobs sv now) (mx_db s)"
    and "lf_connect f = None \<Longrightarrow> lf_lock f = None \<Longrightarrow> mx_lock s \<noteq> None \<Longrightarrow> hb = None \<Longrightarrow>
      r = Inr Skipped \<and> mx_heartbeat s' \<and> mx_log s' = mx_log s @ [CycleSkipped]"
proof -
  obtain r1 s1 where run: "runExclusive f c (forEach (maintenanceJobs sv now) runJob) s = (r1, s1)"
    by (metis surj_pair)
  note ex = runExclusive_jobs [OF assms(1) run]
  have "mx_db s' = mx_db s1" "mx_lock s' = mx_lock s1" "r1 \<noteq> Inr Skipped \<Longrightarrow> mx_log s' = mx_log s1"
    using assms(2) run
    by (cases r1; auto simp: runCycle_def andThen_def logEvent_def heartbeatWrite_def fault_def
        split: option.splits if_splits)+
  with ex show "mx_db s' = (if lf_connect f = None \<and> lf_lock f = None \<and> mx_lock s = None
      then afterJobs (maintenanceJobs sv now) (mx_db s) else mx_db s)" "mx_lock s' = mx_lock s"
    "lf_connect f = None \<Longrightarrow> lf_lock f = None \<Longrightarrow> mx_lock s = None \<Longrightarrow>
      mx_log s' = mx_log s @ jobEvents (maintenanceJobs sv now) (mx_db s)"
    by (auto simp: cycleState_def)
  assume "lf_connect f = None" "lf_lock f = None" "mx_lock s \<noteq> None" "hb = None"
  with assms(2) ex run show "r = Inr Skipped \<and> mx_heartbeat s' \<and> mx_log s' = mx_log s @ [CycleSkipped]"
    by (auto simp: runCycle_def andThen_def logEvent_def heartbeatWrite_def fault_def)
qed

fun jobOf :: "maintenanceEvent \<Rightarrow> maintenanceJob option" where
  "jobOf (JobCompleted job x) = Some job"
| "jobOf (JobFailed job e) = Some job"
| "jobOf _ = None"

text \<open>A cycle of another process that starts when \<open>k\<close> of the jobs of the first one have ended.\<close>

definition interrupted :: "nat \<Rightarrow> 'a maintprog \<Rightarrow> (maintenanceJob \<times> batchResult dbprog) list \<Rightarrow> unit maintprog" where
  "interrupted k other jobs =
     andThen (forEach (take k jobs) runJob) (\<lambda>_.
     andThen (tryCatch (andThen other (\<lambda>_. ret ())) (\<lambda>_. ret ())) (\<lambda>_.
     forEach (drop k jobs) runJob))"

lemma afterJobs_append: "afterJobs (xs @ ys) d = afterJobs ys (afterJobs xs d)"
  by (induction xs d rule: afterJobs.induct) simp_all

lemma runExclusive_task:
  assumes "lf_connect f = None" "lf_lock f = None" "mx_lock s = None"
    and "task (s\<lparr>mx_lock := Some (c, 1)\<rparr>) = (Inr (), t)" and "mx_lock t = Some (c, 1)"
  shows "snd (runExclusive f c task s) = t\<lparr>mx_lock := None\<rparr>"
  using assms
  by (auto simp: runExclusive_def fault_def tryAdvisoryLock_def unlockClient_def advisoryUnlock_def releaseClient_def
      andThen_def tryCatch_def split: option.splits prod.splits)

lemma interrupted_run:
  assumes "mx_lock s = Some (c, 1)" and "c' \<noteq> c"
  obtains t where "interrupted k (runCycle sv f c' now hb) jobs s = (Inr (), t)" "mx_db t = afterJobs jobs (mx_db s)"
    "mx_lock t = Some (c, 1)"
proof -
  let ?s = "s\<lparr>mx_db := afterJobs (take k jobs) (mx_db s), mx_log := mx_log s @ jobEvents (take k jobs) (mx_db s)\<rparr>"
  obtain r u where other: "runCycle sv f c' now hb ?s = (r, u)" by (metis surj_pair)
  have "\<not> holdsLock c' ?s" using assms by (simp add: holdsLock_def)
  from runCycle_state(1,2) [OF this other] assms(1)
  have u: "mx_db u = afterJobs (take k jobs) (mx_db s)" "mx_lock u = Some (c, 1)" by simp_all
  have "tryCatch (andThen (runCycle sv f c' now hb) (\<lambda>_. ret ())) (\<lambda>_. ret ()) ?s = (Inr (), u)"
    using other by (cases r) (simp_all add: tryCatch_def andThen_def)
  then have "interrupted k (runCycle sv f c' now hb) jobs s = (Inr (),
      u\<lparr>mx_db := afterJobs (drop k jobs) (mx_db u), mx_log := mx_log u @ jobEvents (drop k jobs) (mx_db u)\<rparr>)"
    by (simp add: interrupted_def andThen_def runJobs_run)
  moreover have "afterJobs (drop k jobs) (mx_db u) = afterJobs jobs (mx_db s)"
    using afterJobs_append [of "take k jobs" "drop k jobs"] u(1) by simp
  ultimately show thesis using u(2) by (intro that [OF \<open>interrupted k _ jobs s = _\<close>]) simp_all
qed

text \<open>C8. The jobs run in one process at a time, and no job stops another: a process that finds the lock taken changes
  nothing in the database and reports that it skipped the cycle; one that gets it runs the four jobs in their order, with one time, each on
  what the one before left, whether it failed or not, and reports each of them. When the cycle of another session
  starts in between, after any number of the jobs, the database ends as it does without it. Whatever fails, the process holds
  the lock no longer when the cycle has ended, and another process keeps it.\<close>

theorem maintenance_exclusive:
  assumes "\<not> holdsLock c s" and "runCycle sv f c now hb s = (r, s')"
  shows "mx_lock s' = mx_lock s \<and>
    (mx_lock s \<noteq> None \<longrightarrow> mx_db s' = mx_db s \<and> (lf_connect f = None \<and> lf_lock f = None \<and> hb = None \<longrightarrow> r = Inr Skipped)) \<and>
    (lf_connect f = None \<and> lf_lock f = None \<and> mx_lock s = None \<longrightarrow>
       mx_db s' = afterJobs (maintenanceJobs sv now) (mx_db s) \<and>
       map jobOf (drop (length (mx_log s)) (mx_log s')) =
         [Some AccountDeletion, Some PushOutbox, Some PushReceipts, Some StagingCleanup] \<and>
       (\<forall>k sv2 f2 c2 now2 hb2. c2 \<noteq> c \<longrightarrow>
          mx_db (snd (runExclusive f c (interrupted k (runCycle sv2 f2 c2 now2 hb2) (maintenanceJobs sv now)) s)) = mx_db s'))"
proof -
  have "map jobOf (jobEvents jobs d) = map (\<lambda>j. Some (fst j)) jobs" for jobs d
    by (induction jobs d rule: jobEvents.induct) (simp_all split: sum.split)
  from this [of "maintenanceJobs sv now" "mx_db s"]
  have jobs: "map jobOf (jobEvents (maintenanceJobs sv now) (mx_db s)) =
      [Some AccountDeletion, Some PushOutbox, Some PushReceipts, Some StagingCleanup]"
    by (simp add: maintenanceJobs_def del: jobEvents.simps)
  have "mx_db (snd (runExclusive f c (interrupted k (runCycle sv2 f2 c2 now2 hb2) (maintenanceJobs sv now)) s)) =
      afterJobs (maintenanceJobs sv now) (mx_db s)"
    if "lf_connect f = None" "lf_lock f = None" "mx_lock s = None" "c2 \<noteq> c" for k sv2 f2 c2 now2 hb2
  proof -
    obtain t where "interrupted k (runCycle sv2 f2 c2 now2 hb2) (maintenanceJobs sv now) (s\<lparr>mx_lock := Some (c, 1)\<rparr>) = (Inr (), t)"
      "mx_db t = afterJobs (maintenanceJobs sv now) (mx_db s)" "mx_lock t = Some (c, 1)"
      by (rule interrupted_run [of "s\<lparr>mx_lock := Some (c, 1)\<rparr>" c c2]) (simp_all add: \<open>c2 \<noteq> c\<close>)
    with runExclusive_task [OF \<open>lf_connect f = None\<close> \<open>lf_lock f = None\<close> \<open>mx_lock s = None\<close>] show ?thesis by simp
  qed
  then show ?thesis
    using runCycle_state [OF assms] jobs by simp
qed

section \<open>When the loop ends\<close>

definition stopsIn :: "round \<Rightarrow> bool" where
  "stopsIn r \<longleftrightarrow> rd_abortedBefore r \<or> rd_abortedAfter r \<or> rd_sleepFault r \<noteq> None \<and> rd_abortedAsleep r"

fun executedRounds :: "round list \<Rightarrow> round list" where
  "executedRounds [] = []"
| "executedRounds (r # rs) = (if rd_abortedBefore r then [] else r # (if stopsIn r then [] else executedRounds rs))"

definition afterRound :: "maintenanceServices \<Rightarrow> maintenanceState \<Rightarrow> round \<Rightarrow> maintenanceState" where
  "afterRound sv s r = (case runCycle sv (rd_lockFaults r) (rd_session r) (rd_now r) (rd_heartbeatFault r) s of
     (Inl e, t) \<Rightarrow> t\<lparr>mx_log := mx_log t @ [CycleFailed e]\<rparr> | (Inr x, t) \<Rightarrow> t)"

lemma runRounds_step:
  "runRounds sv (r # rs) s =
     (if rd_abortedBefore r then (Inr (Some ()), s)
      else if rd_abortedAfter r then (Inr (Some ()), afterRound sv s r)
      else case rd_sleepFault r of None \<Rightarrow> runRounds sv rs (afterRound sv s r)
        | Some e \<Rightarrow> (if rd_abortedAsleep r then Inr (Some ()) else Inl e, afterRound sv s r))"
  by (simp add: afterRound_def andThen_def tryCatch_def logEvent_def split: option.split prod.split sum.split)

text \<open>C30. After the old heartbeat was removed the loop ends exactly in the first round in which the signal is seen, if a sleep is interrupted by the signal
  only: before that it runs one cycle a round, whatever the cycles' errors, and until then it keeps running.\<close>

theorem maintenance_run_stops:
  assumes "list_all (\<lambda>r. rd_sleepFault r \<noteq> None \<longrightarrow> rd_abortedAsleep r) rs"
  shows "maintenanceRun sv None rs s = (Inr (if list_ex stopsIn rs then Some () else None),
    foldl (afterRound sv) (s\<lparr>mx_heartbeat := False\<rparr>) (executedRounds rs))"
proof -
  have "runRounds sv rs t = (Inr (if list_ex stopsIn rs then Some () else None),
      foldl (afterRound sv) t (executedRounds rs))" for t
    using assms
  proof (induction rs arbitrary: t)
    case (Cons r rs)
    then show ?case
      by (auto simp: runRounds_step stopsIn_def simp del: runRounds.simps split: option.split)
  qed simp
  then show ?thesis
    by (simp add: maintenanceRun_def heartbeatReset_def fault_def)
qed

section \<open>The cycle as steps of the components\<close>

text \<open>What the jobs do to the uploads are steps of the upload machine: claims of the cleanup, their results, and
  deletions of an owner.\<close>

fun maintenanceStep :: "uploadStep \<Rightarrow> bool" where
  "maintenanceStep (ClaimCleanupStep now lease limit) \<longleftrightarrow> True"
| "maintenanceStep (CleanupResultStep i lease s f nextAt now) \<longleftrightarrow> True"
| "maintenanceStep (OwnerDeletedStep now userId) \<longleftrightarrow> True"
| "maintenanceStep _ \<longleftrightarrow> False"

definition uploadsBy :: "db \<Rightarrow> db \<Rightarrow> bool" where
  "uploadsBy d0 d \<longleftrightarrow> (\<exists>es. list_all maintenanceStep es \<and> profileUploads d = profileUploads (foldl stepUpload d0 es))"

lemma uploadsBy_refl: "uploadsBy d d"
  unfolding uploadsBy_def by (rule exI [of _ "[]"]) simp

lemma uploadsBy_cong: "profileUploads d = profileUploads d' \<Longrightarrow> uploadsBy d0 d = uploadsBy d0 d'"
  by (simp add: uploadsBy_def)

lemma uploadsBy_frame [simp]:
  "uploadsBy d0 (d\<lparr>notifications := x1\<rparr>) = uploadsBy d0 d" "uploadsBy d0 (d\<lparr>pushOutboxes := x2\<rparr>) = uploadsBy d0 d"
  "uploadsBy d0 (d\<lparr>pushTokens := x3\<rparr>) = uploadsBy d0 d" "uploadsBy d0 (d\<lparr>users := x4\<rparr>) = uploadsBy d0 d"
  by (rule uploadsBy_cong; simp)+

lemma maintenanceStep_local:
  assumes "maintenanceStep e" and "profileUploads d = profileUploads d'"
  shows "profileUploads (stepUpload d e) = profileUploads (stepUpload d' e)"
proof -
  have claim: "profileUploads (snd (claimCleanupBatch now lease limit x)) =
      snd (cleanups.batch now lease limit (profileUploads x))" for now lease limit x
    by (simp add: claimCleanupBatch_eq Let_def case_prod_beta cleanups.batch_empty)
  have result: "profileUploads (snd (applyCleanupResult i lease s f nextAt now x)) =
      (let P = \<lambda>u. pu_id u = pgUuid i \<and> pu_cleanupLeaseExpiresAt u = Some lease in
       if existsRow (\<lambda>u. P u \<and> \<not> finalDeletionState (cleanedUpload s f nextAt now u)) (profileUploads x)
       then profileUploads x else updateWhere P (cleanedUpload s f nextAt now) (profileUploads x))" for i lease s f nextAt now x
    by (simp add: applyCleanupResult_def Let_def snd_updateUploads(1))
  show ?thesis
  proof (cases e)
    case (CleanupResultStep i lease s f nextAt now)
    then show ?thesis
      by (simp only: stepUpload.simps result assms(2))
  qed (use assms in \<open>simp_all add: claim failUploads_def\<close>)
qed

lemma uploadsBy_step:
  assumes "uploadsBy d0 d" and "maintenanceStep e"
  shows "uploadsBy d0 (stepUpload d e)"
proof -
  from assms(1) obtain es where es: "list_all maintenanceStep es" "profileUploads d = profileUploads (foldl stepUpload d0 es)"
    by (auto simp: uploadsBy_def)
  have "profileUploads (stepUpload d e) = profileUploads (foldl stepUpload d0 (es @ [e]))"
    using maintenanceStep_local [OF assms(2) es(2)] by simp
  with es(1) assms(2) show ?thesis
    unfolding uploadsBy_def by (intro exI [of _ "es @ [e]"]) simp
qed

lemma claimCleanup_by: "preserves (uploadsBy d0) (claimCleanupBatch now lease limit)"
  by (rule preservesI) (use uploadsBy_step [of d0 _ "ClaimCleanupStep now lease limit"] in simp)

lemma applyCleanup_by: "preserves (uploadsBy d0) (applyCleanupResult i lease s f nextAt now)"
  by (rule preservesI) (use uploadsBy_step [of d0 _ "CleanupResultStep i lease s f nextAt now"] in simp)

lemma anonymize_by: "preserves (uploadsBy d0) (anonymizeDeletedAccount now job)"
proof (rule preservesI)
  fix d
  assume by0: "uploadsBy d0 d"
  have "profileUploads (anonymized now job d) = profileUploads (failUploads now (pgUuid (dj_userId job)) d)"
    by (simp add: anonymized_def deleteRooms_def deletePersonalRows_def deletePushTokens_def deleteNotifications_def Let_def)
  then have "uploadsBy d0 (anonymized now job d) = uploadsBy d0 (failUploads now (pgUuid (dj_userId job)) d)"
    by (rule uploadsBy_cong)
  then have "uploadsBy d0 (anonymized now job d)"
    using uploadsBy_step [OF by0, of "OwnerDeletedStep now (pgUuid (dj_userId job))"] by simp
  with by0 show "uploadsBy d0 (snd (anonymizeDeletedAccount now job d))"
    by (simp add: anonymizeDeletedAccount_eq)
qed

text \<open>What does not mention the accounts, a claim or a release of a deletion leaves alone.\<close>

lemma deletion_leases_frame:
  assumes "\<And>d t. I (d\<lparr>users := t\<rparr>) = I d"
  shows "preserves I (claimDueDeletionBatch now lease n)" and "preserves I (releaseDeletionLease now job)"
  unfolding releaseDeletionLease_def
  by (rule preservesI, simp add: claimDueDeletionBatch_eq Let_def assms) (rule preserves_modify, simp add: assms)

text \<open>The parts of the jobs, for any property of the database that has the rules of a component.\<close>

locale maintained =
  fixes I :: "db \<Rightarrow> bool"
  assumes deletes: "preserves I (anonymizeDeletedAccount now job)"
    and claims_deletions: "preserves I (claimDueDeletionBatch now lease n)"
    and releases: "preserves I (releaseDeletionLease now job)"
    and claims_sends: "preserves I (claimSendBatch now lease n)"
    and reports_sends: "preserves I (applySendResults now (sendResults sdk now jobs))"
    and claims_receipts: "preserves I (claimReceiptBatch now lease n)"
    and reports_receipts: "preserves I (applyReceiptResults now (receiptResults sdk' now jobs))"
    and claims_cleanups: "preserves I (claimCleanupBatch now lease n)"
    and reports_cleanups: "preserves I (applyCleanupResult i lease s f nextAt now)"
begin

lemma deletion_jobs: "preserves I (runDeletionJobs now jobs)"
  by (induction jobs) (simp_all only: runDeletionJobs.simps, intro preserves_intros deletes releases, intro preserves_intros deletes releases)

lemma deletion_batch: "preserves I (processDueAccountDeletionBatch now n)"
  unfolding processDueAccountDeletionBatch_def validateDeletionLimit_def
  by (intro preserves_intros deletion_jobs claims_deletions)

lemma send_batch: "preserves I (processPushOutboxBatch sdk enabled now n)"
  unfolding processPushOutboxBatch_def validateBatchLimit_def Let_def
  by (intro preserves_intros claims_sends reports_sends)

lemma receipt_batch: "preserves I (processPushReceiptBatch sdk' enabled now n)"
  unfolding processPushReceiptBatch_def validateBatchLimit_def Let_def
  by (intro preserves_intros claims_receipts reports_receipts)

lemma cleanup_jobs: "preserves I (settleCleanupJobs env now us)"
proof (induction us)
  case (Cons u us)
  have "preserves I (cleanupJob env now u)"
    unfolding cleanupJob_def Let_def by (intro preserves_intros reports_cleanups)
  with Cons show ?case
    unfolding settleCleanupJobs.simps by (intro preserves_intros)
qed (simp only: settleCleanupJobs.simps, rule preserves_ret)

lemma unwraps: "preserves I (unwrapOutcomes rs)"
proof (induction rs rule: unwrapOutcomes.induct)
  case (3 x rs)
  then show ?case unfolding unwrapOutcomes.simps by (intro preserves_intros)
qed (simp_all only: unwrapOutcomes.simps preserves_ret preserves_throw)

lemma cleanup_batch: "preserves I (cleanupExpiredStagingBatch env now n)"
  unfolding cleanupExpiredStagingBatch_def validateUploadBatchLimit_def
  by (intro preserves_intros claims_cleanups cleanup_jobs unwraps)

lemma jobs_keep: "(job, m) \<in> set (maintenanceJobs sv now) \<Longrightarrow> preserves I m"
  by (auto simp: maintenanceJobs_def deletion_batch send_batch receipt_batch
      intro!: preserves_andThen [OF cleanup_batch] preserves_ret)

lemma after_jobs: "I d \<Longrightarrow> I (afterJobs (maintenanceJobs sv now) d)"
proof -
  have "I (afterJobs jobs d)" if "\<forall>(job, m) \<in> set jobs. preserves I m" "I d" for jobs d
    using that by (induction jobs d rule: afterJobs.induct) (auto simp: preserves_def)
  then show "I d \<Longrightarrow> I (afterJobs (maintenanceJobs sv now) d)"
    using jobs_keep by blast
qed

text \<open>So the cycles of a run keep it, whatever fails.\<close>

lemma cycle_keeps: "preserves (\<lambda>s. I (mx_db s)) (runCycle sv f c now hb)"
proof -
  have jobs: "preserves (\<lambda>s. I (mx_db s)) (forEach (maintenanceJobs sv now) runJob)"
    by (rule preservesI) (simp add: runJobs_run after_jobs)
  show ?thesis
    unfolding runCycle_def runExclusive_def fault_def tryAdvisoryLock_def unlockClient_def advisoryUnlock_def
      releaseClient_def logEvent_def heartbeatWrite_def
    by (intro preserves_intros jobs preserves_modify) simp_all
qed

lemma rounds_keep: "preserves (\<lambda>s. I (mx_db s)) (runRounds sv rs)"
proof (induction rs)
  case (Cons r rs)
  then show ?case
    unfolding runRounds.simps
    by (intro preserves_intros cycle_keeps) (simp add: logEvent_def preserves_def)
qed (simp only: runRounds.simps, rule preserves_ret)

lemma application_keeps: "preserves (\<lambda>s. I (mx_db s)) (runMaintenanceApplication sv cf rf rs)"
  unfolding runMaintenanceApplication_def maintenanceRun_def heartbeatReset_def fault_def
  by (intro preserves_intros rounds_keep preserves_modify) (simp_all add: preserves_def split: sum.split)

end

lemma push_reports_by:
  "preserves (uploadsBy d0) (applySendResults now rs)" "preserves (uploadsBy d0) (applyReceiptResults now qs)"
proof -
  have drop: "profileUploads (invalidatePushToken i j now d) = profileUploads d" for i j now d
    by (simp add: invalidatePushToken_def cancelOpen_def deletePushTokens_def Let_def split: option.split)
  have "preserves (uploadsBy d0) (applySendResult now x)" for x
    unfolding applySendResult_def Let_def
    by (cases "sendResultValues x now") (auto intro!: preserves_intros preserves_modify simp: uploadsBy_cong [OF drop])
  then show "preserves (uploadsBy d0) (applySendResults now rs)"
    unfolding applySendResults_def by (intro preserves_transaction preserves_forEach)
  have "preserves (uploadsBy d0) (applyReceiptResult now x)" for x
    unfolding applyReceiptResult_def Let_def
    by (cases "receiptResultValues x now") (auto intro!: preserves_intros preserves_modify simp: uploadsBy_cong [OF drop])
  then show "preserves (uploadsBy d0) (applyReceiptResults now qs)"
    unfolding applyReceiptResults_def by (intro preserves_transaction preserves_forEach)
qed

lemma push_claims_by:
  "preserves (uploadsBy d0) (claimSendBatch now lease n)" "preserves (uploadsBy d0) (claimReceiptBatch now lease n)"
  unfolding claimSendBatch_def claimReceiptBatch_def
  by (intro preserves_intros preserves_modify; simp)+

interpretation byUploads: maintained "uploadsBy d0" for d0
  by unfold_locales (simp_all add: anonymize_by deletion_leases_frame push_claims_by push_reports_by claimCleanup_by applyCleanup_by)

lemma notificationInv_uploads [simp]: "notificationInv (d\<lparr>profileUploads := t\<rparr>) = notificationInv d"
  by (simp add: notificationInv_def notificationKeys_def pushTokenKeys_def outboxRowsOk_def outboxAddressed_def
      deliversToRecipient_def)

lemma cleanup_notifications:
  "preserves notificationInv (claimCleanupBatch now lease n)" "preserves notificationInv (applyCleanupResult i lease s f nextAt now)"
  unfolding claimCleanupBatch_def applyCleanupResult_def updateUploads_def Let_def
  by (intro preserves_intros preserves_modify; simp)+

interpretation pushKept: maintained notificationInv
  by unfold_locales (simp_all add: anonymizeDeletedAccount_push deletion_leases_frame claimSendBatch_inv claimReceiptBatch_inv
      applySendResults_inv applyReceiptResults_inv cleanup_notifications)

text \<open>C9. The maintenance process refines the components: whatever its rounds bring, its effect on the uploads is that of a
  sequence of steps of the upload machine, and of those only claims of the cleanup, results of the cleanup and deletions
  of an owner; and it keeps the invariants of the notifications and of the uploads.\<close>

theorem maintenance_refines:
  assumes "runMaintenanceApplication sv cf rf rs s = (r, s')"
  shows "(\<exists>es. list_all maintenanceStep es \<and>
      profileUploads (mx_db s') = profileUploads (foldl stepUpload (mx_db s) es)) \<and>
    (notificationInv (mx_db s) \<longrightarrow> notificationInv (mx_db s')) \<and> (uploadInv (mx_db s) \<longrightarrow> uploadInv (mx_db s'))"
proof -
  have by0: "uploadsBy (mx_db s) (mx_db s')"
    using preservesD [OF byUploads.application_keeps uploadsBy_refl assms] .
  then obtain es where "profileUploads (mx_db s') = profileUploads (foldl stepUpload (mx_db s) es)"
    by (auto simp: uploadsBy_def)
  then have "uploadInv (mx_db s')" if "uploadInv (mx_db s)"
    using uploads.run_inv [OF that, of es] by (simp add: uploadInv_def)
  with by0 preservesD [OF pushKept.application_keeps _ assms] show ?thesis
    by (simp add: uploadsBy_def)
qed

section \<open>Samples\<close>

definition sampleServices :: maintenanceServices where
  "sampleServices = \<lparr>ms_send = (\<lambda>_. Inl None), ms_receipts = (\<lambda>_. Inl None), ms_pushEnabled = True, ms_upload = sampleUploadEnv\<rparr>"

definition sampleMaintenance :: maintenanceState where
  "sampleMaintenance = \<lparr>mx_db = sampleAbandonedDb, mx_lock = None, mx_log = [], mx_heartbeat = True,
     mx_contextOpen = False\<rparr>"

definition noFaults :: lockFaults where
  "noFaults = \<lparr>lf_connect = None, lf_lock = None, lf_unlock = None\<rparr>"

definition sampleRound :: "bool \<Rightarrow> round" where
  "sampleRound stop = \<lparr>rd_session = 1, rd_now = 5, rd_lockFaults = noFaults, rd_heartbeatFault = Some (ErrorCode ''ENOSPC''),
     rd_sleepFault = None, rd_abortedBefore = False, rd_abortedAfter = stop, rd_abortedAsleep = False\<rparr>"

theorem maintenance_exclusive_witness:
  "\<exists>r s r' s'.
     runCycle sampleServices noFaults 1 5 None sampleMaintenance = (r, s) \<and> mx_lock s = None \<and>
     map jobOf (mx_log s) = [Some AccountDeletion, Some PushOutbox, Some PushReceipts, Some StagingCleanup] \<and>
     runCycle sampleServices noFaults 1 5 None (sampleMaintenance\<lparr>mx_lock := Some (2, 1)\<rparr>) = (r', s') \<and>
     mx_lock s' = Some (2, 1) \<and> mx_db s' = sampleAbandonedDb"
proof -
  obtain r s where run: "runCycle sampleServices noFaults 1 5 None sampleMaintenance = (r, s)" by (metis surj_pair)
  obtain r' s' where run': "runCycle sampleServices noFaults 1 5 None (sampleMaintenance\<lparr>mx_lock := Some (2, 1)\<rparr>) = (r', s')"
    by (metis surj_pair)
  have "\<not> holdsLock 1 sampleMaintenance" "\<not> holdsLock 1 (sampleMaintenance\<lparr>mx_lock := Some (2, 1)\<rparr>)"
    by (simp_all add: holdsLock_def sampleMaintenance_def)
  with maintenance_exclusive [OF _ run] maintenance_exclusive [OF _ run'] run run'
  show ?thesis by (simp add: sampleMaintenance_def noFaults_def)
qed

theorem maintenance_run_stops_witness:
  "fst (maintenanceRun sampleServices None [sampleRound False, sampleRound True, sampleRound False] sampleMaintenance) = Inr (Some ()) \<and>
   executedRounds [sampleRound False, sampleRound True, sampleRound False] = [sampleRound False, sampleRound True]"
  using maintenance_run_stops [of "[sampleRound False, sampleRound True, sampleRound False]" sampleServices sampleMaintenance]
  by (simp add: sampleRound_def stopsIn_def)

theorem maintenance_refines_witness:
  "\<exists>r s'. runMaintenanceApplication sampleServices None None [sampleRound False, sampleRound True] sampleMaintenance = (r, s') \<and>
     uploadInv (mx_db s')"
proof -
  obtain r s' where run: "runMaintenanceApplication sampleServices None None [sampleRound False, sampleRound True] sampleMaintenance = (r, s')"
    by (metis surj_pair)
  from maintenance_refines [OF run] sampleAbandonedDb_uploads run show ?thesis
    by (simp add: sampleMaintenance_def)
qed

end
