(* ===== verification/Environment.thy ===== *)
theory Environment
  imports Prelude
begin

text \<open>
  The checks at start-up (\<^verbatim>\<open>src/common/config\<close>): which configurations the server accepts and how it
  normalises them. A configuration maps keys to values; a missing key is \<^verbatim>\<open>undefined\<close>. The address test
  of \<^verbatim>\<open>node:net\<close> and the URL parser are parameters. \<^verbatim>\<open>Number\<close> of a string is modelled as far as a port
  needs it: the literal's exact value, rounded to a double.
\<close>

section \<open>Values\<close>

datatype envValue = EnvString jsstring | EnvBool bool | EnvNumber int | EnvFraction | EnvOther

type_synonym envConfig = "string \<Rightarrow> envValue option"

record urlFields =
  uf_protocol :: jsstring
  uf_username :: jsstring
  uf_password :: jsstring

record envRuntime =
  isIP :: "jsstring \<Rightarrow> nat"
  newURL :: "jsstring \<Rightarrow> urlFields option"

definition REQUIRED_PRODUCTION_KEYS :: "string list" where
  "REQUIRED_PRODUCTION_KEYS = [''POSTGRES_HOST'', ''POSTGRES_PORT'', ''POSTGRES_USERNAME'', ''POSTGRES_PASSWORD'',
     ''POSTGRES_DATABASE'', ''POSTGRES_SSL'', ''JWT_ACCESS_TOKEN_SECRET'', ''JWT_REFRESH_TOKEN_SECRET'',
     ''JWT_ACCESS_TOKEN_EXP'', ''JWT_REFRESH_TOKEN_EXP'', ''SIGNUP_TOKEN_SECRET'', ''KAKAO_SIGNUP_TOKEN_SECRET'',
     ''KAKAO_CLIENT_ID'', ''KAKAO_CALLBACK_URL'', ''PHONE_CODE_PEPPER'', ''SMS_PROVIDER_URL'',
     ''SMS_PROVIDER_AUTHORIZATION'', ''SMS_SENDER_ID'', ''R2_ACCOUNT_ID'', ''R2_ACCESS_KEY_ID'',
     ''R2_SECRET_ACCESS_KEY'', ''R2_BUCKET'', ''R2_PUBLIC_BASE_URL'', ''REVENUECAT_WEBHOOK_SECRET'',
     ''REVENUECAT_IOS_APP_ID'', ''REVENUECAT_ANDROID_APP_ID'', ''CLIENT_URL'', ''TRUST_PROXY'']"

definition PRODUCTION_SECRET_KEYS :: "string list" where
  "PRODUCTION_SECRET_KEYS = [''POSTGRES_PASSWORD'', ''JWT_ACCESS_TOKEN_SECRET'', ''JWT_REFRESH_TOKEN_SECRET'',
     ''SIGNUP_TOKEN_SECRET'', ''KAKAO_SIGNUP_TOKEN_SECRET'', ''PHONE_CODE_PEPPER'', ''SMS_PROVIDER_AUTHORIZATION'',
     ''R2_SECRET_ACCESS_KEY'', ''REVENUECAT_WEBHOOK_SECRET'']"

definition HTTPS_URL_KEYS :: "string list" where
  "HTTPS_URL_KEYS = [''KAKAO_CALLBACK_URL'', ''SMS_PROVIDER_URL'', ''R2_PUBLIC_BASE_URL'', ''CLIENT_URL'']"

definition PRODUCTION_IDENTIFIER_KEYS :: "string list" where
  "PRODUCTION_IDENTIFIER_KEYS = [''KAKAO_CLIENT_ID'', ''SMS_SENDER_ID'', ''REVENUECAT_IOS_APP_ID'',
     ''REVENUECAT_ANDROID_APP_ID'']"

definition TRUST_PROXY_NAMES :: "jsstring list" where
  "TRUST_PROXY_NAMES = [js ''loopback'', js ''linklocal'', js ''uniquelocal'']"

definition TOKEN_LIFETIME_MAX_SECONDS :: int where
  "TOKEN_LIFETIME_MAX_SECONDS = 365 * 24 * 60 * 60"

definition tokenLifetimeMultiplier :: "jsstring \<Rightarrow> int option" where
  "tokenLifetimeMultiplier unit =
     (if unit = [] then Some 1
      else if unit = js ''s'' then Some 1
      else if unit = js ''m'' then Some 60
      else if unit = js ''h'' then Some (60 * 60)
      else if unit = js ''d'' then Some (24 * 60 * 60)
      else None)"

definition valueFor :: "envConfig \<Rightarrow> string \<Rightarrow> jsstring" where
  "valueFor config key = (case config key of Some (EnvString s) \<Rightarrow> trim s | _ \<Rightarrow> [])"

definition isHttpsUrl :: "envRuntime \<Rightarrow> jsstring \<Rightarrow> bool" where
  "isHttpsUrl rt v =
     (case newURL rt v of None \<Rightarrow> False
      | Some u \<Rightarrow> uf_protocol u = js ''https:'' \<and> uf_username u = [] \<and> uf_password u = [])"

section \<open>Numbers\<close>

definition digitsValue :: "nat \<Rightarrow> (nat \<Rightarrow> nat) \<Rightarrow> jsstring \<Rightarrow> nat" where
  "digitsValue base digit s = foldl (\<lambda>n c. n * base + digit c) 0 s"

definition decimalDigit :: "nat \<Rightarrow> nat" where
  "decimalDigit c = c - 48"

definition hexDigit :: "nat \<Rightarrow> nat" where
  "hexDigit c = (if isDigit c then c - 48 else asciiLower c - 87)"

text \<open>An exponent, if there is one: the rest must be empty after it.\<close>

definition exponentPart :: "jsstring \<Rightarrow> int option" where
  "exponentPart s =
     (case s of
        [] \<Rightarrow> Some 0
      | e # r \<Rightarrow>
          let neg = (take 1 r = [45]);
              ds = (if take 1 r = [43] \<or> take 1 r = [45] then drop 1 r else r)
          in if (e = 101 \<or> e = 69) \<and> ds \<noteq> [] \<and> list_all isDigit ds
             then Some (if neg then - int (digitsValue 10 decimalDigit ds) else int (digitsValue 10 decimalDigit ds))
             else None)"

text \<open>An unsigned decimal literal as \<open>m * 10 ^ e\<close>.\<close>

definition decimalLiteral :: "jsstring \<Rightarrow> (nat \<times> int) option" where
  "decimalLiteral s =
     (let whole = takeWhile isDigit s;
          rest = dropWhile isDigit s;
          point = (take 1 rest = [46]);
          fraction = (if point then takeWhile isDigit (drop 1 rest) else []);
          tail = (if point then dropWhile isDigit (drop 1 rest) else rest)
      in if whole = [] \<and> fraction = [] then None
         else map_option (\<lambda>e. (digitsValue 10 decimalDigit (whole @ fraction), e - int (length fraction))) (exponentPart tail))"

text \<open>The integer from 1 to 65535 to which the double nearest to \<open>m / 10 ^ k\<close> is equal, if there is one. Around an integer
  \<open>n\<close> with \<open>2 ^ p \<le> n < 2 ^ (p + 1)\<close> the doubles are \<open>2 ^ (p - 52)\<close> apart, and half as far below a power of two; a tie goes
  to the integer, whose last bit is even.\<close>

definition binaryExponent :: "nat \<Rightarrow> nat" where
  "binaryExponent n = length (filter (\<lambda>j. 2 ^ j \<le> n) [1..<17])"

definition nearestPort :: "nat \<Rightarrow> nat \<Rightarrow> int option" where
  "nearestPort m k =
     (let t = 10 ^ k;
          n = (2 * m + t) div (2 * t);
          p = binaryExponent n;
          near = (if n * t \<le> m then (m - n * t) * 2 ^ (53 - p) \<le> t
            else (n * t - m) * 2 ^ ((if n = 2 ^ p then 54 else 53) - p) \<le> t)
      in if 1 \<le> n \<and> n \<le> 65535 \<and> near then Some (int n) else None)"

definition asPort :: "nat \<Rightarrow> int option" where
  "asPort n = (if 1 \<le> n \<and> n \<le> 65535 then Some (int n) else None)"

text \<open>\<^verbatim>\<open>Number\<close> of a string, where the result is a valid port.\<close>

definition portFromText :: "jsstring \<Rightarrow> int option" where
  "portFromText s =
     (let prefix = map asciiLower (take 2 s);
          body = drop 2 s in
      if prefix = js ''0x'' \<and> body \<noteq> [] \<and> list_all isHexDigit body then asPort (digitsValue 16 hexDigit body)
      else if prefix = js ''0o'' \<and> body \<noteq> [] \<and> list_all (\<lambda>c. 48 \<le> c \<and> c \<le> 55) body
        then asPort (digitsValue 8 decimalDigit body)
      else if prefix = js ''0b'' \<and> body \<noteq> [] \<and> list_all (\<lambda>c. c = 48 \<or> c = 49) body
        then asPort (digitsValue 2 decimalDigit body)
      else
        (case decimalLiteral (if take 1 s = [43] then drop 1 s else s) of
           None \<Rightarrow> None
         | Some (m, e) \<Rightarrow> if 0 \<le> e then asPort (m * 10 ^ nat e) else nearestPort m (nat (- e))))"

definition parsePort :: "envValue option \<Rightarrow> int option" where
  "parsePort v =
     (case v of
        Some (EnvNumber n) \<Rightarrow> if 1 \<le> n \<and> n \<le> 65535 then Some n else None
      | Some (EnvString s) \<Rightarrow> portFromText (trim s)
      | _ \<Rightarrow> None)"

definition parseTokenLifetime :: "envValue option \<Rightarrow> int option" where
  "parseTokenLifetime v =
     (case v of
        Some (EnvNumber n) \<Rightarrow> if 1 \<le> n \<and> n \<le> TOKEN_LIFETIME_MAX_SECONDS then Some n else None
      | Some (EnvString s) \<Rightarrow>
          let ds = takeWhile isDigit (trim s); unit = dropWhile isDigit (trim s) in
          if ds = [] then None
          else
            (case tokenLifetimeMultiplier unit of
               None \<Rightarrow> None
             | Some k \<Rightarrow>
                 let seconds = int (digitsValue 10 decimalDigit ds) * k in
                 if 1 \<le> seconds \<and> seconds \<le> TOKEN_LIFETIME_MAX_SECONDS then Some seconds else None)
      | _ \<Rightarrow> None)"

section \<open>Proxies and encryption\<close>

datatype trustProxy = TrustNone | TrustEntries "jsstring list"

definition lastSlash :: "jsstring \<Rightarrow> nat option" where
  "lastSlash s =
     (case filter (\<lambda>i. s ! i = 47) [0..<length s] of [] \<Rightarrow> None | is \<Rightarrow> Some (last is))"

definition trustedEntry :: "envRuntime \<Rightarrow> jsstring \<Rightarrow> bool" where
  "trustedEntry rt entry =
     (if entry = [] then False
      else if List.member TRUST_PROXY_NAMES entry \<or> isIP rt entry \<noteq> 0 then True
      else
        (case lastSlash entry of
           None \<Rightarrow> False
         | Some separator \<Rightarrow>
             let ds = drop (separator + 1) entry;
                 family = isIP rt (take separator entry);
                 prefix = digitsValue 10 decimalDigit ds in
             separator \<noteq> 0 \<and> ds \<noteq> [] \<and> list_all isDigit ds \<and>
             0 < prefix \<and> prefix \<le> (if family = 4 then 32 else if family = 6 then 128 else 0)))"

definition parseTrustedProxy :: "envRuntime \<Rightarrow> envValue option \<Rightarrow> trustProxy option" where
  "parseTrustedProxy rt v =
     (case v of
        Some (EnvString s) \<Rightarrow>
          let normalized = toLowerCase (trim s) in
          if normalized = js ''false'' then Some TrustNone
          else if normalized = [] then None
          else
            let entries = map trim (splitOn 44 normalized) in
            if list_all (trustedEntry rt) entries then Some (TrustEntries entries) else None
      | _ \<Rightarrow> None)"

text \<open>\<^verbatim>\<open>replaceAll("\\\\n", "\\n")\<close>: a backslash and an n become a line feed.\<close>

fun unescapeNewlines :: "jsstring \<Rightarrow> jsstring" where
  "unescapeNewlines (c # d # s) =
     (if c = 92 \<and> d = 110 then 10 # unescapeNewlines s else c # unescapeNewlines (d # s))"
| "unescapeNewlines s = s"

record sslOptions =
  ssl_rejectUnauthorized :: bool
  ssl_ca :: "jsstring option"

definition createPostgresSslOptions ::
  "envValue option \<Rightarrow> jsstring option \<Rightarrow> app_error + sslOptions option" where
  "createPostgresSslOptions enabled ca =
     (if List.member [None, Some (EnvBool False), Some (EnvString (js ''false''))] enabled then Inr None
      else if \<not> List.member [Some (EnvBool True), Some (EnvString (js ''true''))] enabled
        then Inl (ErrorCode ''POSTGRES_SSL_INVALID'')
      else
        let normalizedCa = map_option (\<lambda>s. unescapeNewlines (trim s)) ca in
        Inr (Some \<lparr>ssl_rejectUnauthorized = True,
          ssl_ca = (case normalizedCa of Some (c # s) \<Rightarrow> Some (c # s) | _ \<Rightarrow> None)\<rparr>))"

section \<open>The whole configuration\<close>

text \<open>\<^verbatim>\<open>/^(?:dev|test)(?:-|$)/i\<close>\<close>

definition devValue :: "jsstring \<Rightarrow> bool" where
  "devValue v \<longleftrightarrow>
     (let s = map asciiLower v in
      take 3 s = js ''dev'' \<and> (length s = 3 \<or> s ! 3 = 45) \<or> take 4 s = js ''test'' \<and> (length s = 4 \<or> s ! 4 = 45))"

definition weakSecret :: "jsstring \<Rightarrow> bool" where
  "weakSecret v \<longleftrightarrow> length v < 16 \<or> devValue v \<or> v = js ''chattea-dev''"

definition given :: "envConfig \<Rightarrow> string \<Rightarrow> bool" where
  "given config key \<longleftrightarrow> config key \<noteq> None"

definition sslInvalid :: "envConfig \<Rightarrow> bool" where
  "sslInvalid config =
     (case config ''POSTGRES_SSL'' of
        None \<Rightarrow> False
      | Some v \<Rightarrow>
          (case v of EnvBool b \<Rightarrow> False | EnvString s \<Rightarrow> False | _ \<Rightarrow> True) \<or>
          (case createPostgresSslOptions (Some v) (Some (valueFor config ''POSTGRES_SSL_CA'')) of
             Inl e \<Rightarrow> True | Inr x \<Rightarrow> False))"

text \<open>\<^verbatim>\<open>EXPO_PUSH_ENABLED\<close>: a missing value is false.\<close>

definition expoPush :: "envConfig \<Rightarrow> bool option" where
  "expoPush config =
     (case config ''EXPO_PUSH_ENABLED'' of
        None \<Rightarrow> Some False
      | Some (EnvBool b) \<Rightarrow> Some b
      | Some (EnvString s) \<Rightarrow> if s = js ''true'' then Some True else if s = js ''false'' then Some False else None
      | _ \<Rightarrow> None)"

text \<open>The first part finds the malformed values, in every environment.\<close>

definition malformed :: "envRuntime \<Rightarrow> envConfig \<Rightarrow> string list" where
  "malformed rt config =
     (if given config ''POSTGRES_PORT'' \<and> parsePort (config ''POSTGRES_PORT'') = None then [''POSTGRES_PORT''] else []) @
     (if given config ''JWT_ACCESS_TOKEN_EXP'' \<and> parseTokenLifetime (config ''JWT_ACCESS_TOKEN_EXP'') = None
      then [''JWT_ACCESS_TOKEN_EXP''] else []) @
     (if given config ''JWT_REFRESH_TOKEN_EXP'' \<and> parseTokenLifetime (config ''JWT_REFRESH_TOKEN_EXP'') = None
      then [''JWT_REFRESH_TOKEN_EXP''] else []) @
     (if sslInvalid config then [''POSTGRES_SSL''] else []) @
     (if expoPush config = None then [''EXPO_PUSH_ENABLED''] else []) @
     (if given config ''TRUST_PROXY'' \<and> parseTrustedProxy rt (config ''TRUST_PROXY'') = None then [''TRUST_PROXY''] else [])"

definition putGiven :: "envConfig \<Rightarrow> string \<Rightarrow> envValue option \<Rightarrow> envConfig \<Rightarrow> envConfig" where
  "putGiven config key v normalized =
     (case v of Some x \<Rightarrow> if given config key then normalized(key := Some x) else normalized | None \<Rightarrow> normalized)"

definition normalizedSsl :: "envConfig \<Rightarrow> envValue option" where
  "normalizedSsl config =
     (if sslInvalid config then None
      else Some (EnvBool (List.member [Some (EnvBool True), Some (EnvString (js ''true''))] (config ''POSTGRES_SSL''))))"

definition normalizedProxy :: "envRuntime \<Rightarrow> envConfig \<Rightarrow> envValue option" where
  "normalizedProxy rt config =
     map_option (\<lambda>t. EnvString (case t of TrustNone \<Rightarrow> js ''false'' | TrustEntries es \<Rightarrow> joinWith 44 es))
       (parseTrustedProxy rt (config ''TRUST_PROXY''))"

definition normalizedConfig :: "envRuntime \<Rightarrow> envConfig \<Rightarrow> envConfig" where
  "normalizedConfig rt config =
     (let c1 = putGiven config ''POSTGRES_PORT'' (map_option EnvNumber (parsePort (config ''POSTGRES_PORT''))) config;
          c2 = putGiven config ''JWT_ACCESS_TOKEN_EXP''
            (map_option EnvNumber (parseTokenLifetime (config ''JWT_ACCESS_TOKEN_EXP''))) c1;
          c3 = putGiven config ''JWT_REFRESH_TOKEN_EXP''
            (map_option EnvNumber (parseTokenLifetime (config ''JWT_REFRESH_TOKEN_EXP''))) c2;
          c4 = putGiven config ''POSTGRES_SSL'' (normalizedSsl config) c3;
          c5 = (case expoPush config of None \<Rightarrow> c4 | Some b \<Rightarrow> c4(''EXPO_PUSH_ENABLED'' := Some (EnvBool b)))
      in putGiven config ''TRUST_PROXY'' (normalizedProxy rt config) c5)"

text \<open>The second part is for production only.\<close>

definition unsafeForProduction :: "envRuntime \<Rightarrow> envConfig \<Rightarrow> string list" where
  "unsafeForProduction rt config =
     filter (\<lambda>key. valueFor config key = []) REQUIRED_PRODUCTION_KEYS @
     filter (\<lambda>key. weakSecret (valueFor config key)) PRODUCTION_SECRET_KEYS @
     filter (\<lambda>key. \<not> isHttpsUrl rt (valueFor config key)) HTTPS_URL_KEYS @
     filter (\<lambda>key. devValue (valueFor config key)) PRODUCTION_IDENTIFIER_KEYS @
     (if valueFor config ''REVENUECAT_IOS_APP_ID'' = valueFor config ''REVENUECAT_ANDROID_APP_ID''
      then [''REVENUECAT_IOS_APP_ID'', ''REVENUECAT_ANDROID_APP_ID''] else []) @
     (if valueFor config ''JWT_ACCESS_TOKEN_SECRET'' = valueFor config ''JWT_REFRESH_TOKEN_SECRET''
      then [''JWT_ACCESS_TOKEN_SECRET'', ''JWT_REFRESH_TOKEN_SECRET''] else []) @
     (if parseTrustedProxy rt (config ''TRUST_PROXY'') = None then [''TRUST_PROXY''] else []) @
     (if normalizedConfig rt config ''POSTGRES_SSL'' = Some (EnvBool False) \<and>
         valueFor config ''POSTGRES_HOST'' \<noteq> js ''postgres'' then [''POSTGRES_SSL''] else [])"

datatype envError = ConfigInvalid "string list" | ProductionConfigInvalid "string list"

definition sortedKeys :: "string list \<Rightarrow> string list" where
  "sortedKeys ks = sort_key js (remdups ks)"

definition validateEnvironment :: "envRuntime \<Rightarrow> envConfig \<Rightarrow> envError + envConfig" where
  "validateEnvironment rt config =
     (let invalid = malformed rt config in
      if config ''NODE_ENV'' \<noteq> Some (EnvString (js ''production'')) then
        (if invalid \<noteq> [] then Inl (ConfigInvalid (sortedKeys invalid)) else Inr (normalizedConfig rt config))
      else
        let allInvalid = invalid @ unsafeForProduction rt config in
        if allInvalid \<noteq> [] then Inl (ProductionConfigInvalid (sortedKeys allInvalid))
        else Inr (normalizedConfig rt config))"

section \<open>What an accepted configuration guarantees\<close>

lemma nearestPort_range: "nearestPort m k = Some n \<Longrightarrow> 1 \<le> n \<and> n \<le> 65535"
  by (auto simp: nearestPort_def Let_def split: if_splits)

lemma portFromText_range: "portFromText s = Some n \<Longrightarrow> 1 \<le> n \<and> n \<le> 65535"
proof -
  have either: "P" if "(if b then x else y) = Some i" "x = Some i \<Longrightarrow> P" "y = Some i \<Longrightarrow> P" for P b and i :: int and x y
    using that by (cases b) simp_all
  have port: "1 \<le> i \<and> i \<le> 65535" if "asPort j = Some i" for i j
    using that by (simp add: asPort_def split: if_splits)
  assume "portFromText s = Some n"
  then show ?thesis
    unfolding portFromText_def Let_def
    by (elim either) (auto elim!: either dest: port nearestPort_range split: option.split_asm prod.split_asm)
qed

lemma parsePort_range: "parsePort v = Some n \<Longrightarrow> 1 \<le> n \<and> n \<le> 65535"
  by (auto simp: parsePort_def dest: portFromText_range split: option.splits envValue.splits if_splits)

lemma parseTokenLifetime_range:
  "parseTokenLifetime v = Some n \<Longrightarrow> 1 \<le> n \<and> n \<le> TOKEN_LIFETIME_MAX_SECONDS"
  by (auto simp: parseTokenLifetime_def Let_def split: option.splits envValue.splits if_splits)

lemma splitOn_nonempty: "splitOn c s \<noteq> []"
  by (cases s) (auto split: list.splits)

text \<open>A host without a prefix, or an address with a prefix inside its family.\<close>

lemma parseTrustedProxy_entries:
  "parseTrustedProxy rt v = Some (TrustEntries es) \<Longrightarrow> es \<noteq> [] \<and> (\<forall>e \<in> set es. trustedEntry rt e)"
  by (auto simp: parseTrustedProxy_def Let_def list_all_iff splitOn_nonempty split: option.splits envValue.splits if_splits)

text \<open>An accepted configuration passed both parts.\<close>

lemma validateEnvironment_accepts:
  assumes "validateEnvironment rt config = Inr normalized"
  shows "malformed rt config = []" and "normalized = normalizedConfig rt config"
    and "config ''NODE_ENV'' = Some (EnvString (js ''production'')) \<Longrightarrow> unsafeForProduction rt config = []"
  using assms by (auto simp: validateEnvironment_def Let_def split: if_splits)

lemma malformed_none:
  assumes "malformed rt config = []"
  shows "config ''POSTGRES_PORT'' \<noteq> None \<Longrightarrow> parsePort (config ''POSTGRES_PORT'') \<noteq> None"
    and "config ''JWT_ACCESS_TOKEN_EXP'' \<noteq> None \<Longrightarrow> parseTokenLifetime (config ''JWT_ACCESS_TOKEN_EXP'') \<noteq> None"
    and "config ''JWT_REFRESH_TOKEN_EXP'' \<noteq> None \<Longrightarrow> parseTokenLifetime (config ''JWT_REFRESH_TOKEN_EXP'') \<noteq> None"
    and "\<not> sslInvalid config" and "expoPush config \<noteq> None"
    and "config ''TRUST_PROXY'' \<noteq> None \<Longrightarrow> parseTrustedProxy rt (config ''TRUST_PROXY'') \<noteq> None"
  using assms by (auto simp: malformed_def given_def split: if_splits)

text \<open>The normalised configuration, key by key.\<close>

lemma putGiven_at: "putGiven config key v c k = (if k = key \<and> config key \<noteq> None \<and> v \<noteq> None then v else c k)"
  by (cases v) (auto simp: putGiven_def given_def)

lemma normalizedConfig_at:
  shows "normalizedConfig rt config ''POSTGRES_PORT'' =
      (if parsePort (config ''POSTGRES_PORT'') = None then config ''POSTGRES_PORT''
       else map_option EnvNumber (parsePort (config ''POSTGRES_PORT'')))"
    and "normalizedConfig rt config ''JWT_ACCESS_TOKEN_EXP'' =
      (if parseTokenLifetime (config ''JWT_ACCESS_TOKEN_EXP'') = None then config ''JWT_ACCESS_TOKEN_EXP''
       else map_option EnvNumber (parseTokenLifetime (config ''JWT_ACCESS_TOKEN_EXP'')))"
    and "normalizedConfig rt config ''JWT_REFRESH_TOKEN_EXP'' =
      (if parseTokenLifetime (config ''JWT_REFRESH_TOKEN_EXP'') = None then config ''JWT_REFRESH_TOKEN_EXP''
       else map_option EnvNumber (parseTokenLifetime (config ''JWT_REFRESH_TOKEN_EXP'')))"
    and "normalizedConfig rt config ''POSTGRES_SSL'' =
      (if config ''POSTGRES_SSL'' = None \<or> sslInvalid config then config ''POSTGRES_SSL'' else normalizedSsl config)"
    and "normalizedConfig rt config ''EXPO_PUSH_ENABLED'' =
      (case expoPush config of None \<Rightarrow> config ''EXPO_PUSH_ENABLED'' | Some b \<Rightarrow> Some (EnvBool b))"
    and "normalizedConfig rt config ''TRUST_PROXY'' =
      (if normalizedProxy rt config = None then config ''TRUST_PROXY'' else normalizedProxy rt config)"
    and "key \<notin> {''POSTGRES_PORT'', ''JWT_ACCESS_TOKEN_EXP'', ''JWT_REFRESH_TOKEN_EXP'', ''POSTGRES_SSL'', ''EXPO_PUSH_ENABLED'',
        ''TRUST_PROXY''} \<Longrightarrow> normalizedConfig rt config key = config key"
  by (simp_all add: normalizedConfig_def Let_def putGiven_at normalizedSsl_def normalizedProxy_def parsePort_def
      parseTokenLifetime_def parseTrustedProxy_def split: option.split)

section \<open>The stored text of the trusted proxies\<close>

definition lowered :: "jsstring \<Rightarrow> bool" where
  "lowered s \<longleftrightarrow> (\<forall>c \<in> set s. lowerUnit c = [c])"

definition trimmed :: "jsstring \<Rightarrow> bool" where
  "trimmed s \<longleftrightarrow> s = [] \<or> \<not> isWhiteSpace (hd s) \<and> \<not> isWhiteSpace (last s)"

lemma lowered_toLowerCase: "lowered (toLowerCase s)"
  by (auto simp: lowered_def toLowerCase_def lowerUnit_def split: if_splits)

lemma toLowerCase_lowered: "lowered s \<Longrightarrow> toLowerCase s = s"
  by (induction s) (simp_all add: lowered_def toLowerCase_def)

lemma trim_trimmed: "trimmed s \<Longrightarrow> trim s = s"
proof (cases "s = []")
  case False
  assume "trimmed s"
  then have "dropWhile isWhiteSpace s = s" "dropWhile isWhiteSpace (rev s) = rev s"
    using False by (simp_all add: trimmed_def dropWhile_eq_self_iff hd_rev)
  then show ?thesis by (simp add: trim_def)
qed (simp add: trim_def)

lemma trimmed_trim: "trimmed (trim s)"
proof -
  have ends: "\<not> P (hd (dropWhile P xs))" if "dropWhile P xs \<noteq> []" for P and xs :: jsstring
    using that hd_dropWhile by blast
  let ?front = "dropWhile isWhiteSpace s"
  let ?cut = "dropWhile isWhiteSpace (rev ?front)"
  show ?thesis
  proof (cases "?cut = []")
    case False
    then have front: "?front \<noteq> []" by (metis dropWhile.simps(1) rev.simps(1))
    moreover have "last ?cut = last (rev ?front)"
    proof -
      have "\<exists>x \<in> set (rev ?front). \<not> isWhiteSpace x" using False dropWhile_eq_Nil_conv by metis
      then show ?thesis using dropWhile_last by metis
    qed
    ultimately have "\<not> isWhiteSpace (last ?cut)" using ends by (simp add: last_rev)
    then show ?thesis using ends [OF False] by (simp add: trimmed_def trim_def hd_rev last_rev)
  qed (simp add: trimmed_def trim_def)
qed

lemma set_trim: "set (trim s) \<subseteq> set s"
  by (auto simp: trim_def dest!: set_dropWhileD)

lemma trimmed_toLowerCase: "trimmed s \<Longrightarrow> trimmed (toLowerCase s)"
proof (cases s rule: rev_cases)
  case (snoc front x)
  have unit: "lowerUnit c \<noteq> [] \<and> (\<not> isWhiteSpace c \<longrightarrow> \<not> isWhiteSpace (hd (lowerUnit c)) \<and> \<not> isWhiteSpace (last (lowerUnit c)))" for c
    by (auto simp: lowerUnit_def isWhiteSpace_def)
  assume "trimmed s"
  then have "\<not> isWhiteSpace (hd s)" "\<not> isWhiteSpace (last s)" using snoc by (auto simp: trimmed_def)
  moreover have "last (toLowerCase s) = last (lowerUnit (last s))"
    using unit by (simp add: snoc toLowerCase_def)
  moreover have "hd (toLowerCase s) = hd (lowerUnit (hd s))"
  proof -
    obtain c r where s: "s = c # r" using snoc by (metis list.exhaust snoc_eq_iff_butlast)
    show ?thesis using unit [of c] by (simp add: s toLowerCase_def)
  qed
  ultimately show ?thesis using unit by (auto simp: trimmed_def)
qed (simp add: trimmed_def toLowerCase_def)

lemma splitOn_without: "c \<notin> set s \<Longrightarrow> splitOn c s = [s]"
  by (induction s) auto

lemma splitOn_parts: "p \<in> set (splitOn c s) \<Longrightarrow> c \<notin> set p \<and> set p \<subseteq> set s"
  by (induction s arbitrary: p) (fastforce split: if_splits list.splits)+

lemma splitOn_single: "splitOn c s = [p] \<Longrightarrow> s = p"
  by (induction s arbitrary: p) (auto simp: splitOn_nonempty split: if_splits list.splits)

lemma splitOn_append: "c \<notin> set p \<Longrightarrow> splitOn c (p @ c # s) = p # splitOn c s"
  by (induction p) auto

lemma splitOn_joinWith:
  assumes "es \<noteq> []" and "\<forall>e \<in> set es. c \<notin> set e"
  shows "splitOn c (joinWith c es) = es"
  using assms by (induction c es rule: joinWith.induct) (simp_all add: splitOn_without splitOn_append)

lemma set_joinWith: "set (joinWith c es) \<subseteq> insert c (\<Union>e \<in> set es. set e)"
  by (induction c es rule: joinWith.induct) auto

lemma joinWith_ends:
  assumes "es \<noteq> []" and "\<forall>e \<in> set es. e \<noteq> [] \<and> trimmed e"
  shows "joinWith 44 es \<noteq> [] \<and> trimmed (joinWith 44 es)"
  using assms
  by (induction "44 :: nat" es rule: joinWith.induct) (auto simp: trimmed_def)

lemma parseTrustedProxy_stored:
  assumes "parseTrustedProxy rt v = Some (TrustEntries es)"
  shows "parseTrustedProxy rt (Some (EnvString (joinWith 44 es))) = Some (TrustEntries es)"
proof -
  obtain s where v: "v = Some (EnvString s)"
    using assms by (auto simp: parseTrustedProxy_def split: option.splits envValue.splits)
  let ?n = "toLowerCase (trim s)"
  have n: "?n \<noteq> js ''false''" "?n \<noteq> []" and es: "es = map trim (splitOn 44 ?n)" and ok: "list_all (trustedEntry rt) es"
    using assms unfolding v by (auto simp: parseTrustedProxy_def Let_def split: if_splits)
  have entry: "e \<noteq> [] \<and> trimmed e \<and> lowered e \<and> 44 \<notin> set e" if e: "e \<in> set es" for e
  proof -
    obtain p where p: "p \<in> set (splitOn 44 ?n)" "e = trim p" using e unfolding es by auto
    moreover have "e \<noteq> []" using e ok by (auto simp: list_all_iff trustedEntry_def)
    moreover have "set e \<subseteq> set ?n" "44 \<notin> set e" using p splitOn_parts set_trim by blast+
    ultimately show ?thesis
      using lowered_toLowerCase [of "trim s"] trimmed_trim by (auto simp: lowered_def)
  qed
  have nonempty: "es \<noteq> []" using es splitOn_nonempty by simp
  have split: "splitOn 44 (joinWith 44 es) = es" using nonempty entry by (simp add: splitOn_joinWith)
  have j: "joinWith 44 es \<noteq> []" "trimmed (joinWith 44 es)" using nonempty entry joinWith_ends by blast+
  have "lowered (joinWith 44 es)"
  proof (unfold lowered_def, rule ballI)
    fix c
    assume "c \<in> set (joinWith 44 es)"
    then have "c = 44 \<or> (\<exists>e \<in> set es. c \<in> set e)" using set_joinWith by blast
    then show "lowerUnit c = [c]" using entry by (auto simp: lowered_def lowerUnit_def [of 44])
  qed
  then have norm: "toLowerCase (trim (joinWith 44 es)) = joinWith 44 es"
    using j by (simp add: trim_trimmed toLowerCase_lowered)
  have "joinWith 44 es \<noteq> js ''false''"
  proof
    assume false: "joinWith 44 es = js ''false''"
    then have "es = [js ''false'']" using split by (simp add: splitOn_without js_def)
    then obtain p where p: "splitOn 44 ?n = [p]" "trim p = js ''false''" using es by (auto simp: map_eq_Cons_conv)
    then have "?n = p" using splitOn_single by blast
    then have "trim p = p" using trimmed_toLowerCase trimmed_trim trim_trimmed by metis
    with n p \<open>?n = p\<close> show False by simp
  qed
  moreover have "map trim es = es" using entry by (auto intro!: map_idI trim_trimmed)
  ultimately show ?thesis using ok j(1) by (simp add: parseTrustedProxy_def norm split)
qed

section \<open>The two guarantees\<close>

definition numberWithin :: "int \<Rightarrow> envValue option \<Rightarrow> bool" where
  "numberWithin most v \<longleftrightarrow> (\<exists>n. v = Some (EnvNumber n) \<and> 1 \<le> n \<and> n \<le> most)"

lemma createPostgresSslOptions_bool: "isl (createPostgresSslOptions (Some (EnvBool b)) ca) = False"
  by (cases b) (simp_all add: createPostgresSslOptions_def)

lemma expoPush_bool: "expoPush config = Some b \<Longrightarrow> normalizedConfig rt config ''EXPO_PUSH_ENABLED'' = Some (EnvBool b)"
  by (simp add: normalizedConfig_at)

lemma normalized_numbers:
  assumes "malformed rt config = []"
  shows "config ''POSTGRES_PORT'' \<noteq> None \<Longrightarrow> numberWithin 65535 (normalizedConfig rt config ''POSTGRES_PORT'')"
    and "config ''JWT_ACCESS_TOKEN_EXP'' \<noteq> None \<Longrightarrow>
      numberWithin TOKEN_LIFETIME_MAX_SECONDS (normalizedConfig rt config ''JWT_ACCESS_TOKEN_EXP'')"
    and "config ''JWT_REFRESH_TOKEN_EXP'' \<noteq> None \<Longrightarrow>
      numberWithin TOKEN_LIFETIME_MAX_SECONDS (normalizedConfig rt config ''JWT_REFRESH_TOKEN_EXP'')"
  using malformed_none [OF assms]
  by (auto simp: numberWithin_def normalizedConfig_at dest: parsePort_range parseTokenLifetime_range)

lemma normalized_ssl:
  assumes "malformed rt config = []" and "config ''POSTGRES_SSL'' \<noteq> None"
  shows "\<exists>b. normalizedConfig rt config ''POSTGRES_SSL'' = Some (EnvBool b)"
  using malformed_none [OF assms(1)] assms(2) by (simp add: normalizedConfig_at normalizedSsl_def)

lemma normalized_proxy:
  assumes "malformed rt config = []"
  shows "parseTrustedProxy rt (normalizedConfig rt config ''TRUST_PROXY'') = parseTrustedProxy rt (config ''TRUST_PROXY'')"
proof (cases "parseTrustedProxy rt (config ''TRUST_PROXY'')")
  case None
  then show ?thesis by (simp add: normalizedConfig_at normalizedProxy_def)
next
  case (Some t)
  have "parseTrustedProxy rt (Some (EnvString (js ''false''))) = Some TrustNone"
    by (simp add: parseTrustedProxy_def trim_def toLowerCase_def js_def lowerUnit_def isWhiteSpace_def)
  with Some show ?thesis
    by (cases t) (simp_all add: normalizedConfig_at normalizedProxy_def parseTrustedProxy_stored)
qed

lemma putGiven_absent: "config key = None \<Longrightarrow> putGiven config k v c key = c key"
  by (auto simp: putGiven_at)

lemma normalized_absent:
  "config key = None \<Longrightarrow> key \<noteq> ''EXPO_PUSH_ENABLED'' \<Longrightarrow> normalizedConfig rt config key = None"
  by (cases "expoPush config") (simp_all add: normalizedConfig_def Let_def putGiven_absent)

text \<open>C36. Whatever the environment, an accepted configuration is well typed: the port and the lifetimes of the tokens are
  numbers within their bounds, encryption and push delivery are Booleans with which the connection options can be built, the
  text that is stored for the trusted proxies reads back as the proxies that were configured, missing keys stay missing and
  all other keys keep their values.\<close>

theorem environment_typed:
  assumes "validateEnvironment rt config = Inr c"
  shows "(c ''POSTGRES_PORT'' = None \<or> numberWithin 65535 (c ''POSTGRES_PORT'')) \<and>
    (\<forall>key \<in> {''JWT_ACCESS_TOKEN_EXP'', ''JWT_REFRESH_TOKEN_EXP''}.
       c key = None \<or> numberWithin TOKEN_LIFETIME_MAX_SECONDS (c key)) \<and>
    (c ''POSTGRES_SSL'' = None \<or> (\<exists>b. c ''POSTGRES_SSL'' = Some (EnvBool b))) \<and>
    (\<forall>ca. \<not> isl (createPostgresSslOptions (c ''POSTGRES_SSL'') ca)) \<and>
    (\<exists>b. c ''EXPO_PUSH_ENABLED'' = Some (EnvBool b)) \<and>
    parseTrustedProxy rt (c ''TRUST_PROXY'') = parseTrustedProxy rt (config ''TRUST_PROXY'') \<and>
    (c ''TRUST_PROXY'' = None \<or> parseTrustedProxy rt (c ''TRUST_PROXY'') \<noteq> None) \<and>
    (\<forall>key. key \<notin> {''POSTGRES_PORT'', ''JWT_ACCESS_TOKEN_EXP'', ''JWT_REFRESH_TOKEN_EXP'', ''POSTGRES_SSL'',
       ''EXPO_PUSH_ENABLED'', ''TRUST_PROXY''} \<longrightarrow> c key = config key)"
proof (intro conjI)
  have ok: "malformed rt config = []" and c: "c = normalizedConfig rt config"
    using validateEnvironment_accepts [OF assms] by blast+
  show "c ''POSTGRES_PORT'' = None \<or> numberWithin 65535 (c ''POSTGRES_PORT'')"
    using normalized_numbers(1) [OF ok] normalized_absent [of config] c by fastforce
  show "\<forall>key \<in> {''JWT_ACCESS_TOKEN_EXP'', ''JWT_REFRESH_TOKEN_EXP''}.
      c key = None \<or> numberWithin TOKEN_LIFETIME_MAX_SECONDS (c key)"
    using normalized_numbers(2,3) [OF ok] normalized_absent [of config] c by fastforce
  show ssl: "c ''POSTGRES_SSL'' = None \<or> (\<exists>b. c ''POSTGRES_SSL'' = Some (EnvBool b))"
    using normalized_ssl [OF ok] normalized_absent [of config] c by fastforce
  show "\<forall>ca. \<not> isl (createPostgresSslOptions (c ''POSTGRES_SSL'') ca)"
    using ssl createPostgresSslOptions_bool by (auto simp: createPostgresSslOptions_def)
  show "\<exists>b. c ''EXPO_PUSH_ENABLED'' = Some (EnvBool b)"
    using malformed_none(5) [OF ok] expoPush_bool c by blast
  show "parseTrustedProxy rt (c ''TRUST_PROXY'') = parseTrustedProxy rt (config ''TRUST_PROXY'')"
    using normalized_proxy [OF ok] c by simp
  then show "c ''TRUST_PROXY'' = None \<or> parseTrustedProxy rt (c ''TRUST_PROXY'') \<noteq> None"
    using malformed_none(6) [OF ok] normalized_absent [of config "''TRUST_PROXY''"] c by auto
  show "\<forall>key. key \<notin> {''POSTGRES_PORT'', ''JWT_ACCESS_TOKEN_EXP'', ''JWT_REFRESH_TOKEN_EXP'', ''POSTGRES_SSL'',
      ''EXPO_PUSH_ENABLED'', ''TRUST_PROXY''} \<longrightarrow> c key = config key"
    using c normalizedConfig_at(7) [of _ rt config] by simp
qed

text \<open>What is wrong with a key in production, key by key.\<close>

definition offends :: "envRuntime \<Rightarrow> envConfig \<Rightarrow> string \<Rightarrow> bool" where
  "offends rt config key \<longleftrightarrow>
     List.member REQUIRED_PRODUCTION_KEYS key \<and> valueFor config key = [] \<or>
     List.member PRODUCTION_SECRET_KEYS key \<and> weakSecret (valueFor config key) \<or>
     List.member HTTPS_URL_KEYS key \<and> \<not> isHttpsUrl rt (valueFor config key) \<or>
     List.member PRODUCTION_IDENTIFIER_KEYS key \<and> devValue (valueFor config key) \<or>
     List.member [''REVENUECAT_IOS_APP_ID'', ''REVENUECAT_ANDROID_APP_ID''] key \<and>
       valueFor config ''REVENUECAT_IOS_APP_ID'' = valueFor config ''REVENUECAT_ANDROID_APP_ID'' \<or>
     List.member [''JWT_ACCESS_TOKEN_SECRET'', ''JWT_REFRESH_TOKEN_SECRET''] key \<and>
       valueFor config ''JWT_ACCESS_TOKEN_SECRET'' = valueFor config ''JWT_REFRESH_TOKEN_SECRET'' \<or>
     key = ''TRUST_PROXY'' \<and> parseTrustedProxy rt (config key) = None \<or>
     key = ''POSTGRES_SSL'' \<and> (sslInvalid config \<or>
       normalizedSsl config = Some (EnvBool False) \<and> valueFor config ''POSTGRES_HOST'' \<noteq> js ''postgres'') \<or>
     key = ''POSTGRES_PORT'' \<and> parsePort (config key) = None \<or>
     List.member [''JWT_ACCESS_TOKEN_EXP'', ''JWT_REFRESH_TOKEN_EXP''] key \<and> parseTokenLifetime (config key) = None \<or>
     key = ''EXPO_PUSH_ENABLED'' \<and> expoPush config = None"

text \<open>The keys one part or the other finds.\<close>

lemma in_malformed:
  "key \<in> set (malformed rt config) \<longleftrightarrow>
     key = ''POSTGRES_PORT'' \<and> given config key \<and> parsePort (config key) = None \<or>
     List.member [''JWT_ACCESS_TOKEN_EXP'', ''JWT_REFRESH_TOKEN_EXP''] key \<and> given config key \<and>
       parseTokenLifetime (config key) = None \<or>
     key = ''POSTGRES_SSL'' \<and> sslInvalid config \<or>
     key = ''EXPO_PUSH_ENABLED'' \<and> expoPush config = None \<or>
     key = ''TRUST_PROXY'' \<and> given config key \<and> parseTrustedProxy rt (config key) = None"
  by (auto simp: malformed_def)

lemma in_unsafe:
  "key \<in> set (unsafeForProduction rt config) \<longleftrightarrow>
     List.member REQUIRED_PRODUCTION_KEYS key \<and> valueFor config key = [] \<or>
     List.member PRODUCTION_SECRET_KEYS key \<and> weakSecret (valueFor config key) \<or>
     List.member HTTPS_URL_KEYS key \<and> \<not> isHttpsUrl rt (valueFor config key) \<or>
     List.member PRODUCTION_IDENTIFIER_KEYS key \<and> devValue (valueFor config key) \<or>
     List.member [''REVENUECAT_IOS_APP_ID'', ''REVENUECAT_ANDROID_APP_ID''] key \<and>
       valueFor config ''REVENUECAT_IOS_APP_ID'' = valueFor config ''REVENUECAT_ANDROID_APP_ID'' \<or>
     List.member [''JWT_ACCESS_TOKEN_SECRET'', ''JWT_REFRESH_TOKEN_SECRET''] key \<and>
       valueFor config ''JWT_ACCESS_TOKEN_SECRET'' = valueFor config ''JWT_REFRESH_TOKEN_SECRET'' \<or>
     key = ''TRUST_PROXY'' \<and> parseTrustedProxy rt (config key) = None \<or>
     key = ''POSTGRES_SSL'' \<and> normalizedConfig rt config key = Some (EnvBool False) \<and>
       valueFor config ''POSTGRES_HOST'' \<noteq> js ''postgres''"
  by (auto simp: unsafeForProduction_def)

lemma one_of_five:
  assumes "x = a \<Longrightarrow> P" and "x = b \<Longrightarrow> P" and "x = c \<Longrightarrow> P" and "x = d \<Longrightarrow> P" and "x = e \<Longrightarrow> P"
    and "x \<notin> {a, b, c, d, e} \<Longrightarrow> P"
  shows P
  using assms by blast

lemma found_iff_offends:
  "key \<in> set (malformed rt config @ unsafeForProduction rt config) \<longleftrightarrow> offends rt config key"
proof -
  have checked: "List.member REQUIRED_PRODUCTION_KEYS k"
    if "k \<in> {''POSTGRES_PORT'', ''JWT_ACCESS_TOKEN_EXP'', ''JWT_REFRESH_TOKEN_EXP'', ''POSTGRES_SSL'', ''TRUST_PROXY''}" for k
    using that by (auto simp: REQUIRED_PRODUCTION_KEYS_def)
  have absent: "valueFor config k = []" if "\<not> given config k" for k
    using that by (simp add: given_def valueFor_def)
  have ssl: "normalizedConfig rt config ''POSTGRES_SSL'' = normalizedSsl config"
    if "given config ''POSTGRES_SSL''" "\<not> sslInvalid config"
    using that by (auto simp: normalizedConfig_at given_def)
  note parts = set_append Un_iff in_malformed in_unsafe offends_def
  let ?checked = "{''POSTGRES_PORT'', ''JWT_ACCESS_TOKEN_EXP'', ''JWT_REFRESH_TOKEN_EXP'', ''POSTGRES_SSL'', ''TRUST_PROXY''}"
  show ?thesis
  proof (cases "key \<in> ?checked \<and> \<not> given config key")
    case True
    then have "List.member REQUIRED_PRODUCTION_KEYS key" "valueFor config key = []"
      using checked absent by blast+
    then show ?thesis unfolding parts by simp
  next
    case False
    show ?thesis
    proof (rule one_of_five [of key "''POSTGRES_PORT''" _ "''JWT_ACCESS_TOKEN_EXP''" "''JWT_REFRESH_TOKEN_EXP''" "''POSTGRES_SSL''"
        "''TRUST_PROXY''"])
      assume key: "key = ''POSTGRES_SSL''"
      with False have "given config ''POSTGRES_SSL''" by simp
      then show ?thesis
        unfolding parts key using ssl by (cases "sslInvalid config") (simp_all add: disj_ac)
    next
      assume "key \<notin> ?checked"
      then show ?thesis unfolding parts by (simp add: disj_ac)
    next
      assume key: "key = ''POSTGRES_PORT''"
      with False have "given config ''POSTGRES_PORT''" by simp
      then show ?thesis unfolding parts key by (cases "parsePort (config ''POSTGRES_PORT'') = None") auto
    next
      assume key: "key = ''JWT_ACCESS_TOKEN_EXP''"
      with False have "given config ''JWT_ACCESS_TOKEN_EXP''" by simp
      then show ?thesis unfolding parts key by (cases "parseTokenLifetime (config ''JWT_ACCESS_TOKEN_EXP'') = None") auto
    next
      assume key: "key = ''JWT_REFRESH_TOKEN_EXP''"
      with False have "given config ''JWT_REFRESH_TOKEN_EXP''" by simp
      then show ?thesis unfolding parts key by (cases "parseTokenLifetime (config ''JWT_REFRESH_TOKEN_EXP'') = None") auto
    next
      assume key: "key = ''TRUST_PROXY''"
      with False have "given config ''TRUST_PROXY''" by simp
      then show ?thesis unfolding parts key by (cases "parseTrustedProxy rt (config ''TRUST_PROXY'') = None") auto
    qed
  qed
qed

text \<open>C26. In production the server starts exactly if no key offends: required keys have values, secrets have sixteen characters
  or more and are no development values, addresses use HTTPS without credentials, the two applications and the two token
  secrets differ, the proxies, the port and the lifetimes can be read and the connection to the database is encrypted unless
  it is local. Otherwise the error names the offending keys, each once, in order.\<close>

theorem environment_production:
  assumes "config ''NODE_ENV'' = Some (EnvString (js ''production''))"
  shows "case validateEnvironment rt config of
      Inr c \<Rightarrow> \<forall>key. \<not> offends rt config key
    | Inl (ProductionConfigInvalid ks) \<Rightarrow>
        ks \<noteq> [] \<and> distinct ks \<and> sorted (map js ks) \<and> (\<forall>key. key \<in> set ks \<longleftrightarrow> offends rt config key)
    | Inl (ConfigInvalid ks) \<Rightarrow> False"
proof -
  let ?found = "malformed rt config @ unsafeForProduction rt config"
  have result: "validateEnvironment rt config =
      (if ?found \<noteq> [] then Inl (ProductionConfigInvalid (sortedKeys ?found)) else Inr (normalizedConfig rt config))"
    unfolding validateEnvironment_def Let_def assms by simp
  show ?thesis
  proof (cases "?found = []")
    case True
    then have "\<not> offends rt config key" for key
      using found_iff_offends [of key rt config] by simp
    with True show ?thesis unfolding result by simp
  next
    case False
    have keys: "set (sortedKeys ?found) = set ?found" "distinct (sortedKeys ?found)" "sorted (map js (sortedKeys ?found))"
      unfolding sortedKeys_def by simp_all
    then have "sortedKeys ?found \<noteq> []"
      using False by (metis set_empty)
    moreover have "\<forall>key. key \<in> set (sortedKeys ?found) \<longleftrightarrow> offends rt config key"
      using keys(1) found_iff_offends by blast
    ultimately show ?thesis
      unfolding result using False keys(2,3) by (simp only: if_True if_not_P not_False_eq_True sum.case envError.case simp_thms)
  qed
qed

text \<open>A configuration that is accepted in production.\<close>

definition sampleRuntime :: envRuntime where
  "sampleRuntime = \<lparr>isIP = (\<lambda>s. if s = js ''10.0.0.1'' then 4 else 0),
     newURL = (\<lambda>s. Some \<lparr>uf_protocol = js ''https:'', uf_username = [], uf_password = []\<rparr>)\<rparr>"

definition sampleConfig :: envConfig where
  "sampleConfig key =
     (if key = ''NODE_ENV'' then Some (EnvString (js ''production''))
      else if key = ''POSTGRES_PORT'' then Some (EnvString (js ''5432''))
      else if key = ''POSTGRES_SSL'' then Some (EnvString (js ''true''))
      else if key = ''JWT_ACCESS_TOKEN_EXP'' then Some (EnvString (js ''1h''))
      else if key = ''JWT_REFRESH_TOKEN_EXP'' then Some (EnvString (js ''14d''))
      else if key = ''TRUST_PROXY'' then Some (EnvString (js '' LOOPBACK, 10.0.0.1/32''))
      else if key = ''EXPO_PUSH_ENABLED'' then None
      else Some (EnvString (js key @ js ''-0123456789abcdef'')))"

lemma sample_port: "parsePort (sampleConfig ''POSTGRES_PORT'') = Some 5432"
  by (simp add: sampleConfig_def parsePort_def portFromText_def trim_def js_def isWhiteSpace_def decimalLiteral_def exponentPart_def isDigit_def digitsValue_def decimalDigit_def asPort_def asciiLower_def isHexDigit_def)

lemma sample_access: "parseTokenLifetime (sampleConfig ''JWT_ACCESS_TOKEN_EXP'') = Some 3600"
  by (simp add: sampleConfig_def parseTokenLifetime_def trim_def js_def isWhiteSpace_def isDigit_def digitsValue_def decimalDigit_def tokenLifetimeMultiplier_def TOKEN_LIFETIME_MAX_SECONDS_def)

lemma sample_refresh: "parseTokenLifetime (sampleConfig ''JWT_REFRESH_TOKEN_EXP'') = Some (14 * 86400)"
  by (simp add: sampleConfig_def parseTokenLifetime_def trim_def js_def isWhiteSpace_def isDigit_def digitsValue_def decimalDigit_def tokenLifetimeMultiplier_def TOKEN_LIFETIME_MAX_SECONDS_def)

lemma sample_ssl: "sslInvalid sampleConfig = False"
  by (simp add: sslInvalid_def sampleConfig_def createPostgresSslOptions_def)

lemma sample_expo: "expoPush sampleConfig = Some False"
  by (simp add: expoPush_def sampleConfig_def)

lemma sample_proxy: "parseTrustedProxy sampleRuntime (sampleConfig ''TRUST_PROXY'') = Some (TrustEntries [js ''loopback'', js ''10.0.0.1/32''])"
  by (simp add: sampleConfig_def sampleRuntime_def parseTrustedProxy_def trim_def js_def isWhiteSpace_def toLowerCase_def
      lowerUnit_def trustedEntry_def lastSlash_def TRUST_PROXY_NAMES_def isDigit_def digitsValue_def decimalDigit_def)

definition plainKey :: "string \<Rightarrow> bool" where
  "plainKey key \<longleftrightarrow> \<not> List.member [''NODE_ENV'', ''POSTGRES_PORT'', ''POSTGRES_SSL'', ''JWT_ACCESS_TOKEN_EXP'',
     ''JWT_REFRESH_TOKEN_EXP'', ''TRUST_PROXY'', ''EXPO_PUSH_ENABLED''] key \<and>
     (case key of [] \<Rightarrow> False | c # r \<Rightarrow> \<not> isWhiteSpace (of_char c))"

lemma sample_plain:
  assumes "plainKey key"
  shows "valueFor sampleConfig key = js key @ js ''-0123456789abcdef''"
proof -
  obtain c r where key: "key = c # r" "\<not> isWhiteSpace (of_char c)"
    using assms by (cases key) (auto simp: plainKey_def)
  have "trimmed (js key @ js ''-0123456789abcdef'')"
    using key by (simp add: trimmed_def js_def isWhiteSpace_def)
  then show ?thesis
    using assms by (simp add: valueFor_def sampleConfig_def plainKey_def trim_trimmed)
qed

lemma sample_secrets: "filter (\<lambda>key. weakSecret (valueFor sampleConfig key)) PRODUCTION_SECRET_KEYS = []"
proof -
  have plain: "list_all (\<lambda>key. plainKey key \<and> \<not> devValue (js key @ js ''-0123456789abcdef'')) PRODUCTION_SECRET_KEYS"
    by (simp add: PRODUCTION_SECRET_KEYS_def plainKey_def isWhiteSpace_def devValue_def js_def asciiLower_def)
  have "\<not> weakSecret (js key @ js ''-0123456789abcdef'')" if "\<not> devValue (js key @ js ''-0123456789abcdef'')" for key
    using that by (simp add: weakSecret_def js_def)
  with plain show ?thesis
    by (auto simp: filter_empty_conv list_all_iff sample_plain)
qed

lemma sample_identifiers: "filter (\<lambda>key. devValue (valueFor sampleConfig key)) PRODUCTION_IDENTIFIER_KEYS = []"
proof -
  have "list_all (\<lambda>key. plainKey key \<and> \<not> devValue (js key @ js ''-0123456789abcdef'')) PRODUCTION_IDENTIFIER_KEYS"
    by (simp add: PRODUCTION_IDENTIFIER_KEYS_def plainKey_def isWhiteSpace_def devValue_def js_def asciiLower_def)
  then show ?thesis
    by (auto simp: filter_empty_conv list_all_iff sample_plain)
qed

lemma sample_required: "filter (\<lambda>key. valueFor sampleConfig key = []) REQUIRED_PRODUCTION_KEYS = []"
proof -
  have special: "valueFor sampleConfig key \<noteq> []"
    if "key \<in> {''POSTGRES_PORT'', ''POSTGRES_SSL'', ''JWT_ACCESS_TOKEN_EXP'', ''JWT_REFRESH_TOKEN_EXP'', ''TRUST_PROXY''}" for key
    using that by (auto simp: valueFor_def sampleConfig_def js_def trim_def isWhiteSpace_def)
  have "valueFor sampleConfig key \<noteq> []" if "plainKey key" for key
    using that by (simp add: sample_plain js_def)
  moreover have "list_all (\<lambda>key. plainKey key \<or>
      key \<in> {''POSTGRES_PORT'', ''POSTGRES_SSL'', ''JWT_ACCESS_TOKEN_EXP'', ''JWT_REFRESH_TOKEN_EXP'', ''TRUST_PROXY''})
      REQUIRED_PRODUCTION_KEYS"
    by (simp add: REQUIRED_PRODUCTION_KEYS_def plainKey_def isWhiteSpace_def)
  ultimately show ?thesis
    using special by (fastforce simp: filter_empty_conv list_all_iff)
qed

lemma sample_accepted: "validateEnvironment sampleRuntime sampleConfig = Inr (normalizedConfig sampleRuntime sampleConfig)"
proof -
  have m: "malformed sampleRuntime sampleConfig = []"
    by (simp add: malformed_def sample_port sample_access sample_refresh sample_ssl sample_expo sample_proxy)
  have urls: "filter (\<lambda>key. \<not> isHttpsUrl sampleRuntime (valueFor sampleConfig key)) HTTPS_URL_KEYS = []"
    by (simp add: isHttpsUrl_def sampleRuntime_def)
  have plain: "list_all plainKey [''REVENUECAT_IOS_APP_ID'', ''REVENUECAT_ANDROID_APP_ID'', ''JWT_ACCESS_TOKEN_SECRET'',
      ''JWT_REFRESH_TOKEN_SECRET'']"
    by (simp add: plainKey_def isWhiteSpace_def)
  have apps: "valueFor sampleConfig ''REVENUECAT_IOS_APP_ID'' \<noteq> valueFor sampleConfig ''REVENUECAT_ANDROID_APP_ID''"
    using plain by (simp add: sample_plain) (simp add: js_def)
  have secrets: "valueFor sampleConfig ''JWT_ACCESS_TOKEN_SECRET'' \<noteq> valueFor sampleConfig ''JWT_REFRESH_TOKEN_SECRET''"
    using plain by (simp add: sample_plain) (simp add: js_def)
  have "normalizedConfig sampleRuntime sampleConfig ''POSTGRES_SSL'' = Some (EnvBool True)"
    using sample_ssl by (simp add: normalizedConfig_at normalizedSsl_def sampleConfig_def)
  then have "unsafeForProduction sampleRuntime sampleConfig = []"
    using urls apps secrets
    by (simp only: unsafeForProduction_def sample_required sample_secrets sample_identifiers sample_proxy) simp
  then show ?thesis
    using m by (simp add: validateEnvironment_def)
qed

lemma environment_typed_witness:
  "parseTrustedProxy sampleRuntime (normalizedConfig sampleRuntime sampleConfig ''TRUST_PROXY'') =
     parseTrustedProxy sampleRuntime (sampleConfig ''TRUST_PROXY'')"
  using environment_typed [OF sample_accepted] by blast

lemma environment_production_witness:
  "\<not> offends sampleRuntime sampleConfig ''JWT_ACCESS_TOKEN_SECRET''"
proof -
  have "sampleConfig ''NODE_ENV'' = Some (EnvString (js ''production''))" by (simp add: sampleConfig_def)
  then show ?thesis
    using environment_production [of sampleConfig sampleRuntime] by (simp add: sample_accepted)
qed

end
