(* ===== verification/Migrations.thy ===== *)
theory Migrations
  imports Prelude
begin

text \<open>
  The migration runner (\<^verbatim>\<open>scripts/migrate.ts\<close>): which scripts it accepts and what a run does, statement by
  statement. A run has a budget of statements: when it is used up the process is gone, the server rolls
  back an open transaction and gives back the advisory lock. The lock keeps runs apart, so runs follow one another. What a script
  does to the schema and whether the data lets an index be built are parameters, as is the hash function;
  the statements the runner itself sends are modelled.
\<close>

section \<open>Regular expressions\<close>

datatype rx = RNone | REmpty | RChar "nat \<Rightarrow> bool" | RAlt rx rx | RSeq rx rx | RStar rx

inductive rxMatches :: "rx \<Rightarrow> jsstring \<Rightarrow> bool" where
  "rxMatches REmpty []"
| "p c \<Longrightarrow> rxMatches (RChar p) [c]"
| "rxMatches r s \<Longrightarrow> rxMatches (RAlt r q) s"
| "rxMatches q s \<Longrightarrow> rxMatches (RAlt r q) s"
| "rxMatches r s \<Longrightarrow> rxMatches q t \<Longrightarrow> rxMatches (RSeq r q) (s @ t)"
| "rxMatches (RStar r) []"
| "rxMatches r s \<Longrightarrow> rxMatches (RStar r) t \<Longrightarrow> rxMatches (RStar r) (s @ t)"

inductive_simps rxMatches_simps:
  "rxMatches RNone s" "rxMatches REmpty s" "rxMatches (RChar p) s" "rxMatches (RAlt r q) s" "rxMatches (RSeq r q) s"

text \<open>The test runs by derivatives; the smart constructors keep them small.\<close>

fun nullable :: "rx \<Rightarrow> bool" where
  "nullable RNone = False"
| "nullable REmpty = True"
| "nullable (RChar p) = False"
| "nullable (RAlt r q) = (nullable r \<or> nullable q)"
| "nullable (RSeq r q) = (nullable r \<and> nullable q)"
| "nullable (RStar r) = True"

fun isNone :: "rx \<Rightarrow> bool" where
  "isNone RNone = True"
| "isNone _ = False"

fun rAlt :: "rx \<Rightarrow> rx \<Rightarrow> rx" where
  "rAlt r q = (if isNone r then q else if isNone q then r else RAlt r q)"

fun rSeq :: "rx \<Rightarrow> rx \<Rightarrow> rx" where
  "rSeq r q = (if isNone r \<or> isNone q then RNone else case r of REmpty \<Rightarrow> q | _ \<Rightarrow> RSeq r q)"

fun deriv :: "nat \<Rightarrow> rx \<Rightarrow> rx" where
  "deriv c RNone = RNone"
| "deriv c REmpty = RNone"
| "deriv c (RChar p) = (if p c then REmpty else RNone)"
| "deriv c (RAlt r q) = rAlt (deriv c r) (deriv c q)"
| "deriv c (RSeq r q) =
     (if nullable r then rAlt (rSeq (deriv c r) q) (deriv c q) else rSeq (deriv c r) q)"
| "deriv c (RStar r) = rSeq (deriv c r) (RStar r)"

definition rxTest :: "rx \<Rightarrow> jsstring \<Rightarrow> bool" where
  "rxTest r s = nullable (fold deriv s r)"

section \<open>The statement of a non-transactional script\<close>

definition sqlWhitespaceChar :: "nat \<Rightarrow> bool" where
  "sqlWhitespaceChar c = List.member [32, 9, 13, 10] c"

definition isLetter :: "nat \<Rightarrow> bool" where
  "isLetter c \<longleftrightarrow> 97 \<le> asciiLower c \<and> asciiLower c \<le> 122"

definition identifierStart :: "nat \<Rightarrow> bool" where
  "identifierStart c \<longleftrightarrow> isLetter c \<or> c = 95"

definition identifierChar :: "nat \<Rightarrow> bool" where
  "identifierChar c \<longleftrightarrow> isLetter c \<or> isDigit c \<or> c = 95 \<or> c = 36"

definition rxSeqs :: "rx list \<Rightarrow> rx" where
  "rxSeqs rs = foldr rSeq rs REmpty"

definition rxOpt :: "rx \<Rightarrow> rx" where
  "rxOpt r = RAlt r REmpty"

definition rxChar :: "nat \<Rightarrow> rx" where
  "rxChar c = RChar (\<lambda>x. x = c)"

text \<open>A word under the flag \<^verbatim>\<open>i\<close>.\<close>

definition rxWord :: "string \<Rightarrow> rx" where
  "rxWord w = rxSeqs (map (\<lambda>c. RChar (\<lambda>x. asciiLower x = asciiLower c)) (js w))"

definition rxSpaces0 :: rx where
  "rxSpaces0 = RStar (RChar sqlWhitespaceChar)"

definition rxSpaces :: rx where
  "rxSpaces = RSeq (RChar sqlWhitespaceChar) rxSpaces0"

definition rxName :: rx where
  "rxName = RSeq (RChar identifierStart) (RStar (RChar identifierChar))"

definition sqlIdentifier :: rx where
  "sqlIdentifier = RAlt (rxSeqs [rxChar 34, rxName, rxChar 34]) rxName"

definition indexColumn :: rx where
  "indexColumn = RSeq sqlIdentifier (rxOpt (RSeq rxSpaces (RAlt (rxWord ''ASC'') (rxWord ''DESC''))))"

definition nullPredicate :: rx where
  "nullPredicate = rxSeqs [sqlIdentifier, rxSpaces, rxWord ''IS'', rxSpaces, rxOpt (RSeq (rxWord ''NOT'') rxSpaces), rxWord ''NULL'']"

definition concurrentIndexBody :: rx where
  "concurrentIndexBody =
     rxSeqs [rxSpaces0, rxWord ''CREATE'', rxSpaces, rxOpt (RSeq (rxWord ''UNIQUE'') rxSpaces), rxWord ''INDEX'', rxSpaces,
       rxWord ''CONCURRENTLY'', rxSpaces, rxWord ''IF'', rxSpaces, rxWord ''NOT'', rxSpaces, rxWord ''EXISTS'', rxSpaces,
       rxName, rxSpaces, rxWord ''ON'', rxSpaces, sqlIdentifier, rxSpaces0,
       rxChar 40, rxSpaces0, indexColumn, RStar (rxSeqs [rxSpaces0, rxChar 44, rxSpaces0, indexColumn]), rxSpaces0, rxChar 41,
       rxOpt (rxSeqs [rxSpaces, rxWord ''WHERE'', rxSpaces, nullPredicate,
         RStar (rxSeqs [rxSpaces, rxWord ''AND'', rxSpaces, nullPredicate])]),
       rxSpaces0]"

definition concurrentIndexStatement :: rx where
  "concurrentIndexStatement = RSeq concurrentIndexBody (RSeq (rxChar 59) rxSpaces0)"

text \<open>The first group of the match: the word after \<^verbatim>\<open>CREATE [UNIQUE] INDEX CONCURRENTLY IF NOT EXISTS\<close>.\<close>

definition skipSpaces :: "jsstring \<Rightarrow> jsstring" where
  "skipSpaces s = dropWhile sqlWhitespaceChar s"

definition firstWord :: "jsstring \<Rightarrow> jsstring" where
  "firstWord s = takeWhile (\<lambda>c. \<not> sqlWhitespaceChar c) s"

definition skipWord :: "jsstring \<Rightarrow> jsstring" where
  "skipWord s = skipSpaces (dropWhile (\<lambda>c. \<not> sqlWhitespaceChar c) s)"

definition indexNameGroup :: "jsstring \<Rightarrow> jsstring" where
  "indexNameGroup statement =
     (let rest = skipWord (skipSpaces statement);
          index = (if map asciiLower (firstWord rest) = js ''unique'' then skipWord rest else rest)
      in takeWhile identifierChar ((skipWord ^^ 5) index))"

section \<open>Scripts\<close>

datatype migrationError =
    UnsupportedComment
  | UnsupportedIndexSyntax
  | InvalidMigrationMode jsstring
  | MarkerMismatch jsstring
  | IndexPostconditionFailed jsstring
  | MarkerPostconditionFailed jsstring
  | ChecksumChanged jsstring
  | SqlError jsstring

datatype migrationMode = Transactional jsstring | ConcurrentIndex jsstring jsstring

definition nonTransactionalHeader :: jsstring where
  "nonTransactionalHeader = js ''-- chattea:migration-mode=non-transactional''"

definition migrationModePrefix :: jsstring where
  "migrationModePrefix = js ''-- chattea:migration-mode=''"

text \<open>\<^verbatim>\<open>split(/\r?\n/)\<close>\<close>

definition splitLines :: "jsstring \<Rightarrow> jsstring list" where
  "splitLines s =
     (let parts = splitOn 10 s;
          chomp = (\<lambda>p. if p \<noteq> [] \<and> last p = 13 then butlast p else p)
      in map chomp (butlast parts) @ [last parts])"

definition startsWith :: "jsstring \<Rightarrow> jsstring \<Rightarrow> bool" where
  "startsWith prefix s \<longleftrightarrow> take (length prefix) s = prefix"

fun containsText :: "jsstring \<Rightarrow> jsstring \<Rightarrow> bool" where
  "containsText t [] = (t = [])"
| "containsText t (c # s) = (startsWith t (c # s) \<or> containsText t s)"

definition sqlBodyComment :: "jsstring \<Rightarrow> bool" where
  "sqlBodyComment s \<longleftrightarrow> containsText [45, 45] s \<or> containsText [47, 42] s"

definition parseConcurrentIndex :: "jsstring \<Rightarrow> migrationError + jsstring" where
  "parseConcurrentIndex executableSql =
     (let statement = joinWith 10 (tl (splitLines executableSql)) in
      if sqlBodyComment statement then Inl UnsupportedComment
      else if \<not> rxTest concurrentIndexStatement statement \<or> indexNameGroup statement = [] then Inl UnsupportedIndexSyntax
      else Inr (toLowerCase (indexNameGroup statement)))"

definition parseMigration :: "jsstring \<Rightarrow> migrationError + migrationMode" where
  "parseMigration sql =
     (let executableSql = (case sql of [] \<Rightarrow> [] | c # r \<Rightarrow> if c = 65279 then r else sql);
          firstLine = hd (splitLines executableSql) in
      if firstLine = nonTransactionalHeader then map_sum id (ConcurrentIndex executableSql) (parseConcurrentIndex executableSql)
      else if startsWith migrationModePrefix firstLine then Inl (InvalidMigrationMode firstLine)
      else Inr (Transactional executableSql))"

section \<open>The database and its statements\<close>

record indexRow =
  ix_valid :: bool
  ix_ready :: bool
  ix_marker :: "jsstring option"

type_synonym indexTable = "jsstring \<Rightarrow> indexRow option"

text \<open>What building an index comes to: refused before anything is stored, or given up with an invalid index left.\<close>

datatype buildResult = Built | Refused jsstring | LeftInvalid jsstring

record 's migrationDb =
  md_history :: "(jsstring \<times> jsstring) list option"
  md_schema :: 's
  md_indexes :: indexTable
  md_locked :: bool

record 's migrationEnv =
  sha256 :: "jsstring \<Rightarrow> jsstring"
  executeSql :: "jsstring \<Rightarrow> 's \<times> indexTable \<Rightarrow> jsstring + 's \<times> indexTable"

datatype 'a outcome = Done 'a | Raised migrationError | Gone

type_synonym ('s, 'a) migration = "nat \<times> 's migrationDb \<Rightarrow> 'a outcome \<times> nat \<times> 's migrationDb"

definition finish :: "'a \<Rightarrow> ('s, 'a) migration" where
  "finish x = (\<lambda>s. (Done x, s))"

definition raise :: "migrationError \<Rightarrow> ('s, 'a) migration" where
  "raise e = (\<lambda>s. (Raised e, s))"

definition followedBy :: "('s, 'a) migration \<Rightarrow> ('a \<Rightarrow> ('s, 'b) migration) \<Rightarrow> ('s, 'b) migration" where
  "followedBy m f = (\<lambda>s. case m s of (Done x, t) \<Rightarrow> f x t | (Raised e, t) \<Rightarrow> (Raised e, t) | (Gone, t) \<Rightarrow> (Gone, t))"

text \<open>A statement uses one unit of the budget.\<close>

definition statement :: "('s migrationDb \<Rightarrow> (migrationError + 'a) \<times> 's migrationDb) \<Rightarrow> ('s, 'a) migration" where
  "statement f = (\<lambda>(n, d). if n = 0 then (Gone, 0, d)
     else case f d of (Inl e, d') \<Rightarrow> (Raised e, n - 1, d') | (Inr x, d') \<Rightarrow> (Done x, n - 1, d'))"

definition inTransaction :: "('s, unit) migration \<Rightarrow> ('s, unit) migration" where
  "inTransaction m = (\<lambda>(n, d). if n = 0 then (Gone, 0, d)
     else case m (n - 1, d) of
       (Done x, k, d') \<Rightarrow> if k = 0 then (Gone, 0, d) else (Done (), k - 1, d')
     | (Raised e, k, d') \<Rightarrow> if k = 0 then (Gone, 0, d) else (Raised e, k - 1, d)
     | (Gone, k, d') \<Rightarrow> (Gone, k, d))"

definition createHistory :: "('s, unit) migration" where
  "createHistory = statement (\<lambda>d. (Inr (), d\<lparr>md_history := Some (case md_history d of None \<Rightarrow> [] | Some h \<Rightarrow> h)\<rparr>))"

definition selectChecksum :: "jsstring \<Rightarrow> ('s, jsstring option) migration" where
  "selectChecksum file = statement (\<lambda>d. case md_history d of
       None \<Rightarrow> (Inl (SqlError (js ''_migrations does not exist'')), d)
     | Some h \<Rightarrow> (Inr (map_of h file), d))"

definition insertHistory :: "jsstring \<Rightarrow> jsstring \<Rightarrow> ('s, unit) migration" where
  "insertHistory file checksum = statement (\<lambda>d. case md_history d of
       None \<Rightarrow> (Inl (SqlError (js ''_migrations does not exist'')), d)
     | Some h \<Rightarrow> if map_of h file \<noteq> None then (Inl (SqlError (js ''duplicate key'')), d)
         else (Inr (), d\<lparr>md_history := Some (h @ [(file, checksum)])\<rparr>))"

definition executeScript :: "'s migrationEnv \<Rightarrow> jsstring \<Rightarrow> ('s, unit) migration" where
  "executeScript env sql = statement (\<lambda>d. case executeSql env sql (md_schema d, md_indexes d) of
       Inl e \<Rightarrow> (Inl (SqlError e), d)
     | Inr (s, ix) \<Rightarrow> (Inr (), d\<lparr>md_schema := s, md_indexes := ix\<rparr>))"

definition newIndex :: indexRow where
  "newIndex = \<lparr>ix_valid = True, ix_ready = True, ix_marker = None\<rparr>"

definition invalidIndex :: indexRow where
  "invalidIndex = \<lparr>ix_valid = False, ix_ready = False, ix_marker = None\<rparr>"

text \<open>\<^verbatim>\<open>CREATE INDEX CONCURRENTLY IF NOT EXISTS\<close>\<close>

definition createIndex :: "(jsstring \<Rightarrow> 's \<Rightarrow> buildResult) \<Rightarrow> jsstring \<Rightarrow> jsstring \<Rightarrow> ('s, unit) migration" where
  "createIndex build sql name = statement (\<lambda>d.
     if md_indexes d name \<noteq> None then (Inr (), d)
     else case build sql (md_schema d) of
         Built \<Rightarrow> (Inr (), d\<lparr>md_indexes := (md_indexes d)(name := Some newIndex)\<rparr>)
       | Refused e \<Rightarrow> (Inl (SqlError e), d)
       | LeftInvalid e \<Rightarrow> (Inl (SqlError e), d\<lparr>md_indexes := (md_indexes d)(name := Some invalidIndex)\<rparr>))"

definition concurrentIndexState :: "jsstring \<Rightarrow> ('s, indexRow option) migration" where
  "concurrentIndexState name = statement (\<lambda>d. (Inr (md_indexes d name), d))"

definition dropIndex :: "jsstring \<Rightarrow> ('s, unit) migration" where
  "dropIndex name = statement (\<lambda>d. (Inr (), d\<lparr>md_indexes := (md_indexes d)(name := None)\<rparr>))"

definition commentOnIndex :: "jsstring \<Rightarrow> jsstring \<Rightarrow> ('s, unit) migration" where
  "commentOnIndex name marker = statement (\<lambda>d.
     (Inr (), d\<lparr>md_indexes := (md_indexes d)(name := map_option (\<lambda>i. i\<lparr>ix_marker := Some marker\<rparr>) (md_indexes d name))\<rparr>))"

section \<open>The run\<close>

definition usable :: "indexRow \<Rightarrow> bool" where
  "usable i \<longleftrightarrow> ix_valid i \<and> ix_ready i"

definition concurrentIndexMarker :: "'s migrationEnv \<Rightarrow> jsstring \<Rightarrow> jsstring \<Rightarrow> jsstring" where
  "concurrentIndexMarker env file checksum = js ''chattea:migration:'' @ sha256 env (file @ [0] @ checksum)"

definition prepareConcurrentIndexTarget :: "jsstring \<Rightarrow> jsstring \<Rightarrow> ('s, bool) migration" where
  "prepareConcurrentIndexTarget name marker =
     followedBy (concurrentIndexState name) (\<lambda>state.
       case state of
         None \<Rightarrow> finish False
       | Some i \<Rightarrow>
           if usable i then (if ix_marker i \<noteq> Some marker then raise (MarkerMismatch name) else finish True)
           else followedBy (dropIndex name) (\<lambda>_. finish False))"

definition markConcurrentIndexReady :: "jsstring \<Rightarrow> jsstring \<Rightarrow> ('s, unit) migration" where
  "markConcurrentIndexReady name marker =
     followedBy (concurrentIndexState name) (\<lambda>state.
       if \<not> (case state of None \<Rightarrow> False | Some i \<Rightarrow> usable i) then raise (IndexPostconditionFailed name)
       else followedBy (commentOnIndex name marker) (\<lambda>_.
         followedBy (concurrentIndexState name) (\<lambda>marked.
           if (case marked of None \<Rightarrow> None | Some i \<Rightarrow> ix_marker i) \<noteq> Some marker
           then raise (MarkerPostconditionFailed name) else finish ())))"

definition applyIndex :: "'s migrationEnv \<Rightarrow> (jsstring \<Rightarrow> 's \<Rightarrow> buildResult) \<Rightarrow> jsstring \<Rightarrow> jsstring \<Rightarrow> jsstring \<Rightarrow> jsstring \<Rightarrow>
    ('s, unit) migration" where
  "applyIndex env build file checksum sql name =
     (let marker = concurrentIndexMarker env file checksum in
      followedBy (prepareConcurrentIndexTarget name marker) (\<lambda>alreadyExecuted.
        followedBy
          (if alreadyExecuted then finish ()
           else followedBy (createIndex build sql name) (\<lambda>_. markConcurrentIndexReady name marker))
          (\<lambda>_. insertHistory file checksum)))"

definition applyFile :: "'s migrationEnv \<Rightarrow> (jsstring \<Rightarrow> 's \<Rightarrow> buildResult) \<Rightarrow> jsstring \<times> jsstring \<Rightarrow> ('s, unit) migration" where
  "applyFile env build = (\<lambda>(file, sql).
     let checksum = sha256 env sql in
     case parseMigration sql of
       Inl e \<Rightarrow> raise e
     | Inr mode \<Rightarrow>
         followedBy (selectChecksum file) (\<lambda>applied.
           case applied of
             Some c \<Rightarrow> if c \<noteq> checksum then raise (ChecksumChanged file) else finish ()
           | None \<Rightarrow>
               (case mode of
                  Transactional executableSql \<Rightarrow>
                    inTransaction (followedBy (executeScript env executableSql) (\<lambda>_. insertHistory file checksum))
                | ConcurrentIndex executableSql name \<Rightarrow> applyIndex env build file checksum executableSql name)))"

fun applyFiles :: "'s migrationEnv \<Rightarrow> (jsstring \<Rightarrow> 's \<Rightarrow> buildResult) \<Rightarrow> (jsstring \<times> jsstring) list \<Rightarrow> ('s, unit) migration" where
  "applyFiles env build [] = finish ()"
| "applyFiles env build (f # fs) = followedBy (applyFile env build f) (\<lambda>_. applyFiles env build fs)"

definition endsWith :: "jsstring \<Rightarrow> jsstring \<Rightarrow> bool" where
  "endsWith suffix s \<longleftrightarrow> drop (length s - length suffix) s = suffix"

definition migrationFiles :: "(jsstring \<times> jsstring) list \<Rightarrow> (jsstring \<times> jsstring) list" where
  "migrationFiles directory = sort_key fst (filter (\<lambda>(file, sql). endsWith (js ''.sql'') file) directory)"

definition migrationLock :: "('s, unit) migration" where
  "migrationLock = statement (\<lambda>d. (Inr (), d\<lparr>md_locked := True\<rparr>))"

definition migrationUnlock :: "('s, unit) migration" where
  "migrationUnlock = statement (\<lambda>d. (Inr (), d\<lparr>md_locked := False\<rparr>))"

text \<open>\<^verbatim>\<open>try ... finally\<close>; nothing runs when the process is gone.\<close>

definition andFinally :: "('s, 'a) migration \<Rightarrow> ('s, unit) migration \<Rightarrow> ('s, 'a) migration" where
  "andFinally m cleanup = (\<lambda>s. case m s of
       (Gone, t) \<Rightarrow> (Gone, t)
     | (r, t) \<Rightarrow> (case cleanup t of (Done _, u) \<Rightarrow> (r, u) | (Raised e, u) \<Rightarrow> (Raised e, u) | (Gone, u) \<Rightarrow> (Gone, u)))"

definition runMigrations :: "'s migrationEnv \<Rightarrow> (jsstring \<Rightarrow> 's \<Rightarrow> buildResult) \<Rightarrow> (jsstring \<times> jsstring) list \<Rightarrow>
    ('s, unit) migration" where
  "runMigrations env build directory =
     followedBy migrationLock (\<lambda>_.
       andFinally (followedBy createHistory (\<lambda>_. applyFiles env build (migrationFiles directory))) migrationUnlock)"

text \<open>A run from its connection to its end. The server gives back the lock of a connection that is gone.\<close>

definition migrate :: "'s migrationEnv \<Rightarrow> (jsstring \<times> jsstring) list \<Rightarrow> nat \<Rightarrow> (jsstring \<Rightarrow> 's \<Rightarrow> buildResult) \<Rightarrow>
    's migrationDb \<Rightarrow> unit outcome \<times> 's migrationDb" where
  "migrate env directory n build d =
     (case runMigrations env build directory (n, d) of
        (Gone, k, d') \<Rightarrow> (Gone, d'\<lparr>md_locked := False\<rparr>)
      | (r, k, d') \<Rightarrow> (r, d'))"

section \<open>Reasoning about statements\<close>

text \<open>\<open>leads P m Q R\<close>: from a state with \<open>P\<close> the program returns in \<open>Q\<close>, or it throws or the process is gone in \<open>R\<close>,
  whatever the budget.\<close>

definition endsIn :: "('a \<Rightarrow> 's migrationDb \<Rightarrow> bool) \<Rightarrow> ('s migrationDb \<Rightarrow> bool) \<Rightarrow>
    'a outcome \<times> nat \<times> 's migrationDb \<Rightarrow> bool" where
  "endsIn Q R result = (case result of (Done x, k, d) \<Rightarrow> Q x d | (Raised e, k, d) \<Rightarrow> R d | (Gone, k, d) \<Rightarrow> R d)"

definition leads :: "('s migrationDb \<Rightarrow> bool) \<Rightarrow> ('s, 'a) migration \<Rightarrow> ('a \<Rightarrow> 's migrationDb \<Rightarrow> bool) \<Rightarrow>
    ('s migrationDb \<Rightarrow> bool) \<Rightarrow> bool" where
  "leads P m Q R \<longleftrightarrow> (\<forall>n d. P d \<longrightarrow> endsIn Q R (m (n, d)))"

lemma endsIn_simps [simp]:
  "endsIn Q R (Done x, k, d) = Q x d" "endsIn Q R (Raised e, k, d) = R d" "endsIn Q R (Gone, k, d) = R d"
  by (simp_all add: endsIn_def)

lemma endsIn_mono:
  assumes "endsIn Q R result" and "\<And>x d. Q x d \<Longrightarrow> Q' x d" and "\<And>d. R d \<Longrightarrow> R' d"
  shows "endsIn Q' R' result"
proof -
  obtain r k d where "result = (r, k, d)" by (metis prod_cases3)
  then show ?thesis using assms by (cases r) simp_all
qed

lemma leads_finish: "(\<And>d. P d \<Longrightarrow> Q x d) \<Longrightarrow> leads P (finish x) Q R"
  by (simp add: leads_def finish_def)

lemma leads_raise: "(\<And>d. P d \<Longrightarrow> R d) \<Longrightarrow> leads P (raise e) Q R"
  by (simp add: leads_def raise_def)

lemma leads_followedBy:
  assumes "leads P m Q R" and "\<And>x. leads (Q x) (f x) Q' R"
  shows "leads P (followedBy m f) Q' R"
  unfolding leads_def
proof (intro allI impI)
  fix n d
  assume "P d"
  then have m: "endsIn Q R (m (n, d))" using assms(1) by (simp add: leads_def)
  obtain r k d' where r: "m (n, d) = (r, k, d')" by (metis prod_cases3)
  show "endsIn Q' R (followedBy m f (n, d))"
    using m assms(2) by (cases r) (simp_all add: r followedBy_def leads_def)
qed

lemma leads_statement:
  assumes "\<And>d. P d \<Longrightarrow> R d" and "\<And>d e d'. P d \<Longrightarrow> f d = (Inl e, d') \<Longrightarrow> R d'"
    and "\<And>d x d'. P d \<Longrightarrow> f d = (Inr x, d') \<Longrightarrow> Q x d'"
  shows "leads P (statement f) Q R"
  using assms by (auto simp: leads_def statement_def split: prod.splits sum.splits)

lemma leads_inTransaction:
  assumes "leads (\<lambda>d. d = d0) m Q T" and "R d0"
  shows "leads (\<lambda>d. d = d0) (inTransaction m) Q R"
  unfolding leads_def
proof (intro allI impI)
  fix n d
  assume d: "d = d0"
  then have m: "endsIn Q T (m (n - Suc 0, d0))" using assms(1) by (simp add: leads_def)
  obtain r k d' where r: "m (n - Suc 0, d0) = (r, k, d')" by (metis prod_cases3)
  show "endsIn Q R (inTransaction m (n, d))"
    using m assms(2) by (cases r) (auto simp: r d inTransaction_def)
qed

lemma leads_conseq:
  assumes "leads P m Q R" and "\<And>d. P' d \<Longrightarrow> P d" and "\<And>x d. Q x d \<Longrightarrow> Q' x d" and "\<And>d. R d \<Longrightarrow> R' d"
  shows "leads P' m Q' R'"
  using assms endsIn_mono unfolding leads_def by metis

section \<open>What a run should do\<close>

definition indexDone :: "'s migrationEnv \<Rightarrow> jsstring \<Rightarrow> jsstring \<Rightarrow> indexRow" where
  "indexDone env file sql = newIndex\<lparr>ix_marker := Some (concurrentIndexMarker env file (sha256 env sql))\<rparr>"

definition usableIndex :: "indexTable \<Rightarrow> jsstring \<Rightarrow> bool" where
  "usableIndex ix name = (case ix name of None \<Rightarrow> False | Some i \<Rightarrow> usable i)"

text \<open>One script as a single step, and all of them in order.\<close>

fun specStep :: "'s migrationEnv \<Rightarrow> jsstring \<times> jsstring \<Rightarrow> 's \<times> indexTable \<Rightarrow> ('s \<times> indexTable) option" where
  "specStep env (file, sql) (s, ix) =
     (case parseMigration sql of
        Inl e \<Rightarrow> None
      | Inr (Transactional text) \<Rightarrow> (case executeSql env text (s, ix) of Inl e \<Rightarrow> None | Inr x \<Rightarrow> Some x)
      | Inr (ConcurrentIndex text name) \<Rightarrow>
          if \<not> usableIndex ix name then Some (s, ix(name := Some (indexDone env file sql)))
          else if Option.bind (ix name) ix_marker = Some (concurrentIndexMarker env file (sha256 env sql)) then Some (s, ix)
          else None)"

fun specRun :: "'s migrationEnv \<Rightarrow> (jsstring \<times> jsstring) list \<Rightarrow> 's \<times> indexTable \<Rightarrow> ('s \<times> indexTable) option" where
  "specRun env [] x = Some x"
| "specRun env (f # fs) x = Option.bind (specStep env f x) (specRun env fs)"

definition recorded :: "'s migrationEnv \<Rightarrow> (jsstring \<times> jsstring) list \<Rightarrow> (jsstring \<times> jsstring) list" where
  "recorded env fs = map (\<lambda>(file, sql). (file, sha256 env sql)) fs"

text \<open>What a run that is cut off can leave of an index: nothing, an unusable one, a new one or the finished one.\<close>

definition indexProgress :: "'s migrationEnv \<Rightarrow> jsstring \<Rightarrow> jsstring \<Rightarrow> indexRow option \<Rightarrow> bool" where
  "indexProgress env file sql i \<longleftrightarrow>
     (case i of None \<Rightarrow> True | Some r \<Rightarrow> \<not> usable r \<or> r = newIndex \<or> r = indexDone env file sql)"

definition inProgress :: "'s migrationEnv \<Rightarrow> jsstring \<times> jsstring \<Rightarrow> indexTable \<Rightarrow> indexTable \<Rightarrow> bool" where
  "inProgress env f ix now \<longleftrightarrow>
     (\<exists>text name i. parseMigration (snd f) = Inr (ConcurrentIndex text name) \<and> \<not> usableIndex ix name \<and>
        now = ix(name := i) \<and> indexProgress env (fst f) (snd f) i)"

text \<open>The first \<open>k\<close> scripts are applied and recorded, each once and in order; of the next only its index may be in progress.\<close>

definition migratedTo :: "'s migrationEnv \<Rightarrow> (jsstring \<times> jsstring) list \<Rightarrow> 's \<times> indexTable \<Rightarrow> nat \<Rightarrow> 's migrationDb \<Rightarrow> bool" where
  "migratedTo env fs x k d \<longleftrightarrow>
     k \<le> length fs \<and> (case md_history d of None \<Rightarrow> k = 0 | Some h \<Rightarrow> h = recorded env (take k fs)) \<and>
     (\<exists>ix. specRun env (take k fs) x = Some (md_schema d, ix) \<and>
        (md_indexes d = ix \<or> k < length fs \<and> inProgress env (fs ! k) ix (md_indexes d)))"

section \<open>One script\<close>

lemma recorded_append: "recorded env (fs @ gs) = recorded env fs @ recorded env gs"
  by (simp add: recorded_def)

lemma specRun_append: "specRun env (fs @ gs) x = Option.bind (specRun env fs x) (specRun env gs)"
  by (induction fs arbitrary: x) (auto split: Option.bind_splits)

lemma indexDone_facts [simp]:
  "usable (indexDone env file sql)" "usable newIndex" "ix_marker newIndex = None"
  "ix_marker (indexDone env file sql) = Some (concurrentIndexMarker env file (sha256 env sql))"
  by (simp_all add: indexDone_def newIndex_def usable_def)

text \<open>The states of one index, all else as in \<open>d0\<close>.\<close>

abbreviation withIndex :: "'s migrationDb \<Rightarrow> jsstring \<Rightarrow> indexRow option \<Rightarrow> 's migrationDb" where
  "withIndex d0 name i \<equiv> d0\<lparr>md_indexes := (md_indexes d0)(name := i)\<rparr>"

lemma prepare_leads:
  assumes "indexProgress env file sql i"
    and R: "\<And>j. indexProgress env file sql j \<Longrightarrow> R (withIndex d0 name j)"
  shows "leads (\<lambda>d. d = withIndex d0 name i)
    (prepareConcurrentIndexTarget name (concurrentIndexMarker env file (sha256 env sql)))
    (\<lambda>done d. d = withIndex d0 name (if done then Some (indexDone env file sql) else None)) R"
  unfolding prepareConcurrentIndexTarget_def
proof (rule leads_followedBy)
  show "leads (\<lambda>d. d = withIndex d0 name i) (concurrentIndexState name) (\<lambda>x d. x = i \<and> d = withIndex d0 name i) R"
    unfolding concurrentIndexState_def by (rule leads_statement) (use assms in auto)
  fix x
  have none: "indexProgress env file sql None" by (simp add: indexProgress_def)
  let ?Q = "\<lambda>done d. d = withIndex d0 name (if done then Some (indexDone env file sql) else None)"
  have drop: "leads (\<lambda>d. d = withIndex d0 name i) (followedBy (dropIndex name) (\<lambda>_. finish False)) ?Q R"
    unfolding dropIndex_def
    by (rule leads_followedBy [where Q = "\<lambda>_ d. d = withIndex d0 name None"], rule leads_statement)
      (use assms none in \<open>auto intro: leads_finish\<close>)
  show "leads (\<lambda>d. x = i \<and> d = withIndex d0 name i)
      (case x of None \<Rightarrow> finish False
       | Some r \<Rightarrow> if usable r
           then (if ix_marker r \<noteq> Some (concurrentIndexMarker env file (sha256 env sql)) then raise (MarkerMismatch name)
             else finish True)
           else followedBy (dropIndex name) (\<lambda>_. finish False)) ?Q R"
  proof (cases x)
    case None
    then show ?thesis by (auto intro!: leads_finish)
  next
    case (Some r)
    show ?thesis
    proof (cases "usable r")
      case False
      then show ?thesis using drop by (auto simp: Some leads_def)
    next
      case True
      then show ?thesis
        using assms(1) R [OF assms(1)]
        by (auto simp: Some indexProgress_def leads_def finish_def raise_def)
    qed
  qed
qed

lemma create_leads:
  assumes R: "\<And>j. indexProgress env file sql j \<Longrightarrow> R (withIndex d0 name j)"
  shows "leads (\<lambda>d. d = withIndex d0 name None) (createIndex build body name)
    (\<lambda>_ d. d = withIndex d0 name (Some newIndex)) R"
  unfolding createIndex_def
  by (rule leads_statement)
    (auto simp: R indexProgress_def invalidIndex_def usable_def split: buildResult.splits)

lemma mark_leads:
  assumes R: "\<And>j. indexProgress env file sql j \<Longrightarrow> R (withIndex d0 name j)"
  shows "leads (\<lambda>d. d = withIndex d0 name (Some newIndex))
    (markConcurrentIndexReady name (concurrentIndexMarker env file (sha256 env sql)))
    (\<lambda>_ d. d = withIndex d0 name (Some (indexDone env file sql))) R"
proof -
  have new: "indexProgress env file sql (Some newIndex)" and ready: "indexProgress env file sql (Some (indexDone env file sql))"
    by (simp_all add: indexProgress_def)
  let ?new = "withIndex d0 name (Some newIndex)" and ?ready = "withIndex d0 name (Some (indexDone env file sql))"
  have state: "leads (\<lambda>d. d = withIndex d0 name i) (concurrentIndexState name) (\<lambda>x d. x = i \<and> d = withIndex d0 name i) R"
    if "indexProgress env file sql i" for i
    unfolding concurrentIndexState_def by (rule leads_statement) (use that R in auto)
  have comment: "leads (\<lambda>d. d = ?new) (commentOnIndex name (concurrentIndexMarker env file (sha256 env sql))) (\<lambda>_ d. d = ?ready) R"
    unfolding commentOnIndex_def by (rule leads_statement) (use R [OF new] in \<open>auto simp: indexDone_def\<close>)
  let ?last = "followedBy (concurrentIndexState name) (\<lambda>marked.
      if (case marked of None \<Rightarrow> None | Some i \<Rightarrow> ix_marker i) \<noteq> Some (concurrentIndexMarker env file (sha256 env sql))
      then raise (MarkerPostconditionFailed name) else finish ())"
  have last: "leads (\<lambda>d. d = ?ready) ?last (\<lambda>_ d. d = ?ready) R"
    by (rule leads_followedBy [OF state [OF ready]]) (auto simp: leads_def finish_def raise_def)
  have both: "leads (\<lambda>d. d = ?new)
      (followedBy (commentOnIndex name (concurrentIndexMarker env file (sha256 env sql))) (\<lambda>_. ?last)) (\<lambda>_ d. d = ?ready) R"
    by (rule leads_followedBy [OF comment last])
  show ?thesis
    unfolding markConcurrentIndexReady_def
    by (rule leads_followedBy [OF state [OF new]]) (use both in \<open>auto simp: leads_def raise_def\<close>)
qed

lemma insert_leads:
  assumes "md_history d0 = Some h" and "map_of h file = None" and "R d0"
  shows "leads (\<lambda>d. d = d0) (insertHistory file checksum) (\<lambda>_ d. d = d0\<lparr>md_history := Some (h @ [(file, checksum)])\<rparr>) R"
  unfolding insertHistory_def by (rule leads_statement) (use assms in auto)

lemma applyIndex_leads:
  assumes "indexProgress env file sql i" and "md_history d0 = Some h" and "map_of h file = None"
    and R: "\<And>j. indexProgress env file sql j \<Longrightarrow> R (withIndex d0 name j)"
  shows "leads (\<lambda>d. d = withIndex d0 name i) (applyIndex env build file (sha256 env sql) body name)
    (\<lambda>_ d. d = (withIndex d0 name (Some (indexDone env file sql)))\<lparr>md_history := Some (h @ [(file, sha256 env sql)])\<rparr>) R"
proof -
  have prepared: "leads (\<lambda>d. d = withIndex d0 name i)
      (prepareConcurrentIndexTarget name (concurrentIndexMarker env file (sha256 env sql)))
      (\<lambda>done d. d = withIndex d0 name (if done then Some (indexDone env file sql) else None)) R"
    by (rule prepare_leads) (rule assms(1), erule R)
  show ?thesis
    unfolding applyIndex_def Let_def
  proof (rule leads_followedBy [OF prepared])
    fix x
    let ?ready = "withIndex d0 name (Some (indexDone env file sql))"
    have R': "\<And>j. indexProgress env file sql j \<Longrightarrow> R (withIndex d0 name j)" by (rule R)
    have build: "leads (\<lambda>d. d = withIndex d0 name (if x then Some (indexDone env file sql) else None))
        (if x then finish () else followedBy (createIndex build body name)
          (\<lambda>_. markConcurrentIndexReady name (concurrentIndexMarker env file (sha256 env sql)))) (\<lambda>_ d. d = ?ready) R"
    proof (cases x)
      case True
      then show ?thesis by (auto intro: leads_finish)
    next
      case False
      have "leads (\<lambda>d. d = withIndex d0 name None) (followedBy (createIndex build body name)
          (\<lambda>_. markConcurrentIndexReady name (concurrentIndexMarker env file (sha256 env sql)))) (\<lambda>_ d. d = ?ready) R"
        by (rule leads_followedBy [OF create_leads mark_leads]) (erule R')+
      with False show ?thesis by simp
    qed
    show "leads (\<lambda>d. d = withIndex d0 name (if x then Some (indexDone env file sql) else None))
        (followedBy (if x then finish () else followedBy (createIndex build body name)
            (\<lambda>_. markConcurrentIndexReady name (concurrentIndexMarker env file (sha256 env sql))))
          (\<lambda>_. insertHistory file (sha256 env sql)))
        (\<lambda>_ d. d = ?ready\<lparr>md_history := Some (h @ [(file, sha256 env sql)])\<rparr>) R"
      by (rule leads_followedBy [OF build insert_leads]) (use assms in \<open>auto simp: indexProgress_def intro!: R'\<close>)
  qed
qed

section \<open>All scripts\<close>

definition underway :: "'s migrationEnv \<Rightarrow> (jsstring \<times> jsstring) list \<Rightarrow> 's \<times> indexTable \<Rightarrow> bool \<Rightarrow> nat \<Rightarrow> 's migrationDb \<Rightarrow> bool" where
  "underway env fs x l k d \<longleftrightarrow> migratedTo env fs x k d \<and> md_history d = Some (recorded env (take k fs)) \<and> md_locked d = l"

lemma recorded_lookup:
  assumes "distinct (map fst fs)" and "j < length fs"
  shows "map_of (recorded env (take k fs)) (fst (fs ! j)) = (if j < k then Some (sha256 env (snd (fs ! j))) else None)"
proof -
  have keys: "map fst (recorded env (take k fs)) = take k (map fst fs)"
    by (simp add: recorded_def take_map case_prod_unfold)
  then have "distinct (map fst (recorded env (take k fs)))"
    using assms(1) by (simp add: distinct_take)
  moreover have "(fst (fs ! j), sha256 env (snd (fs ! j))) \<in> set (recorded env (take k fs))" if "j < k"
    using that assms(2) by (force simp: recorded_def case_prod_unfold in_set_conv_nth)
  moreover have "fst (fs ! j) \<notin> set (take k (map fst fs))" if "\<not> j < k"
  proof
    assume "fst (fs ! j) \<in> set (take k (map fst fs))"
    then obtain m where "m < k" "m < length fs" "map fst fs ! m = map fst fs ! j"
      using assms(2) by (auto simp: in_set_conv_nth)
    then show False using assms that nth_eq_iff_index_eq [of "map fst fs" m j] by simp
  qed
  ultimately show ?thesis
    using keys by (auto simp: map_of_eq_None_iff simp flip: set_map)
qed

text \<open>Between two scripts: the indexes are as they should be.\<close>

definition settled :: "'s migrationEnv \<Rightarrow> (jsstring \<times> jsstring) list \<Rightarrow> 's \<times> indexTable \<Rightarrow> bool \<Rightarrow> nat \<Rightarrow> 's migrationDb \<Rightarrow> bool" where
  "settled env fs x l k d \<longleftrightarrow> underway env fs x l k d \<and> specRun env (take k fs) x = Some (md_schema d, md_indexes d)"

lemma migratedTo_step:
  assumes "k < length fs" and "specRun env (take k fs) x = Some (s, ix)"
    and "specStep env (fs ! k) (s, ix) = Some (md_schema d, md_indexes d)"
    and "md_history d = Some (recorded env (take (Suc k) fs))" and "md_locked d = l"
  shows "settled env fs x l (Suc k) d"
  using assms by (simp add: settled_def underway_def migratedTo_def take_Suc_conv_app_nth specRun_append)

lemma select_leads:
  assumes "md_history d0 = Some h" and "R d0"
  shows "leads (\<lambda>d. d = d0) (selectChecksum file) (\<lambda>c d. c = map_of h file \<and> d = d0) R"
  unfolding selectChecksum_def by (rule leads_statement) (use assms in auto)

lemma applyFile_reads:
  assumes "parseMigration sql = Inr mode" and "md_history d0 = Some h" and "R d0"
    and "map_of h file = None \<Longrightarrow> leads (\<lambda>d. d = d0)
      (case mode of Transactional body \<Rightarrow> inTransaction (followedBy (executeScript env body) (\<lambda>_. insertHistory file (sha256 env sql)))
       | ConcurrentIndex body name \<Rightarrow> applyIndex env build file (sha256 env sql) body name) Q R"
    and "map_of h file = Some (sha256 env sql) \<Longrightarrow> Q () d0"
  shows "leads (\<lambda>d. d = d0) (applyFile env build (file, sql)) Q R"
proof -
  have "leads (\<lambda>d. d = d0) (followedBy (selectChecksum file) (\<lambda>applied.
      case applied of
        Some c \<Rightarrow> if c \<noteq> sha256 env sql then raise (ChecksumChanged file) else finish ()
      | None \<Rightarrow> (case mode of
           Transactional body \<Rightarrow> inTransaction (followedBy (executeScript env body) (\<lambda>_. insertHistory file (sha256 env sql)))
         | ConcurrentIndex body name \<Rightarrow> applyIndex env build file (sha256 env sql) body name))) Q R"
  proof (rule leads_followedBy)
    show "leads (\<lambda>d. d = d0) (selectChecksum file) (\<lambda>c d. c = map_of h file \<and> d = d0) R"
      by (rule select_leads) (rule assms(2), rule assms(3))
    fix c
    show "leads (\<lambda>d. c = map_of h file \<and> d = d0) (case c of
        Some c \<Rightarrow> if c \<noteq> sha256 env sql then raise (ChecksumChanged file) else finish ()
      | None \<Rightarrow> (case mode of
           Transactional body \<Rightarrow> inTransaction (followedBy (executeScript env body) (\<lambda>_. insertHistory file (sha256 env sql)))
         | ConcurrentIndex body name \<Rightarrow> applyIndex env build file (sha256 env sql) body name)) Q R"
    proof (cases c)
      case None
      then show ?thesis
        using assms(4) by (cases "map_of h file") (simp_all add: leads_def)
    next
      case (Some v)
      then show ?thesis
        using assms(3,5) by (auto simp: leads_def finish_def raise_def)
    qed
  qed
  then show ?thesis by (simp add: applyFile_def assms(1) Let_def)
qed

lemma indexDone_iff:
  "usable i \<and> ix_marker i = Some (concurrentIndexMarker env file (sha256 env sql)) \<longleftrightarrow> i = indexDone env file sql"
  by (cases i) (auto simp: usable_def indexDone_def newIndex_def)

lemma transactional_leads:
  assumes h: "md_history d0 = Some h" "map_of h file = None" and R: "R d0"
    and Q: "\<And>s j. executeSql env body (md_schema d0, md_indexes d0) = Inr (s, j) \<Longrightarrow>
      Q () (d0\<lparr>md_schema := s, md_indexes := j, md_history := Some (h @ [(file, c)])\<rparr>)"
  shows "leads (\<lambda>d. d = d0) (inTransaction (followedBy (executeScript env body) (\<lambda>_. insertHistory file c))) Q R"
proof (rule leads_inTransaction, rule leads_followedBy)
  let ?ran = "\<lambda>d. \<exists>s j. executeSql env body (md_schema d0, md_indexes d0) = Inr (s, j) \<and> d = d0\<lparr>md_schema := s, md_indexes := j\<rparr>"
  show "leads (\<lambda>d. d = d0) (executeScript env body) (\<lambda>_. ?ran) (\<lambda>_. True)"
    unfolding executeScript_def by (rule leads_statement) (auto split: sum.splits)
  show "leads ?ran (insertHistory file c) Q (\<lambda>_. True)"
    unfolding insertHistory_def by (rule leads_statement) (use h Q in auto)
qed (rule R)

text \<open>An index that is usable before the script runs: only the runner's own one is taken for it.\<close>

lemma usable_leads:
  assumes i: "md_indexes d0 name = Some i" "usable i" and h: "md_history d0 = Some h" "map_of h file = None" and R: "R d0"
    and Q: "i = indexDone env file sql \<Longrightarrow> Q () (d0\<lparr>md_history := Some (h @ [(file, sha256 env sql)])\<rparr>)"
  shows "leads (\<lambda>d. d = d0) (applyIndex env build file (sha256 env sql) body name) Q R"
  unfolding applyIndex_def Let_def
proof (rule leads_followedBy)
  let ?m = "concurrentIndexMarker env file (sha256 env sql)"
  let ?taken = "\<lambda>y d. y \<and> i = indexDone env file sql \<and> d = d0"
  show "leads (\<lambda>d. d = d0) (prepareConcurrentIndexTarget name ?m) ?taken R"
    unfolding prepareConcurrentIndexTarget_def concurrentIndexState_def
  proof (rule leads_followedBy)
    show "leads (\<lambda>d. d = d0) (statement (\<lambda>d. (Inr (md_indexes d name), d))) (\<lambda>y d. y = Some i \<and> d = d0) R"
      by (rule leads_statement) (use i R in auto)
    show "leads (\<lambda>d. y = Some i \<and> d = d0)
        (case y of None \<Rightarrow> finish False
         | Some i \<Rightarrow> if usable i then (if ix_marker i \<noteq> Some ?m then raise (MarkerMismatch name) else finish True)
             else followedBy (dropIndex name) (\<lambda>_. finish False)) ?taken R" for y
      using i R indexDone_iff [of i] by (auto simp: leads_def finish_def raise_def split: option.split)
  qed
  fix y
  have "leads (\<lambda>d. d = d0) (insertHistory file (sha256 env sql))
      (\<lambda>_ d. d = d0\<lparr>md_history := Some (h @ [(file, sha256 env sql)])\<rparr>) R"
    by (rule insert_leads) (rule h, rule h, rule R)
  then have "i = indexDone env file sql \<Longrightarrow> leads (\<lambda>d. d = d0) (insertHistory file (sha256 env sql)) Q R"
    by (rule leads_conseq) (use Q in auto)
  then show "leads (?taken y) (followedBy
      (if y then finish () else followedBy (createIndex build body name) (\<lambda>_. markConcurrentIndexReady name ?m))
      (\<lambda>_. insertHistory file (sha256 env sql))) Q R"
    by (cases y) (auto simp: leads_def followedBy_def finish_def)
qed

lemma applyFile_next:
  assumes fs: "distinct (map fst fs)" "k < length fs" and d0: "underway env fs x l k d0"
  shows "leads (\<lambda>d. d = d0) (applyFile env build (fs ! k)) (\<lambda>_. settled env fs x l (Suc k)) (underway env fs x l k)"
proof -
  let ?Q = "\<lambda>_. settled env fs x l (Suc k)" and ?R = "underway env fs x l k"
  obtain fname sql where f: "fs ! k = (fname, sql)" by (cases "fs ! k")
  let ?h = "recorded env (take k fs)" and ?h' = "recorded env (take k fs) @ [(fname, sha256 env sql)]"
  have h: "md_history d0 = Some ?h" "md_locked d0 = l" using d0 by (auto simp: underway_def)
  have new: "map_of ?h fname = None" using recorded_lookup [OF fs, of env k] f by simp
  have next_h: "?h' = recorded env (take (Suc k) fs)"
    using fs(2) f by (simp add: take_Suc_conv_app_nth recorded_append) (simp add: recorded_def)
  obtain ix where spec: "specRun env (take k fs) x = Some (md_schema d0, ix)"
    and now: "md_indexes d0 = ix \<or> inProgress env (fname, sql) ix (md_indexes d0)"
    using d0 f by (auto simp: underway_def migratedTo_def)
  have final: "settled env fs x l (Suc k) (d0\<lparr>md_schema := s, md_indexes := j, md_history := Some ?h'\<rparr>)"
    if "specStep env (fname, sql) (md_schema d0, ix) = Some (s, j)" for s j
    using that by (intro migratedTo_step [OF fs(2) spec]) (simp_all add: f h next_h)
  show ?thesis
  proof (cases "parseMigration sql")
    case (Inl e)
    then show ?thesis using d0 by (simp add: f applyFile_def leads_def raise_def)
  next
    case (Inr mode)
    show ?thesis
      unfolding f
    proof (rule applyFile_reads [where mode = mode and h = ?h])
      show "leads (\<lambda>d. d = d0) (case mode of
           Transactional body \<Rightarrow> inTransaction (followedBy (executeScript env body) (\<lambda>_. insertHistory fname (sha256 env sql)))
         | ConcurrentIndex body name \<Rightarrow> applyIndex env build fname (sha256 env sql) body name) ?Q ?R"
      proof (cases mode)
        case (Transactional body)
        then have "md_indexes d0 = ix" using now Inr by (auto simp: inProgress_def)
        then show ?thesis
          unfolding Transactional migrationMode.case
          by (intro transactional_leads [OF h(1) new]) (use d0 Inr Transactional in \<open>auto intro: final\<close>)
      next
        case (ConcurrentIndex body name)
        show ?thesis
        proof (cases "usableIndex ix name")
          case True
          then obtain i where i: "ix name = Some i" "usable i" by (auto simp: usableIndex_def split: option.splits)
          have ix: "md_indexes d0 = ix" using now Inr ConcurrentIndex True by (auto simp: inProgress_def)
          have same: "d0\<lparr>md_schema := md_schema d0, md_indexes := ix, md_history := Some ?h'\<rparr> = d0\<lparr>md_history := Some ?h'\<rparr>"
            using ix by (cases d0) simp
          have "settled env fs x l (Suc k) (d0\<lparr>md_history := Some ?h'\<rparr>)" if "i = indexDone env fname sql"
            using final [of "md_schema d0" ix, unfolded same] that True i Inr ConcurrentIndex by simp
          then show ?thesis
            unfolding ConcurrentIndex migrationMode.case
            by (intro usable_leads [where i = i] h(1) new) (use i ix d0 h new in auto)
        next
          case False
          then have others: "(md_indexes d0)(name := j) = ix(name := j)" for j
            using now Inr ConcurrentIndex by (auto simp: inProgress_def)
          have prog: "indexProgress env fname sql (md_indexes d0 name)"
            using now Inr ConcurrentIndex False
            by (auto simp: inProgress_def usableIndex_def indexProgress_def split: option.splits)
          have R: "?R (withIndex d0 name j)" if "indexProgress env fname sql j" for j
            using that False Inr ConcurrentIndex d0 spec f fs(2)
            by (auto simp: underway_def migratedTo_def inProgress_def others)
          have "leads (\<lambda>d. d = withIndex d0 name (md_indexes d0 name)) (applyIndex env build fname (sha256 env sql) body name)
              (\<lambda>_ d. d = (withIndex d0 name (Some (indexDone env fname sql)))\<lparr>md_history := Some ?h'\<rparr>) ?R"
            by (rule applyIndex_leads [OF prog h(1) new]) (erule R)
          moreover have "settled env fs x l (Suc k) ((withIndex d0 name (Some (indexDone env fname sql)))\<lparr>md_history := Some ?h'\<rparr>)"
            using final [of "md_schema d0" "ix(name := Some (indexDone env fname sql))"] False Inr ConcurrentIndex by (simp add: others)
          ultimately show ?thesis
            unfolding ConcurrentIndex migrationMode.case by (elim leads_conseq) auto
        qed
      qed
    qed (use Inr h d0 new in auto)
  qed
qed

lemma applyFile_skip:
  assumes fs: "distinct (map fst fs)" "j < k" "k \<le> length fs" and d0: "underway env fs x l k d0"
  shows "leads (\<lambda>d. d = d0) (applyFile env build (fs ! j)) (\<lambda>_ d. d = d0) (underway env fs x l k)"
proof -
  obtain fname sql where f: "fs ! j = (fname, sql)" by (cases "fs ! j")
  have h: "md_history d0 = Some (recorded env (take k fs))" using d0 by (simp add: underway_def)
  have old: "map_of (recorded env (take k fs)) fname = Some (sha256 env sql)"
    using recorded_lookup [of fs j env k] fs f by simp
  show ?thesis
  proof (cases "parseMigration sql")
    case (Inl e)
    then show ?thesis using d0 by (simp add: f applyFile_def leads_def raise_def)
  next
    case (Inr mode)
    show ?thesis
      unfolding f by (rule applyFile_reads [OF Inr h]) (use old d0 in auto)
  qed
qed

lemma applyFiles_leads:
  assumes fs: "distinct (map fst fs)" and d0: "underway env fs x l k d0" and j: "j \<le> k"
  shows "leads (\<lambda>d. d = d0) (applyFiles env build (drop j fs)) (\<lambda>_. underway env fs x l (length fs))
    (\<lambda>d. \<exists>k. underway env fs x l k d)"
  using d0 j
proof (induction "length fs - j" arbitrary: j k d0)
  case 0
  then have "k = length fs" by (auto simp: underway_def migratedTo_def)
  with 0 show ?case by (auto simp: intro: leads_finish)
next
  case (Suc m)
  have k: "k \<le> length fs" and j: "j < length fs" using Suc.prems Suc.hyps(2) by (auto simp: underway_def migratedTo_def)
  let ?ok = "\<lambda>d. \<exists>k. Suc j \<le> k \<and> underway env fs x l k d"
  have head: "leads (\<lambda>d. d = d0) (applyFile env build (fs ! j)) (\<lambda>_. ?ok) (\<lambda>d. \<exists>k. underway env fs x l k d)"
  proof (cases "j = k")
    case True
    show ?thesis
      unfolding True by (rule leads_conseq [OF applyFile_next [OF fs _ Suc.prems(1)]]) (use j True in \<open>auto simp: settled_def\<close>)
  next
    case False
    then show ?thesis
      by (intro leads_conseq [OF applyFile_skip [OF fs _ k Suc.prems(1)]]) (use Suc.prems False in \<open>auto intro!: exI [of _ k]\<close>)
  qed
  have tail: "leads ?ok (applyFiles env build (drop (Suc j) fs)) (\<lambda>_. underway env fs x l (length fs))
      (\<lambda>d. \<exists>k. underway env fs x l k d)"
    using Suc.hyps(1) [of "Suc j"] Suc.hyps(2) by (fastforce simp: leads_def)
  have "drop j fs = fs ! j # drop (Suc j) fs" using j by (simp add: Cons_nth_drop_Suc)
  then show ?case using leads_followedBy [OF head tail] by simp
qed

section \<open>Runs\<close>

fun migrateRuns :: "'s migrationEnv \<Rightarrow> (jsstring \<times> jsstring) list \<Rightarrow> (nat \<times> (jsstring \<Rightarrow> 's \<Rightarrow> buildResult)) list \<Rightarrow>
    's migrationDb \<Rightarrow> 's migrationDb" where
  "migrateRuns env directory [] d = d"
| "migrateRuns env directory ((n, build) # runs) d = migrateRuns env directory runs (snd (migrate env directory n build d))"

lemma distinct_migrationFiles: "distinct (map fst directory) \<Longrightarrow> distinct (map fst (migrationFiles directory))"
proof -
  assume "distinct (map fst directory)"
  then have "distinct (map fst (filter P directory))" for P by (rule distinct_map_filter)
  then have "distinct directory" "inj_on fst (set (filter P directory))" and "distinct (filter P directory)" for P
    using \<open>distinct (map fst directory)\<close> by (auto simp: distinct_map)
  then show ?thesis
    by (auto simp: migrationFiles_def distinct_map)
qed

lemma migratedTo_locked [simp]: "migratedTo env fs x k (d\<lparr>md_locked := b\<rparr>) = migratedTo env fs x k d"
  by (simp add: migratedTo_def)

lemma createHistory_leads:
  assumes "migratedTo env fs x k d0" and "md_locked d0"
  shows "leads (\<lambda>d. d = d0) createHistory (\<lambda>_. underway env fs x True k) (\<lambda>d. d = d0)"
  unfolding createHistory_def
  by (rule leads_statement)
    (use assms in \<open>auto simp: underway_def migratedTo_def recorded_def split: option.splits\<close>)

text \<open>What runs do while they hold the lock.\<close>

lemma body_leads:
  assumes "distinct (map fst fs)" and "migratedTo env fs x k d0" and "md_locked d0"
  shows "leads (\<lambda>d. d = d0) (followedBy createHistory (\<lambda>_. applyFiles env build fs))
    (\<lambda>_. underway env fs x True (length fs)) (\<lambda>d. \<exists>k. migratedTo env fs x k d)"
proof (rule leads_followedBy)
  show "leads (\<lambda>d. d = d0) createHistory (\<lambda>_ d. underway env fs x True k d) (\<lambda>d. \<exists>k. migratedTo env fs x k d)"
    by (rule leads_conseq [OF createHistory_leads [OF assms(2,3)]]) (use assms in auto)
  have "leads (\<lambda>d. d = d1) (applyFiles env build (drop 0 fs)) (\<lambda>_. underway env fs x True (length fs))
      (\<lambda>d. \<exists>k. underway env fs x True k d)" if "underway env fs x True k d1" for d1
    by (rule applyFiles_leads [OF assms(1) that]) simp
  then show "leads (underway env fs x True k) (applyFiles env build fs) (\<lambda>_. underway env fs x True (length fs))
      (\<lambda>d. \<exists>k. migratedTo env fs x k d)" for y :: unit
    unfolding leads_def by (fastforce simp: underway_def elim: endsIn_mono)
qed

lemma migrate_leads:
  assumes fs: "fs = migrationFiles directory" "distinct (map fst directory)" and d: "migratedTo env fs x k d" "\<not> md_locked d"
    and m: "migrate env directory n build d = (r, d')"
  shows "\<not> md_locked d' \<and> (\<exists>k. migratedTo env fs x k d') \<and> (r = Done () \<longrightarrow> migratedTo env fs x (length fs) d' \<and> md_history d' \<noteq> None)"
proof (cases "n = 0")
  case True
  then show ?thesis using m d by (auto simp: migrate_def runMigrations_def migrationLock_def statement_def followedBy_def)
next
  case False
  let ?body = "followedBy createHistory (\<lambda>_. applyFiles env build fs)"
  obtain q k' d1 where b: "?body (n - 1, d\<lparr>md_locked := True\<rparr>) = (q, k', d1)" by (metis prod_cases3)
  have "endsIn (\<lambda>_. underway env fs x True (length fs)) (\<lambda>d. \<exists>k. migratedTo env fs x k d) (q, k', d1)"
    unfolding b [symmetric]
    using body_leads [OF distinct_migrationFiles [OF fs(2)], folded fs(1), of env x k "d\<lparr>md_locked := True\<rparr>" build] d
    by (simp add: leads_def)
  then show ?thesis
    using m False b
    by (cases q; cases "k' = 0")
      (auto simp: migrate_def runMigrations_def migrationLock_def migrationUnlock_def statement_def followedBy_def
        andFinally_def underway_def fs(1))
qed

lemma migrateRuns_leads:
  assumes "fs = migrationFiles directory" "distinct (map fst directory)"
    and "\<exists>k. migratedTo env fs x k d" "\<not> md_locked d"
  shows "\<not> md_locked (migrateRuns env directory runs d) \<and> (\<exists>k. migratedTo env fs x k (migrateRuns env directory runs d))"
  using assms(3,4)
proof (induction runs arbitrary: d)
  case (Cons run runs)
  obtain n build where run: "run = (n, build)" by (cases run)
  obtain r d' where m: "migrate env directory n build d = (r, d')" by (cases "migrate env directory n build d")
  from Cons.prems obtain k where "migratedTo env fs x k d" by blast
  from migrate_leads [OF assms(1,2) this Cons.prems(2) m] Cons.IH [of d'] show ?case by (auto simp: run m)
qed auto

lemma fresh_migratedTo:
  "md_history d = None \<Longrightarrow> migratedTo env fs (md_schema d, md_indexes d) 0 d"
  by (simp add: migratedTo_def)

text \<open>C15. Migrations are applied exactly once. Whatever runs have happened, cut off after any statement or not and with any
  index failing to build, the scripts that are recorded are the first ones of the directory in the order of their names, each
  once and with its checksum; the schema is the result of exactly these scripts, the indexes too except for that of the next
  script, and the lock is free. A run that returns has applied all of them.\<close>

theorem migrations_exactly_once:
  assumes "distinct (map fst directory)" and "md_history d0 = None" and "\<not> md_locked d0"
    and d: "d = migrateRuns env directory runs d0" and fs: "fs = migrationFiles directory"
  shows "\<not> md_locked d \<and>
    (\<exists>k ix. k \<le> length fs \<and>
       (md_history d = Some (map (\<lambda>(file, sql). (file, sha256 env sql)) (take k fs)) \<or> md_history d = None \<and> k = 0) \<and>
       specRun env (take k fs) (md_schema d0, md_indexes d0) = Some (md_schema d, ix) \<and>
       (md_indexes d = ix \<or> k < length fs \<and> inProgress env (fs ! k) ix (md_indexes d))) \<and>
    (\<forall>n build d'. migrate env directory n build d = (Done (), d') \<longrightarrow>
       md_history d' = Some (map (\<lambda>(file, sql). (file, sha256 env sql)) fs) \<and>
       specRun env fs (md_schema d0, md_indexes d0) = Some (md_schema d', md_indexes d'))"
proof (intro conjI allI impI)
  let ?x = "(md_schema d0, md_indexes d0)"
  have runs: "\<not> md_locked d \<and> (\<exists>k. migratedTo env fs ?x k d)"
    unfolding d using fresh_migratedTo [OF assms(2)] assms(3) by (intro migrateRuns_leads [OF fs assms(1)]) blast+
  then show "\<not> md_locked d" by blast
  from runs obtain k where k: "migratedTo env fs ?x k d" by blast
  then show "\<exists>k ix. k \<le> length fs \<and>
       (md_history d = Some (map (\<lambda>(file, sql). (file, sha256 env sql)) (take k fs)) \<or> md_history d = None \<and> k = 0) \<and>
       specRun env (take k fs) ?x = Some (md_schema d, ix) \<and>
       (md_indexes d = ix \<or> k < length fs \<and> inProgress env (fs ! k) ix (md_indexes d))"
    by (fastforce simp: migratedTo_def recorded_def split: option.splits)
  fix n build d'
  assume m: "migrate env directory n build d = (Done (), d')"
  have finished: "migratedTo env fs ?x (length fs) d'" "md_history d' \<noteq> None"
    using migrate_leads [OF fs assms(1) k _ m] runs by auto
  then show "md_history d' = Some (map (\<lambda>(file, sql). (file, sha256 env sql)) fs)"
    "specRun env fs ?x = Some (md_schema d', md_indexes d')"
    by (auto simp: migratedTo_def recorded_def)
qed

section \<open>Runs that are not cut off\<close>

text \<open>An index that was built and not yet marked: the runner takes it for somebody else's.\<close>

definition unmarked :: "(jsstring \<times> jsstring) list \<Rightarrow> nat \<Rightarrow> 's migrationDb \<Rightarrow> bool" where
  "unmarked fs k d \<longleftrightarrow> k < length fs \<and>
     (\<exists>body name. parseMigration (snd (fs ! k)) = Inr (ConcurrentIndex body name) \<and> md_indexes d name = Some newIndex)"

lemma specRun_parses:
  "specRun env fs x = Some y \<Longrightarrow> j < length fs \<Longrightarrow> \<exists>mode. parseMigration (snd (fs ! j)) = Inr mode"
proof (induction fs arbitrary: x j)
  case (Cons f fs)
  obtain fname sql where f: "f = (fname, sql)" by (cases f)
  from Cons.prems(1) obtain z where "specStep env f x = Some z" "specRun env fs z = Some y"
    by (auto simp: bind_eq_Some_conv)
  with Cons show ?case
    by (cases x; cases j) (auto simp: f split: sum.splits)
qed simp

lemma settled_not_unmarked:
  assumes "settled env fs x l k d" and "specRun env fs x = Some y"
  shows "\<not> unmarked fs k d"
proof
  assume "unmarked fs k d"
  then obtain body name where k: "k < length fs" and p: "parseMigration (snd (fs ! k)) = Inr (ConcurrentIndex body name)"
    and i: "md_indexes d name = Some newIndex" by (auto simp: unmarked_def)
  have "specStep env (fs ! k) (md_schema d, md_indexes d) = None"
    using p i by (cases "fs ! k") (simp add: usableIndex_def)
  moreover have "specRun env (take (Suc k) fs) x \<noteq> None"
    using assms(2) specRun_append [of env "take (Suc k) fs" "drop (Suc k) fs" x]
    by (cases "specRun env (take (Suc k) fs) x") auto
  ultimately show False
    using assms(1) k by (simp add: settled_def take_Suc_conv_app_nth specRun_append)
qed

lemma skip_completes:
  assumes "distinct (map fst fs)" and "underway env fs x l k d" and "j < k" and "0 < n"
  shows "applyFile env build (fs ! j) (n, d) = (Done (), n - 1, d)"
proof -
  obtain fname sql where f: "fs ! j = (fname, sql)" by (cases "fs ! j")
  have k: "k \<le> length fs" and h: "md_history d = Some (recorded env (take k fs))"
    using assms(2) by (auto simp: underway_def migratedTo_def)
  obtain y where "specRun env (take k fs) x = Some y" using assms(2) by (auto simp: underway_def migratedTo_def)
  then obtain mode where "parseMigration sql = Inr mode"
    using specRun_parses [of env "take k fs" x y j] assms(3) k f by auto
  moreover have "map_of (recorded env (take k fs)) fname = Some (sha256 env sql)"
    using recorded_lookup [OF assms(1), of j env k] assms(3) k f by simp
  ultimately show ?thesis
    using assms(4) h by (simp add: f applyFile_def Let_def followedBy_def selectChecksum_def statement_def finish_def)
qed

lemma skips_complete:
  assumes "distinct (map fst fs)" and "underway env fs x l k d" and "j \<le> k" and "k - j \<le> n"
  shows "applyFiles env build (drop j fs) (n, d) = applyFiles env build (drop k fs) (n - (k - j), d)"
  using assms(3,4)
proof (induction "k - j" arbitrary: j n)
  case (Suc m)
  have j: "j < k" "j < length fs" using Suc.hyps(2) assms(2) by (auto simp: underway_def migratedTo_def)
  have "drop j fs = fs ! j # drop (Suc j) fs" using j by (simp add: Cons_nth_drop_Suc)
  moreover have "applyFile env build (fs ! j) (n, d) = (Done (), n - 1, d)"
    using Suc.prems Suc.hyps(2) by (intro skip_completes [OF assms(1,2) j(1)]) simp
  ultimately have "applyFiles env build (drop j fs) (n, d) = applyFiles env build (drop (Suc j) fs) (n - 1, d)"
    by (simp add: followedBy_def)
  also have "\<dots> = applyFiles env build (drop k fs) (n - 1 - (k - Suc j), d)"
    using Suc.hyps(2) Suc.prems j by (intro Suc.hyps(1)) auto
  finally show ?case using j Suc.prems by (simp add: Suc_diff_Suc flip: diff_diff_left)
qed simp

lemmas statements = Let_def followedBy_def statement_def finish_def raise_def concurrentIndexState_def dropIndex_def createIndex_def
  commentOnIndex_def insertHistory_def selectChecksum_def executeScript_def

lemma applyIndex_completes:
  assumes "7 \<le> n" and "md_history d = Some h" and "map_of h file = None" and "\<And>e s. build e s = Built"
    and "md_indexes d name = Some (indexDone env file sql) \<or> \<not> usableIndex (md_indexes d) name"
  shows "\<exists>k d'. applyIndex env build file (sha256 env sql) body name (n, d) = (Done (), k, d') \<and> n \<le> k + 7"
proof (cases "md_indexes d name")
  case None
  with assms show ?thesis
    by (simp add: applyIndex_def prepareConcurrentIndexTarget_def markConcurrentIndexReady_def statements)
next
  case (Some i)
  show ?thesis
  proof (cases "usable i")
    case True
    with assms Some have "i = indexDone env file sql" by (auto simp: usableIndex_def)
    with assms Some show ?thesis
      by (simp add: applyIndex_def prepareConcurrentIndexTarget_def statements)
  next
    case False
    with assms Some show ?thesis
      by (simp add: applyIndex_def prepareConcurrentIndexTarget_def markConcurrentIndexReady_def statements)
  qed
qed

lemma next_completes:
  assumes fs: "distinct (map fst fs)" "k < length fs" and d: "underway env fs x l k d" "\<not> unmarked fs k d"
    and y: "specRun env fs x = Some y" and build: "\<And>e s. build e s = Built" and n: "8 \<le> n"
  shows "\<exists>n' d'. applyFile env build (fs ! k) (n, d) = (Done (), n', d') \<and> n \<le> n' + 8 \<and> settled env fs x l (Suc k) d'"
proof -
  obtain fname sql where f: "fs ! k = (fname, sql)" by (cases "fs ! k")
  have h: "md_history d = Some (recorded env (take k fs))" using d by (simp add: underway_def)
  have new: "map_of (recorded env (take k fs)) fname = None" using recorded_lookup [OF fs, of env k] f by simp
  obtain ix where ix: "specRun env (take k fs) x = Some (md_schema d, ix)"
    and now: "md_indexes d = ix \<or> inProgress env (fname, sql) ix (md_indexes d)"
    using d(1) f by (auto simp: underway_def migratedTo_def)
  have step: "specStep env (fname, sql) (md_schema d, ix) \<noteq> None"
    using y ix specRun_append [of env "take k fs" "fs ! k # drop (Suc k) fs" x] id_take_nth_drop [OF fs(2)] f
    by (cases "specStep env (fname, sql) (md_schema d, ix)") auto
  obtain mode where mode: "parseMigration sql = Inr mode"
    using specRun_parses [OF y fs(2)] f by auto
  have "\<exists>n' d'. applyFile env build (fs ! k) (n, d) = (Done (), n', d') \<and> n \<le> n' + 8"
  proof (cases mode)
    case (Transactional body)
    then have "md_indexes d = ix" using now mode by (auto simp: inProgress_def)
    then obtain s j where "executeSql env body (md_schema d, md_indexes d) = Inr (s, j)"
      using step mode Transactional by (auto split: sum.splits)
    then show ?thesis
      using n h new by (simp add: f applyFile_def mode Transactional statements inTransaction_def)
  next
    case (ConcurrentIndex body name)
    have "md_indexes d name = Some (indexDone env fname sql) \<or> \<not> usableIndex (md_indexes d) name"
    proof (cases "usableIndex ix name")
      case True
      then have "md_indexes d = ix" using now mode ConcurrentIndex by (auto simp: inProgress_def)
      then show ?thesis
        using step mode ConcurrentIndex indexDone_iff True
        by (auto simp: usableIndex_def split: option.splits if_splits)
    next
      case False
      then show ?thesis
        using now mode ConcurrentIndex d(2) fs(2) f
        by (auto simp: inProgress_def unmarked_def indexProgress_def usableIndex_def split: option.splits)
    qed
    moreover have "7 \<le> n - 1" using n by simp
    ultimately obtain n' d' where "applyIndex env build fname (sha256 env sql) body name (n - 1, d) = (Done (), n', d')" "n - 1 \<le> n' + 7"
      using applyIndex_completes [OF _ h new build] by meson
    then show ?thesis
      using n h new by (simp add: f applyFile_def mode ConcurrentIndex Let_def followedBy_def selectChecksum_def statement_def)
  qed
  then obtain n' d' where run: "applyFile env build (fs ! k) (n, d) = (Done (), n', d')" "n \<le> n' + 8" by blast
  then have "settled env fs x l (Suc k) d'"
    using applyFile_next [OF fs d(1), of build] unfolding leads_def by (metis endsIn_simps(1))
  with run show ?thesis by blast
qed

lemma rest_completes:
  assumes fs: "distinct (map fst fs)" and y: "specRun env fs x = Some y" and build: "\<And>e s. build e s = Built"
    and d: "underway env fs x l k d" "\<not> unmarked fs k d" and n: "8 * (length fs - k) \<le> n"
  shows "\<exists>n' d'. applyFiles env build (drop k fs) (n, d) = (Done (), n', d') \<and> n \<le> n' + 8 * (length fs - k)"
  using d n
proof (induction "length fs - k" arbitrary: k n d)
  case 0
  then show ?case by (auto simp: finish_def)
next
  case (Suc m)
  then have k: "k < length fs" by simp
  obtain n' d' where run: "applyFile env build (fs ! k) (n, d) = (Done (), n', d')" "n \<le> n' + 8" "settled env fs x l (Suc k) d'"
    using next_completes [where build = build, OF fs k Suc.prems(1,2) y build, of n] Suc.prems(3) k by fastforce
  obtain n'' d'' where "applyFiles env build (drop (Suc k) fs) (n', d') = (Done (), n'', d'')" "n' \<le> n'' + 8 * (length fs - Suc k)"
  proof -
    have "underway env fs x l (Suc k) d'" "\<not> unmarked fs (Suc k) d'"
      using run(3) settled_not_unmarked [OF run(3) y] by (auto simp: settled_def)
    moreover have budget: "8 * (length fs - Suc k) \<le> n'" using run(2) Suc.prems(3) k by linarith
    moreover have "m = length fs - Suc k" using Suc.hyps(2) by linarith
    ultimately obtain n'' d'' where "applyFiles env build (drop (Suc k) fs) (n', d') = (Done (), n'', d'')"
      "n' \<le> n'' + 8 * (length fs - Suc k)"
      using Suc.hyps(1) [of "Suc k" d' n'] by blast
    then show ?thesis by (rule that)
  qed
  moreover have "drop k fs = fs ! k # drop (Suc k) fs" using k by (simp add: Cons_nth_drop_Suc)
  ultimately show ?case using run k by (auto simp: followedBy_def)
qed

lemma unmarked_raises:
  assumes fs: "distinct (map fst fs)" and d: "underway env fs x l k d" "unmarked fs k d" and n: "2 \<le> n"
  shows "\<exists>name n'. applyFiles env build (drop k fs) (n, d) = (Raised (MarkerMismatch name), n', d) \<and> n \<le> n' + 2"
proof -
  obtain body name where k: "k < length fs" and p: "parseMigration (snd (fs ! k)) = Inr (ConcurrentIndex body name)"
    and i: "md_indexes d name = Some newIndex" using d(2) by (auto simp: unmarked_def)
  obtain fname sql where f: "fs ! k = (fname, sql)" by (cases "fs ! k")
  have h: "md_history d = Some (recorded env (take k fs))" using d by (simp add: underway_def)
  have new: "map_of (recorded env (take k fs)) fname = None" using recorded_lookup [OF fs k, of env k] f by simp
  have "applyFile env build (fs ! k) (n, d) = (Raised (MarkerMismatch name), n - 2, d)"
    using n h new p i
    by (simp add: f applyFile_def applyIndex_def prepareConcurrentIndexTarget_def statements numeral_2_eq_2)
  moreover have "drop k fs = fs ! k # drop (Suc k) fs" using k by (simp add: Cons_nth_drop_Suc)
  ultimately show ?thesis using n by (auto simp: followedBy_def)
qed

definition recordedCount :: "'s migrationDb \<Rightarrow> nat" where
  "recordedCount d = (case md_history d of None \<Rightarrow> 0 | Some h \<Rightarrow> length h)"

lemma migratedTo_recordedCount: "migratedTo env fs x k d \<Longrightarrow> recordedCount d = k"
  by (auto simp: migratedTo_def recordedCount_def recorded_def split: option.splits)

text \<open>The state in which a run starts on the scripts.\<close>

definition started :: "'s migrationDb \<Rightarrow> 's migrationDb" where
  "started d = d\<lparr>md_locked := True, md_history := Some (case md_history d of None \<Rightarrow> [] | Some h \<Rightarrow> h)\<rparr>"

lemma started_underway: "migratedTo env fs x k d \<Longrightarrow> underway env fs x True k (started d)"
  by (auto simp: started_def underway_def migratedTo_def recorded_def split: option.splits)

lemma migrate_started:
  assumes "applyFiles env build (migrationFiles directory) (n - 2, started d) = (r, n', d')" and "2 \<le> n" and "0 < n'" and "r \<noteq> Gone"
  shows "migrate env directory n build d = (r, d'\<lparr>md_locked := False\<rparr>)"
  using assms
  by (cases r)
    (auto simp: migrate_def runMigrations_def migrationLock_def migrationUnlock_def createHistory_def statement_def
      followedBy_def andFinally_def started_def numeral_2_eq_2)

text \<open>C28. A run after interrupted ones ends as one run alone would have: if the scripts can all be applied and indexes can be
  built, a run with three statements and eight for each script, whatever runs were cut off before it, ends in the state that
  applying every script once gives, unless an earlier run went away between building an index and marking it. Then the run
  refuses the index and leaves schema and indexes as they are.\<close>

theorem migrations_resume:
  assumes "distinct (map fst directory)" and "md_history d0 = None" and "\<not> md_locked d0"
    and d: "d = migrateRuns env directory runs d0" and fs: "fs = migrationFiles directory"
    and whole: "specRun env fs (md_schema d0, md_indexes d0) = Some (s, ix)"
    and build: "\<forall>e w. build e w = Built" and n: "3 + 8 * length fs \<le> n"
  shows "if unmarked fs (recordedCount d) d
    then \<exists>name d'. migrate env directory n build d = (Raised (MarkerMismatch name), d') \<and>
      md_schema d' = md_schema d \<and> md_indexes d' = md_indexes d
    else migrate env directory n build d = (Done (), \<lparr>md_history = Some (map (\<lambda>(file, sql). (file, sha256 env sql)) fs),
      md_schema = s, md_indexes = ix, md_locked = False\<rparr>)"
proof -
  let ?x = "(md_schema d0, md_indexes d0)"
  have dist: "distinct (map fst fs)" using distinct_migrationFiles assms(1) fs by blast
  have runs: "\<not> md_locked d \<and> (\<exists>k. migratedTo env fs ?x k d)"
    unfolding d using fresh_migratedTo [OF assms(2)] assms(3) by (intro migrateRuns_leads [OF fs assms(1)]) blast+
  then obtain k where k: "migratedTo env fs ?x k d" by blast
  have count: "recordedCount d = k" and le: "k \<le> length fs"
    using migratedTo_recordedCount [OF k] k by (simp_all add: migratedTo_def)
  have u: "underway env fs ?x True k (started d)" using started_underway [OF k] .
  have same: "unmarked fs k (started d) = unmarked fs k d" by (simp add: unmarked_def started_def)
  have skip: "applyFiles env build fs (n - 2, started d) = applyFiles env build (drop k fs) (n - 2 - k, started d)"
    using skips_complete [OF dist u, of 0 "n - 2" build] n le by simp
  show ?thesis
  proof (cases "unmarked fs k d")
    case True
    then have "k < length fs" by (simp add: unmarked_def)
    then have "2 \<le> n - 2 - k" using n by linarith
    then obtain name n' where "applyFiles env build (drop k fs) (n - 2 - k, started d) = (Raised (MarkerMismatch name), n', started d)"
      "n - 2 - k \<le> n' + 2"
      using unmarked_raises [OF dist u] True same by blast
    with \<open>k < length fs\<close> have "migrate env directory n build d = (Raised (MarkerMismatch name), (started d)\<lparr>md_locked := False\<rparr>)"
      using n skip fs by (intro migrate_started [where n' = n']) auto
    with True show ?thesis by (simp add: count started_def)
  next
    case False
    have "8 * (length fs - k) \<le> n - 2 - k" using n le by linarith
    then obtain n' d' where run: "applyFiles env build (drop k fs) (n - 2 - k, started d) = (Done (), n', d')"
      "n - 2 - k \<le> n' + 8 * (length fs - k)"
      using rest_completes [where build = build, OF dist whole _ u] build False same by blast
    have "0 < n'" using run(2) n le by linarith
    then have m: "migrate env directory n build d = (Done (), d'\<lparr>md_locked := False\<rparr>)"
      using run(1) n skip fs by (intro migrate_started [where n' = n']) auto
    have "migratedTo env fs ?x (length fs) d' \<and> md_history d' \<noteq> None"
      using migrate_leads [OF fs assms(1) k _ m] runs by auto
    then have "d'\<lparr>md_locked := False\<rparr> = \<lparr>md_history = Some (map (\<lambda>(file, sql). (file, sha256 env sql)) fs),
        md_schema = s, md_indexes = ix, md_locked = False\<rparr>"
      using whole by (cases d') (auto simp: migratedTo_def recorded_def)
    with False m show ?thesis by (simp add: count)
  qed
qed

section \<open>Examples\<close>

definition sampleMigrations :: "(jsstring \<times> jsstring) list" where
  "sampleMigrations =
     [(js ''0002.sql'', nonTransactionalHeader @ [10] @ js ''CREATE INDEX CONCURRENTLY IF NOT EXISTS I ON t(b);''),
      (js ''0001.sql'', js ''CREATE TABLE users (id uuid)'')]"

definition sampleMigrationEnv :: "nat migrationEnv" where
  "sampleMigrationEnv = \<lparr>sha256 = (\<lambda>s. s), executeSql = (\<lambda>sql (n, ix). Inr (n + 1, ix))\<rparr>"

lemma sampleMigrations_files: "migrationFiles sampleMigrations = rev sampleMigrations"
  by (simp add: migrationFiles_def sampleMigrations_def endsWith_def js_def)

lemmas rx_simps = rxTest_def concurrentIndexStatement_def concurrentIndexBody_def rxSeqs_def rxWord_def rxSpaces_def rxSpaces0_def
  rxOpt_def rxChar_def rxName_def sqlIdentifier_def indexColumn_def nullPredicate_def sqlWhitespaceChar_def identifierStart_def
  identifierChar_def isLetter_def isDigit_def asciiLower_def

lemma sample_statement: "rxTest concurrentIndexStatement (js ''CREATE INDEX CONCURRENTLY IF NOT EXISTS I ON t(b);'')"
  by (simp add: rx_simps js_def)

lemma skip_five: "(skipWord ^^ 5) s = skipWord (skipWord (skipWord (skipWord (skipWord s))))"
  by (simp add: numeral_eq_Suc)

lemma sample_index: "parseMigration (snd (hd sampleMigrations)) = Inr (ConcurrentIndex (snd (hd sampleMigrations)) (js ''i''))"
proof -
  let ?s = "js ''CREATE INDEX CONCURRENTLY IF NOT EXISTS I ON t(b);''"
  have lines: "splitLines (nonTransactionalHeader @ [10] @ ?s) = [nonTransactionalHeader, ?s]"
    by (simp add: splitLines_def nonTransactionalHeader_def js_def)
  let ?t = "nonTransactionalHeader @ [10] @ ?s"
  have front: "(case u @ v of [] \<Rightarrow> [] | c # r \<Rightarrow> if c = 65279 then r else u @ v) = u @ v"
    if "u \<noteq> []" "hd u \<noteq> 65279" for u v :: jsstring
    using that by (cases u) auto
  have bom: "(case ?t of [] \<Rightarrow> [] | c # r \<Rightarrow> if c = 65279 then r else ?t) = ?t"
    by (rule front) (simp_all add: nonTransactionalHeader_def js_def)
  have "\<not> sqlBodyComment ?s"
    by (simp add: sqlBodyComment_def startsWith_def js_def)
  moreover have "indexNameGroup ?s = js ''I''"
  proof -
    note words = skipSpaces_def skipWord_def firstWord_def sqlWhitespaceChar_def js_def
    have s0: "skipWord (skipSpaces ?s) = js ''INDEX CONCURRENTLY IF NOT EXISTS I ON t(b);''" by (simp add: words)
    have s1: "skipWord (js ''INDEX CONCURRENTLY IF NOT EXISTS I ON t(b);'') = js ''CONCURRENTLY IF NOT EXISTS I ON t(b);''" by (simp add: words)
    have s2: "skipWord (js ''CONCURRENTLY IF NOT EXISTS I ON t(b);'') = js ''IF NOT EXISTS I ON t(b);''" by (simp add: words)
    have s3: "skipWord (js ''IF NOT EXISTS I ON t(b);'') = js ''NOT EXISTS I ON t(b);''" by (simp add: words)
    have s4: "skipWord (js ''NOT EXISTS I ON t(b);'') = js ''EXISTS I ON t(b);''" by (simp add: words)
    have s5: "skipWord (js ''EXISTS I ON t(b);'') = js ''I ON t(b);''" by (simp add: words)
    have "map asciiLower (firstWord (js ''INDEX CONCURRENTLY IF NOT EXISTS I ON t(b);'')) \<noteq> js ''unique''" by (simp add: words asciiLower_def)
    moreover have "takeWhile identifierChar (js ''I ON t(b);'') = js ''I''"
      by (simp add: js_def identifierChar_def isLetter_def isDigit_def asciiLower_def)
    ultimately show ?thesis by (simp add: indexNameGroup_def skip_five s0 s1 s2 s3 s4 s5 del: One_nat_def)
  qed
  moreover have "toLowerCase (js ''I'') = js ''i''" "js ''I'' \<noteq> []"
    by (simp_all add: toLowerCase_def lowerUnit_def js_def)
  ultimately have "parseConcurrentIndex (nonTransactionalHeader @ [10] @ ?s) = Inr (js ''i'')"
    using sample_statement by (simp add: parseConcurrentIndex_def lines del: append_Cons)
  then show ?thesis
    unfolding parseMigration_def sampleMigrations_def list.sel snd_conv bom Let_def lines by simp
qed

lemma sample_table:
  "parseMigration (js ''CREATE TABLE users (id uuid)'') = Inr (Transactional (js ''CREATE TABLE users (id uuid)''))"
  by (simp add: parseMigration_def splitLines_def nonTransactionalHeader_def migrationModePrefix_def startsWith_def js_def)

text \<open>The first run goes away in the middle, the second one with the index built and the third one before it can record it.\<close>

definition sampleRuns :: "(nat \<times> (jsstring \<Rightarrow> nat \<Rightarrow> buildResult)) list" where
  "sampleRuns = [(5, \<lambda>_ _. Built), (9, \<lambda>_ _. LeftInvalid (js ''could not create unique index''))]"

definition sampleDatabase :: "nat migrationDb" where
  "sampleDatabase = \<lparr>md_history = None, md_schema = 0, md_indexes = (\<lambda>_. None), md_locked = False\<rparr>"

lemma sample_spec:
  "specRun sampleMigrationEnv (migrationFiles sampleMigrations) (md_schema sampleDatabase, md_indexes sampleDatabase) =
     Some (1, (\<lambda>_. None)(js ''i'' := Some (indexDone sampleMigrationEnv (js ''0002.sql'') (snd (hd sampleMigrations)))))"
proof -
  obtain a b where files: "sampleMigrations = [a, b]" and a: "fst a = js ''0002.sql''"
    and b: "b = (js ''0001.sql'', js ''CREATE TABLE users (id uuid)'')"
    by (simp add: sampleMigrations_def)
  have "parseMigration (snd a) = Inr (ConcurrentIndex (snd a) (js ''i''))" using sample_index unfolding files list.sel .
  then show ?thesis
    unfolding sampleMigrations_files unfolding files b
    by (cases a) (use a in \<open>simp add: sample_table sampleMigrationEnv_def sampleDatabase_def usableIndex_def\<close>)
qed

lemma migrations_resume_witness:
  "let d = migrateRuns sampleMigrationEnv sampleMigrations sampleRuns sampleDatabase in
   if unmarked (migrationFiles sampleMigrations) (recordedCount d) d
   then \<exists>name d'. migrate sampleMigrationEnv sampleMigrations 19 (\<lambda>_ _. Built) d = (Raised (MarkerMismatch name), d')
   else fst (migrate sampleMigrationEnv sampleMigrations 19 (\<lambda>_ _. Built) d) = Done ()"
  using migrations_resume [OF _ _ _ refl refl sample_spec, where runs = sampleRuns and build = "\<lambda>_ _. Built" and n = 19]
  by (simp add: sampleMigrations_files Let_def) (auto simp: sampleMigrations_def sampleDatabase_def js_def split: if_splits)

lemma migrations_exactly_once_witness:
  "\<not> md_locked (migrateRuns sampleMigrationEnv sampleMigrations sampleRuns sampleDatabase)"
  using migrations_exactly_once [OF _ _ _ refl refl, of sampleMigrations sampleDatabase sampleMigrationEnv sampleRuns]
  by (auto simp: sampleMigrations_def sampleDatabase_def js_def)

section \<open>The test of the statement\<close>

lemma star_append: "rxMatches (RStar r) s \<longleftrightarrow> s = [] \<or> (\<exists>u v. s = u @ v \<and> u \<noteq> [] \<and> rxMatches r u \<and> rxMatches (RStar r) v)"
proof
  assume "rxMatches (RStar r) s"
  then show "s = [] \<or> (\<exists>u v. s = u @ v \<and> u \<noteq> [] \<and> rxMatches r u \<and> rxMatches (RStar r) v)"
  proof (induction "RStar r" s rule: rxMatches.induct)
    case (7 u v)
    then show ?case by (cases "u = []") auto
  qed simp
qed (auto intro: rxMatches.intros)

lemma nullable_iff: "nullable r \<longleftrightarrow> rxMatches r []"
  by (induction r) (auto simp: rxMatches_simps intro: rxMatches.intros)

lemma isNone_iff: "isNone r \<longleftrightarrow> r = RNone"
  by (cases r) simp_all

lemma rAlt_iff: "rxMatches (rAlt r q) s \<longleftrightarrow> rxMatches (RAlt r q) s"
  by (auto simp: isNone_iff rxMatches_simps)

lemma rSeq_iff: "rxMatches (rSeq r q) s \<longleftrightarrow> rxMatches (RSeq r q) s"
  by (cases r) (auto simp: isNone_iff rxMatches_simps)

lemma seq_Cons: "rxMatches (RSeq r q) (c # s) \<longleftrightarrow>
    rxMatches r [] \<and> rxMatches q (c # s) \<or> (\<exists>u v. s = u @ v \<and> rxMatches r (c # u) \<and> rxMatches q v)"
  by (auto simp: rxMatches_simps Cons_eq_append_conv)

lemma star_Cons: "rxMatches (RStar r) (c # s) \<longleftrightarrow> (\<exists>u v. s = u @ v \<and> rxMatches r (c # u) \<and> rxMatches (RStar r) v)"
  by (subst star_append) (auto simp: Cons_eq_append_conv)

lemma deriv_iff: "rxMatches (deriv c r) s \<longleftrightarrow> rxMatches r (c # s)"
proof (induction r arbitrary: s)
  case (RSeq r q)
  then show ?case
    unfolding seq_Cons by (auto simp: nullable_iff rAlt_iff rSeq_iff rxMatches_simps simp del: rAlt.simps rSeq.simps)
next
  case (RStar r)
  then show ?case
    unfolding star_Cons by (auto simp: rSeq_iff rxMatches_simps simp del: rSeq.simps)
qed (auto simp: rAlt_iff rxMatches_simps simp del: rAlt.simps)

lemma rxTest_iff: "rxTest r s \<longleftrightarrow> rxMatches r s"
  by (induction s arbitrary: r) (simp_all add: rxTest_def nullable_iff deriv_iff)

text \<open>The characters an expression can match.\<close>

fun avoids :: "nat \<Rightarrow> rx \<Rightarrow> bool" where
  "avoids c RNone = True"
| "avoids c REmpty = True"
| "avoids c (RChar p) = (\<not> p c)"
| "avoids c (RAlt r q) = (avoids c r \<and> avoids c q)"
| "avoids c (RSeq r q) = (avoids c r \<and> avoids c q)"
| "avoids c (RStar r) = avoids c r"

lemma avoids_matches: "rxMatches r s \<Longrightarrow> avoids c r \<Longrightarrow> c \<notin> set s"
  by (induction rule: rxMatches.induct) auto

lemma avoids_rSeq: "avoids c r \<Longrightarrow> avoids c q \<Longrightarrow> avoids c (rSeq r q)"
  by (cases r) auto

lemma avoids_rxSeqs: "\<forall>r \<in> set rs. avoids c r \<Longrightarrow> avoids c (rxSeqs rs)"
  by (induction rs) (auto simp: rxSeqs_def avoids_rSeq simp del: rSeq.simps)

lemma avoids_rxWord: "\<forall>x \<in> set w. asciiLower c \<noteq> asciiLower (of_char x) \<Longrightarrow> avoids c (rxWord w)"
  by (auto simp: rxWord_def js_def intro!: avoids_rxSeqs)

lemma concurrentIndexBody_no_semicolon: "avoids 59 concurrentIndexBody"
  unfolding concurrentIndexBody_def nullPredicate_def sqlIdentifier_def indexColumn_def rxOpt_def rxSpaces_def rxSpaces0_def
    rxName_def rxChar_def
  by (intro avoids_rxSeqs)
    (auto simp: sqlWhitespaceChar_def identifierStart_def identifierChar_def isLetter_def isDigit_def asciiLower_def
      intro!: avoids_rxSeqs avoids_rxWord)

text \<open>A script outside a transaction is one statement, and the name that is put between quotes in other statements has no
  character that could end the quotes.\<close>

lemma parseConcurrentIndex_single:
  assumes "parseConcurrentIndex sql = Inr name"
  shows "(\<exists>body blanks. joinWith 10 (tl (splitLines sql)) = body @ [59] @ blanks \<and> 59 \<notin> set body \<and>
      (\<forall>c \<in> set blanks. sqlWhitespaceChar c)) \<and> name \<noteq> [] \<and> (\<forall>c \<in> set name. identifierChar c \<and> asciiLower c = c)"
proof
  let ?s = "joinWith 10 (tl (splitLines sql))"
  have test: "rxTest concurrentIndexStatement ?s" and group: "indexNameGroup ?s \<noteq> []" "name = toLowerCase (indexNameGroup ?s)"
    using assms by (auto simp: parseConcurrentIndex_def Let_def split: if_splits)
  from test obtain body blanks where "?s = body @ [59] @ blanks" "rxMatches concurrentIndexBody body" "rxMatches rxSpaces0 blanks"
    by (auto simp: rxTest_iff concurrentIndexStatement_def rxChar_def rxMatches_simps)
  moreover have "59 \<notin> set body"
    using \<open>rxMatches concurrentIndexBody body\<close> concurrentIndexBody_no_semicolon by (rule avoids_matches)
  moreover have "sqlWhitespaceChar c" if "c \<in> set blanks" for c
    using avoids_matches [OF \<open>rxMatches rxSpaces0 blanks\<close>, of c] that by (auto simp: rxSpaces0_def)
  ultimately show "\<exists>body blanks. ?s = body @ [59] @ blanks \<and> 59 \<notin> set body \<and> (\<forall>c \<in> set blanks. sqlWhitespaceChar c)"
    by blast
  have chars: "identifierChar c" if "c \<in> set (indexNameGroup ?s)" for c
    using that by (auto simp: indexNameGroup_def Let_def dest: set_takeWhileD)
  have lower: "identifierChar d \<and> asciiLower d = d" if "identifierChar c" "d \<in> set (lowerUnit c)" for c d
    using that by (auto simp: identifierChar_def isLetter_def isDigit_def asciiLower_def lowerUnit_def split: if_splits)
  show "name \<noteq> [] \<and> (\<forall>c \<in> set name. identifierChar c \<and> asciiLower c = c)"
  proof (intro conjI ballI)
    obtain x r where g: "indexNameGroup ?s = x # r" using group(1) by (cases "indexNameGroup ?s") auto
    have "lowerUnit x \<noteq> []" by (simp add: lowerUnit_def)
    then show "name \<noteq> []" by (simp add: group(2) g toLowerCase_def)
    fix c
    assume "c \<in> set name"
    then obtain y where "y \<in> set (indexNameGroup ?s)" "c \<in> set (lowerUnit y)" by (auto simp: group(2) toLowerCase_def)
    then show "identifierChar c" "asciiLower c = c" using lower chars by blast+
  qed
qed

text \<open>The state that no later run leaves can be reached: ten statements into the first run.\<close>

lemma sample_unmarked:
  "unmarked (migrationFiles sampleMigrations) 1 (snd (migrate sampleMigrationEnv sampleMigrations 10 (\<lambda>_ _. Built) sampleDatabase))"
proof -
  obtain a b where files: "sampleMigrations = [a, b]" and a: "fst a = js ''0002.sql''"
    and b: "b = (js ''0001.sql'', js ''CREATE TABLE users (id uuid)'')"
    by (simp add: sampleMigrations_def)
  have p: "parseMigration (snd a) = Inr (ConcurrentIndex (snd a) (js ''i''))"
    using sample_index unfolding files list.sel .
  have "js ''0002.sql'' \<noteq> js ''0001.sql''" by (simp add: js_def)
  with p a show ?thesis
    unfolding migrate_def runMigrations_def sampleMigrations_files unfolding files b
    by (cases a) (simp add: applyFile_def applyIndex_def prepareConcurrentIndexTarget_def markConcurrentIndexReady_def statements
        sample_table inTransaction_def andFinally_def migrationLock_def createHistory_def sampleMigrationEnv_def
        sampleDatabase_def unmarked_def)
qed

end
