(* ===== verification/Logging.thy ===== *)
theory Logging
  imports Billing
begin

text \<open>
  The logger (\<^verbatim>\<open>src/common/logging/datadog-logger.ts\<close>) and the line that the server writes for each request
  (\<^verbatim>\<open>src/main.ts\<close>). An object is the list of its fields; a field that is not defined is left out of it, as
  \<^verbatim>\<open>JSON.stringify\<close> leaves it out of the text. Parsing and printing JSON and printing a date are parameters.
\<close>

section \<open>Objects\<close>

text \<open>Setting a field replaces its value or adds the field; spreading an object sets its fields in their order.\<close>

fun setField :: "jsstring \<Rightarrow> json \<Rightarrow> (jsstring \<times> json) list \<Rightarrow> (jsstring \<times> json) list" where
  "setField k v [] = [(k, v)]"
| "setField k v ((k', v') # fs) = (if k' = k then (k, v) # fs else (k', v') # setField k v fs)"

definition spread :: "(jsstring \<times> json) list \<Rightarrow> (jsstring \<times> json) list \<Rightarrow> (jsstring \<times> json) list" where
  "spread fs gs = fold (\<lambda>(k, v) hs. setField k v hs) gs fs"

definition optionalField :: "string \<Rightarrow> jsstring option \<Rightarrow> (jsstring \<times> json) list" where
  "optionalField k v = (case v of None \<Rightarrow> [] | Some s \<Rightarrow> [(js k, JString s)])"

section \<open>The logger\<close>

datatype logLevel = DebugLevel | ErrorLevel | LogLevel | VerboseLevel | WarnLevel

datatype logStream = Stdout | Stderr

record loggerEnv =
  lg_process :: "string \<Rightarrow> jsstring option"
  lg_parse :: "jsstring \<Rightarrow> json option"
  lg_stringify :: "json \<Rightarrow> jsstring"
  lg_isoString :: "timestamp \<Rightarrow> jsstring"

definition loggerService :: "loggerEnv \<Rightarrow> jsstring" where
  "loggerService env = (case lg_process env ''DD_SERVICE'' of Some s \<Rightarrow> s | None \<Rightarrow> js ''demo-backend'')"

definition loggerEnvName :: "loggerEnv \<Rightarrow> jsstring" where
  "loggerEnvName env =
     (case lg_process env ''DD_ENV'' of
        Some s \<Rightarrow> s
      | None \<Rightarrow> (case lg_process env ''NODE_ENV'' of Some s \<Rightarrow> s | None \<Rightarrow> js ''development''))"

fun levelText :: "logLevel \<Rightarrow> jsstring" where
  "levelText LogLevel = js ''info''"
| "levelText DebugLevel = js ''debug''"
| "levelText ErrorLevel = js ''error''"
| "levelText VerboseLevel = js ''verbose''"
| "levelText WarnLevel = js ''warn''"

text \<open>Only the text of an object is taken apart; \<open>None\<close> of the parser is an error that it throws.\<close>

definition parseMessage :: "loggerEnv \<Rightarrow> json \<Rightarrow> (jsstring \<times> json) list" where
  "parseMessage env message =
     (case message of
        JString s \<Rightarrow> (case lg_parse env s of Some (JObject fs) \<Rightarrow> fs | _ \<Rightarrow> [(js ''message'', message)])
      | _ \<Rightarrow> [(js ''message'', message)])"

definition logPayload ::
  "loggerEnv \<Rightarrow> timestamp \<Rightarrow> logLevel \<Rightarrow> json \<Rightarrow> jsstring option \<Rightarrow> jsstring option \<Rightarrow> json" where
  "logPayload env now level message context trace =
     (let own = [(js ''timestamp'', JString (lg_isoString env now)), (js ''level'', JString (levelText level)),
            (js ''service'', JString (loggerService env)),
            (js ''dd'', JObject ([(js ''service'', JString (loggerService env)), (js ''env'', JString (loggerEnvName env))] @
              optionalField ''version'' (lg_process env ''DD_VERSION'')))] @ optionalField ''context'' context;
          err = (if truthy trace then [(js ''error'', JObject [(js ''stack'', JString (the trace))])] else [])
      in JObject (spread (spread own (parseMessage env message)) err))"

definition writeLog ::
  "loggerEnv \<Rightarrow> timestamp \<Rightarrow> logLevel \<Rightarrow> json \<Rightarrow> jsstring option \<Rightarrow> jsstring option \<Rightarrow> logStream \<times> jsstring" where
  "writeLog env now level message context trace =
     (if level = ErrorLevel \<or> level = WarnLevel then Stderr else Stdout,
      lg_stringify env (logPayload env now level message context trace) @ [10])"

section \<open>The line of a request\<close>

definition requestIdOf :: "jsstring option \<Rightarrow> uuid \<Rightarrow> jsstring" where
  "requestIdOf header generated = (case header of Some h \<Rightarrow> h | None \<Rightarrow> generated)"

definition httpRequestEvent ::
  "jsstring option \<Rightarrow> uuid \<Rightarrow> jsstring option \<Rightarrow> jsstring \<Rightarrow> jsstring \<Rightarrow> int \<Rightarrow> timestamp \<Rightarrow> timestamp \<Rightarrow> json" where
  "httpRequestEvent header generated deviceId meth path statusCode startedAt finishedAt = JObject
     [(js ''event'', JString (js ''http_request'')), (js ''requestId'', JString (requestIdOf header generated)),
      (js ''deviceId'', case deviceId of None \<Rightarrow> JNull | Some d \<Rightarrow> JString d), (js ''method'', JString meth),
      (js ''path'', JString path), (js ''statusCode'', JInt statusCode), (js ''durationMs'', JInt (finishedAt - startedAt))]"

section \<open>What a line says\<close>

lemma map_of_setField: "map_of (setField k v fs) = (map_of fs)(k \<mapsto> v)"
  by (induction k v fs rule: setField.induct) (auto simp: fun_eq_iff)

lemma map_of_spread: "distinct (map fst gs) \<Longrightarrow> map_of (spread fs gs) = map_of fs ++ map_of gs"
proof (induction gs arbitrary: fs)
  case (Cons g gs)
  obtain k v where g: "g = (k, v)" by (cases g)
  with Cons.prems have "map_of gs k = None" by (simp add: map_of_eq_None_iff)
  moreover have "map_of (spread fs (g # gs)) = map_of (setField k v fs) ++ map_of gs"
    using Cons.IH [of "setField k v fs"] Cons.prems by (simp add: spread_def g)
  ultimately show ?case
    by (auto simp: g map_of_setField fun_eq_iff map_add_def split: option.split)
qed (simp add: spread_def)

text \<open>A parsed message has the last word on every field but the stack of an error; a text that is no object is the field
  \<^verbatim>\<open>message\<close>.\<close>

lemma payload_fields:
  assumes "distinct (map fst (parseMessage env message))"
  shows "\<exists>fs. logPayload env now level message context trace = JObject fs \<and>
    (\<forall>k v. map_of (parseMessage env message) k = Some v \<and> \<not> (k = js ''error'' \<and> truthy trace) \<longrightarrow> map_of fs k = Some v) \<and>
    (truthy trace \<longrightarrow> map_of fs (js ''error'') = Some (JObject [(js ''stack'', JString (the trace))]))"
  using assms by (simp add: logPayload_def map_of_spread Let_def map_add_Some_iff)

end
