(* ===== verification/Api.thy ===== *)
theory Api
  imports Billing User Matching Phone Upload Chat Community
begin

text \<open>
  The interface of the server: the guards that authenticate a request, the resolvers and controllers that
  hand it to a service, and the cookies they set. All modules work on the one database, so this theory also
  holds what several of them guarantee together. Reading a bearer token, checking a JSON web token and the tests of
  identifiers are packages and parameters.
\<close>

section \<open>Requests and responses\<close>

record cookieOptions =
  co_httpOnly :: bool
  co_sameSite :: jsstring
  co_secure :: bool
  co_domain :: "jsstring option"
  co_path :: jsstring

datatype responseEffect =
    SetHeader string jsstring
  | SetCookie string jsstring cookieOptions "int option"
  | ClearCookie string cookieOptions

record apiRequest =
  rq_authorization :: "jsstring option"
  rq_accessCookie :: "jsstring option"
  rq_refreshCookie :: "jsstring option"
  rq_kakaoState :: "jsstring option"
  rq_deviceId :: "jsstring option"
  rq_ip :: "jsstring option"
  rq_userAgent :: "jsstring option"
  rq_now :: timestamp
  rq_id :: uuid
  rq_ids :: "nat \<Rightarrow> uuid"
  rq_memberIds :: "nat \<Rightarrow> nat \<Rightarrow> uuid"
  rq_random :: nat

record apiEnv =
  ae_auth :: authEnv
  ae_upload :: uploadEnv
  ae_process :: "string \<Rightarrow> jsstring option"
  ae_bearer :: "jsstring \<Rightarrow> jsstring option"
  ae_verifyAccess :: "timestamp \<Rightarrow> jsstring \<Rightarrow> json option"
  ae_verifyRefresh :: "timestamp \<Rightarrow> jsstring \<Rightarrow> json option"
  ae_isUuid4 :: "jsstring \<Rightarrow> bool"
  ae_isUuid :: "jsstring \<Rightarrow> bool"
  ae_isExpoToken :: "jsstring \<Rightarrow> bool"
  ae_pushEnabled :: bool
  ae_pepper :: jsstring
  ae_sendCode :: "jsstring \<Rightarrow> jsstring \<Rightarrow> bool"
  ae_hmac :: "jsstring \<Rightarrow> nat list \<Rightarrow> nat list"
  ae_bodyHash :: "nat list \<Rightarrow> jsstring"

record userPayload =
  ul_id :: uuid
  ul_email :: jsstring
  ul_phone :: "jsstring option"
  ul_userName :: jsstring
  ul_gender :: gender
  ul_intro :: jsstring
  ul_birthDate :: "jsstring option"
  ul_region :: "jsstring option"
  ul_interestedGender :: "interestedGender option"
  ul_photos :: "(uuid \<times> jsstring \<times> int) list"
  ul_profileCompleted :: bool

datatype apiResult =
    RoomsR "chatRoomPayload list"
  | MessagesR "chatMessagePayload list"
  | EventsR jsstring
  | MessageR chatMessagePayload "chatMessageEventPayload option"
  | DeletedR bool "chatMessageEventPayload option"
  | DoneR bool
  | UserR userPayload
  | PlanR jsstring
  | DeadlineR timestamp
  | CandidatesR "matchCandidatePayload list"
  | LikeR likeUserPayload
  | UndoR "bool \<times> uuid option"
  | BoostR "timestamp \<times> int"
  | PostsR "communityPostPayload list"
  | PostR communityPostPayload
  | CommentsR "communityCommentPayload list"
  | CommentR communityCommentPayload
  | NotificationsR "notification list"
  | UploadR createUploadPayload
  | VerifiedUploadR verifiedUploadPayload
  | BalanceR consumableBalance
  | ProductsR "billingProduct list"
  | TokensR tokenPayload
  | KakaoR kakaoLoginPayload
  | KakaoTokenR jsstring
  | VerifiedR verifyPhoneCodePayload
  | WebhookR webhookResult

definition sameSite :: "(string \<Rightarrow> jsstring option) \<Rightarrow> jsstring" where
  "sameSite process =
     (case process ''AUTH_COOKIE_SAMESITE'' of
        Some v \<Rightarrow> if List.member [js ''strict'', js ''lax'', js ''none''] v then v else js ''lax''
      | None \<Rightarrow> js ''lax'')"

definition authCookieOptions :: "(string \<Rightarrow> jsstring option) \<Rightarrow> cookieOptions" where
  "authCookieOptions process = \<lparr>co_httpOnly = True, co_sameSite = sameSite process,
     co_secure = (process ''NODE_ENV'' = Some (js ''production'')),
     co_domain = (if truthy (process ''AUTH_COOKIE_DOMAIN'') then process ''AUTH_COOKIE_DOMAIN'' else None),
     co_path = js ''/''\<rparr>"

definition setTokenCookies :: "(string \<Rightarrow> jsstring option) \<Rightarrow> tokenPayload \<Rightarrow> responseEffect list" where
  "setTokenCookies process tokens =
     [SetHeader ''Authorization'' (js ''Bearer '' @ tp_accessToken tokens),
      SetCookie ''access_token'' (tp_accessToken tokens) (authCookieOptions process) None,
      SetCookie ''refresh_token'' (tp_refreshToken tokens) (authCookieOptions process) None]"

definition toUserPayload :: "user \<times> userProfilePhoto list \<Rightarrow> userPayload" where
  "toUserPayload = (\<lambda>(u, photos). \<lparr>ul_id = u_userId u, ul_email = u_email u, ul_phone = u_phone u,
     ul_userName = u_userName u, ul_gender = u_gender u, ul_intro = u_intro u, ul_birthDate = u_birthDate u,
     ul_region = u_region u, ul_interestedGender = u_interestedGender u,
     ul_photos = map (\<lambda>p. (case pp_uploadId p of Some i \<Rightarrow> i | None \<Rightarrow> pp_id p, pp_url p, pp_position p)) photos,
     ul_profileCompleted = (u_profileCompletedAt u \<noteq> None \<and> 1 \<le> length photos)\<rparr>)"

section \<open>Guards\<close>

text \<open>A websocket connection carries the header in its parameters and no cookies.\<close>

definition wsConnectionRequest :: "jsstring option \<Rightarrow> apiRequest \<Rightarrow> apiRequest" where
  "wsConnectionRequest authorization req = req\<lparr>
     rq_authorization := Some (case authorization of Some a \<Rightarrow> a | None \<Rightarrow> []),
     rq_accessCookie := None, rq_refreshCookie := None, rq_kakaoState := None, rq_deviceId := None,
     rq_ip := None, rq_userAgent := None\<rparr>"

text \<open>\<^verbatim>\<open>ExtractJwt.fromExtractors\<close> takes the first token that is not empty.\<close>

definition accessTokenFromRequest :: "apiEnv \<Rightarrow> apiRequest \<Rightarrow> jsstring option" where
  "accessTokenFromRequest env req =
     (let header = Option.bind (rq_authorization req) (ae_bearer env) in
      if truthy header then header else if truthy (rq_accessCookie req) then rq_accessCookie req else None)"

definition accessTokenGuard :: "apiEnv \<Rightarrow> apiRequest \<Rightarrow> jsstring dbprog" where
  "accessTokenGuard env req =
     (case Option.bind (accessTokenFromRequest env req) (ae_verifyAccess env (rq_now req)) of
        None \<Rightarrow> throw (Unauthorized ''Unauthorized'')
      | Some payload \<Rightarrow>
          andThen (accessTokenValidate payload) (\<lambda>claims.
          ret (the (jsonText (jsonField (js ''userId'') claims)))))"

definition refreshTokenGuard :: "apiEnv \<Rightarrow> apiRequest \<Rightarrow> (json \<times> refreshToken) dbprog" where
  "refreshTokenGuard env req =
     (let token = refreshTokenFromRequest (rq_authorization req) (rq_refreshCookie req) in
      case Option.bind (if truthy token then token else None) (ae_verifyRefresh env (rq_now req)) of
        None \<Rightarrow> throw (Unauthorized ''Unauthorized'')
      | Some payload \<Rightarrow> refreshTokenValidate (ae_auth env) (rq_now req) token payload)"

section \<open>The resolvers behind the access token\<close>

datatype chatCall =
    ChatRooms
  | ChatMessages chatMessagesInput
  | ChatEvent jsstring
  | SendChatMessage sendChatMessageInput
  | EditChatMessage jsstring jsstring
  | DeleteChatMessage jsstring
  | MarkChatRoomRead jsstring
  | BlockUser jsstring
  | ReportChatMessage jsstring jsstring

datatype profileCall =
    Me
  | CurrentSubscription
  | UpdateUserProfile updateUserProfileInput
  | RequestAccountDeletion

datatype matchingCall =
    MatchCandidates
  | LikedMeCandidates
  | LikeUser jsstring
  | SkipMatchCandidate jsstring
  | SuperLikeUser jsstring
  | UndoLastMatchAction
  | ActivateBoost

datatype communityCall =
    CommunityPosts
  | CommunityComments jsstring
  | CreateCommunityPost createCommunityPostInput
  | CreateCommunityComment jsstring jsstring jsstring
  | ReportCommunityPost jsstring jsstring
  | ReportCommunityComment jsstring jsstring

datatype notificationCall =
    Notifications
  | MarkNotificationRead jsstring
  | RegisterPushToken jsstring jsstring
  | UnregisterPushToken

datatype uploadCall =
    CreateUpload jsstring jsstring int
  | FinalizeUpload jsstring

datatype billingCall =
    ConsumableBalance

datatype userCall =
    ChatCall chatCall
  | ProfileCall profileCall
  | MatchingCall matchingCall
  | CommunityCall communityCall
  | NotificationCall notificationCall
  | UploadCall uploadCall
  | BillingCall billingCall

definition mapResult :: "('a \<Rightarrow> 'b) \<Rightarrow> 'a dbprog \<Rightarrow> 'b dbprog" where
  "mapResult f m = andThen m (\<lambda>x. ret (f x))"

fun chatResolver :: "apiEnv \<Rightarrow> apiRequest \<Rightarrow> jsstring \<Rightarrow> chatCall \<Rightarrow> apiResult dbprog" where
  "chatResolver env req me ChatRooms = mapResult RoomsR (chatRooms me)"
| "chatResolver env req me (ChatMessages input) = mapResult MessagesR (chatMessages me input)"
| "chatResolver env req me (ChatEvent roomId) = mapResult (\<lambda>_. EventsR roomId) (assertRoomMember roomId me)"
| "chatResolver env req me (SendChatMessage input) = mapResult (\<lambda>(m, e). MessageR m e)
     (sendMessage (rq_id req) (rq_memberIds req) (rq_now req) (ae_pushEnabled env) me input)"
| "chatResolver env req me (EditChatMessage messageId text) = mapResult (\<lambda>(m, e). MessageR m (Some e))
     (editMessage (rq_now req) me messageId text)"
| "chatResolver env req me (DeleteChatMessage messageId) = mapResult (\<lambda>(b, e). DeletedR b e)
     (deleteMessage (rq_now req) me messageId)"
| "chatResolver env req me (MarkChatRoomRead roomId) = mapResult DoneR (markRoomRead me roomId)"
| "chatResolver env req me (BlockUser userId) = mapResult DoneR (blockUser (rq_now req) me userId)"
| "chatResolver env req me (ReportChatMessage messageId reason) = mapResult DoneR
     (reportMessage (rq_id req) (rq_now req) me messageId reason)"

text \<open>The filter of the subscription: it compares the text of the request with the room of the event.\<close>

definition chatEventFilter :: "jsstring \<Rightarrow> chatMessageEventPayload option \<Rightarrow> bool" where
  "chatEventFilter roomId payload =
     (case payload of None \<Rightarrow> False | Some e \<Rightarrow> cm_roomId (ce_message e) = roomId)"

fun userResolver :: "apiEnv \<Rightarrow> apiRequest \<Rightarrow> jsstring \<Rightarrow> profileCall \<Rightarrow> apiResult dbprog" where
  "userResolver env req me Me = mapResult (\<lambda>p. UserR (toUserPayload p)) (profile me)"
| "userResolver env req me CurrentSubscription = mapResult PlanR (currentSubscription (rq_now req) me)"
| "userResolver env req me (UpdateUserProfile input) = mapResult (\<lambda>p. UserR (toUserPayload p))
     (updateProfile (ae_isUuid env) (rq_ids req) (rq_now req) me input)"
| "userResolver env req me RequestAccountDeletion = mapResult DeadlineR (beginAccountDeletion (rq_now req) me)"

fun matchingResolver :: "apiEnv \<Rightarrow> apiRequest \<Rightarrow> jsstring \<Rightarrow> matchingCall \<Rightarrow> apiResult dbprog" where
  "matchingResolver env req me MatchCandidates = mapResult CandidatesR (candidates (rq_now req) me)"
| "matchingResolver env req me LikedMeCandidates = mapResult CandidatesR (likedMeCandidates (rq_now req) me)"
| "matchingResolver env req me (LikeUser userId) = mapResult LikeR
     (likeUser (rq_ids req) (rq_now req) (ae_pushEnabled env) me userId)"
| "matchingResolver env req me (SkipMatchCandidate userId) = mapResult DoneR
     (skipCandidate (rq_ids req) (rq_now req) (ae_pushEnabled env) me userId)"
| "matchingResolver env req me (SuperLikeUser userId) = mapResult LikeR
     (superLikeUser (rq_ids req) (rq_now req) (ae_pushEnabled env) me userId)"
| "matchingResolver env req me UndoLastMatchAction = mapResult UndoR (undoLastAction (rq_now req) me)"
| "matchingResolver env req me ActivateBoost = mapResult BoostR (activateBoost (rq_id req) (rq_now req) me)"

fun communityResolver :: "apiEnv \<Rightarrow> apiRequest \<Rightarrow> jsstring \<Rightarrow> communityCall \<Rightarrow> apiResult dbprog" where
  "communityResolver env req me CommunityPosts = mapResult PostsR communityPostsOf"
| "communityResolver env req me (CommunityComments postId) = mapResult CommentsR (communityCommentsOf postId)"
| "communityResolver env req me (CreateCommunityPost input) = mapResult PostR (createPost (rq_now req) me input)"
| "communityResolver env req me (CreateCommunityComment postId body key) = mapResult CommentR
     (createComment (rq_ids req) (rq_now req) (ae_pushEnabled env) me postId body key)"
| "communityResolver env req me (ReportCommunityPost postId reason) = mapResult DoneR
     (reportPost (rq_id req) (rq_now req) me postId reason)"
| "communityResolver env req me (ReportCommunityComment commentId reason) = mapResult DoneR
     (reportComment (rq_id req) (rq_now req) me commentId reason)"

fun notificationResolver :: "apiEnv \<Rightarrow> apiRequest \<Rightarrow> jsstring \<Rightarrow> notificationCall \<Rightarrow> apiResult dbprog" where
  "notificationResolver env req me Notifications = mapResult NotificationsR (listNotifications me)"
| "notificationResolver env req me (MarkNotificationRead i) = mapResult DoneR (markRead (rq_now req) me i)"
| "notificationResolver env req me (RegisterPushToken token platform) =
     andThen (deviceIdFromRequest (ae_isUuid4 env) (rq_deviceId req)) (\<lambda>deviceId.
     mapResult DoneR (registerPushToken (ae_isExpoToken env) (rq_id req) (rq_now req) me deviceId token platform))"
| "notificationResolver env req me UnregisterPushToken =
     andThen (deviceIdFromRequest (ae_isUuid4 env) (rq_deviceId req)) (\<lambda>deviceId.
     mapResult DoneR (unregisterPushToken (rq_now req) me deviceId))"

fun uploadResolver :: "apiEnv \<Rightarrow> apiRequest \<Rightarrow> jsstring \<Rightarrow> uploadCall \<Rightarrow> apiResult dbprog" where
  "uploadResolver env req me (CreateUpload filename contentType sizeBytes) = mapResult UploadR
     (createUpload (ae_upload env) (rq_id req) (rq_now req) me filename contentType sizeBytes)"
| "uploadResolver env req me (FinalizeUpload uploadId) = mapResult VerifiedUploadR
     (finalizeUpload (ae_upload env) (rq_now req) me uploadId)"

fun billingResolver :: "apiEnv \<Rightarrow> apiRequest \<Rightarrow> jsstring \<Rightarrow> billingCall \<Rightarrow> apiResult dbprog" where
  "billingResolver env req me ConsumableBalance = mapResult BalanceR (balance (rq_now req) me)"

fun resolve :: "apiEnv \<Rightarrow> apiRequest \<Rightarrow> jsstring \<Rightarrow> userCall \<Rightarrow> apiResult dbprog" where
  "resolve env req me (ChatCall c) = chatResolver env req me c"
| "resolve env req me (ProfileCall c) = userResolver env req me c"
| "resolve env req me (MatchingCall c) = matchingResolver env req me c"
| "resolve env req me (CommunityCall c) = communityResolver env req me c"
| "resolve env req me (NotificationCall c) = notificationResolver env req me c"
| "resolve env req me (UploadCall c) = uploadResolver env req me c"
| "resolve env req me (BillingCall c) = billingResolver env req me c"

definition userRequest :: "apiEnv \<Rightarrow> apiRequest \<Rightarrow> userCall \<Rightarrow> apiResult dbprog" where
  "userRequest env req call =
     andThen (accessTokenGuard env req) (\<lambda>me. resolve env req me call)"

section \<open>Sessions and public requests\<close>

definition refreshRequest :: "apiEnv \<Rightarrow> apiRequest \<Rightarrow> (apiResult \<times> responseEffect list) dbprog" where
  "refreshRequest env req =
     andThen (refreshTokenGuard env req) (\<lambda>(claims, validated).
     mapResult (\<lambda>tokens. (TokensR tokens, setTokenCookies (ae_process env) tokens))
       (refresh (ae_auth env) (rq_now req) validated))"

definition logoutRequest :: "apiEnv \<Rightarrow> apiRequest \<Rightarrow> (apiResult \<times> responseEffect list) dbprog" where
  "logoutRequest env req =
     andThen (refreshTokenGuard env req) (\<lambda>(claims, validated).
     mapResult (\<lambda>_. (DoneR True, [ClearCookie ''access_token'' (authCookieOptions (ae_process env)),
         ClearCookie ''refresh_token'' (authCookieOptions (ae_process env))]))
       (logout (the (jsonText (jsonField (js ''userId'') claims))) (the (jsonText (jsonField (js ''deviceId'') claims)))))"

text \<open>The profile of \<^verbatim>\<open>passport-kakao\<close>: the identifier as a string and the email.\<close>

definition kakaoStrategyProfile :: "authEnv \<Rightarrow> json \<Rightarrow> kakaoProfile" where
  "kakaoStrategyProfile env raw = \<lparr>
     kp_providerUserId = (case jsonField (js ''id'') raw of
         Some (JString s) \<Rightarrow> s | Some v \<Rightarrow> numberText env v | None \<Rightarrow> js ''undefined''),
     kp_email = jsonText (Option.bind (Option.bind (jsonField (js ''_json'') raw) (jsonField (js ''kakao_account'')))
       (jsonField (js ''email''))),
     kp_userName = None\<rparr>"

definition loginWithKakaoRequest :: "apiEnv \<Rightarrow> apiRequest \<Rightarrow> jsstring \<Rightarrow> (apiResult \<times> responseEffect list) dbprog" where
  "loginWithKakaoRequest env req accessToken =
     andThen (deviceIdFromRequest (ae_isUuid4 env) (rq_deviceId req)) (\<lambda>deviceId.
     mapResult (\<lambda>r. (KakaoR r, case r of KakaoLoginSuccess s \<Rightarrow> setTokenCookies (ae_process env) s | _ \<Rightarrow> []))
       (loginWithKakaoAccessToken (ae_auth env) (rq_ids req) (rq_now req) accessToken deviceId))"

datatype phoneCall =
    RequestPhoneCode jsstring jsstring
  | VerifyPhoneCode jsstring jsstring
  | CompletePhoneSignup completePhoneSignupInput
  | CompleteKakaoPhoneSignup "jsstring option" jsstring jsstring "jsstring option" bool
  | ResetPasswordWithPhone jsstring jsstring jsstring

fun phoneResolver :: "apiEnv \<Rightarrow> apiRequest \<Rightarrow> phoneCall \<Rightarrow> (apiResult \<times> responseEffect list) dbprog" where
  "phoneResolver env req (RequestPhoneCode phone purpose) = mapResult (\<lambda>b. (DoneR b, []))
     (requestPhoneCode (ae_auth env) (ae_pepper env) (ae_sendCode env) (rq_random req) (rq_id req) (rq_now req)
       phone purpose (rq_ip req) (rq_userAgent req))"
| "phoneResolver env req (VerifyPhoneCode phone code) =
     andThen (deviceIdFromRequest (ae_isUuid4 env) (rq_deviceId req)) (\<lambda>deviceId.
     mapResult (\<lambda>v. (VerifiedR v, []))
       (verifyPhoneCode (ae_auth env) (ae_pepper env) (rq_ids req) (rq_now req) phone code deviceId))"
| "phoneResolver env req (CompletePhoneSignup input) =
     andThen (deviceIdFromRequest (ae_isUuid4 env) (rq_deviceId req)) (\<lambda>deviceId.
     mapResult (\<lambda>t. (TokensR t, setTokenCookies (ae_process env) t))
       (completePhoneSignup (ae_auth env) (rq_ids req) (rq_now req) input deviceId))"
| "phoneResolver env req (CompleteKakaoPhoneSignup phoneToken kakaoToken name g terms) =
     andThen (deviceIdFromRequest (ae_isUuid4 env) (rq_deviceId req)) (\<lambda>deviceId.
     mapResult (\<lambda>t. (TokensR t, setTokenCookies (ae_process env) t))
       (phoneCompleteKakaoSignup (ae_auth env) (rq_ids req) (rq_now req) phoneToken kakaoToken name g terms deviceId))"
| "phoneResolver env req (ResetPasswordWithPhone phone code password) = mapResult (\<lambda>b. (DoneR b, []))
     (resetPasswordWithPhone (ae_auth env) (ae_pepper env) (rq_now req) phone code password)"

text \<open>The callback of the Kakao login, behind the check of its guard.\<close>

definition kakaoCallback ::
  "apiEnv \<Rightarrow> apiRequest \<Rightarrow> jsstring option \<Rightarrow> jsstring option \<Rightarrow> json \<Rightarrow> (apiResult \<times> responseEffect list) dbprog" where
  "kakaoCallback env req code state raw =
     andThen (kakaoCallbackState code state (rq_kakaoState req)) (\<lambda>_.
     mapResult (\<lambda>t. (KakaoTokenR t, [ClearCookie ''kakao_oauth_state'' (authCookieOptions (ae_process env)),
         SetCookie ''kakao_phone_verification_token'' t (authCookieOptions (ae_process env)) None]))
       (loginWithKakao (ae_auth env) (rq_now req) (kakaoStrategyProfile (ae_auth env) raw)))"

definition receiveWebhook ::
  "apiEnv \<Rightarrow> apiRequest \<Rightarrow> nat list option \<Rightarrow> jsstring option \<Rightarrow> json \<Rightarrow> (apiResult \<times> responseEffect list) dbprog" where
  "receiveWebhook env req rawBody signature payload =
     (case rawBody of
        None \<Rightarrow> throw (BadRequest ''REVENUECAT_RAW_BODY_REQUIRED'')
      | Some body \<Rightarrow> mapResult (\<lambda>w. (WebhookR w, []))
          (handleRevenueCatWebhook (ae_hmac env) (ae_bodyHash env) (ae_process env) (ae_pushEnabled env) (rq_ids req)
            (rq_now req) body signature payload))"

datatype publicCall =
    BillingProducts
  | LoginWithKakao jsstring
  | PhoneCall phoneCall
  | KakaoCallback "jsstring option" "jsstring option" json
  | RevenueCatWebhook "nat list option" "jsstring option" json

fun publicRequest :: "apiEnv \<Rightarrow> apiRequest \<Rightarrow> publicCall \<Rightarrow> (apiResult \<times> responseEffect list) dbprog" where
  "publicRequest env req BillingProducts = ret (ProductsR BILLING_PRODUCTS, [])"
| "publicRequest env req (LoginWithKakao accessToken) = loginWithKakaoRequest env req accessToken"
| "publicRequest env req (PhoneCall call) = phoneResolver env req call"
| "publicRequest env req (KakaoCallback code state raw) = kakaoCallback env req code state raw"
| "publicRequest env req (RevenueCatWebhook rawBody signature payload) = receiveWebhook env req rawBody signature payload"

text \<open>The start of the Kakao login: a random state in a cookie for five minutes.\<close>

definition kakaoLoginStart :: "apiEnv \<Rightarrow> jsstring \<Rightarrow> jsstring \<times> responseEffect list" where
  "kakaoLoginStart env state =
     (state, [SetCookie ''kakao_oauth_state'' state (authCookieOptions (ae_process env)) (Some (5 * 60 * 1000))])"

section \<open>The limit on the fields of a document\<close>

definition MAX_GRAPHQL_DOCUMENT_FIELDS :: nat where
  "MAX_GRAPHQL_DOCUMENT_FIELDS = 200"

text \<open>The visitor: how many fields it has seen, whether it has reported and the errors it reported.\<close>

record fieldVisitor =
  fv_fieldCount :: nat
  fv_reported :: bool
  fv_errors :: "string list"

definition visitField :: "fieldVisitor \<Rightarrow> fieldVisitor" where
  "visitField v =
     (let w = v\<lparr>fv_fieldCount := fv_fieldCount v + 1\<rparr> in
      if fv_reported w \<or> fv_fieldCount w \<le> MAX_GRAPHQL_DOCUMENT_FIELDS then w
      else w\<lparr>fv_reported := True, fv_errors := fv_errors w @ [''GRAPHQL_DOCUMENT_FIELD_LIMIT_EXCEEDED'']\<rparr>)"

definition graphqlDocumentFieldLimitRule :: "nat \<Rightarrow> string list" where
  "graphqlDocumentFieldLimitRule visits =
     fv_errors ((visitField ^^ visits) \<lparr>fv_fieldCount = 0, fv_reported = False, fv_errors = []\<rparr>)"

text \<open>A document is refused, with one error, exactly if it has more fields than the limit.\<close>

lemma visitFields_run:
  "(visitField ^^ n) \<lparr>fv_fieldCount = 0, fv_reported = False, fv_errors = []\<rparr> =
     \<lparr>fv_fieldCount = n, fv_reported = (200 < n),
      fv_errors = (if 200 < n then [''GRAPHQL_DOCUMENT_FIELD_LIMIT_EXCEEDED''] else [])\<rparr>"
  by (induction n) (auto simp: visitField_def MAX_GRAPHQL_DOCUMENT_FIELDS_def Let_def)

lemma field_limit:
  "graphqlDocumentFieldLimitRule n = (if 200 < n then [''GRAPHQL_DOCUMENT_FIELD_LIMIT_EXCEEDED''] else [])"
  by (simp add: graphqlDocumentFieldLimitRule_def visitFields_run)

text \<open>A subscription to a room under a text that is not the one of the database is accepted and gets no event of the room.\<close>

lemma upper_case_subscription_silent:
  assumes "userRequest env req (ChatCall (ChatEvent roomId)) d = (Inr r, d')" and "pgUuid roomId \<noteq> roomId"
    and "m_roomId m = pgUuid roomId"
  shows "r = EventsR roomId \<and> \<not> chatEventFilter roomId (Some (publishMessageEvent t m))"
  using assms
  by (auto simp: userRequest_def mapResult_def success_simps chatEventFilter_def publishMessageEvent_def rowToMessage_def)

end
