(* ===== verification/Rooms.thy ===== *)
theory Rooms
  imports Chat
begin

text \<open>
  What the requests of \<^verbatim>\<open>matching\<close> and \<^verbatim>\<open>chat\<close> and the deletion of accounts keep together, on the tables they share:
  a room belongs to one match, and its members are the two users of the match. The deletion of an account takes
  the rooms of its matches with their messages, receipts and reports.
\<close>

section \<open>Rooms belong to matches\<close>

definition memberOk :: "db \<Rightarrow> roomMember \<Rightarrow> bool" where
  "memberOk d r \<longleftrightarrow> existsRow (\<lambda>m. mt_roomId m = rm_roomId r \<and> (mt_userLowId m = rm_userId r \<or> mt_userHighId m = rm_userId r))
     (matchesTable d)"

definition membersOk :: "db \<Rightarrow> bool" where
  "membersOk d \<longleftrightarrow> uniqueKey mt_roomId (matchesTable d) \<and> list_all (memberOk d) (roomMembers d) \<and>
     uniqueKey (\<lambda>r. (rm_roomId r, rm_userId r)) (roomMembers d)"

definition roomsInv :: "db \<Rightarrow> bool" where
  "roomsInv d \<longleftrightarrow> matchingInv d \<and> membersOk d \<and> chatInv d"

definition roomsView where
  "roomsView d = (userLikes d, matchActions d, matchesTable d, map r_id (rooms d), roomMembers d)"

lemma membersOk_cong:
  assumes "matchesTable d' = matchesTable d" "roomMembers d' = roomMembers d"
  shows "membersOk d' = membersOk d"
proof -
  have "memberOk d' = memberOk d" using assms(1) by (simp add: memberOk_def fun_eq_iff)
  with assms show ?thesis by (simp add: membersOk_def)
qed

lemma roomsView_pairs:
  assumes "roomsView d' = roomsView d"
  shows "matchingInv d' = matchingInv d" "membersOk d' = membersOk d"
proof -
  have "keyTaken r_id i (rooms d') = keyTaken r_id i (rooms d)" for i
    using assms unfolding roomsView_def keyTaken_iff by (metis Pair_inject set_map)
  with assms show "matchingInv d' = matchingInv d"
    by (simp add: roomsView_def matchingInv_def matchesOk_def mutualMatched_def actionsOk_def matchOk_def list_all_iff
        liked_def inRoom_def matchedPair_def)
  show "membersOk d' = membersOk d"
    using assms by (intro membersOk_cong) (simp_all add: roomsView_def)
qed

lemma roomsInv_cong:
  assumes "roomsView d' = roomsView d"
    and "messages d' = messages d" "readReceipts d' = readReceipts d" "messageReports d' = messageReports d"
  shows "roomsInv d' = roomsInv d"
  using roomsView_pairs [OF assms(1)] chatInv_cong [OF assms(2-4)] assms(1) by (simp add: roomsInv_def roomsView_def)

section \<open>The chat\<close>

lemma map_id_updateWhere: "(\<And>r. k (f r) = k r) \<Longrightarrow> map k (updateWhere P f t) = map k t"
  by (induction t) (simp_all add: updateWhere_def)

lemma notify_roomsView: "preserves (\<lambda>d. roomsView d = v) (notify ids now enabled input)"
  by (rule notify_frame) (simp_all add: roomsView_def)

lemma chat_roomsView:
  "preserves (\<lambda>d. roomsView d = v) (editMessage now me mid txt)" "preserves (\<lambda>d. roomsView d = v) (deleteMessage now me mid)"
  "preserves (\<lambda>d. roomsView d = v) (markRoomRead me roomId)" "preserves (\<lambda>d. roomsView d = v) (blockUser now me other)"
  "preserves (\<lambda>d. roomsView d = v) (reportMessage i now me mid reason)"
  "preserves (\<lambda>d. roomsView d = v) (sendMessage i ids now enabled me input)"
  unfolding editMessage_def deleteMessage_def markRoomRead_def blockUser_def reportMessage_def repoEditMessage_def
    repoDeleteMessage_def updateOwnMessage_def repoMarkRoomRead_def repoBlockUser_def repoReportMessage_def
    sendMessage_def deliverMessage_def createdMessage_def notifyMembers_def createMessage_def
    touchRoom_def validateChatUuid_def validateMessageText_def validateIdempotencyKey_def requireRoomMember_def
    validateReportReason_def Let_def
  by (intro preserves_intros notify_roomsView preserves_modify; simp add: roomsView_def map_id_updateWhere)+

lemma preserves_rooms:
  assumes "\<And>v. preserves (\<lambda>d. roomsView d = v) m" and "preserves chatInv m"
  shows "preserves roomsInv m"
proof (rule preservesI)
  fix d assume inv: "roomsInv d"
  have "roomsView (snd (m d)) = roomsView d"
    using assms(1) [of "roomsView d"] by (simp add: preserves_def)
  from roomsView_pairs [OF this] assms(2) inv show "roomsInv (snd (m d))"
    by (simp add: roomsInv_def preserves_def)
qed

lemma chat_rooms:
  "preserves roomsInv (sendMessage i ids now enabled me input)" "preserves roomsInv (editMessage now me mid txt)"
  "preserves roomsInv (deleteMessage now me mid)" "preserves roomsInv (markRoomRead me roomId)"
  "preserves roomsInv (blockUser now me other)" "preserves roomsInv (reportMessage i now me mid reason)"
  by (intro preserves_rooms chat_roomsView sendMessage_inv editMessage_inv deleteMessage_inv markRoomRead_inv
      blockUser_inv reportMessage_inv)+

section \<open>Matching\<close>

lemma chatInv_mono:
  assumes "chatInv d" and "messages d' = messages d" "readReceipts d' = readReceipts d" "messageReports d' = messageReports d"
    and "\<And>r u. inRoom r u d \<Longrightarrow> inRoom r u d'"
  shows "chatInv d'"
proof -
  have "messageOk d' m" if "messageOk d m" for m
    using that assms(5) by (auto simp: messageOk_def split: option.splits)
  moreover have "reportOk d' r" if "reportOk d r" for r
    using that assms(2,5) by (auto simp: reportOk_def existsRow_iff)
  ultimately show ?thesis
    using assms(1-4) by (auto simp: chatInv_def list_all_iff)
qed

lemma matchMade_chat [simp]:
  "messages (matchMade r now a b d) = messages d" "readReceipts (matchMade r now a b d) = readReceipts d"
  "messageReports (matchMade r now a b d) = messageReports d"
  by (simp_all add: matchMade_def addMember_def Let_def)

lemma acted_chat [simp]:
  "messages (acted i now a b k d) = messages d" "readReceipts (acted i now a b k d) = readReceipts d"
  "messageReports (acted i now a b k d) = messageReports d"
  by (simp_all add: acted_def spent_def Let_def)

lemma undone_chat [simp]:
  "messages (undone now x d) = messages d" "readReceipts (undone now x d) = readReceipts d"
  "messageReports (undone now x d) = messageReports d"
  by (simp_all add: undone_def returnSuperLike_def Let_def)

lemma roomMembers_matchMade:
  "x \<in> set (roomMembers (matchMade r now a b d)) \<Longrightarrow>
   x \<in> set (roomMembers d) \<or> rm_roomId x = r \<and> (rm_userId x = a \<or> rm_userId x = b)"
  by (auto simp: matchMade_def addMember_def Let_def split: if_splits)

lemma addMember_unique:
  "uniqueKey (\<lambda>r. (rm_roomId r, rm_userId r)) (roomMembers d) \<Longrightarrow>
   uniqueKey (\<lambda>r. (rm_roomId r, rm_userId r)) (roomMembers (addMember now i u d))"
  by (auto simp: addMember_def existsRow_iff)

lemma membersOk_matchMade:
  assumes "membersOk d" and "\<not> keyTaken mt_roomId r (matchesTable d)"
  shows "membersOk (matchMade r now a b d)"
proof -
  have "uniqueKey mt_roomId (matchesTable (matchMade r now a b d))"
    using assms by (auto simp: membersOk_def keyTaken_iff matchMade_def Let_def)
  moreover have "memberOk (matchMade r now a b d) x" if "x \<in> set (roomMembers (matchMade r now a b d))" for x
    using roomMembers_matchMade [OF that] assms(1)
    by (auto simp: membersOk_def list_all_iff memberOk_def existsRow_iff min_def max_def)
  moreover have "uniqueKey (\<lambda>r. (rm_roomId r, rm_userId r)) (roomMembers (matchMade r now a b d))"
    using assms(1) by (auto simp: membersOk_def matchMade_def Let_def intro!: addMember_unique)
  ultimately show ?thesis by (simp add: membersOk_def list_all_iff)
qed

lemma newAction_rooms:
  assumes "canonicalUuid a" "canonicalUuid b" and inv: "roomsInv d"
    and run: "newAction ids now ds de limit a b k d = (Inr r, d')"
  shows "roomsInv d'"
proof -
  let ?d = "acted (ids 0) now a b k d"
  have acted: "membersOk ?d" "chatInv ?d"
    using inv membersOk_cong [of ?d d] chatInv_cong [of ?d d] by (simp_all add: roomsInv_def)
  have "d' = ?d \<or> d' = matchMade (ids 1) now a b ?d \<and> \<not> keyTaken mt_roomId (ids 1) (matchesTable ?d)"
    using newAction_Inr [OF assms(1,2) run] matchIfReverseExists_cases [OF _ assms(1,2), of "ids 1" now ?d]
    by (auto split: if_splits)
  then have "membersOk d' \<and> chatInv d'"
    using acted by (auto simp: membersOk_matchMade inRoom_matchMade intro: chatInv_mono)
  with newAction_inv [OF assms(1,2) _ run] inv show ?thesis by (simp add: roomsInv_def)
qed

lemma roomsInv_frame [simp]:
  "roomsInv (d\<lparr>notifications := n\<rparr>) = roomsInv d" "roomsInv (d\<lparr>pushOutboxes := p\<rparr>) = roomsInv d"
  "roomsInv (d\<lparr>userLikedMeAccesses := l\<rparr>) = roomsInv d" "roomsInv (d\<lparr>userBoosts := b\<rparr>) = roomsInv d"
  "roomsInv (d\<lparr>userConsumableBalances := c\<rparr>) = roomsInv d"
  by (rule roomsInv_cong; simp add: roomsView_def)+

lemma undone_rooms:
  assumes inv: "roomsInv d" and x: "x \<in> set (matchActions d)" "ma_revertedAt x = None"
    and no: "findMatch (orderedMatchingPair (ma_actorUserId x) (ma_targetUserId x)) d = None"
  shows "roomsInv (undone now x d)"
proof -
  have "membersOk (undone now x d) = membersOk d" "chatInv (undone now x d) = chatInv d"
    by (rule membersOk_cong chatInv_cong; simp add: undone_tables)+
  with undone_inv [OF _ x no] inv show ?thesis by (simp add: roomsInv_def)
qed

lemma undo_rooms: "preserves roomsInv (undoLastAction now u)"
proof -
  have "preserves roomsInv (repoUndoLastAction now u)"
  proof (rule preservesI)
    fix d assume inv: "roomsInv d"
    then have u: "uniqueKey ma_id (matchActions d)" by (simp add: roomsInv_def matchingInv_def actionsOk_def)
    show "roomsInv (snd (repoUndoLastAction now u d))"
    proof (cases "lastAction u d")
      case (Some x)
      from firstBy_SomeD [OF Some [unfolded lastAction_def]] inv Some show ?thesis
        by (simp add: repoUndoLastAction_eq [OF u] undone_rooms)
    qed (simp add: repoUndoLastAction_eq [OF u] inv)
  qed
  then show ?thesis
    unfolding undoLastAction_def matching_checks by (intro preserves_intros)
qed

lemma notify_rooms: "preserves roomsInv (notify ids now enabled input)"
  by (rule notify_frame) simp_all

lemma matching_rooms:
  "canonicalUuid a \<Longrightarrow> canonicalUuid b \<Longrightarrow> preserves roomsInv (actOnCandidate ids now enabled a b k)"
  "preserves roomsInv (candidates now u)" "preserves roomsInv (likedMeCandidates now u)"
  "preserves roomsInv (activateBoost i now u)"
proof -
  show "preserves roomsInv (actOnCandidate ids now enabled a b k)" if "canonicalUuid a" "canonicalUuid b"
    by (rule actOnCandidate_keeps [OF notify_rooms]) (rule newAction_rooms [OF that])
  show "preserves roomsInv (candidates now u)" "preserves roomsInv (likedMeCandidates now u)"
    "preserves roomsInv (activateBoost i now u)"
    unfolding candidates_def matching_checks likedMeCandidates_def enforceLikedMeWindow_def consumeLikedMeAccess_def
      activateBoost_def repoActivateBoost_def Let_def
    by (intro preserves_intros preserves_modify; simp)+
qed

section \<open>The deletion of an account\<close>

text \<open>The rooms that go with an account, and what is left of the tables.\<close>

definition goneRooms :: "deletionJob \<Rightarrow> db \<Rightarrow> uuid set" where
  "goneRooms job d = {i. keyTaken r_id i (rooms d) \<and> existsRow (\<lambda>m. mt_roomId m = i \<and>
     (mt_userLowId m = pgUuid (dj_userId job) \<or> mt_userHighId m = pgUuid (dj_userId job))) (matchesTable d)}"

lemma anonymized_rooms:
  fixes job
  defines "u \<equiv> pgUuid (dj_userId job)"
  shows "userLikes (anonymized now job d) = deleteWhere (\<lambda>l. ul_likerUserId l = u \<or> ul_likedUserId l = u) (userLikes d)"
    and "matchActions (anonymized now job d) = deleteWhere (\<lambda>x. ma_actorUserId x = u \<or> ma_targetUserId x = u) (matchActions d)"
    and "matchesTable (anonymized now job d) = deleteWhere (\<lambda>m. mt_roomId m \<in> goneRooms job d) (matchesTable d)"
    and "rooms (anonymized now job d) = deleteWhere (\<lambda>r. r_id r \<in> goneRooms job d) (rooms d)"
    and "roomMembers (anonymized now job d) = deleteWhere (\<lambda>r. rm_roomId r \<in> goneRooms job d) (roomMembers d)"
    and "messages (anonymized now job d) = deleteWhere (\<lambda>m. m_roomId m \<in> goneRooms job d) (messages d)"
    and "messageReports (anonymized now job d) =
      deleteWhere (\<lambda>r. existsRow (\<lambda>m. m_roomId m \<in> goneRooms job d \<and> m_id m = mr_messageId r) (messages d))
        (deleteWhere (\<lambda>r. mr_reporterUserId r = u) (messageReports d))"
    and "readReceipts (anonymized now job d) =
      updateWhere (\<lambda>r. case rr_lastReadMessageId r of None \<Rightarrow> False
          | Some i \<Rightarrow> existsRow (\<lambda>m. m_roomId m \<in> goneRooms job d \<and> m_id m = i) (messages d))
        (\<lambda>r. r\<lparr>rr_lastReadMessageId := None\<rparr>)
        (deleteWhere (\<lambda>r. rr_roomId r \<in> goneRooms job d) (readReceipts d))"
proof -
  let ?rooms = "map mt_roomId (filter (\<lambda>m. mt_userLowId m = u \<or> mt_userHighId m = u) (matchesTable d))"
  let ?gone = "map r_id (filter (\<lambda>r. List.member ?rooms (r_id r)) (rooms d))"
  have gone: "List.member ?gone i \<longleftrightarrow> i \<in> goneRooms job d" for i
    by (auto simp: goneRooms_def u_def keyTaken_iff existsRow_iff image_iff) metis+
  have row: "r \<in> set (rooms d) \<Longrightarrow> List.member ?rooms (r_id r) \<longleftrightarrow> r_id r \<in> goneRooms job d" for r
    by (auto simp: goneRooms_def u_def keyTaken_iff existsRow_iff image_iff)
  have sent: "existsRow (\<lambda>m. Q m \<and> m_id m = i) t \<longleftrightarrow> i \<in> m_id ` {m \<in> set t. Q m}" for Q i and t :: "message table"
    by (auto simp: existsRow_iff)
  note defs = anonymized_def u_def [symmetric] deleteRooms_def deletePersonalRows_def failUploads_def deletePushTokens_def
    deleteNotifications_def Let_def
  show "userLikes (anonymized now job d) = deleteWhere (\<lambda>l. ul_likerUserId l = u \<or> ul_likedUserId l = u) (userLikes d)"
    "matchActions (anonymized now job d) = deleteWhere (\<lambda>x. ma_actorUserId x = u \<or> ma_targetUserId x = u) (matchActions d)"
    by (simp_all add: defs)
  show "rooms (anonymized now job d) = deleteWhere (\<lambda>r. r_id r \<in> goneRooms job d) (rooms d)"
    using row by (simp add: defs deleteWhere_def cong: filter_cong)
  show "matchesTable (anonymized now job d) = deleteWhere (\<lambda>m. mt_roomId m \<in> goneRooms job d) (matchesTable d)"
    "roomMembers (anonymized now job d) = deleteWhere (\<lambda>r. rm_roomId r \<in> goneRooms job d) (roomMembers d)"
    "messages (anonymized now job d) = deleteWhere (\<lambda>m. m_roomId m \<in> goneRooms job d) (messages d)"
    unfolding gone [symmetric] by (simp_all add: defs)
  show "messageReports (anonymized now job d) =
      deleteWhere (\<lambda>r. existsRow (\<lambda>m. m_roomId m \<in> goneRooms job d \<and> m_id m = mr_messageId r) (messages d))
        (deleteWhere (\<lambda>r. mr_reporterUserId r = u) (messageReports d))"
    "readReceipts (anonymized now job d) =
      updateWhere (\<lambda>r. case rr_lastReadMessageId r of None \<Rightarrow> False
          | Some i \<Rightarrow> existsRow (\<lambda>m. m_roomId m \<in> goneRooms job d \<and> m_id m = i) (messages d))
        (\<lambda>r. r\<lparr>rr_lastReadMessageId := None\<rparr>)
        (deleteWhere (\<lambda>r. rr_roomId r \<in> goneRooms job d) (readReceipts d))"
    unfolding gone [symmetric] by (simp_all add: defs sent cong: option.case_cong)
qed

text \<open>Exactly the matches of the account lose their rooms.\<close>

lemma goneRooms_match:
  assumes "roomsInv d" and "m \<in> set (matchesTable d)"
  shows "mt_roomId m \<in> goneRooms job d \<longleftrightarrow> mt_userLowId m = pgUuid (dj_userId job) \<or> mt_userHighId m = pgUuid (dj_userId job)"
proof
  assume "mt_roomId m \<in> goneRooms job d"
  then obtain q where q: "q \<in> set (matchesTable d)" "mt_roomId q = mt_roomId m"
    "mt_userLowId q = pgUuid (dj_userId job) \<or> mt_userHighId q = pgUuid (dj_userId job)"
    by (auto simp: goneRooms_def existsRow_iff)
  have "q = m" using uniqueKey_inj [OF _ q(1) assms(2) q(2)] assms(1) by (simp add: roomsInv_def membersOk_def)
  with q(3) show "mt_userLowId m = pgUuid (dj_userId job) \<or> mt_userHighId m = pgUuid (dj_userId job)" by simp
next
  assume "mt_userLowId m = pgUuid (dj_userId job) \<or> mt_userHighId m = pgUuid (dj_userId job)"
  with assms show "mt_roomId m \<in> goneRooms job d"
    by (auto simp: goneRooms_def existsRow_iff roomsInv_def matchingInv_def matchesOk_def list_all_iff matchOk_def)
qed

lemma anonymized_likes:
  "liked x y (anonymized now job d) \<longleftrightarrow> liked x y d \<and> x \<noteq> pgUuid (dj_userId job) \<and> y \<noteq> pgUuid (dj_userId job)"
  "inRoom r v (anonymized now job d) \<longleftrightarrow> inRoom r v d \<and> r \<notin> goneRooms job d"
  "keyTaken r_id r (rooms (anonymized now job d)) \<longleftrightarrow> keyTaken r_id r (rooms d) \<and> r \<notin> goneRooms job d"
  by (auto simp: liked_def inRoom_def existsRow_iff keyTaken_iff anonymized_rooms)

lemma anonymized_matching:
  assumes inv: "roomsInv d"
  shows "matchingInv (anonymized now job d)"
proof -
  let ?u = "pgUuid (dj_userId job)" and ?d = "anonymized now job d"
  note old = inv [unfolded roomsInv_def matchingInv_def, THEN conjunct1]
  have matches: "matchesOk ?d"
    using old goneRooms_match [OF inv, of _ job]
    by (auto simp: matchesOk_def list_all_iff matchOk_def anonymized_likes anonymized_rooms(3) uniqueKey_deleteWhere)
  have mutual: "mutualMatched ?d"
    using old goneRooms_match [OF inv, of _ job]
    by (fastforce simp: mutualMatched_iff anonymized_likes matchedPair_def existsRow_iff anonymized_rooms(3) matchOf_def)
  have live: "filter (\<lambda>x. ma_revertedAt x = None) (deleteWhere P t) = deleteWhere P (filter (\<lambda>x. ma_revertedAt x = None) t)" for P t
    by (induction t) (simp_all add: deleteWhere_def)
  have likes: "existsRow (likeAction (ul_likerUserId l) (ul_likedUserId l)) (matchActions ?d)" if "l \<in> set (userLikes ?d)" for l
    using old that by (fastforce simp: actionsOk_def list_all_iff anonymized_rooms(1,2) existsRow_iff likeAction_def)
  have "actionsOk ?d"
    using old likes unfolding actionsOk_def anonymized_rooms(1,2) live
    by (auto simp: uniqueKey_deleteWhere list_all_iff anonymized_likes)
  with matches mutual show ?thesis by (simp add: matchingInv_def)
qed

lemma anonymized_members: "roomsInv d \<Longrightarrow> membersOk (anonymized now job d)"
  by (auto simp: roomsInv_def membersOk_def list_all_iff memberOk_def existsRow_iff anonymized_rooms(3,5) uniqueKey_deleteWhere)
    metis

lemma uniqueSome_deleteWhere: "uniqueSome k t \<Longrightarrow> uniqueSome k (deleteWhere P t)"
  by (induction t) (auto simp: deleteWhere_def)

lemma anonymized_chat:
  assumes "roomsInv d"
  shows "chatInv (anonymized now job d)"
proof -
  let ?d = "anonymized now job d"
  have inv: "chatInv d" using assms by (simp add: roomsInv_def)
  have "messageOk ?d m" if "m \<in> set (messages ?d)" for m
    using inv that by (auto simp: chatInv_def list_all_iff messageOk_def anonymized_likes anonymized_rooms(6) split: option.splits)
  moreover have "reportOk ?d r" if "r \<in> set (messageReports ?d)" for r
    using inv that by (fastforce simp: chatInv_def list_all_iff reportOk_def existsRow_iff anonymized_likes anonymized_rooms(6,7))
  moreover have "uniqueKey (\<lambda>r. (rr_roomId r, rr_userId r)) (readReceipts ?d)"
    using inv by (simp add: chatInv_def anonymized_rooms(8) uniqueKey_updateWhere uniqueKey_deleteWhere)
  ultimately show ?thesis
    using inv by (auto simp: chatInv_def list_all_iff anonymized_rooms(6,7) uniqueKey_deleteWhere uniqueSome_deleteWhere)
qed

lemma anonymize_rooms: "preserves roomsInv (anonymizeDeletedAccount now job)"
  by (rule preservesI) (simp add: anonymizeDeletedAccount_eq roomsInv_def [of "anonymized now job d" for d] anonymized_matching
      anonymized_members anonymized_chat)

section \<open>What the invariant says\<close>

text \<open>The members of the room of a match are its two users, who like each other; a user is in rooms of own matches only.\<close>

lemma room_of_match:
  assumes "roomsInv d" and "m \<in> set (matchesTable d)"
  shows "inRoom (mt_roomId m) v d \<longleftrightarrow> v = mt_userLowId m \<or> v = mt_userHighId m"
proof
  assume "inRoom (mt_roomId m) v d"
  then obtain q where q: "q \<in> set (matchesTable d)" "mt_roomId q = mt_roomId m" "mt_userLowId q = v \<or> mt_userHighId q = v"
    using assms(1) by (auto simp: inRoom_def existsRow_iff roomsInv_def membersOk_def list_all_iff memberOk_def)
  have "q = m" using uniqueKey_inj [OF _ q(1) assms(2) q(2)] assms(1) by (simp add: roomsInv_def membersOk_def)
  with q(3) show "v = mt_userLowId m \<or> v = mt_userHighId m" by auto
qed (use assms in \<open>auto simp: roomsInv_def matchingInv_def matchesOk_def list_all_iff matchOk_def\<close>)

lemma member_matched:
  assumes "roomsInv d" and "inRoom r v d"
  obtains w m where "m \<in> set (matchesTable d)" "mt_roomId m = r" "matchOf v w m" "v \<noteq> w" "liked v w d" "liked w v d"
proof -
  from assms obtain m where m: "m \<in> set (matchesTable d)" "mt_roomId m = r" "mt_userLowId m = v \<or> mt_userHighId m = v"
    by (auto simp: inRoom_def existsRow_iff roomsInv_def membersOk_def list_all_iff memberOk_def)
  then have "matchOk d m" using assms(1) by (auto simp: roomsInv_def matchingInv_def matchesOk_def list_all_iff)
  with m show thesis
    using that [of m "mt_userHighId m"] that [of m "mt_userLowId m"] by (auto simp: matchOk_def matchOf_def)
qed

end
