(* ===== verification/Server.thy ===== *)
theory Server
  imports Api Maintenance Rooms
begin

text \<open>
  The server as a whole: requests, sessions, webhooks and maintenance jobs act on one database in any order. The
  locales collect what an invariant needs of the writes of each component, from the tables that a component leaves
  alone up to a machine of all events; the invariants of the accounts, the notifications and the uploads are
  interpreted in them, and so is being locked out after asking for the deletion of the account.
\<close>

section \<open>Invariants of the tables that community and billing leave alone\<close>

definition coreView where
  "coreView d = (users d, profileUploads d, userProfilePhotos d, refreshTokens d, authIdentities d, phoneVerifications d,
     phoneVerificationTokens d, kakaoPhoneVerificationTokens d, notifications d, pushTokens d, pushOutboxes d)"

definition sideView where
  "sideView d = (coreView d, userLikes d, matchActions d, matchesTable d, rooms d, roomMembers d, messages d,
     readReceipts d, messageReports d)"

lemma preserves_mapResult: "preserves I m \<Longrightarrow> preserves I (mapResult f m)"
  unfolding mapResult_def by (intro preserves_intros)

locale side_invariant =
  fixes I :: "db \<Rightarrow> bool"
  assumes side_frame: "sideView d' = sideView d \<Longrightarrow> I d \<Longrightarrow> I d'"
    and side_notifies: "preserves I (notify ids now enabled input)"
begin

lemma side_modifies: "(\<And>d. sideView (f d) = sideView d) \<Longrightarrow> preserves I (modify f)"
  by (rule preserves_modify) (rule side_frame)

lemmas side_keeps = preserves_intros side_notifies side_modifies

lemma community_keeps:
  "preserves I communityPostsOf" "preserves I (communityCommentsOf postId)" "preserves I (createPost now me pinput)"
  "preserves I (createComment ids now enabled me postId body key)"
  "preserves I (reportPost i now me postId reason)" "preserves I (reportComment i now me commentId reason)"
  unfolding communityPostsOf_def communityCommentsOf_def createPost_def createComment_def reportPost_def reportComment_def
    repoCreatePost_def repoCreateComment_def repoReportPost_def repoReportComment_def validateCommunityUuid_def
    validateCommunityText_def Let_def
  by (intro side_keeps; simp add: sideView_def coreView_def)+

lemma communityResolver_keeps: "preserves I (communityResolver env req me c)"
  by (cases c) (simp_all only: communityResolver.simps, (intro preserves_mapResult community_keeps)+)

lemma applyEvent_keeps: "preserves I (applyRevenueCatEvent ids now input)"
  unfolding applyRevenueCatEvent_def applyConsumableTransition_def applySubscription_def insertTransaction_def
    insertLedgerEntry_def assertTransactionIdentity_def settleRow_def Let_def
  by (cases input) (simp_all only: revenueCatEventInput.case,
    (intro side_keeps; simp add: sideView_def coreView_def applyDelta_def addCredits_def recordEvent_def)+)

lemma webhook_keeps:
  "preserves I (handleRevenueCatWebhook hmac bodyHash config enabled ids now body signature payload)"
  unfolding handleRevenueCatWebhook_def Let_def
  by (intro preserves_intros assertSignature_reads [THEN preserves_reads] getRevenueCatEvent_reads [THEN preserves_reads]
      required_reads [THEN preserves_reads] assertProductionEvent_reads [THEN preserves_reads]
      revenueCatInput_reads [THEN preserves_reads] applyEvent_keeps side_notifies)

lemma billingResolver_keeps: "preserves I (billingResolver env req me c)"
  by (cases c) (simp only: billingResolver.simps balance_def, intro preserves_mapResult preserves_intros)

end

section \<open>Invariants of the tables that chat and matching leave alone too\<close>

locale core_invariant =
  fixes I :: "db \<Rightarrow> bool"
  assumes frame: "coreView d' = coreView d \<Longrightarrow> I d \<Longrightarrow> I d'"
    and notifies: "preserves I (notify ids now enabled input)"
begin

lemma modifies: "(\<And>d. coreView (f d) = coreView d) \<Longrightarrow> preserves I (modify f)"
  by (rule preserves_modify) (rule frame)

lemmas keeps = preserves_intros notifies modifies

lemma chat_reads:
  "preserves I (chatRooms me)" "preserves I (chatMessages me minput)" "preserves I (assertRoomMember roomId me)"
  unfolding chatRooms_def chatMessages_def assertRoomMember_def validateChatUuid_def requireRoomMember_def Let_def
  by (intro keeps)+

lemma chat_writes:
  "preserves I (editMessage now me mid txt)" "preserves I (deleteMessage now me mid)" "preserves I (markRoomRead me roomId)"
  "preserves I (blockUser now me other)" "preserves I (reportMessage i now me mid reason)"
  "preserves I (sendMessage i ids now enabled me input)"
  unfolding editMessage_def deleteMessage_def markRoomRead_def blockUser_def reportMessage_def repoEditMessage_def
    repoDeleteMessage_def updateOwnMessage_def repoMarkRoomRead_def repoBlockUser_def repoReportMessage_def
    sendMessage_def deliverMessage_def createdMessage_def notifyMembers_def createMessage_def ensureRoom_def
    touchRoom_def validateChatUuid_def validateMessageText_def validateIdempotencyKey_def requireRoomMember_def
    validateReportReason_def publishMessageEvent_def Let_def
  by (intro keeps; simp add: coreView_def)+

lemma chatResolver_keeps: "preserves I (chatResolver env req me c)"
  by (cases c) (simp_all only: chatResolver.simps, (intro preserves_mapResult chat_reads chat_writes)+)

lemma matching_keeps:
  "preserves I (candidates now me)" "preserves I (likedMeCandidates now me)" "preserves I (undoLastAction now me)"
  "preserves I (activateBoost i now me)"
  unfolding candidates_def matching_checks likedMeCandidates_def enforceLikedMeWindow_def consumeLikedMeAccess_def
    undoLastAction_def repoUndoLastAction_def activateBoost_def repoActivateBoost_def Let_def
  by (intro keeps; simp add: coreView_def returnSuperLike_def)+

lemma act_keeps: "preserves I (actOnCandidate ids now enabled a b k)"
  unfolding actOnCandidate_def matching_checks repoActOnCandidate_def notifyInteraction_def newAction_def recordLike_def
    spendSuperLike_def finishAction_def matchIfReverseExists_def insertUserLike_def insertMatchAction_def
    insertRoom_def insertMatch_def repeatedAction_def assertAvailable_def Let_def
  by (intro keeps; simp add: coreView_def addMember_def)

lemma matchingResolver_keeps: "preserves I (matchingResolver env req me c)"
  by (cases c) (simp_all only: matchingResolver.simps likeUser_def skipCandidate_def superLikeUser_def,
    (intro preserves_mapResult preserves_intros matching_keeps act_keeps)+)

end

sublocale core_invariant \<subseteq> side_invariant
  by unfold_locales (simp_all add: notifies frame sideView_def)

section \<open>The server\<close>

text \<open>Everything that reaches the database: requests with an access token, the refreshing and the ending of
  sessions, requests that need no token, and the jobs of the maintenance process, in any order.\<close>

datatype serverEvent =
    UserE apiRequest userCall
  | RefreshE apiRequest
  | LogoutE apiRequest
  | PublicE apiRequest publicCall
  | JobE maintenanceServices timestamp maintenanceJob

fun serverStep :: "apiEnv \<Rightarrow> db \<Rightarrow> serverEvent \<Rightarrow> db" where
  "serverStep env d (UserE req call) = snd (userRequest env req call d)"
| "serverStep env d (RefreshE req) = snd (refreshRequest env req d)"
| "serverStep env d (LogoutE req) = snd (logoutRequest env req d)"
| "serverStep env d (PublicE req call) = snd (publicRequest env req call d)"
| "serverStep env d (JobE services now job) =
     (case map_of (maintenanceJobs services now) job of None \<Rightarrow> d | Some m \<Rightarrow> snd (m d))"

text \<open>Events by which nobody signs in, signs up or changes a password.\<close>

fun sessionEvent :: "serverEvent \<Rightarrow> bool" where
  "sessionEvent (PublicE req BillingProducts) \<longleftrightarrow> True"
| "sessionEvent (PublicE req (PhoneCall (RequestPhoneCode phone purpose))) \<longleftrightarrow> True"
| "sessionEvent (PublicE req (RevenueCatWebhook rawBody signature payload)) \<longleftrightarrow> True"
| "sessionEvent (PublicE req _) \<longleftrightarrow> False"
| "sessionEvent _ \<longleftrightarrow> True"

text \<open>An invariant of the server, in terms of the writes of the components.\<close>

lemma preserves_case_claim:
  "(\<And>u. preserves I (f u)) \<Longrightarrow> (\<And>u. preserves I (g u)) \<Longrightarrow> (\<And>u. preserves I (h u)) \<Longrightarrow> (\<And>u. preserves I (k u)) \<Longrightarrow>
   preserves I (case c of FinalizeClaimed u \<Rightarrow> f u | FinalizeVerified u \<Rightarrow> g u | FinalizeExpired u \<Rightarrow> h u
     | FinalizeBusy u \<Rightarrow> k u)"
  by (cases c) simp_all

lemma preserves_case_staging:
  "(\<And>e. preserves I (f e)) \<Longrightarrow> preserves I m \<Longrightarrow> (\<And>bs. preserves I (g bs)) \<Longrightarrow>
   preserves I (case s of StagingInvalid e \<Rightarrow> f e | StagingUnavailable \<Rightarrow> m | StagingBytes bs \<Rightarrow> g bs)"
  by (cases s) simp_all

lemma accessTokenGuard_reads: "reads (accessTokenGuard env req)"
  unfolding accessTokenGuard_def accessTokenValidate_def by (rule readsI) (intro preserves_intros)

lemma refreshTokenGuard_reads: "reads (refreshTokenGuard env req)"
  unfolding refreshTokenGuard_def refreshTokenValidate_def Let_def by (rule readsI) (intro preserves_intros)

text \<open>The user that the token of a request is for.\<close>

definition accessUser :: "apiEnv \<Rightarrow> apiRequest \<Rightarrow> jsstring option" where
  "accessUser env req = Option.bind (Option.bind (accessTokenFromRequest env req) (ae_verifyAccess env (rq_now req)))
     (\<lambda>payload. jsonText (jsonField (js ''userId'') payload))"

lemma guard_user:
  assumes "accessTokenGuard env req d = (Inr v, d')"
  shows "accessUser env req = Some v \<and> d' = d"
  using assms readsD [OF accessTokenGuard_reads assms]
  by (auto simp: accessTokenGuard_def accessTokenValidate_def success_simps accessUser_def isAccessTokenClaims_def truthy_def
      bind_eq_Some_conv split: option.splits)

text \<open>The writes behind the other resolvers, apart from the request for the deletion of an account.\<close>

locale quiet_invariant =
  fixes I :: "db \<Rightarrow> bool"
  assumes sets_profile: "preserves I (replaceProfile pids pnow me v)"
    and marks_read: "preserves I (repoMarkRead mnow me n)"
    and registers_token: "preserves I (repoRegisterPushToken ti tnow me dev token platform)"
    and unregisters_token: "preserves I (repoUnregisterPushToken tnow me dev)"
    and creates_upload: "preserves I (createPending ui me key ct bytes expiresAt unow)"
    and claims_upload: "preserves I (claimFinalize uploadId me unow lease)"
    and prepares_upload: "preserves I (prepareFinalObject uploadId me x lease unow)"
    and verifies_upload: "preserves I (uploadMarkVerified uploadId me x lease unow)"
    and fails_upload: "preserves I (markFailed uploadId code lease unow)"
    and returns_upload: "preserves I (releaseFinalizeLease uploadId lease unow)"
    and ends_staging: "preserves I (markStagingDeleted uploadId unow)"
    and rotates: "preserves I (rotateRefreshToken rnow me rdev old new expiry)"
    and ends_session: "preserves I (deleteRefreshToken me rdev)"
    and reserves_code: "preserves I (reserveVerification ci cnow phone purpose ip agent c l m)"
    and activates_code: "preserves I (activateVerification cnow ci challenge ttl)"
    and drops_code: "preserves I (deleteVerification ci)"
begin

lemma userResolver_quiet:
  assumes "c \<noteq> RequestAccountDeletion"
  shows "preserves I (userResolver env req me c)"
proof (cases c)
  case RequestAccountDeletion
  with assms show ?thesis by simp
next
  case (UpdateUserProfile input)
  show ?thesis
    unfolding UpdateUserProfile userResolver.simps updateProfile_def validateUserUuid_def findUser_def validateProfileInput_def
      validateRequiredText_def validateBirthDate_def Let_def
    by (intro preserves_mapResult preserves_intros sets_profile)
qed (simp_all only: userResolver.simps, (unfold profile_def currentSubscription_def findUser_def validateUserUuid_def,
  (intro preserves_mapResult preserves_intros)+))

lemma notificationResolver_keeps: "preserves I (notificationResolver env req me c)"
  by (cases c)
    (simp_all only: notificationResolver.simps, (unfold listNotifications_def markRead_def registerPushToken_def
      unregisterPushToken_def deviceIdFromRequest_def Let_def,
      (intro preserves_mapResult preserves_intros marks_read registers_token unregisters_token)+))

lemma publishUpload_keeps: "preserves I (publishUpload uenv now me u lease bs)"
  unfolding publishUpload_def profilePublicBaseUrl_def finalizedPayload_def Let_def
  by (intro preserves_intros prepares_upload verifies_upload returns_upload ends_staging)

lemma uploadResolver_keeps: "preserves I (uploadResolver env req me c)"
  by (cases c)
    (simp_all only: uploadResolver.simps, (unfold createUpload_def validateUploadInput_def profilePublicBaseUrl_def
      createPresignedPutUrl_def finalizeUpload_def finalizeLease_def finalizedPayload_def Let_def,
      (intro preserves_mapResult preserves_intros preserves_case_claim preserves_case_staging creates_upload claims_upload
        publishUpload_keeps fails_upload returns_upload)+))

lemma sessions_keep: "preserves I (refreshRequest env req)" "preserves I (logoutRequest env req)"
  unfolding refreshRequest_def logoutRequest_def refresh_def findUser_def prepareRefreshToken_def logout_def Let_def
  by (intro preserves_andThen [OF preserves_reads [OF refreshTokenGuard_reads]] preserves_mapResult preserves_intros
      rotates ends_session)+

lemma requestCode_keeps: "preserves I (requestPhoneCode aenv pepper send n i now phone purpose ip agent)"
proof -
  have "preserves I (case r of
       Reserved v \<Rightarrow> tryCatch (andThen (throwIf (x v) e1) (\<lambda>_. andThen (activateVerification now (pv_id v) c t) (\<lambda>a.
         andThen (throwIf (a = None) e2) (\<lambda>_. ret True)))) (\<lambda>_. andThen (tryCatch (deleteVerification (pv_id v))
           (\<lambda>_. ret ())) (\<lambda>_. throw e3))
     | RetryTooSoon \<Rightarrow> throw f1 | PhoneLimit \<Rightarrow> throw f2 | IpLimit \<Rightarrow> throw f3)" for r x e1 c t e2 e3 f1 f2 f3
    by (cases r) (simp_all, (intro preserves_intros activates_code drops_code)+)
  then show ?thesis
    unfolding requestPhoneCode_def normalizeKoreanPhone_def Let_def
    by (intro preserves_intros reserves_code)
qed

end

locale profile_invariant = quiet_invariant I for I +
  assumes schedules: "preserves I (scheduleDeletion snow me until)"
begin

lemma userResolver_keeps: "preserves I (userResolver env req me c)"
proof (cases "c = RequestAccountDeletion")
  case True
  show ?thesis
    unfolding True userResolver.simps beginAccountDeletion_def validateUserUuid_def findUser_def
    by (intro preserves_mapResult preserves_intros schedules)
qed (rule userResolver_quiet)

end

context maintained
begin

lemma job_keeps: "I d \<Longrightarrow> I (serverStep env d (JobE services now job))"
  using jobs_keep [of job] by (auto simp: preserves_def split: option.split dest!: map_of_SomeD)

end

locale session_invariant = core_invariant I + maintained I + profile_invariant I for I
begin

lemma resolve_keeps: "preserves I (resolve env req me call)"
  by (cases call) (simp_all add: chatResolver_keeps userResolver_keeps matchingResolver_keeps communityResolver_keeps
    notificationResolver_keeps uploadResolver_keeps billingResolver_keeps)

lemma userRequest_keeps: "preserves I (userRequest env req call)"
  unfolding userRequest_def by (intro preserves_andThen preserves_reads [OF accessTokenGuard_reads] resolve_keeps)

lemma quiet_keeps:
  "preserves I (publicRequest env req BillingProducts)" "preserves I (publicRequest env req (PhoneCall (RequestPhoneCode phone purpose)))"
  "preserves I (publicRequest env req (RevenueCatWebhook rawBody signature payload))"
  unfolding publicRequest.simps phoneResolver.simps receiveWebhook_def
  by (intro preserves_mapResult preserves_intros requestCode_keeps webhook_keeps)+

lemma session_step: "I d \<Longrightarrow> sessionEvent e \<Longrightarrow> I (serverStep env d e)"
proof (cases e)
  case (PublicE req call)
  assume "I d" "sessionEvent e"
  with PublicE quiet_keeps show ?thesis
  proof (cases call)
    case (PhoneCall c)
    with \<open>I d\<close> \<open>sessionEvent e\<close> PublicE quiet_keeps(2) show ?thesis
      by (cases c) (auto simp: preserves_def simp del: publicRequest.simps)
  qed (auto simp: preserves_def simp del: publicRequest.simps)
qed (use job_keeps in \<open>simp_all add: preserves_def [THEN iffD1, rule_format, OF userRequest_keeps]
  preserves_def [THEN iffD1, rule_format, OF sessions_keep(1)] preserves_def [THEN iffD1, rule_format, OF sessions_keep(2)]\<close>)

end

sublocale session_invariant \<subseteq> sessions: guarded_machine "serverStep env" I sessionEvent for env
  by unfold_locales (rule session_step)

locale public_invariant = auth_writes I "ae_auth env" for I and env :: apiEnv +
  assumes webhooks: "preserves I (handleRevenueCatWebhook hmac bodyHash config enabled ids now body signature payload)"
begin

lemma phoneResolver_keeps: "preserves I (phoneResolver env req call)"
  by (cases call) (simp_all only: phoneResolver.simps, (unfold deviceIdFromRequest_def completePhoneSignup_def
    phoneCompleteKakaoSignup_def requireGender_def Let_def,
    (intro preserves_mapResult preserves_intros requestPhoneCode_keeps verifyPhoneCode_keeps signup_keeps
      completeKakao_keeps resetPassword_keeps)+))

lemma publicRequest_keeps: "preserves I (publicRequest env req call)"
  by (cases call) (simp_all only: publicRequest.simps phoneResolver_keeps, (unfold loginWithKakaoRequest_def kakaoCallback_def
    receiveWebhook_def deviceIdFromRequest_def kakaoCallbackState_def Let_def,
    (intro preserves_mapResult preserves_intros kakao_logins_keep webhooks)+))

end

locale server_invariant = session_invariant I + auth_writes I "ae_auth env" for I and env :: apiEnv

sublocale server_invariant \<subseteq> public_invariant I env
  by unfold_locales (rule webhook_keeps)

context server_invariant
begin

lemma server_step: "I d \<Longrightarrow> I (serverStep env d e)"
proof (cases e)
  case (PublicE req call)
  assume "I d"
  with publicRequest_keeps show ?thesis
    unfolding PublicE serverStep.simps preserves_def by blast
qed (simp_all only: session_step sessionEvent.simps)

end

sublocale server_invariant \<subseteq> server: invariant_machine "serverStep env" I
  by unfold_locales (rule server_step)

text \<open>An invariant that one user breaks by asking for the deletion of the account, and nobody else.\<close>

fun asksDeletion :: "apiEnv \<Rightarrow> uuid \<Rightarrow> serverEvent \<Rightarrow> bool" where
  "asksDeletion env who (UserE req (ProfileCall RequestAccountDeletion)) \<longleftrightarrow> map_option pgUuid (accessUser env req) = Some who"
| "asksDeletion env who _ \<longleftrightarrow> False"

locale staying_invariant = core_invariant I + maintained I + quiet_invariant I + auth_writes I "ae_auth env"
  for I and env :: apiEnv +
  fixes who :: uuid
  assumes others_schedule: "pgUuid me \<noteq> who \<Longrightarrow> preserves I (scheduleDeletion snow me until)"

sublocale staying_invariant \<subseteq> public_invariant I env
  by unfold_locales (rule webhook_keeps)

context staying_invariant
begin

lemma userRequest_stays:
  assumes "\<not> asksDeletion env who (UserE req call)"
  shows "preserves I (userRequest env req call)"
  unfolding userRequest_def
proof (rule preserves_checked [OF accessTokenGuard_reads])
  fix me d assume me: "accessTokenGuard env req d = (Inr me, d)" and inv: "I d"
  have "preserves I (resolve env req me call)"
  proof (cases "call = ProfileCall RequestAccountDeletion")
    case True
    with assms guard_user [OF me] have "pgUuid me \<noteq> who" by simp
    then show ?thesis
      unfolding True resolve.simps userResolver.simps beginAccountDeletion_def validateUserUuid_def findUser_def
      by (intro preserves_mapResult preserves_intros others_schedule)
  next
    case False
    then show ?thesis
      by (cases call) (auto simp: chatResolver_keeps userResolver_quiet matchingResolver_keeps communityResolver_keeps
        notificationResolver_keeps uploadResolver_keeps billingResolver_keeps)
  qed
  with inv show "I (snd (resolve env req me call d))" by (simp add: preserves_def)
qed

lemma staying_step:
  assumes "I d" and "\<not> asksDeletion env who e"
  shows "I (serverStep env d e)"
proof (cases e)
  case (UserE req call)
  with assms userRequest_stays [of req call] show ?thesis by (simp add: preserves_def del: asksDeletion.simps)
next
  case (PublicE req call)
  with assms(1) publicRequest_keeps show ?thesis by (simp add: preserves_def del: publicRequest.simps)
qed (use assms(1) sessions_keep job_keeps in \<open>simp_all add: preserves_def del: serverStep.simps(5)\<close>)

end

sublocale staying_invariant \<subseteq> staying: guarded_machine "serverStep env" I "\<lambda>e. \<not> asksDeletion env who e"
  by unfold_locales (rule staying_step)

section \<open>Writes to the notifications\<close>

text \<open>What an invariant keeps that does not mention the tables of the notifications.\<close>

lemma push_writes_frame:
  assumes "\<And>d a. I (d\<lparr>notifications := a\<rparr>) = I d" and "\<And>d a. I (d\<lparr>pushTokens := a\<rparr>) = I d"
    and "\<And>d a. I (d\<lparr>pushOutboxes := a\<rparr>) = I d"
  shows "preserves I (repoMarkRead now me n)" "preserves I (repoRegisterPushToken i now me dev token platform)"
    "preserves I (repoUnregisterPushToken now me dev)" "preserves I (claimSendBatch now lease k)"
    "preserves I (claimReceiptBatch now lease k)" "preserves I (applySendResults now rs)"
    "preserves I (applyReceiptResults now qs)"
proof -
  have push: "I (deletePushTokens P d) = I d" "I (cancelOpen now Q d) = I d" "I (dropPushToken now q d) = I d"
    "I (refreshDeviceToken now v platform d) = I d" "I (replaceDeviceToken now v token platform d) = I d"
    "I (invalidatePushToken i j now d) = I d" for P Q d now q v platform token i j
    by (simp_all add: assms deletePushTokens_def cancelOpen_def dropPushToken_def refreshDeviceToken_def
        replaceDeviceToken_def invalidatePushToken_def Let_def split: option.split)
  show "preserves I (repoMarkRead now me n)" "preserves I (repoRegisterPushToken i now me dev token platform)"
    "preserves I (repoUnregisterPushToken now me dev)" "preserves I (claimSendBatch now lease k)"
    "preserves I (claimReceiptBatch now lease k)"
    unfolding repoMarkRead_def repoRegisterPushToken_def repoUnregisterPushToken_def insertPushToken_def
      claimSendBatch_def claimReceiptBatch_def Let_def
    by (intro preserves_intros preserves_modify; simp add: assms push)+
  have "preserves I (applySendResult now x)" for x
    unfolding applySendResult_def Let_def
    by (cases "sendResultValues x now") (auto intro!: preserves_intros preserves_modify simp: assms push)
  then show "preserves I (applySendResults now rs)"
    unfolding applySendResults_def by (intro preserves_transaction preserves_forEach)
  have "preserves I (applyReceiptResult now x)" for x
    unfolding applyReceiptResult_def Let_def
    by (cases "receiptResultValues x now") (auto intro!: preserves_intros preserves_modify simp: assms push)
  then show "preserves I (applyReceiptResults now qs)"
    unfolding applyReceiptResults_def by (intro preserves_transaction preserves_forEach)
qed

section \<open>Accounts\<close>

definition accountView where
  "accountView d = (users d, refreshTokens d, authIdentities d, phoneVerifications d, phoneVerificationTokens d,
     kakaoPhoneVerificationTokens d)"

lemma coreView_account: "coreView d' = coreView d \<Longrightarrow> accountView d' = accountView d"
  by (simp add: coreView_def accountView_def)

lemma account_frames [simp]:
  "accountView (d\<lparr>notifications := a\<rparr>) = accountView d" "accountView (d\<lparr>pushTokens := b\<rparr>) = accountView d"
  "accountView (d\<lparr>pushOutboxes := x\<rparr>) = accountView d" "accountView (d\<lparr>profileUploads := y\<rparr>) = accountView d"
  "accountView (d\<lparr>userProfilePhotos := z\<rparr>) = accountView d"
  by (simp_all add: accountView_def)

lemma push_account [simp]:
  "accountView (deletePushTokens P d) = accountView d" "accountView (cancelOpen now Q d) = accountView d"
  "accountView (dropPushToken now q d) = accountView d" "accountView (refreshDeviceToken now v platform d) = accountView d"
  "accountView (replaceDeviceToken now v token platform d) = accountView d"
  "accountView (invalidatePushToken i j now d) = accountView d"
  by (simp_all add: deletePushTokens_def cancelOpen_def dropPushToken_def refreshDeviceToken_def replaceDeviceToken_def
      invalidatePushToken_def Let_def split: option.split)

text \<open>An invariant of the accounts, their sessions and their tokens: what else the components write does not matter
  to it.\<close>

locale quiet_accounts =
  fixes I :: "db \<Rightarrow> bool"
  assumes account_frame: "accountView d' = accountView d \<Longrightarrow> I d \<Longrightarrow> I d'"
    and profile_set: "I d \<Longrightarrow> I (d\<lparr>users := updateWhere (\<lambda>u. u_userId u = i) (setProfile now v) (users d)\<rparr>)"
    and deletions_claimed: "preserves I (claimDueDeletionBatch now lease n)"
    and deletion_released: "preserves I (releaseDeletionLease now job)"
    and deleted: "preserves I (anonymizeDeletedAccount now job)"
    and rotated: "preserves I (rotateRefreshToken now me dev old new expiry)"
    and session_ended: "preserves I (deleteRefreshToken me dev)"
    and verification_reserved: "preserves I (reserveVerification ci now phone purpose ip agent c l m)"
    and verification_activated: "preserves I (activateVerification now ci challenge ttl)"
    and verification_dropped: "preserves I (deleteVerification ci)"
begin

lemma leaves: "(\<And>d. accountView (f d) = accountView d) \<Longrightarrow> preserves I (modify f)"
  by (rule preserves_modify) (rule account_frame)

lemma same: "accountView d' = accountView d \<Longrightarrow> I d' = I d"
  using account_frame [of d' d] account_frame [of d d'] by auto

lemma notify_leaves: "preserves I (notify ids now enabled input)"
  by (rule notify_frame) (erule account_frame [rotated], simp)+

lemma profile_replaced: "preserves I (replaceProfile ids now me v)"
  unfolding replaceProfile_def Let_def
  by (intro preserves_intros preserves_modify profile_set; (assumption | erule account_frame [rotated], simp))

lemma push_leaves:
  "preserves I (repoMarkRead now me n)" "preserves I (repoRegisterPushToken i now me dev token platform)"
  "preserves I (repoUnregisterPushToken now me dev)" "preserves I (claimSendBatch now lease k)"
  "preserves I (claimReceiptBatch now lease k)" "preserves I (applySendResults now rs)" "preserves I (applyReceiptResults now qs)"
  by (rule push_writes_frame; rule same; simp)+

lemma uploads_leave: "preserves I (updateUploads P f)"
  unfolding updateUploads_def by (intro preserves_intros leaves) simp

lemma upload_leaves:
  "preserves I (createPending ui me key ct bytes expiresAt now)" "preserves I (claimFinalize uploadId me now lease)"
  "preserves I (prepareFinalObject uploadId me x lease now)" "preserves I (uploadMarkVerified uploadId me x lease now)"
  "preserves I (markFailed uploadId code lease now)" "preserves I (releaseFinalizeLease uploadId lease now)"
  "preserves I (markStagingDeleted uploadId now)" "preserves I (claimCleanupBatch now lease k)"
  "preserves I (applyCleanupResult uploadId lease s f nextAt now)"
  unfolding createPending_def claimFinalize_def prepareFinalObject_def uploadMarkVerified_def markFailed_def
    releaseFinalizeLease_def markStagingDeleted_def claimCleanupBatch_def applyCleanupResult_def Let_def
  by (intro preserves_intros uploads_leave leaves; simp)+

end

sublocale quiet_accounts \<subseteq> core_invariant I
  by unfold_locales (simp_all add: notify_leaves account_frame [OF coreView_account])

sublocale quiet_accounts \<subseteq> maintained I
  by unfold_locales (simp_all add: push_leaves upload_leaves deletions_claimed deletion_released deleted)

sublocale quiet_accounts \<subseteq> quiet_invariant I
  by unfold_locales
    (simp_all add: profile_replaced push_leaves upload_leaves rotated session_ended verification_reserved verification_activated
      verification_dropped)

locale account_invariant = quiet_accounts I for I +
  assumes deletion_scheduled: "preserves I (scheduleDeletion now me until)"

sublocale account_invariant \<subseteq> session_invariant I
  by unfold_locales (rule deletion_scheduled)

text \<open>The life of an account: hidden while its deletion is scheduled and when it is deleted, leased only while scheduled.\<close>

definition deletionOk :: "user \<Rightarrow> bool" where
  "deletionOk u \<longleftrightarrow> (u_deletionScheduledAt u \<noteq> None \<longrightarrow> u_hiddenAt u \<noteq> None) \<and>
     (u_deletionLeaseExpiresAt u \<noteq> None \<longrightarrow> u_deletionScheduledAt u \<noteq> None) \<and>
     (u_deletedAt u \<noteq> None \<longrightarrow> u_hiddenAt u \<noteq> None \<and> u_deletionScheduledAt u = None)"

definition accountInv :: "db \<Rightarrow> bool" where
  "accountInv d \<longleftrightarrow> authInv d \<and> list_all deletionOk (users d)"

lemma accountInv_frame: "accountView d' = accountView d \<Longrightarrow> accountInv d' = accountInv d"
  by (simp add: accountInv_def authInv_defs accountView_def userExists_def)

lemma accountInv_push [simp]:
  "accountInv (cancelOpen now P d) = accountInv d" "accountInv (deletePushTokens Q d) = accountInv d"
  by (rule accountInv_frame; simp)+

lemma accountInv_users:
  assumes "accountInv d" and "\<And>u. P u \<Longrightarrow> u_userId (f u) = u_userId u \<and> u_email (f u) = u_email u \<and>
      (u_phone (f u) = u_phone u \<or> u_phone (f u) = None) \<and> (deletionOk u \<longrightarrow> deletionOk (f u))"
  shows "accountInv (d\<lparr>users := updateWhere P f (users d)\<rparr>)"
proof -
  have "uniqueSome u_phone (updateWhere P f (users d))"
    using assms by (intro uniqueSome_updateWhere) (auto simp: accountInv_def authInv_defs)
  then have "authInv (d\<lparr>users := updateWhere P f (users d)\<rparr>)"
    using assms by (intro authInv_users) (auto simp: accountInv_def)
  moreover have "list_all deletionOk (updateWhere P f (users d))"
    using assms by (intro list_all_updateWhere) (auto simp: accountInv_def)
  ultimately show ?thesis by (simp add: accountInv_def)
qed

lemma accountInv_sessions:
  "accountInv d \<Longrightarrow> (\<And>t. P t \<Longrightarrow> rt_userId (f t) = rt_userId t \<and> rt_deviceId (f t) = rt_deviceId t) \<Longrightarrow>
   accountInv (d\<lparr>refreshTokens := updateWhere P f (refreshTokens d)\<rparr>)"
  "accountInv d \<Longrightarrow> accountInv (d\<lparr>refreshTokens := deleteWhere Q (refreshTokens d)\<rparr>)"
  by (simp_all add: accountInv_def authInv_sessions)

lemma accountInv_both:
  "preserves authInv m \<Longrightarrow> preserves (\<lambda>d. list_all deletionOk (users d)) m \<Longrightarrow> preserves accountInv m"
  by (simp add: preserves_def accountInv_def)

lemma uniqueKey_set:
  assumes "uniqueKey i t" and "uniqueKey k t"
    and "\<And>r. r \<in> set t \<Longrightarrow> i r \<noteq> a \<Longrightarrow> k r \<noteq> v" and "\<And>r. k (f r) = v" and "\<And>r. P r \<Longrightarrow> i r = a"
  shows "uniqueKey k (updateWhere P f t)"
proof -
  have some: "uniqueKey k xs \<longleftrightarrow> uniqueSome (\<lambda>r. Some (k r)) xs" for xs
    by (induction xs) (auto simp: uniqueKey_def image_iff)
  show ?thesis
    unfolding some using assms by (intro uniqueSome_set [where i = i and v = v]) (auto simp: some)
qed

lemma accountInv_anonymized:
  assumes "accountInv d" and "existsRow (deletionClaimed now job) (users d)"
    and "\<not> existsRow (\<lambda>u. u_userId u \<noteq> pgUuid (dj_userId job) \<and> u_email u = deletedEmail (dj_userId job)) (users d)"
  shows "accountInv (anonymized now job d)"
proof -
  let ?u = "pgUuid (dj_userId job)" and ?f = "anonymousUser now (dj_userId job)"
  let ?t = "updateWhere (\<lambda>u. u_userId u = ?u) ?f (users d)"
  have email: "uniqueKey u_email ?t"
    using assms by (intro uniqueKey_set [where i = u_userId]) (auto simp: accountInv_def authInv_defs anonymousUser_def existsRow_iff)
  have phone: "uniqueSome u_phone ?t"
    using assms(1) by (intro uniqueSome_updateWhere) (auto simp: accountInv_def authInv_defs anonymousUser_def)
  obtain w where w: "w \<in> set (users d)" "deletionClaimed now job w"
    using assms(2) by (auto simp: existsRow_iff)
  have own: "u = w" if "u \<in> set (users d)" "u_userId u = ?u" for u
  proof (rule uniqueKey_inj [OF _ that(1) w(1)])
    show "uniqueKey u_userId (users d)" using assms(1) by (simp add: accountInv_def authInv_defs)
    show "u_userId u = u_userId w" using that(2) w(2) by (simp add: deletionClaimed_def)
  qed
  have ok: "list_all deletionOk ?t"
  proof (rule list_all_updateWhere)
    show "list_all deletionOk (users d)" using assms(1) by (simp add: accountInv_def)
    show "deletionOk (?f u)" if "u \<in> set (users d)" "deletionOk u" "u_userId u = ?u" for u
      using that own [OF that(1,3)] w(2) by (auto simp: deletionOk_def anonymousUser_def deletionClaimed_def split: option.splits)
  qed
  have known: "userExists i (d\<lparr>users := ?t\<rparr>) = userExists i d" for i
    by (rule userExists_update) (simp add: anonymousUser_def)
  have "accountInv (d\<lparr>users := ?t, refreshTokens := deleteWhere (\<lambda>t. rt_userId t = ?u) (refreshTokens d),
      authIdentities := deleteWhere (\<lambda>x. ai_userId x = ?u) (authIdentities d)\<rparr>)"
    using assms(1) email phone ok known
    by (auto simp: accountInv_def authInv_defs uniqueKey_updateWhere anonymousUser_def uniqueKey_deleteWhere list_all_iff)
  then show ?thesis
    by (rule accountInv_frame [THEN iffD1, rotated])
       (simp add: accountView_def anonymized_def deleteRooms_def deletePersonalRows_def deletePushTokens_def
         deleteNotifications_def failUploads_def Let_def)
qed

lemma accounts_codes:
  "preserves accountInv (reserveVerification ci now phone purpose ip agent c l m)"
  "preserves accountInv (activateVerification now ci challenge ttl)" "preserves accountInv (deleteVerification ci)"
proof -
  let ?J = "\<lambda>d. list_all deletionOk (users d)"
  have "preserves ?J (reserveVerification ci now phone purpose ip agent c l m)"
    "preserves ?J (activateVerification now ci challenge ttl)" "preserves ?J (deleteVerification ci)"
    unfolding reserveVerification_def activateVerification_def deleteVerification_def updateVerifications_def Let_def
    by (intro preserves_intros preserves_modify; simp)+
  then show "preserves accountInv (reserveVerification ci now phone purpose ip agent c l m)"
    "preserves accountInv (activateVerification now ci challenge ttl)" "preserves accountInv (deleteVerification ci)"
    by (auto intro: accountInv_both accounts.reserve accounts.activate accounts.delete_verification)
qed

lemma schedule_keeps: "preserves accountInv (scheduleDeletion now me until)"
  unfolding scheduleDeletion_def Let_def
  by (intro preserves_intros preserves_modify accountInv_users accountInv_sessions)
     (simp_all add: deletionOk_def)

interpretation account: account_invariant accountInv
proof
  show "accountInv d'" if "accountView d' = accountView d" "accountInv d" for d d'
    using that accountInv_frame by blast
  show "accountInv (d\<lparr>users := updateWhere (\<lambda>u. u_userId u = i) (setProfile now v) (users d)\<rparr>)" if "accountInv d" for d i now v
    using that by (rule accountInv_users) (simp add: setProfile_def deletionOk_def)
  show "preserves accountInv (claimDueDeletionBatch now lease n)" for now lease n
  proof (rule preservesI)
    fix d assume inv: "accountInv d"
    let ?P = "\<lambda>u. u_userId u \<in> set (deletions.ids now n (users d))"
    have "uniqueKey u_userId (users d)" using inv by (simp add: accountInv_def authInv_defs)
    then have "updateWhere ?P f (users d) = updateWhere (\<lambda>u. ?P u \<and> deletionDue now u) f (users d)" for f
      using deletions.ids_due by (auto simp: updateWhere_def)
    with inv have "accountInv (d\<lparr>users := snd (deletions.batch now lease n (users d))\<rparr>)"
      by (auto simp: deletions.batch_eq claimDeletion_def deletionOk_def deletionDue_def
          intro!: accountInv_users split: option.splits)
    with inv show "accountInv (snd (claimDueDeletionBatch now lease n d))"
      by (simp add: claimDueDeletionBatch_eq Let_def)
  qed
  show "preserves accountInv (releaseDeletionLease now job)" for now job
    unfolding releaseDeletionLease_def
    by (intro preserves_modify accountInv_users) (auto simp: deletionOk_def)
  show "preserves accountInv (anonymizeDeletedAccount now job)" for now job
    by (rule preservesI) (simp add: anonymizeDeletedAccount_eq accountInv_anonymized)
  show "preserves accountInv (rotateRefreshToken now me dev old new expiry)" for now me dev old new expiry
    unfolding rotateRefreshToken_def Let_def
    by (intro preserves_intros preserves_modify accountInv_sessions) simp_all
  show "preserves accountInv (deleteRefreshToken me dev)" for me dev
    unfolding deleteRefreshToken_def by (intro preserves_modify accountInv_sessions)
qed (simp_all add: schedule_keeps accounts_codes)

lemma deletions_of_auth:
  fixes J defines "J \<equiv> \<lambda>d. list_all deletionOk (users d)"
  shows "preserves J (repoConsumePhoneVerificationToken aenv now token)"
    "preserves J (consumeKakaoPhoneVerificationToken aenv now token)"
    "preserves J (repoCreatePhoneVerificationToken aenv now token p v e)"
    "preserves J (repoCreateKakaoPhoneVerificationToken aenv now token w p m e)"
    "preserves J (insertUser (newUser now i mail q pw name g))" "preserves J (insertIdentity i now u p)"
    "preserves J (setPhone now u p)" "preserves J (repoSaveRefreshToken i now u dev t e)"
    "preserves J (restoreScheduledDeletion now u)" "preserves J (claimVerificationAttempt now i p ps)"
    "preserves J (markVerified now i)" "preserves J (resetPasswordWithVerification now i p pw)"
proof -
  have update: "J (d\<lparr>users := updateWhere P f (users d)\<rparr>)" if "J d" "\<And>u. P u \<Longrightarrow> deletionOk u \<Longrightarrow> deletionOk (f u)" for d P f
    using that by (auto simp: J_def intro!: list_all_updateWhere)
  show "preserves J (repoConsumePhoneVerificationToken aenv now token)"
    "preserves J (consumeKakaoPhoneVerificationToken aenv now token)"
    "preserves J (repoCreatePhoneVerificationToken aenv now token p v e)"
    "preserves J (repoCreateKakaoPhoneVerificationToken aenv now token w p m e)"
    "preserves J (insertUser (newUser now i mail q pw name g))" "preserves J (insertIdentity i now u p)"
    "preserves J (repoSaveRefreshToken i now u dev t e)" "preserves J (claimVerificationAttempt now i p ps)"
    "preserves J (markVerified now i)"
    unfolding repoConsumePhoneVerificationToken_def consumeKakaoPhoneVerificationToken_def
      repoCreatePhoneVerificationToken_def repoCreateKakaoPhoneVerificationToken_def insertUser_def insertIdentity_def
      repoSaveRefreshToken_def claimVerificationAttempt_def markVerified_def updateVerifications_def Let_def
    by (intro preserves_intros preserves_modify; simp add: J_def deletionOk_def newUser_def)+
  show "preserves J (setPhone now u p)" "preserves J (restoreScheduledDeletion now u)"
    "preserves J (resetPasswordWithVerification now i p pw)"
    unfolding setPhone_def restoreScheduledDeletion_def resetPasswordWithVerification_def updateVerifications_def Let_def
    by (intro preserves_intros preserves_modify update; simp add: deletionOk_def; simp add: J_def)+
qed

interpretation serverAccounts: server_invariant accountInv env for env
proof (rule server_invariant.intro)
  show "session_invariant accountInv"
    by (rule account.session_invariant_axioms)
  show "auth_writes accountInv (ae_auth env)"
    by unfold_locales
      (auto intro: accountInv_both deletions_of_auth accounts.writes account.rotated account.session_ended accounts_codes)
qed

section \<open>Accounts whose deletion is scheduled\<close>

definition lockedOut :: "uuid \<Rightarrow> db \<Rightarrow> bool" where
  "lockedOut i d \<longleftrightarrow> list_all (\<lambda>u. u_userId u = i \<longrightarrow> u_hiddenAt u \<noteq> None \<or> u_deletedAt u \<noteq> None) (users d) \<and>
     list_all (\<lambda>t. rt_userId t \<noteq> i) (refreshTokens d)"

lemma lockedOut_users:
  assumes "lockedOut i d" and "\<And>u. P u \<Longrightarrow> u_userId (f u) = u_userId u \<and>
     (u_hiddenAt u \<noteq> None \<or> u_deletedAt u \<noteq> None \<longrightarrow> u_hiddenAt (f u) \<noteq> None \<or> u_deletedAt (f u) \<noteq> None)"
  shows "lockedOut i (d\<lparr>users := updateWhere P f (users d)\<rparr>)"
proof -
  let ?Q = "\<lambda>u. u_userId u = i \<longrightarrow> u_hiddenAt u \<noteq> None \<or> u_deletedAt u \<noteq> None"
  have "list_all ?Q (updateWhere P f (users d))"
  proof (rule list_all_updateWhere)
    show "list_all ?Q (users d)" using assms(1) by (simp only: lockedOut_def)
    show "?Q (f u)" if "?Q u" "P u" for u
      using assms(2) [OF that(2)] that(1) by metis
  qed
  with assms(1) show ?thesis by (simp add: lockedOut_def)
qed

lemma lockedOut_sessions:
  "lockedOut i d \<Longrightarrow> (\<And>t. P t \<Longrightarrow> rt_userId (f t) = rt_userId t) \<Longrightarrow>
   lockedOut i (d\<lparr>refreshTokens := updateWhere P f (refreshTokens d)\<rparr>)"
  "lockedOut i d \<Longrightarrow> lockedOut i (d\<lparr>refreshTokens := deleteWhere Q (refreshTokens d)\<rparr>)"
  by (auto simp: lockedOut_def list_all_iff set_updateWhere)

lemma lockedOut_frame: "accountView d' = accountView d \<Longrightarrow> lockedOut i d' = lockedOut i d"
  by (simp add: lockedOut_def accountView_def)

lemma lockedOut_push [simp]:
  "lockedOut i (cancelOpen now P d) = lockedOut i d" "lockedOut i (deletePushTokens Q d) = lockedOut i d"
  by (rule lockedOut_frame; simp)+

interpretation lockout: account_invariant "lockedOut i" for i
proof
  show "lockedOut i d'" if "accountView d' = accountView d" "lockedOut i d" for d d'
    using that lockedOut_frame by blast
  show "lockedOut i (d\<lparr>users := updateWhere (\<lambda>u. u_userId u = j) (setProfile now v) (users d)\<rparr>)" if "lockedOut i d" for d j now v
    using that by (rule lockedOut_users) (simp add: setProfile_def)
  show "preserves (lockedOut i) (scheduleDeletion now me until)" for now me until
    unfolding scheduleDeletion_def Let_def
    by (intro preserves_intros preserves_modify lockedOut_users lockedOut_sessions) simp_all
  show "preserves (lockedOut i) (claimDueDeletionBatch now lease n)" for now lease n
    unfolding claimDueDeletionBatch_def
    by (intro preserves_intros preserves_modify lockedOut_users) (simp_all add: claimDeletion_def)
  show "preserves (lockedOut i) (releaseDeletionLease now job)" for now job
    unfolding releaseDeletionLease_def by (intro preserves_modify lockedOut_users) simp_all
  show "preserves (lockedOut i) (anonymizeDeletedAccount now job)" for now job
  proof (rule preservesI)
    fix d assume "lockedOut i d"
    then have "lockedOut i (d\<lparr>users := updateWhere (\<lambda>r. u_userId r = pgUuid (dj_userId job)) (anonymousUser now (dj_userId job)) (users d),
        refreshTokens := deleteWhere (\<lambda>r. rt_userId r = pgUuid (dj_userId job)) (refreshTokens d)\<rparr>)"
      by (auto simp: lockedOut_def list_all_iff set_updateWhere anonymousUser_def)
    then have "lockedOut i (anonymized now job d)"
      by (simp add: lockedOut_def anonymized_def deleteRooms_def deletePersonalRows_def deletePushTokens_def
          deleteNotifications_def failUploads_def Let_def)
    with \<open>lockedOut i d\<close> show "lockedOut i (snd (anonymizeDeletedAccount now job d))"
      by (simp add: anonymizeDeletedAccount_eq)
  qed
  show "preserves (lockedOut i) (rotateRefreshToken now me dev old new expiry)" for now me dev old new expiry
    unfolding rotateRefreshToken_def Let_def
    by (intro preserves_intros preserves_modify lockedOut_sessions) simp_all
  show "preserves (lockedOut i) (deleteRefreshToken me dev)" for me dev
    unfolding deleteRefreshToken_def by (intro preserves_modify lockedOut_sessions)
  show "preserves (lockedOut i) (reserveVerification ci now phone purpose ip agent c l m)"
    "preserves (lockedOut i) (activateVerification now ci challenge ttl)" "preserves (lockedOut i) (deleteVerification ci)"
    for ci now phone purpose ip agent c l m challenge ttl
    unfolding reserveVerification_def activateVerification_def deleteVerification_def updateVerifications_def Let_def
    by (intro preserves_intros preserves_modify; simp add: lockedOut_def)+
qed

text \<open>The user that the refresh token of a request is for.\<close>

definition refreshUser :: "apiEnv \<Rightarrow> apiRequest \<Rightarrow> jsstring option" where
  "refreshUser env req =
     (let token = refreshTokenFromRequest (rq_authorization req) (rq_refreshCookie req) in
      Option.bind (Option.bind (if truthy token then token else None) (ae_verifyRefresh env (rq_now req)))
        (\<lambda>payload. jsonText (jsonField (js ''userId'') payload)))"

lemma lockedOut_access:
  assumes "lockedOut (pgUuid u) d" and "accessUser env req = Some v" and "pgUuid v = pgUuid u"
  shows "userRequest env req call d = (Inl (Unauthorized ''Unauthorized''), d)"
proof -
  obtain payload where payload: "Option.bind (accessTokenFromRequest env req) (ae_verifyAccess env (rq_now req)) = Some payload"
    "jsonText (jsonField (js ''userId'') payload) = Some v"
    using assms(2) by (auto simp: accessUser_def bind_eq_Some_conv)
  have "u_hiddenAt x \<noteq> None \<or> u_deletedAt x \<noteq> None" if "repoFindUser v d = Some x" for x
    using that assms(1,3) by (auto simp: repoFindUser_def findUserRow_def lockedOut_def list_all_iff dest!: findFirst_SomeD)
  then show ?thesis
    by (auto simp: userRequest_def accessTokenGuard_def accessTokenValidate_def payload andThen_def throwIf_apply query_def
        split: option.split)
qed

lemma lockedOut_refresh:
  assumes "lockedOut (pgUuid u) d" and "refreshUser env req = Some v" and "pgUuid v = pgUuid u"
  shows "\<exists>m. refreshRequest env req d = (Inl (Unauthorized m), d)"
proof -
  have "findRefreshToken v dev d = None" for dev
    using assms(1,3) by (auto simp: findRefreshToken_def findFirst_None_iff lockedOut_def list_all_iff)
  then show ?thesis
    using assms(2)
    by (auto simp: refreshUser_def refreshRequest_def refreshTokenGuard_def refreshTokenValidate_def validateUserRefreshToken_def
        andThen_def throwIf_apply query_def Let_def bind_eq_Some_conv split: option.split)
qed

lemma scheduled_locks:
  assumes "accountInv d" and "scheduleDeletion now u until d = (Inr t, d')"
  shows "lockedOut (pgUuid u) d'"
proof -
  let ?t = "updateWhere (\<lambda>w. u_userId w = pgUuid u \<and> u_deletedAt w = None \<and> u_deletionScheduledAt w = None)
    (\<lambda>w. w\<lparr>u_hiddenAt := Some now, u_deletionScheduledAt := Some until, u_updatedAt := now\<rparr>) (users d)"
  have "list_all (\<lambda>w. u_userId w = pgUuid u \<longrightarrow> u_hiddenAt w \<noteq> None \<or> u_deletedAt w \<noteq> None) ?t"
    using assms(1) by (auto simp: accountInv_def deletionOk_def list_all_iff set_updateWhere)
  then have "lockedOut (pgUuid u) (d\<lparr>users := ?t, refreshTokens := deleteWhere (\<lambda>t. rt_userId t = pgUuid u) (refreshTokens d)\<rparr>)"
    by (simp add: lockedOut_def list_all_iff)
  with assms(2) show ?thesis
    by (auto simp: scheduleDeletion_def success_simps Let_def)
qed

section \<open>The other invariants of the server\<close>

lemma notificationInv_view:
  "notifications d' = notifications d \<Longrightarrow> pushTokens d' = pushTokens d \<Longrightarrow> pushOutboxes d' = pushOutboxes d \<Longrightarrow>
   notificationInv d' = notificationInv d"
  by (simp add: notificationInv_def notificationKeys_def pushTokenKeys_def outboxRowsOk_def outboxAddressed_def
      deliversToRecipient_def)

lemma notificationInv_frames [simp]:
  "notificationInv (d\<lparr>userProfilePhotos := a\<rparr>) = notificationInv d" "notificationInv (d\<lparr>authIdentities := b\<rparr>) = notificationInv d"
  "notificationInv (d\<lparr>phoneVerifications := x\<rparr>) = notificationInv d"
  "notificationInv (d\<lparr>phoneVerificationTokens := y\<rparr>) = notificationInv d"
  "notificationInv (d\<lparr>kakaoPhoneVerificationTokens := z\<rparr>) = notificationInv d"
  by (rule notificationInv_view; simp)+

lemma uploadInv_view: "profileUploads d' = profileUploads d \<Longrightarrow> uploadInv d' = uploadInv d"
  by (simp add: uploadInv_def)

lemma uploadInv_frames [simp]:
  "uploadInv (d\<lparr>userProfilePhotos := a\<rparr>) = uploadInv d" "uploadInv (d\<lparr>authIdentities := b\<rparr>) = uploadInv d"
  "uploadInv (d\<lparr>phoneVerifications := x\<rparr>) = uploadInv d"  "uploadInv (d\<lparr>phoneVerificationTokens := y\<rparr>) = uploadInv d"
  "uploadInv (d\<lparr>kakaoPhoneVerificationTokens := z\<rparr>) = uploadInv d" "uploadInv (d\<lparr>users := u\<rparr>) = uploadInv d"
  "uploadInv (d\<lparr>refreshTokens := r\<rparr>) = uploadInv d" "uploadInv (d\<lparr>notifications := n\<rparr>) = uploadInv d"
  "uploadInv (d\<lparr>pushTokens := t\<rparr>) = uploadInv d" "uploadInv (d\<lparr>pushOutboxes := v\<rparr>) = uploadInv d"
  by (rule uploadInv_view; simp)+

lemma uploadInv_push [simp]:
  "uploadInv (deletePushTokens P d) = uploadInv d" "uploadInv (cancelOpen now Q d) = uploadInv d"
  "uploadInv (dropPushToken now q d) = uploadInv d" "uploadInv (refreshDeviceToken now v platform d) = uploadInv d"
  "uploadInv (replaceDeviceToken now v token platform d) = uploadInv d"
  by (simp_all add: deletePushTokens_def cancelOpen_def dropPushToken_def refreshDeviceToken_def replaceDeviceToken_def Let_def)

text \<open>The writes to the accounts, for an invariant that does not mention their tables.\<close>

lemma account_writes_frame:
  assumes "\<And>d a. I (d\<lparr>users := a\<rparr>) = I d" and "\<And>d a. I (d\<lparr>refreshTokens := a\<rparr>) = I d"
    and "\<And>d a. I (d\<lparr>authIdentities := a\<rparr>) = I d" and "\<And>d a. I (d\<lparr>phoneVerifications := a\<rparr>) = I d"
    and "\<And>d a. I (d\<lparr>phoneVerificationTokens := a\<rparr>) = I d" and "\<And>d a. I (d\<lparr>kakaoPhoneVerificationTokens := a\<rparr>) = I d"
  shows "auth_writes I env"
  by unfold_locales
    (unfold repoConsumePhoneVerificationToken_def consumeKakaoPhoneVerificationToken_def
      repoCreatePhoneVerificationToken_def repoCreateKakaoPhoneVerificationToken_def insertUser_def insertIdentity_def
      setPhone_def repoSaveRefreshToken_def rotateRefreshToken_def deleteRefreshToken_def restoreScheduledDeletion_def
      reserveVerification_def activateVerification_def deleteVerification_def claimVerificationAttempt_def
      markVerified_def resetPasswordWithVerification_def updateVerifications_def Let_def,
      (intro preserves_intros preserves_modify; simp add: assms)+)

lemma updateUploads_frame: "(\<And>d a. I (d\<lparr>profileUploads := a\<rparr>) = I d) \<Longrightarrow> preserves I (updateUploads P f)"
  unfolding updateUploads_def by (intro preserves_intros preserves_modify) simp

lemma upload_writes_frame:
  assumes "\<And>d a. I (d\<lparr>profileUploads := a\<rparr>) = I d"
  shows "preserves I (createPending i me key ct bytes expiresAt now)" "preserves I (claimFinalize uploadId me now lease)"
    "preserves I (prepareFinalObject uploadId me x lease now)" "preserves I (uploadMarkVerified uploadId me x lease now)"
    "preserves I (markFailed uploadId code lease now)" "preserves I (releaseFinalizeLease uploadId lease now)"
    "preserves I (markStagingDeleted uploadId now)"
  unfolding createPending_def claimFinalize_def prepareFinalObject_def uploadMarkVerified_def markFailed_def
    releaseFinalizeLease_def markStagingDeleted_def Let_def
  by (intro preserves_intros preserves_modify updateUploads_frame assms; simp add: assms)+

lemma replaceProfile_frame:
  assumes "\<And>d a. I (d\<lparr>users := a\<rparr>) = I d" and "\<And>d a. I (d\<lparr>userProfilePhotos := a\<rparr>) = I d"
  shows "preserves I (replaceProfile ids now me v)"
  unfolding replaceProfile_def Let_def
  by (intro preserves_intros preserves_modify) (simp_all add: assms)

interpretation pushes: server_invariant notificationInv env for env
proof (rule server_invariant.intro)
  show "session_invariant notificationInv"
  proof (rule session_invariant.intro [OF _ pushKept.maintained_axioms])
    show "core_invariant notificationInv"
    proof
      show "notificationInv d'" if "coreView d' = coreView d" "notificationInv d" for d d'
        using that notificationInv_view [of d' d] by (simp add: coreView_def)
    qed (rule notify_inv)
    show "profile_invariant notificationInv"
      using auth_writes.writes [OF account_writes_frame [of notificationInv]]
      by (simp add: profile_invariant_def profile_invariant_axioms_def quiet_invariant_def replaceProfile_frame scheduleDeletion_push upload_writes_frame
          markRead_inv [unfolded markRead_def] unregisterPushToken_inv [unfolded unregisterPushToken_def]
          repoRegisterPushToken_inv)
  qed
  show "auth_writes notificationInv (ae_auth env)"
    by (rule account_writes_frame) simp_all
qed

text \<open>What steps of the upload machine do keeps the invariant of the uploads.\<close>

lemma uploadInv_by: "(\<And>d. preserves (uploadsBy d) m) \<Longrightarrow> preserves uploadInv m"
proof (rule preservesI)
  fix d assume by0: "\<And>d. preserves (uploadsBy d) m" and inv: "uploadInv d"
  from by0 [of d] uploadsBy_refl [of d] obtain es where "profileUploads (snd (m d)) = profileUploads (foldl stepUpload d es)"
    by (auto simp: preserves_def uploadsBy_def)
  with uploads.run_inv [OF inv, of es] show "uploadInv (snd (m d))"
    by (simp add: uploadInv_def)
qed

lemma upload_writes:
  "preserves uploadInv (createPending i me key ct bytes expiresAt now)" "preserves uploadInv (claimFinalize uploadId me now lease)"
  "preserves uploadInv (prepareFinalObject uploadId me x lease now)" "preserves uploadInv (uploadMarkVerified uploadId me x lease now)"
  "preserves uploadInv (markFailed uploadId code lease now)" "preserves uploadInv (releaseFinalizeLease uploadId lease now)"
  "preserves uploadInv (markStagingDeleted uploadId now)"
  using uploads.step_inv [of _ "CreateStep i me key ct bytes expiresAt now"]
    uploads.step_inv [of _ "ClaimFinalizeStep uploadId me now lease"] uploads.step_inv [of _ "PrepareStep uploadId me x lease now"]
    uploads.step_inv [of _ "VerifyStep uploadId me x lease now"] uploads.step_inv [of _ "FailStep uploadId code lease now"]
    uploads.step_inv [of _ "ReleaseStep uploadId lease now"] uploads.step_inv [of _ "StagingDeletedStep uploadId now"]
  by (simp_all add: preserves_def)

interpretation uploading: server_invariant uploadInv env for env
proof (rule server_invariant.intro)
  show "session_invariant uploadInv"
  proof (rule session_invariant.intro)
    show "core_invariant uploadInv"
    proof
      show "uploadInv d'" if "coreView d' = coreView d" "uploadInv d" for d d'
        using that uploadInv_view [of d' d] by (simp add: coreView_def)
    qed (rule notify_frame, simp_all)
    show "maintained uploadInv"
      by unfold_locales (rule uploadInv_by, rule byUploads.deletes byUploads.claims_deletions byUploads.releases
        byUploads.claims_sends byUploads.reports_sends byUploads.claims_receipts byUploads.reports_receipts
        byUploads.claims_cleanups byUploads.reports_cleanups)+
    have schedule: "preserves uploadInv (scheduleDeletion now me until)" for now me until
      unfolding scheduleDeletion_def Let_def by (intro preserves_intros preserves_modify) simp_all
    show "profile_invariant uploadInv"
      using auth_writes.writes [OF account_writes_frame [of uploadInv]]
      by (simp add: profile_invariant_def profile_invariant_axioms_def quiet_invariant_def replaceProfile_frame schedule push_writes_frame upload_writes)
  qed
  show "auth_writes uploadInv (ae_auth env)"
    by (rule account_writes_frame) simp_all
qed

section \<open>Rooms, matches and messages\<close>

text \<open>The requests that act on another user are for canonical identifiers: the token carries the identifier the
  database has generated, and the clients send back the identifiers of the candidates.\<close>

fun actionTarget :: "matchingCall \<Rightarrow> jsstring option" where
  "actionTarget (LikeUser userId) = Some userId"
| "actionTarget (SkipMatchCandidate userId) = Some userId"
| "actionTarget (SuperLikeUser userId) = Some userId"
| "actionTarget _ = None"

fun canonicalEvent :: "apiEnv \<Rightarrow> serverEvent \<Rightarrow> bool" where
  "canonicalEvent env (UserE req (MatchingCall c)) \<longleftrightarrow> (case (actionTarget c, accessUser env req) of
     (Some userId, Some me) \<Rightarrow> canonicalUuid userId \<and> canonicalUuid me | _ \<Rightarrow> True)"
| "canonicalEvent env _ \<longleftrightarrow> True"

lemma roomsInv_frames [simp]:
  "roomsInv (d\<lparr>users := a1\<rparr>) = roomsInv d" "roomsInv (d\<lparr>refreshTokens := a2\<rparr>) = roomsInv d"
  "roomsInv (d\<lparr>authIdentities := a3\<rparr>) = roomsInv d" "roomsInv (d\<lparr>phoneVerifications := a4\<rparr>) = roomsInv d"
  "roomsInv (d\<lparr>phoneVerificationTokens := a5\<rparr>) = roomsInv d" "roomsInv (d\<lparr>kakaoPhoneVerificationTokens := a6\<rparr>) = roomsInv d"
  "roomsInv (d\<lparr>profileUploads := a7\<rparr>) = roomsInv d" "roomsInv (d\<lparr>userProfilePhotos := a8\<rparr>) = roomsInv d"
  "roomsInv (d\<lparr>pushTokens := a9\<rparr>) = roomsInv d"
  by (rule roomsInv_cong; simp add: roomsView_def)+

lemma roomsInv_dropTokens [simp]: "roomsInv (deletePushTokens P d) = roomsInv d" "roomsInv (cancelOpen now Q d) = roomsInv d"
  by (simp_all add: deletePushTokens_def cancelOpen_def)

lemma schedule_rooms: "preserves roomsInv (scheduleDeletion now me until)"
  unfolding scheduleDeletion_def Let_def by (intro preserves_intros preserves_modify) simp_all

lemma cleanup_rooms:
  "preserves roomsInv (claimCleanupBatch now lease n)" "preserves roomsInv (applyCleanupResult i lease x f nextAt now)"
  unfolding claimCleanupBatch_def applyCleanupResult_def Let_def
  by (intro preserves_intros preserves_modify updateUploads_frame; simp)+

interpretation roomsBeside: side_invariant roomsInv
proof
  show "roomsInv d'" if "sideView d' = sideView d" "roomsInv d" for d d'
    using that roomsInv_cong [of d' d] by (simp add: sideView_def roomsView_def)
qed (rule notify_rooms)

interpretation roomsProfile: profile_invariant roomsInv
  using auth_writes.writes [OF account_writes_frame [of roomsInv]]
  by (simp add: profile_invariant_def profile_invariant_axioms_def quiet_invariant_def replaceProfile_frame schedule_rooms push_writes_frame upload_writes_frame)

interpretation roomsMaintained: maintained roomsInv
  by unfold_locales (simp_all add: anonymize_rooms deletion_leases_frame push_writes_frame cleanup_rooms)

interpretation roomsPublic: public_invariant roomsInv env for env
  by (intro public_invariant.intro account_writes_frame public_invariant_axioms.intro roomsBeside.webhook_keeps) simp_all

lemma chatResolver_rooms: "preserves roomsInv (chatResolver env req me c)"
proof (cases c)
  case (ChatMessages input)
  show ?thesis unfolding ChatMessages chatResolver.simps chatMessages_def assertRoomMember_def validateChatUuid_def
      requireRoomMember_def Let_def by (intro preserves_mapResult preserves_intros)
next
  case (ChatEvent roomId)
  show ?thesis unfolding ChatEvent chatResolver.simps assertRoomMember_def validateChatUuid_def
      requireRoomMember_def Let_def by (intro preserves_mapResult preserves_intros)
next
  case ChatRooms
  show ?thesis unfolding ChatRooms chatResolver.simps chatRooms_def validateChatUuid_def
    by (intro preserves_mapResult preserves_intros)
qed (simp_all only: chatResolver.simps, (intro preserves_mapResult chat_rooms)+)

lemma matchingResolver_rooms:
  "(\<And>userId. actionTarget c = Some userId \<Longrightarrow> canonicalUuid userId \<and> canonicalUuid me) \<Longrightarrow>
   preserves roomsInv (matchingResolver env req me c)"
  by (cases c) (simp_all only: matchingResolver.simps actionTarget.simps likeUser_def skipCandidate_def superLikeUser_def,
    (intro preserves_mapResult preserves_intros matching_rooms undo_rooms; simp)+)

lemma userRequest_rooms:
  assumes "canonicalEvent env (UserE req call)"
  shows "preserves roomsInv (userRequest env req call)"
  unfolding userRequest_def
proof (rule preserves_checked [OF accessTokenGuard_reads])
  fix me d assume me: "accessTokenGuard env req d = (Inr me, d)" and inv: "roomsInv d"
  have "preserves roomsInv (resolve env req me call)"
  proof (cases call)
    case (MatchingCall c)
    with assms guard_user [OF me] show ?thesis
      by (auto intro!: matchingResolver_rooms)
  qed (simp_all add: chatResolver_rooms roomsProfile.userResolver_keeps roomsBeside.communityResolver_keeps
      roomsProfile.notificationResolver_keeps roomsProfile.uploadResolver_keeps roomsBeside.billingResolver_keeps)
  with inv show "roomsInv (snd (resolve env req me call d))" by (simp add: preserves_def)
qed

interpretation conversing: guarded_machine "serverStep env" roomsInv "canonicalEvent env" for env
proof
  fix d e assume inv: "roomsInv d" and ok: "canonicalEvent env e"
  show "roomsInv (serverStep env d e)"
  proof (cases e)
    case (UserE req call)
    with inv ok userRequest_rooms show ?thesis by (simp add: preserves_def del: canonicalEvent.simps)
  next
    case (PublicE req call)
    with inv roomsPublic.publicRequest_keeps show ?thesis by (simp add: preserves_def del: publicRequest.simps)
  qed (use inv roomsProfile.sessions_keep roomsMaintained.job_keeps in \<open>simp_all add: preserves_def del: serverStep.simps(5)\<close>)
qed

text \<open>C2. A user who asked for the deletion of the account is signed out at once and everywhere: from then on, whatever
  requests of signed-in users, refreshes, webhooks and maintenance jobs follow, every request with an access token of
  the user and every refresh of a session of the user is refused and changes nothing.\<close>

theorem deletion_locks_out:
  assumes "accountInv d" and "userRequest env req (ProfileCall RequestAccountDeletion) d = (Inr r, d')"
    and "accessUser env req = Some u" and "list_all sessionEvent es"
  shows "(\<forall>req' call v. accessUser env req' = Some v \<and> pgUuid v = pgUuid u \<longrightarrow>
      userRequest env req' call (foldl (serverStep env) d' es) =
        (Inl (Unauthorized ''Unauthorized''), foldl (serverStep env) d' es)) \<and>
    (\<forall>req' v. refreshUser env req' = Some v \<and> pgUuid v = pgUuid u \<longrightarrow>
      (\<exists>m. refreshRequest env req' (foldl (serverStep env) d' es) =
        (Inl (Unauthorized m), foldl (serverStep env) d' es)))"
proof -
  have "lockedOut (pgUuid u) d'"
    using assms(2,3) scheduled_locks [OF assms(1)]
    by (auto simp: userRequest_def accessTokenGuard_def accessTokenValidate_def accessUser_def mapResult_def
        beginAccountDeletion_def validateUserUuid_def findUser_def success_simps bind_eq_Some_conv split: option.splits)
  then have "lockedOut (pgUuid u) (foldl (serverStep env) d' es)"
    using assms(4) by (rule lockout.sessions.guarded_run)
  then show ?thesis
    using lockedOut_access lockedOut_refresh by blast
qed

text \<open>C3. Everything the server does keeps its tables in order, whatever sequence of requests, webhooks and maintenance jobs
  comes: users, emails, phones, identities and sessions are unique and refer to users, attempts at codes are bounded, an
  account is hidden while its deletion is scheduled and when it is deleted, open push jobs are addressed to a device of
  their recipient, and uploads have the columns of their status. If the actions on other users come with canonical
  identifiers, matches are the mutual likes, each with a room of its own whose members are its two users, and messages,
  receipts and reports are by members of the room.\<close>

theorem server_keeps_invariants:
  "(accountInv d \<longrightarrow> accountInv (foldl (serverStep env) d es)) \<and>
   (notificationInv d \<longrightarrow> notificationInv (foldl (serverStep env) d es)) \<and>
   (uploadInv d \<longrightarrow> uploadInv (foldl (serverStep env) d es)) \<and>
   (roomsInv d \<and> list_all (canonicalEvent env) es \<longrightarrow> roomsInv (foldl (serverStep env) d es))"
  using serverAccounts.server.run_inv pushes.server.run_inv uploading.server.run_inv conversing.guarded_run by simp

text \<open>C1. No request behind the access token reaches its service without a token that verifies as an access token and names
  a user who exists and is neither hidden nor deleted; any other request changes nothing.\<close>

theorem requests_authenticated:
  assumes "userRequest env req call d = (r, d')"
  shows "r = Inl (Unauthorized ''Unauthorized'') \<and> d' = d \<or>
    (\<exists>token payload u v. accessTokenFromRequest env req = Some token \<and> ae_verifyAccess env (rq_now req) token = Some payload \<and>
      isAccessTokenClaims payload \<and> accessUser env req = Some v \<and> repoFindUser v d = Some u \<and> u_userId u = pgUuid v \<and>
      u_hiddenAt u = None \<and> u_deletedAt u = None \<and> resolve env req v call d = (r, d'))"
proof (cases "accessTokenGuard env req d")
  case (Pair a d0)
  have d0: "d0 = d" using accessTokenGuard_reads Pair by (rule readsD)
  show ?thesis
  proof (cases a)
    case (Inl e)
    with Pair d0 assms have "r = Inl e" "d' = d" by (auto simp: userRequest_def andThen_def)
    moreover have "e = Unauthorized ''Unauthorized''"
      using Pair Inl by (auto simp: accessTokenGuard_def accessTokenValidate_def andThen_def throwIf_apply query_def
          split: option.splits if_splits)
    ultimately show ?thesis by simp
  next
    case (Inr v)
    with Pair d0 assms have "resolve env req v call d = (r, d')" by (simp add: userRequest_def andThen_def)
    moreover obtain payload u where ok: "Option.bind (accessTokenFromRequest env req) (ae_verifyAccess env (rq_now req)) = Some payload"
      "isAccessTokenClaims payload" "repoFindUser v d = Some u" "u_hiddenAt u = None" "u_deletedAt u = None"
      "v = the (jsonText (jsonField (js ''userId'') payload))"
      using Pair Inr by (auto simp: accessTokenGuard_def accessTokenValidate_def success_simps split: option.splits)
    moreover have "accessUser env req = Some v"
      using ok by (auto simp: accessUser_def isAccessTokenClaims_def truthy_def split: option.splits)
    moreover have "u_userId u = pgUuid v"
      using ok(3) by (auto simp: repoFindUser_def findUserRow_def dest: findFirst_SomeD)
    ultimately show ?thesis by (auto simp: bind_eq_Some_conv)
  qed
qed

section \<open>Samples\<close>

text \<open>A server on which the text of a token is the user it names, and a request of the sample account.\<close>

definition sampleApi :: apiEnv where
  "sampleApi = \<lparr>ae_auth = sampleEnv, ae_upload = sampleUploadEnv, ae_process = (\<lambda>_. None), ae_bearer = (\<lambda>h. Some h),
     ae_verifyAccess = (\<lambda>_ t. Some (JObject [(js ''tokenType'', JString (js ''access'')), (js ''userId'', JString t)])),
     ae_verifyRefresh = (\<lambda>_ t. Some (JObject [(js ''tokenType'', JString (js ''refresh'')), (js ''userId'', JString t),
       (js ''deviceId'', JString (js ''d1''))])),
     ae_isUuid4 = (\<lambda>_. True), ae_isUuid = (\<lambda>_. True), ae_isExpoToken = (\<lambda>_. True), ae_pushEnabled = True,
     ae_pepper = [], ae_sendCode = (\<lambda>_ _. True), ae_hmac = (\<lambda>_ _. []), ae_bodyHash = (\<lambda>_. [])\<rparr>"

definition sampleRequest :: "timestamp \<Rightarrow> apiRequest" where
  "sampleRequest now = \<lparr>rq_authorization = Some sampleAccountId, rq_accessCookie = None, rq_refreshCookie = Some sampleAccountId,
     rq_kakaoState = None, rq_deviceId = Some (js ''d1''), rq_ip = None, rq_userAgent = None, rq_now = now, rq_id = js ''q1'',
     rq_ids = (\<lambda>k. [k]), rq_memberIds = (\<lambda>k l. [k, l]), rq_random = 7\<rparr>"

definition sampleDeletionRequested :: db where
  "sampleDeletionRequested =
     snd (userRequest sampleApi (sampleRequest 5) (ProfileCall RequestAccountDeletion) (sampleAuthDb (js ''login'')))"

lemma sampleAuthDb_accounts: "accountInv (sampleAuthDb purpose)"
  by (simp add: accountInv_def sampleAuthDb_inv)
     (simp add: deletionOk_def sampleAuthDb_def sampleAccount_def sampleUser_def emptyDb_def)

lemma sampleAccountId_nonempty: "sampleAccountId \<noteq> []"
  by (simp add: sampleAccountId_def js_def)

lemma sampleDeletion_run:
  "\<exists>r. userRequest sampleApi (sampleRequest 5) (ProfileCall RequestAccountDeletion) (sampleAuthDb (js ''login'')) =
     (Inr r, sampleDeletionRequested)"
  by (simp add: sampleDeletionRequested_def userRequest_def accessTokenGuard_def accessTokenFromRequest_def accessTokenValidate_def
      isAccessTokenClaims_def jsonField_def jsonText_def truthy_def beginAccountDeletion_def scheduleDeletion_def mapResult_def
      sampleApi_def sampleRequest_def sampleAccountId_nonempty eval_simps cong: run_congs)

lemma sample_accessUser: "accessUser sampleApi (sampleRequest now) = Some sampleAccountId"
  by (simp add: accessUser_def accessTokenFromRequest_def sampleApi_def sampleRequest_def jsonField_def jsonText_def truthy_def
      sampleAccountId_def js_def)

theorem deletion_locks_out_witness:
  "userRequest sampleApi (sampleRequest 9) (ChatCall ChatRooms)
     (foldl (serverStep sampleApi) sampleDeletionRequested [RefreshE (sampleRequest 6), JobE sampleServices 7 AccountDeletion]) =
   (Inl (Unauthorized ''Unauthorized''),
     foldl (serverStep sampleApi) sampleDeletionRequested [RefreshE (sampleRequest 6), JobE sampleServices 7 AccountDeletion])"
proof -
  obtain r where "userRequest sampleApi (sampleRequest 5) (ProfileCall RequestAccountDeletion) (sampleAuthDb (js ''login'')) =
     (Inr r, sampleDeletionRequested)" using sampleDeletion_run by blast
  from deletion_locks_out [OF sampleAuthDb_accounts this sample_accessUser,
      of "[RefreshE (sampleRequest 6), JobE sampleServices 7 AccountDeletion]"]
  show ?thesis using sample_accessUser by simp
qed

definition sampleEvents :: "serverEvent list" where
  "sampleEvents = [UserE (sampleRequest 4) (MatchingCall (LikeUser samplePeerId)), LogoutE (sampleRequest 5),
     PublicE (sampleRequest 6) BillingProducts, JobE sampleServices 7 AccountDeletion]"

lemma sampleAuthDb_inv_all:
  "notificationInv (sampleAuthDb purpose)" "uploadInv (sampleAuthDb purpose)" "roomsInv (sampleAuthDb purpose)"
  by (simp_all add: sampleAuthDb_def emptyDb_def notificationInv_def notificationKeys_def pushTokenKeys_def outboxRowsOk_def
      outboxAddressed_def uploadInv_def roomsInv_def matchingInv_def matchesOk_def mutualMatched_def actionsOk_def membersOk_def
      chatInv_def)

lemma sampleEvents_canonical: "list_all (canonicalEvent sampleApi) sampleEvents"
  by (simp add: sampleEvents_def sample_accessUser eval_simps)

theorem server_keeps_invariants_witness:
  "accountInv (foldl (serverStep sampleApi) (sampleAuthDb (js ''login'')) sampleEvents) \<and>
   notificationInv (foldl (serverStep sampleApi) (sampleAuthDb (js ''login'')) sampleEvents) \<and>
   uploadInv (foldl (serverStep sampleApi) (sampleAuthDb (js ''login'')) sampleEvents) \<and>
   roomsInv (foldl (serverStep sampleApi) (sampleAuthDb (js ''login'')) sampleEvents)"
  using server_keeps_invariants [of "sampleAuthDb (js ''login'')" sampleApi sampleEvents] sampleAuthDb_accounts
    sampleAuthDb_inv_all sampleEvents_canonical by blast

theorem requests_authenticated_witness:
  "\<exists>r d'. userRequest sampleApi (sampleRequest 5) (ProfileCall RequestAccountDeletion) (sampleAuthDb (js ''login'')) = (Inr r, d') \<and>
     resolve sampleApi (sampleRequest 5) sampleAccountId (ProfileCall RequestAccountDeletion) (sampleAuthDb (js ''login'')) = (Inr r, d')"
proof -
  obtain r where run: "userRequest sampleApi (sampleRequest 5) (ProfileCall RequestAccountDeletion) (sampleAuthDb (js ''login'')) =
     (Inr r, sampleDeletionRequested)" using sampleDeletion_run by blast
  from requests_authenticated [OF this] run show ?thesis
    by (auto simp: sample_accessUser)
qed

end
