(* ===== verification/Conversation.thy ===== *)
theory Conversation
  imports Server
begin

text \<open>
  What the server promises two users who like each other, across matching, chat and the deletion of accounts, as long as
  users act on each other under canonical identifiers: they share a room, nobody else reads or writes there, and what one
  sends is told to the other only.
\<close>

section \<open>States the server can reach\<close>

text \<open>A database in which nobody has acted yet, and what the server can make of it by events of a kind.\<close>

definition nobodyMet :: "db \<Rightarrow> bool" where
  "nobodyMet d \<longleftrightarrow> noMatching d \<and> noChat d \<and> roomMembers d = []"

lemma nobodyMet_rooms: "nobodyMet d \<Longrightarrow> roomsInv d"
  by (simp add: nobodyMet_def roomsInv_def noMatching_inv noChat_inv membersOk_def) (simp add: noMatching_def)

inductive reachable :: "apiEnv \<Rightarrow> (serverEvent \<Rightarrow> bool) \<Rightarrow> db \<Rightarrow> bool" for env :: apiEnv and admitted :: "serverEvent \<Rightarrow> bool" where
  start: "nobodyMet d \<Longrightarrow> reachable env admitted d"
| event: "reachable env admitted d \<Longrightarrow> admitted e \<Longrightarrow> reachable env admitted (serverStep env d e)"

inductive_cases reachableE: "reachable env admitted d"

lemma reachable_rooms: "reachable env (canonicalEvent env) d \<Longrightarrow> roomsInv d"
proof (induction rule: reachable.induct)
  case (start d)
  then show ?case by (rule nobodyMet_rooms)
next
  case (event d e)
  show ?case by (rule conversing.guarded_step [OF event.IH event.hyps(2)])
qed

lemma reachable_run: "reachable env admitted d \<Longrightarrow> list_all admitted es \<Longrightarrow> reachable env admitted (foldl (serverStep env) d es)"
  by (induction es arbitrary: d) (auto intro: reachable.event)

text \<open>C6. As long as users act on each other under canonical identifiers, in every state that requests, webhooks and
  maintenance jobs lead to, account deletions included, two users are matched if and only if each likes the other; the
  match is stored once and has a room of its own, which exists and whose members are exactly these two users, and there
  are no members of other rooms. (An identifier in upper case breaks this: \<open>upper_case_undo_after_match\<close>.)\<close>

theorem mutual_likes_share_room:
  assumes "reachable env (canonicalEvent env) d"
  shows "(matchedPair a b d \<longleftrightarrow> liked a b d \<and> liked b a d) \<and>
    (\<forall>m \<in> set (matchesTable d). mt_userLowId m < mt_userHighId m \<and> keyTaken r_id (mt_roomId m) (rooms d) \<and>
      (\<forall>v. inRoom (mt_roomId m) v d \<longleftrightarrow> v = mt_userLowId m \<or> v = mt_userHighId m)) \<and>
    uniqueKey (\<lambda>m. (mt_userLowId m, mt_userHighId m)) (matchesTable d) \<and> uniqueKey mt_roomId (matchesTable d) \<and>
    (\<forall>r v. inRoom r v d \<longrightarrow> keyTaken mt_roomId r (matchesTable d))"
proof -
  have inv: "roomsInv d" using assms by (rule reachable_rooms)
  have "keyTaken mt_roomId r (matchesTable d)" if "inRoom r v d" for r v
    using member_matched [OF inv that] by (auto simp: keyTaken_iff)
  moreover have "matchesOk d" "uniqueKey mt_roomId (matchesTable d)" "matchingInv d"
    using inv by (simp_all add: roomsInv_def matchingInv_def membersOk_def)
  ultimately show ?thesis
    using matchingInv_iff room_of_match [OF inv] by (auto simp: matchesOk_def list_all_iff matchOk_def)
qed

section \<open>Who may read and write\<close>

text \<open>The room a request of the chat is about.\<close>

definition roomOfMessage :: "jsstring \<Rightarrow> db \<Rightarrow> uuid option" where
  "roomOfMessage messageId d = map_option m_roomId (findFirst (\<lambda>m. m_id m = pgUuid messageId) (messages d))"

fun roomAsked :: "chatCall \<Rightarrow> db \<Rightarrow> uuid option" where
  "roomAsked (ChatMessages input) d = Some (pgUuid (mi_roomId input))"
| "roomAsked (ChatEvent roomId) d = Some (pgUuid roomId)"
| "roomAsked (SendChatMessage input) d = Some (pgUuid (si_roomId input))"
| "roomAsked (MarkChatRoomRead roomId) d = Some (pgUuid roomId)"
| "roomAsked (EditChatMessage messageId body) d = roomOfMessage messageId d"
| "roomAsked (DeleteChatMessage messageId) d = roomOfMessage messageId d"
| "roomAsked (ReportChatMessage messageId reason) d = roomOfMessage messageId d"
| "roomAsked _ d = None"

lemma mapResult_Inr: "mapResult f m d = (Inr r, d') \<longleftrightarrow> (\<exists>x. m d = (Inr x, d') \<and> r = f x)"
  by (auto simp: mapResult_def success_simps)

lemma message_in_room:
  assumes "chatInv d" and "m \<in> set (messages d)" and "m_senderUserId m = Some v"
  shows "inRoom (m_roomId m) v d"
  using assms by (auto simp: chatInv_def list_all_iff messageOk_def)

lemma found_message:
  assumes "chatInv d" and "roomOfMessage messageId d = Some r" and "m \<in> set (messages d)" and "m_id m = pgUuid messageId"
  shows "m_roomId m = r"
proof -
  obtain q where q: "q \<in> set (messages d)" "m_id q = pgUuid messageId" "m_roomId q = r"
    using assms(2) by (auto simp: roomOfMessage_def dest: findFirst_SomeD)
  have "q = m" using uniqueKey_inj [where k = m_id, OF _ q(1) assms(3)] assms(1,4) q(2) by (simp add: chatInv_def)
  with q(3) show ?thesis by simp
qed

lemma updateOwnMessage_found:
  assumes "updateOwnMessage messageId a f d = (Inr (Some m), d')"
  obtains q where "q \<in> set (messages d)" "m_id q = pgUuid messageId" "m_senderUserId q = Some (pgUuid a)"
proof -
  let ?P = "\<lambda>m. m_id m = pgUuid messageId \<and> m_senderUserId m = Some (pgUuid a) \<and> m_deletedAt m = None"
  have "headOption (returning ?P f (messages d)) = Some m"
    using assms by (simp add: updateOwnMessage_def Let_def success_simps)
  then show thesis using that by (auto simp: returning_def dest!: headOption_SomeD)
qed

lemma updateOwnMessage_none:
  assumes "updateOwnMessage messageId a f d = (Inr None, d')"
  shows "d' = d"
proof -
  let ?P = "\<lambda>m. m_id m = pgUuid messageId \<and> m_senderUserId m = Some (pgUuid a) \<and> m_deletedAt m = None"
  from assms have "returning ?P f (messages d) = []" and d': "d' = d\<lparr>messages := updateWhere ?P f (messages d)\<rparr>"
    by (simp_all add: updateOwnMessage_def Let_def success_simps)
  then have "updateWhere ?P f (messages d) = messages d"
    by (intro updateWhere_none) (simp add: returning_def filter_empty_conv)
  with d' show ?thesis by simp
qed

lemma repoMessages_room: "m \<in> set (repoMessages roomId n after before d) \<Longrightarrow> m \<in> set (messages d) \<and> m_roomId m = pgUuid roomId"
  by (auto simp: repoMessages_def Let_def activeIn_def set_timeline split: if_splits option.splits
      dest!: in_set_takeD in_set_dropD)

lemma chatMessages_room:
  assumes "chatMessages me input d = (Inr ms, d')" and "p \<in> set ms"
  obtains m where "m \<in> set (messages d)" "m_roomId m = pgUuid (mi_roomId input)" "p = rowToMessage m"
  using assms by (auto simp: chatMessages_def assertRoomMember_def Let_def success_simps split: if_splits dest!: repoMessages_room)

lemma sender_asked:
  assumes "chatInv d" and "roomOfMessage messageId d = Some room"
    and "q \<in> set (messages d)" "m_id q = pgUuid messageId" "m_senderUserId q = Some (pgUuid me)"
  shows "inRoom room (pgUuid me) d"
  using message_in_room [OF assms(1,3,5)] found_message [OF assms(1-4)] by simp

lemma asked_member:
  assumes inv: "chatInv d" and run: "chatResolver env req me c d = (Inr r, d')" and asked: "roomAsked c d = Some room"
  shows "inRoom room (pgUuid me) d \<or> r = DeletedR False None \<and> d' = d"
proof (cases c)
  case (ChatMessages input)
  with run asked show ?thesis
    by (auto simp: mapResult_Inr chatMessages_def assertRoomMember_def Let_def success_simps isRoomMember_inRoom)
next
  case (ChatEvent roomId)
  with run asked show ?thesis
    by (auto simp: mapResult_Inr assertRoomMember_def success_simps isRoomMember_inRoom)
next
  case (SendChatMessage input)
  with run asked show ?thesis
    by (auto simp: mapResult_Inr sendMessage_def success_basic(1,5) success_chat_checks isRoomMember_inRoom simp del: not_None_eq)
next
  case (MarkChatRoomRead roomId)
  with run asked show ?thesis
    by (auto simp: mapResult_Inr markRoomRead_def success_simps isRoomMember_inRoom)
next
  case (EditChatMessage messageId body)
  with run obtain m d1 f where "updateOwnMessage messageId me f d = (Inr (Some m), d1)"
    by (auto simp: mapResult_Inr editMessage_def repoEditMessage_def success_simps split: option.splits)
  then obtain q where "q \<in> set (messages d)" "m_id q = pgUuid messageId" "m_senderUserId q = Some (pgUuid me)"
    by (rule updateOwnMessage_found)
  with EditChatMessage asked sender_asked [OF inv] show ?thesis by auto
next
  case (DeleteChatMessage messageId)
  with run obtain x f where del: "updateOwnMessage messageId me f d = (Inr x, d')"
    "r = DeletedR (x \<noteq> None) (map_option (publishMessageEvent Deleted) x)"
    by (auto simp: mapResult_Inr deleteMessage_def repoDeleteMessage_def success_simps)
  show ?thesis
  proof (cases x)
    case None
    with del updateOwnMessage_none show ?thesis by auto
  next
    case (Some m)
    with del(1) obtain q where "q \<in> set (messages d)" "m_id q = pgUuid messageId" "m_senderUserId q = Some (pgUuid me)"
      using updateOwnMessage_found by blast
    with DeleteChatMessage asked sender_asked [OF inv] show ?thesis by auto
  qed
next
  case (ReportChatMessage messageId reason)
  with run obtain q where q: "q \<in> set (messages d)" "m_id q = pgUuid messageId" "inRoom (m_roomId q) (pgUuid me) d"
    by (auto simp: mapResult_Inr reportMessage_def repoReportMessage_def validateReportReason_def Let_def success_simps
        existsRow_iff inRoom_def split: if_splits)
  with ReportChatMessage asked found_message [OF inv _ q(1,2)] show ?thesis by auto
qed (use asked in auto)

text \<open>C5. A room is private: as long as users act on each other under canonical identifiers, in every state the server
  comes to, a request that reads or writes in a room, that subscribes to it, or that edits or reports a message of it
  succeeds only for one of two users who like each other and whose match has the room; the messages it lists are of this
  room and were sent by one of these two. The deletion of a message of somebody else answers that nothing was deleted and changes nothing.\<close>

theorem rooms_private:
  assumes "reachable env (canonicalEvent env) d" and "userRequest env req (ChatCall c) d = (Inr r, d')" and "accessUser env req = Some me"
    and "roomAsked c d = Some room"
  shows "(\<exists>other. \<exists>m \<in> set (matchesTable d). mt_roomId m = room \<and> matchOf (pgUuid me) other m \<and>
      liked (pgUuid me) other d \<and> liked other (pgUuid me) d \<and>
      (\<forall>ms. r = MessagesR ms \<longrightarrow> list_all (\<lambda>p. cm_roomId p = room \<and>
         (cm_senderUserId p = Some (pgUuid me) \<or> cm_senderUserId p = Some other)) ms)) \<or>
    r = DeletedR False None \<and> d' = d"
proof -
  have inv: "roomsInv d" "chatInv d"
    using reachable_rooms [OF assms(1)] by (simp_all add: roomsInv_def)
  have run: "chatResolver env req me c d = (Inr r, d')"
    using assms(2,3) by (auto simp: userRequest_def success_simps dest: guard_user)
  show ?thesis
  proof (cases "inRoom room (pgUuid me) d")
    case True
    then obtain w m where m: "m \<in> set (matchesTable d)" "mt_roomId m = room" "matchOf (pgUuid me) w m"
      "liked (pgUuid me) w d" "liked w (pgUuid me) d"
      by (rule member_matched [OF inv(1)])
    have "cm_roomId p = room \<and> (cm_senderUserId p = Some (pgUuid me) \<or> cm_senderUserId p = Some w)"
      if "r = MessagesR ms" "p \<in> set ms" for ms p
    proof -
      obtain input where c: "c = ChatMessages input" "chatMessages me input d = (Inr ms, d')"
        using run \<open>r = MessagesR ms\<close> by (cases c) (auto simp: mapResult_Inr)
      obtain q where q: "q \<in> set (messages d)" "m_roomId q = room" "p = rowToMessage q"
        using chatMessages_room [OF c(2) \<open>p \<in> set ms\<close>] assms(4) c(1) by auto
      obtain v where v: "m_senderUserId q = Some v"
        using inv(2) q(1) by (auto simp: chatInv_def list_all_iff messageOk_def split: option.splits)
      with message_in_room [OF inv(2) q(1) v] room_of_match [OF inv(1) m(1)] m(2,3) q show ?thesis
        by (auto simp: rowToMessage_def matchOf_def)
    qed
    with m show ?thesis
      unfolding list_all_iff by (intro disjI1 exI [of _ w] bexI [of _ m]) auto
  qed (use asked_member [OF inv(2) run assms(4)] in simp)
qed

section \<open>Writing to each other\<close>

text \<open>A key that a message of the user in the room does not have yet.\<close>

definition keyUnused :: "jsstring option \<Rightarrow> jsstring \<Rightarrow> jsstring \<Rightarrow> db \<Rightarrow> bool" where
  "keyUnused key roomId a d \<longleftrightarrow> (case key of None \<Rightarrow> True
     | Some k \<Rightarrow> trim k \<noteq> [] \<and> length (trim k) \<le> IDEMPOTENCY_KEY_MAX_LENGTH \<and> \<not> existsRow (sentUnder (trim k) roomId a) (messages d))"

lemma createMessage_stores:
  assumes "\<not> keyTaken m_id i (messages d)" and "keyTaken r_id (pgUuid roomId) (rooms d)" and "userExists (pgUuid a) d"
    and "keyUnused key roomId a d"
  shows "createMessage i now roomId a body (map_option trim key) d =
    (Inr (Some (newMessage i now roomId a body (map_option trim key)), True),
      messageStored now (newMessage i now roomId a body (map_option trim key)) d)"
  using assms
  by (cases key) (simp_all add: createMessage_def transaction_def touchRoom_def messageStored_def keyUnused_def Let_def)

lemma sendMessage_delivers:
  fixes i roomId a body now key
  defines "m \<equiv> newMessage i now roomId a (trim body) (map_option trim key)"
  assumes "\<not> keyTaken m_id i (messages d)" and "keyTaken r_id (pgUuid roomId) (rooms d)" and "userExists (pgUuid a) d"
    and "keyUnused key roomId a d" and "isRoomMember roomId a d" and "uuidRegex roomId"
    and "trim body \<noteq> []" and "length (trim body) \<le> MESSAGE_MAX_LENGTH"
    and "activeMessageCount roomId d = 0 \<longrightarrow> length (trim body) \<le> FIRST_MESSAGE_MAX_LENGTH"
  shows "sendMessage i ids now enabled a \<lparr>si_roomId = roomId, si_text = body, si_idempotencyKey = key\<rparr> d =
    (Inr (rowToMessage m, Some (publishMessageEvent Added m)),
      snd (notifyMembers ids now enabled (otherRoomMemberIds roomId a d) (trim body) roomId i (messageStored now m d)))"
proof -
  let ?d = "messageStored now m d"
  have created: "createdMessage i now roomId a (trim body) (map_option trim key) d = (Inr (m, True), ?d)"
    using createMessage_stores [OF assms(2-5)] by (simp add: createdMessage_def m_def)
  obtain x d1 where told: "notifyMembers ids now enabled (otherRoomMemberIds roomId a d) (trim body) roomId i ?d = (Inr x, d1)"
    by (rule neverThrows_Inr [OF notifyMembers_total])
  have "otherRoomMemberIds roomId a ?d = otherRoomMemberIds roomId a d"
    by (simp add: otherRoomMemberIds_def messageStored_def)
  moreover have "m_id m = i" by (simp add: m_def)
  moreover have "\<not> (activeMessageCount roomId d = 0 \<and> FIRST_MESSAGE_MAX_LENGTH < length (trim body))"
    using assms(10) by auto
  ultimately have "deliverMessage i ids now enabled a roomId (trim body) (map_option trim key) d =
      (Inr (rowToMessage m, Some (publishMessageEvent Added m)), d1)"
    using created told by (simp add: deliverMessage_def throwIf_apply andThen_def)
  moreover have "validateIdempotencyKey key d = (Inr (map_option trim key), d)"
    "key = Some k \<Longrightarrow> findMessageByIdempotencyKey (trim k) roomId a d = None" for k
    using assms(5)
    by (auto simp: keyUnused_def validateIdempotencyKey_def findMessageByIdempotencyKey_def findFirst_None_iff existsRow_iff
        Let_def andThen_def throwIf_apply split: option.splits)
  ultimately show ?thesis
    using assms(6-9) told
    by (cases key) (simp_all add: sendMessage_def validateMessageText_def validateChatUuid_def requireRoomMember_def Let_def
        andThen_assoc throwIf_apply andThen_def)
qed

text \<open>A page without a cursor shows the newest fifty messages.\<close>

lemma chatMessages_newest:
  assumes "isRoomMember roomId a d" and "uuidRegex roomId"
  shows "chatMessages a \<lparr>mi_roomId = roomId, mi_first = None, mi_after = None, mi_before = None\<rparr> d =
    (Inr (map rowToMessage (drop (length (timeline (pgUuid roomId) d) - 50) (timeline (pgUuid roomId) d))), d)"
proof -
  have "repoMessages roomId 50 None None d = drop (length (timeline (pgUuid roomId) d) - 50) (timeline (pgUuid roomId) d)"
    by (simp add: repoMessages_def Let_def truthy_def nullish_def rev_take_rev)
  with assms show ?thesis
    by (simp add: chatMessages_def assertRoomMember_def validateChatUuid_def requireRoomMember_def Let_def truthy_def nullish_def
        andThen_assoc throwIf_apply andThen_def)
qed

text \<open>A message is among the newest fifty if there are no more than that, or if it is the newest.\<close>

lemma timeline_newest:
  assumes "uniqueKey m_id (messages d)" and "m \<in> set (timeline r d)"
    and "length (timeline r d) \<le> 50 \<or> (\<forall>q \<in> set (timeline r d). q \<noteq> m \<longrightarrow> m_createdAt q < m_createdAt m)"
  shows "m \<in> set (drop (length (timeline r d) - 50) (timeline r d))"
proof -
  let ?L = "timeline r d"
  obtain k where k: "k < length ?L" "?L ! k = m" using assms(2) by (auto simp: in_set_conv_nth)
  have "length ?L - 50 \<le> k"
  proof (rule ccontr)
    assume "\<not> length ?L - 50 \<le> k"
    then have late: "Suc k < length ?L" "\<not> length ?L \<le> 50" by auto
    have "messageKey m < messageKey (?L ! Suc k)"
      using timeline_sorted [OF assms(1), of r] late(1) k by (auto simp: sorted_wrt_iff_nth_less)
    moreover have "?L ! Suc k \<in> set ?L" using late(1) by simp
    ultimately show False
      using assms(3) late(2) by (force simp: messageKey_def less_prod_def)
  qed
  with k have "drop (length ?L - 50) ?L ! (k - (length ?L - 50)) = m" "k - (length ?L - 50) < length (drop (length ?L - 50) ?L)"
    by simp_all
  then show ?thesis by (metis nth_mem)
qed

text \<open>What a message tells its one recipient: a notification, and a push job for each device of the recipient.\<close>

definition toldRecipient :: "uuid \<Rightarrow> message \<Rightarrow> notification list \<Rightarrow> pushOutbox list \<Rightarrow> db \<Rightarrow> bool" where
  "toldRecipient b m ns jobs d \<longleftrightarrow>
     list_all (\<lambda>n. n_userId n = b \<and> n_type n = MessageN \<and> n_sourceId n = Some (m_id m) \<and> n_body n = take 60 (m_text m)) ns \<and>
     list_all (\<lambda>j. (\<exists>n \<in> set ns. po_notificationId j = n_id n) \<and> (\<exists>t \<in> set (pushTokens d). tk_userId t = b \<and>
       po_pushTokenId j = Some (tk_id t) \<and> po_tokenSnapshot j = tk_token t)) jobs"

definition messageTold :: "timestamp \<Rightarrow> message \<Rightarrow> notification list \<Rightarrow> pushOutbox list \<Rightarrow> db \<Rightarrow> db" where
  "messageTold now m ns jobs d = (messageStored now m d)\<lparr>notifications := notifications d @ ns, pushOutboxes := pushOutboxes d @ jobs\<rparr>"

text \<open>Identifiers that are not in the tables of the notifications yet.\<close>

definition newIds :: "(nat \<Rightarrow> uuid) \<Rightarrow> db \<Rightarrow> bool" where
  "newIds ids d \<longleftrightarrow> inj ids \<and> uniqueKey po_id (pushOutboxes d) \<and> \<not> keyTaken n_id (ids 0) (notifications d) \<and>
     (\<forall>k. \<not> keyTaken po_id (ids k) (pushOutboxes d))"

definition toldRows :: "(nat \<Rightarrow> uuid) \<Rightarrow> timestamp \<Rightarrow> createNotificationInput \<Rightarrow> db \<Rightarrow> pushOutbox list" where
  "toldRows ids now input d = map (\<lambda>(k, t). newOutbox (ids (Suc k)) now (ids 0) input t)
     (enumerate 0 (filter (\<lambda>t. tk_userId t = pgUuid (ni_userId input)) (pushTokens d)))"

lemma notify_run:
  "notify ids now enabled input d =
     (if keyTaken n_id (ids 0) (notifications d) then (Inl (PgError UniqueViolation), d)
      else if \<not> userExists (pgUuid (ni_userId input)) d then (Inl (PgError ForeignKeyViolation), d)
      else if enabled \<and> \<not> uniqueKey po_id (pushOutboxes d @ toldRows ids now input d) then (Inl (PgError UniqueViolation), d)
      else (Inr (newNotification (ids 0) now input), d\<lparr>notifications := notifications d @ [newNotification (ids 0) now input],
        pushOutboxes := pushOutboxes d @ (if enabled then toldRows ids now input d else [])\<rparr>))"
  by (simp add: notify_def createWithPushOutbox_def newNotification_def toldRows_def transaction_def insertRow_def
      userExists_def Let_def andThen_def throwIf_apply)

lemma toldRows_ids:
  "map po_id (toldRows ids now input d) =
     map (\<lambda>k. ids (Suc k)) [0..<length (filter (\<lambda>t. tk_userId t = pgUuid (ni_userId input)) (pushTokens d))]"
proof -
  have "map po_id (toldRows ids now input d) = map (\<lambda>k. ids (Suc k)) (map fst (enumerate 0
      (filter (\<lambda>t. tk_userId t = pgUuid (ni_userId input)) (pushTokens d))))"
    unfolding toldRows_def map_map by (intro map_cong) (auto simp: newOutbox_def)
  then show ?thesis by simp
qed

lemma toldRows_unique:
  assumes "newIds ids d"
  shows "uniqueKey po_id (pushOutboxes d @ toldRows ids now input d)"
proof -
  have inj: "ids k = ids l \<longleftrightarrow> k = l" for k l
    using assms by (simp add: newIds_def inj_eq)
  have "distinct (map po_id (toldRows ids now input d))"
    unfolding toldRows_ids by (simp add: distinct_map inj_on_def inj)
  moreover have "po_id x \<noteq> ids k" if "x \<in> set (pushOutboxes d)" for x k
    using assms that unfolding newIds_def keyTaken_iff by (metis imageI)
  then have "set (map po_id (pushOutboxes d)) \<inter> set (map po_id (toldRows ids now input d)) = {}"
    unfolding toldRows_ids by auto
  moreover have "distinct (map po_id (pushOutboxes d))"
    using assms by (simp add: newIds_def uniqueKey_def)
  ultimately show ?thesis unfolding uniqueKey_def map_append distinct_append by blast
qed

lemma peer_told:
  fixes ids b now enabled m roomId
  assumes "m_text m = t" and "m_id m = i"
  obtains ns jobs where "snd (notifyMembers ids now enabled [b] t roomId i d) =
      d\<lparr>notifications := notifications d @ ns, pushOutboxes := pushOutboxes d @ jobs\<rparr>"
    "toldRecipient (pgUuid b) m ns jobs d" "length ns \<le> 1"
    "newIds (ids 0) d \<Longrightarrow> userExists (pgUuid b) d \<Longrightarrow> length ns = 1 \<and>
       (enabled \<longrightarrow> map po_pushTokenId jobs = map (Some \<circ> tk_id) (filter (\<lambda>t. tk_userId t = pgUuid b) (pushTokens d)))"
proof -
  let ?input = "messageNotification b t roomId i"
  let ?n = "newNotification (ids 0 0) now ?input" and ?rows = "toldRows (ids 0) now ?input d"
  have one: "snd (notifyMembers ids now enabled [b] t roomId i d) = snd (notify (ids 0) now enabled ?input d)"
    by (simp add: notifyMembers_def andThen_def tryCatch_def split: prod.split sum.split)
  have n: "n_userId ?n = pgUuid b" "n_type ?n = MessageN" "n_sourceId ?n = Some i" "n_body ?n = take 60 t" "n_id ?n = ids 0 0"
    by (simp_all add: newNotification_def messageNotification_def)
  have user: "ni_userId ?input = b" by (simp add: messageNotification_def)
  have row: "\<exists>t \<in> set (pushTokens d). tk_userId t = pgUuid b \<and> po_pushTokenId j = Some (tk_id t) \<and> po_tokenSnapshot j = tk_token t"
    "po_notificationId j = ids 0 0" if "j \<in> set ?rows" for j
  proof -
    from that obtain k t where "(k, t) \<in> set (enumerate 0 (filter (\<lambda>t. tk_userId t = pgUuid b) (pushTokens d)))"
      and j: "j = newOutbox (ids 0 (Suc k)) now (ids 0 0) ?input t"
      by (auto simp: toldRows_def user)
    then have "t \<in> set (filter (\<lambda>t. tk_userId t = pgUuid b) (pushTokens d))"
      by (metis enumerate_eq_zip set_zip_rightD)
    with j show "\<exists>t \<in> set (pushTokens d). tk_userId t = pgUuid b \<and> po_pushTokenId j = Some (tk_id t) \<and> po_tokenSnapshot j = tk_token t"
      "po_notificationId j = ids 0 0"
      by (auto simp: newOutbox_def)
  qed
  have "map po_pushTokenId ?rows = map (Some \<circ> tk_id) (map snd (enumerate 0 (filter (\<lambda>t. tk_userId t = pgUuid b) (pushTokens d))))"
    unfolding toldRows_def map_map by (intro map_cong) (auto simp: newOutbox_def user)
  then have tokens: "map po_pushTokenId ?rows = map (Some \<circ> tk_id) (filter (\<lambda>t. tk_userId t = pgUuid b) (pushTokens d))"
    by simp
  show thesis
  proof (cases "keyTaken n_id (ids 0 0) (notifications d) \<or> \<not> userExists (pgUuid b) d \<or>
      enabled \<and> \<not> uniqueKey po_id (pushOutboxes d @ ?rows)")
    case True
    then have "snd (notifyMembers ids now enabled [b] t roomId i d) = d\<lparr>notifications := notifications d @ [], pushOutboxes := pushOutboxes d @ []\<rparr>"
      unfolding one notify_run user by (elim disjE) simp_all
    moreover have "\<not> (newIds (ids 0) d \<and> userExists (pgUuid b) d)"
      using True toldRows_unique [of "ids 0" d now ?input] unfolding newIds_def by blast
    ultimately show ?thesis by (intro that [of "[]" "[]"]) (simp_all add: toldRecipient_def)
  next
    case False
    then have "snd (notifyMembers ids now enabled [b] t roomId i d) = d\<lparr>notifications := notifications d @ [?n],
        pushOutboxes := pushOutboxes d @ (if enabled then ?rows else [])\<rparr>"
      unfolding one notify_run user by simp
    moreover have "toldRecipient (pgUuid b) m [?n] (if enabled then ?rows else []) d"
      using row n assms by (auto simp: toldRecipient_def list_all_iff)
    moreover have "enabled \<longrightarrow> map po_pushTokenId (if enabled then ?rows else []) =
        map (Some \<circ> tk_id) (filter (\<lambda>t. tk_userId t = pgUuid b) (pushTokens d))"
      using tokens by simp
    ultimately show ?thesis by (intro that [where ns = "[?n]" and jobs = "if enabled then ?rows else []"]) simp_all
  qed
qed

lemma distinct_single:
  assumes "distinct xs" and "set xs = {b}"
  shows "xs = [b]"
proof (cases xs)
  case (Cons x ys)
  with assms have "x = b" "set ys \<subseteq> {b}" "b \<notin> set ys" by auto
  then have "ys = []" by (cases ys) auto
  with Cons \<open>x = b\<close> show ?thesis by simp
qed (use assms in simp)

lemma peer_of_match:
  assumes inv: "roomsInv d" and m: "m \<in> set (matchesTable d)" "matchOf a b m" and room: "pgUuid roomId = mt_roomId m"
    and a: "pgUuid me = a"
  shows "otherRoomMemberIds roomId me d = [b]"
proof -
  have ab: "a \<noteq> b" "inRoom (mt_roomId m) v d \<longleftrightarrow> v = a \<or> v = b" for v
    using inv m room_of_match [OF inv m(1)]
    by (auto simp: roomsInv_def matchingInv_def matchesOk_def list_all_iff matchOk_def matchOf_def)
  let ?rs = "filter (\<lambda>r. rm_roomId r = mt_roomId m \<and> rm_userId r \<noteq> a) (roomMembers d)"
  have "distinct (map (\<lambda>r. (rm_roomId r, rm_userId r)) (roomMembers d))"
    using inv by (simp add: roomsInv_def membersOk_def uniqueKey_def)
  then have "distinct (map (\<lambda>r. (rm_roomId r, rm_userId r)) ?rs)"
    by (rule distinct_map_filter)
  then have "distinct (map rm_userId ?rs)"
    by (auto simp: distinct_map inj_on_def)
  moreover have "set (map rm_userId ?rs) = {b}"
    using ab by (auto simp: inRoom_def existsRow_iff image_iff) metis+
  ultimately have "map rm_userId ?rs = [b]"
    by (rule distinct_single)
  then show ?thesis by (simp add: otherRoomMemberIds_def room a)
qed

lemma guard_exists:
  assumes "accessTokenGuard env req d = (Inr me, d)"
  shows "userExists (pgUuid me) d"
  using assms
  by (auto simp: accessTokenGuard_def accessTokenValidate_def success_simps repoFindUser_def findUserRow_def userExists_def
      existsRow_iff dest!: findFirst_SomeD split: option.splits)

lemma userRequest_resolves:
  "accessTokenGuard env req d = (Inr me, d) \<Longrightarrow> userRequest env req call d = resolve env req me call d"
  by (simp add: userRequest_def andThen_def)

text \<open>The room of the match of two users.\<close>

definition sharedRoom :: "uuid \<Rightarrow> uuid \<Rightarrow> db \<Rightarrow> uuid option" where
  "sharedRoom a b d = map_option mt_roomId (findFirst (matchOf a b) (matchesTable d))"

lemma sharedRoom_match:
  assumes "sharedRoom a b d = Some room"
  obtains m where "m \<in> set (matchesTable d)" "matchOf a b m" "mt_roomId m = room"
  using assms by (auto simp: sharedRoom_def dest!: findFirst_SomeD)

text \<open>The other user finds the message.\<close>

lemma page_shows:
  fixes req roomId me body key d d'
  defines "m \<equiv> newMessage (rq_id req) (rq_now req) roomId me body key"
  assumes inv: "roomsInv d" and room: "sharedRoom (pgUuid me) (pgUuid other) d = Some (pgUuid roomId)" "uuidRegex roomId"
    and fresh: "\<not> keyTaken m_id (rq_id req) (messages d)"
    and newest: "activeMessageCount roomId d < 50 \<or> (\<forall>q \<in> set (messages d). activeIn (pgUuid roomId) q \<longrightarrow> m_createdAt q < rq_now req)"
    and d': "d' = messageTold (rq_now req) m ns jobs d"
  shows "\<exists>ps. chatMessages other \<lparr>mi_roomId = roomId, mi_first = None, mi_after = None, mi_before = None\<rparr> d' = (Inr ps, d') \<and>
    rowToMessage m \<in> set ps"
proof -
  obtain x where x: "x \<in> set (matchesTable d)" "matchOf (pgUuid me) (pgUuid other) x" "mt_roomId x = pgUuid roomId"
    using room(1) by (rule sharedRoom_match)
  have "isRoomMember roomId other d"
    using room_of_match [OF inv x(1)] x(2) unfolding isRoomMember_inRoom x(3) [symmetric] matchOf_def by metis
  then have member: "isRoomMember roomId other d'"
    by (simp add: isRoomMember_def d' messageTold_def messageStored_def)
  have rows: "messages d' = messages d @ [m]" "activeIn (pgUuid roomId) m" "m_createdAt m = rq_now req"
    by (simp_all add: d' messageTold_def messageStored_def m_def activeIn_def insertRow_def)
  have "uniqueKey m_id (messages d')"
    using inv fresh by (auto simp: rows(1) roomsInv_def chatInv_def uniqueKey_def keyTaken_iff m_def)
  moreover have "m \<in> set (timeline (pgUuid roomId) d')"
    using rows by (simp add: set_timeline)
  moreover have "length (timeline (pgUuid roomId) d') = Suc (activeMessageCount roomId d)"
    using rows by (simp add: timeline_def activeMessageCount_def countWhere_def)
  with newest have "length (timeline (pgUuid roomId) d') \<le> 50 \<or>
      (\<forall>q \<in> set (timeline (pgUuid roomId) d'). q \<noteq> m \<longrightarrow> m_createdAt q < m_createdAt m)"
    using rows by (auto simp: set_timeline)
  ultimately have "m \<in> set (drop (length (timeline (pgUuid roomId) d') - 50) (timeline (pgUuid roomId) d'))"
    by (rule timeline_newest)
  then show ?thesis
    using chatMessages_newest [OF member room(2)] by auto
qed

text \<open>A message into the shared room, and what it leaves behind.\<close>

lemma send_to_peer:
  fixes me roomId body req d env other key
  defines "m \<equiv> newMessage (rq_id req) (rq_now req) roomId me (trim body) (map_option trim key)"
  assumes inv: "roomsInv d" and guard: "accessTokenGuard env req d = (Inr me, d)"
    and room: "sharedRoom (pgUuid me) (pgUuid other) d = Some (pgUuid roomId)" "uuidRegex roomId"
    and ok: "\<not> keyTaken m_id (rq_id req) (messages d)" "keyUnused key roomId me d" "trim body \<noteq> []"
      "length (trim body) \<le> MESSAGE_MAX_LENGTH"
      "activeMessageCount roomId d = 0 \<longrightarrow> length (trim body) \<le> FIRST_MESSAGE_MAX_LENGTH"
  obtains ns jobs where
    "userRequest env req (ChatCall (SendChatMessage \<lparr>si_roomId = roomId, si_text = body, si_idempotencyKey = key\<rparr>)) d =
      (Inr (MessageR (rowToMessage m) (Some (publishMessageEvent Added m))), messageTold (rq_now req) m ns jobs d)"
    "toldRecipient (pgUuid other) m ns jobs d" "length ns \<le> 1"
    "newIds (rq_memberIds req 0) d \<Longrightarrow> userExists (pgUuid other) d \<Longrightarrow> length ns = 1 \<and>
       (ae_pushEnabled env \<longrightarrow> map po_pushTokenId jobs = map (Some \<circ> tk_id) (filter (\<lambda>t. tk_userId t = pgUuid other) (pushTokens d)))"
proof -
  let ?d = "messageStored (rq_now req) m d"
  obtain x where x: "x \<in> set (matchesTable d)" "matchOf (pgUuid me) (pgUuid other) x" "mt_roomId x = pgUuid roomId"
    using room(1) by (rule sharedRoom_match)
  have peer: "otherRoomMemberIds roomId me d = [pgUuid other]"
    by (rule peer_of_match [OF inv x(1,2) x(3) [symmetric] refl])
  have member: "isRoomMember roomId me d"
    using room_of_match [OF inv x(1)] x(2) unfolding isRoomMember_inRoom x(3) [symmetric] matchOf_def by metis
  have "keyTaken r_id (pgUuid roomId) (rooms d)"
    using inv x by (auto simp: roomsInv_def matchingInv_def matchesOk_def list_all_iff matchOk_def)
  note sent = sendMessage_delivers [where now = "rq_now req" and ids = "rq_memberIds req" and enabled = "ae_pushEnabled env",
      OF ok(1) this guard_exists [OF guard] ok(2) member room(2) ok(3,4,5), unfolded peer,
      folded m_def]
  have same: "notifications ?d = notifications d" "pushOutboxes ?d = pushOutboxes d" "pushTokens ?d = pushTokens d"
    "users ?d = users d"
    by (simp_all add: messageStored_def)
  have "m_text m = trim body" "m_id m = rq_id req" by (simp_all add: m_def)
  then obtain ns jobs where told: "snd (notifyMembers (rq_memberIds req) (rq_now req) (ae_pushEnabled env) [pgUuid other]
      (trim body) roomId (rq_id req) ?d) = ?d\<lparr>notifications := notifications ?d @ ns, pushOutboxes := pushOutboxes ?d @ jobs\<rparr>"
    "toldRecipient (pgUuid (pgUuid other)) m ns jobs ?d" "length ns \<le> 1"
    "newIds (rq_memberIds req 0) ?d \<Longrightarrow> userExists (pgUuid (pgUuid other)) ?d \<Longrightarrow> length ns = 1 \<and> (ae_pushEnabled env \<longrightarrow>
       map po_pushTokenId jobs = map (Some \<circ> tk_id) (filter (\<lambda>t. tk_userId t = pgUuid (pgUuid other)) (pushTokens ?d)))"
    using peer_told by blast
  have "userRequest env req (ChatCall (SendChatMessage \<lparr>si_roomId = roomId, si_text = body, si_idempotencyKey = key\<rparr>)) d =
      (Inr (MessageR (rowToMessage m) (Some (publishMessageEvent Added m))),
        messageTold (rq_now req) m ns jobs d)"
    unfolding messageTold_def userRequest_resolves [OF guard] resolve.simps chatResolver.simps mapResult_Inr sent told(1) same
    by (intro exI [of _ "(rowToMessage m, Some (publishMessageEvent Added m))"]) (simp only: prod.case simp_thms)
  with told(2-4) show thesis
    unfolding same pgUuid_idem by (intro that) (simp_all add: toldRecipient_def newIds_def userExists_def same)
qed

text \<open>C7. Two users who like each other can talk: as long as users act on each other under canonical identifiers, they share a
  room in every state the server comes to. When one of them, signed in, sends a text of at most ninety units, or at
  most thirty if it is the first of the room, under no key or under one that was not used there, the message is stored
  and published, and the request changes nothing else but that it tells the other user, and nobody else: by one
  notification and, where push is on, a job for each of the other user's devices, if the generated identifiers are new.
  The other user then finds the message on the first page of the room, if the page holds all messages or it is the
  newest.\<close>

theorem matched_can_chat:
  assumes "reachable env (canonicalEvent env) d" and "accessTokenGuard env req d = (Inr me, d)"
    and "liked (pgUuid me) (pgUuid other) d" and "liked (pgUuid other) (pgUuid me) d"
  shows "\<exists>room. sharedRoom (pgUuid me) (pgUuid other) d = Some room \<and>
    (uuidRegex roomId \<and> pgUuid roomId = room \<and> trim body \<noteq> [] \<and> length (trim body) \<le> 90 \<and>
       (activeMessageCount roomId d = 0 \<longrightarrow> length (trim body) \<le> 30) \<and> keyUnused key roomId me d \<and>
       \<not> keyTaken m_id (rq_id req) (messages d) \<longrightarrow>
     (\<exists>m ns jobs d'. m = newMessage (rq_id req) (rq_now req) roomId me (trim body) (map_option trim key) \<and>
       d' = messageTold (rq_now req) m ns jobs d \<and>
       userRequest env req (ChatCall (SendChatMessage \<lparr>si_roomId = roomId, si_text = body, si_idempotencyKey = key\<rparr>)) d =
         (Inr (MessageR (rowToMessage m) (Some \<lparr>ce_type = Added, ce_message = rowToMessage m\<rparr>)), d') \<and>
       toldRecipient (pgUuid other) m ns jobs d \<and> length ns \<le> 1 \<and>
       (newIds (rq_memberIds req 0) d \<and> userExists (pgUuid other) d \<longrightarrow> length ns = 1 \<and> (ae_pushEnabled env \<longrightarrow>
          map po_pushTokenId jobs = map (Some \<circ> tk_id) (filter (\<lambda>t. tk_userId t = pgUuid other) (pushTokens d)))) \<and>
       (activeMessageCount roomId d < 50 \<or> (\<forall>q \<in> set (messages d). activeIn room q \<longrightarrow> m_createdAt q < rq_now req) \<longrightarrow>
          (\<exists>ps. chatMessages other \<lparr>mi_roomId = roomId, mi_first = None, mi_after = None, mi_before = None\<rparr> d' = (Inr ps, d') \<and>
            rowToMessage m \<in> set ps))))" (is "\<exists>room. _ \<and> (?sends room \<longrightarrow> ?sent room)")
proof -
  have inv: "roomsInv d" using assms(1) by (rule reachable_rooms)
  then have "matchedPair (pgUuid me) (pgUuid other) d"
    using assms(3,4) matchingInv_iff by (auto simp: roomsInv_def)
  then obtain room where room: "sharedRoom (pgUuid me) (pgUuid other) d = Some room"
    by (cases "findFirst (matchOf (pgUuid me) (pgUuid other)) (matchesTable d)")
       (auto simp: sharedRoom_def matchedPair_def existsRow_iff findFirst_None_iff)
  let ?m = "newMessage (rq_id req) (rq_now req) roomId me (trim body) (map_option trim key)"
  have "?sent room" if "?sends room"
  proof -
    from that have id: "uuidRegex roomId" "pgUuid roomId = room" and ok: "trim body \<noteq> []" "length (trim body) \<le> MESSAGE_MAX_LENGTH"
      "activeMessageCount roomId d = 0 \<longrightarrow> length (trim body) \<le> FIRST_MESSAGE_MAX_LENGTH" "keyUnused key roomId me d"
      "\<not> keyTaken m_id (rq_id req) (messages d)"
      by (simp_all add: MESSAGE_MAX_LENGTH_def FIRST_MESSAGE_MAX_LENGTH_def)
    note shared = room [folded id(2)] id(1)
    obtain ns jobs where "userRequest env req (ChatCall (SendChatMessage \<lparr>si_roomId = roomId, si_text = body, si_idempotencyKey = key\<rparr>)) d =
        (Inr (MessageR (rowToMessage ?m) (Some \<lparr>ce_type = Added, ce_message = rowToMessage ?m\<rparr>)), messageTold (rq_now req) ?m ns jobs d)"
      "toldRecipient (pgUuid other) ?m ns jobs d" "length ns \<le> 1"
      "newIds (rq_memberIds req 0) d \<and> userExists (pgUuid other) d \<longrightarrow> length ns = 1 \<and> (ae_pushEnabled env \<longrightarrow>
         map po_pushTokenId jobs = map (Some \<circ> tk_id) (filter (\<lambda>t. tk_userId t = pgUuid other) (pushTokens d)))"
      using send_to_peer [OF inv assms(2) shared ok(5,4,1-3)] unfolding publishMessageEvent_def by blast
    moreover have "activeMessageCount roomId d < 50 \<or> (\<forall>q \<in> set (messages d). activeIn room q \<longrightarrow> m_createdAt q < rq_now req) \<longrightarrow>
        (\<exists>ps. chatMessages other \<lparr>mi_roomId = roomId, mi_first = None, mi_after = None, mi_before = None\<rparr>
          (messageTold (rq_now req) ?m ns jobs d) = (Inr ps, messageTold (rq_now req) ?m ns jobs d) \<and> rowToMessage ?m \<in> set ps)"
      using page_shows [OF inv shared ok(5) _ refl] id(2) by blast
    ultimately show ?thesis by blast
  qed
  with room show ?thesis by blast
qed

section \<open>Samples\<close>

text \<open>Two users like each other; the second like makes the room.\<close>

definition sampleQuietApi :: apiEnv where
  "sampleQuietApi = sampleApi\<lparr>ae_pushEnabled := False\<rparr>"

definition sampleFrom :: "jsstring \<Rightarrow> timestamp \<Rightarrow> (nat \<Rightarrow> uuid) \<Rightarrow> apiRequest" where
  "sampleFrom userId now ids = (sampleRequest now)\<lparr>rq_authorization := Some userId, rq_ids := ids\<rparr>"

definition sampleMeeting :: "serverEvent list" where
  "sampleMeeting = [UserE (sampleFrom samplePeerId 1000 (sampleIds 1)) (MatchingCall (LikeUser sampleAccountId)),
     UserE (sampleFrom sampleAccountId 2000 (\<lambda>k. if k = 1 then sampleRoomId else sampleIds 2 k)) (MatchingCall (LikeUser samplePeerId))]"

definition sampleMet :: db where
  "sampleMet = foldl (serverStep sampleQuietApi) sampleSinglesDb sampleMeeting"

lemma samplePeerId_nonempty: "samplePeerId \<noteq> []"
  by (simp add: samplePeerId_def js_def)

lemmas meeting_simps = sampleQuietApi_def sampleFrom_def sampleMeeting_def accessTokenGuard_def accessTokenFromRequest_def
  accessTokenValidate_def isAccessTokenClaims_def jsonField_def jsonText_def truthy_def repoFindUser_def mapResult_def
  sampleApi_def sampleRequest_def sampleAccountId_nonempty samplePeerId_nonempty accessUser_def

lemma sampleMet_reachable: "reachable sampleQuietApi (canonicalEvent sampleQuietApi) sampleMet"
  unfolding sampleMet_def
proof (rule reachable_run)
  have "nobodyMet sampleSinglesDb"
    by (simp add: nobodyMet_def noMatching_def noChat_def sampleSinglesDb_def emptyDb_def)
  then show "reachable sampleQuietApi (canonicalEvent sampleQuietApi) sampleSinglesDb" by (rule reachable.start)
  show "list_all (canonicalEvent sampleQuietApi) sampleMeeting"
    by (simp add: meeting_simps eval_simps)
qed

lemma sampleMet_eval:
  "sharedRoom sampleAccountId samplePeerId sampleMet = Some sampleRoomId \<and> messages sampleMet = [] \<and>
   users sampleMet = users sampleSinglesDb"
  unfolding sampleMet_def
  by (simp add: meeting_simps userRequest_def likeUser_def sharedRoom_def matchOf_def sampleIds_def eval_simps cong: run_congs)

lemma sampleMet_guard:
  "accessTokenGuard sampleQuietApi (sampleFrom sampleAccountId 3000 ids) sampleMet = (Inr sampleAccountId, sampleMet)"
  by (simp add: meeting_simps sampleMet_eval eval_simps)

lemma sampleMet_matched: "matchedPair sampleAccountId samplePeerId sampleMet"
proof -
  obtain m where "m \<in> set (matchesTable sampleMet)" "matchOf sampleAccountId samplePeerId m"
    using sampleMet_eval by (blast elim: sharedRoom_match)
  then show ?thesis by (auto simp: matchedPair_def existsRow_iff)
qed

lemma sampleMet_liked: "liked sampleAccountId samplePeerId sampleMet" "liked samplePeerId sampleAccountId sampleMet"
  using sampleMet_matched matchingInv_iff reachable_rooms [OF sampleMet_reachable] by (auto simp: roomsInv_def)

theorem mutual_likes_share_room_witness:
  "liked sampleAccountId samplePeerId sampleMet \<and> liked samplePeerId sampleAccountId sampleMet \<and>
   (\<exists>m \<in> set (matchesTable sampleMet). inRoom (mt_roomId m) samplePeerId sampleMet)"
proof -
  obtain m where m: "m \<in> set (matchesTable sampleMet)" "matchOf sampleAccountId samplePeerId m"
    using sampleMet_matched by (auto simp: matchedPair_def existsRow_iff)
  then have "samplePeerId = mt_userLowId m \<or> samplePeerId = mt_userHighId m" by (auto simp: matchOf_def)
  with mutual_likes_share_room [OF sampleMet_reachable, of sampleAccountId samplePeerId] sampleMet_matched m(1)
  show ?thesis by blast
qed

definition samplePage :: chatMessagesInput where
  "samplePage = \<lparr>mi_roomId = sampleRoomId, mi_first = None, mi_after = None, mi_before = None\<rparr>"

theorem rooms_private_witness:
  "\<exists>other. userRequest sampleQuietApi (sampleFrom sampleAccountId 3000 (sampleIds 3)) (ChatCall (ChatMessages samplePage)) sampleMet =
     (Inr (MessagesR []), sampleMet) \<and> liked sampleAccountId other sampleMet \<and> liked other sampleAccountId sampleMet"
proof -
  obtain m where m: "m \<in> set (matchesTable sampleMet)" "matchOf sampleAccountId samplePeerId m" "mt_roomId m = sampleRoomId"
    using sampleMet_eval by (blast elim: sharedRoom_match)
  have inv: "roomsInv sampleMet" by (rule reachable_rooms [OF sampleMet_reachable])
  have "inRoom (mt_roomId m) sampleAccountId sampleMet"
    using room_of_match [OF inv m(1)] m(2) unfolding matchOf_def by metis
  then have "isRoomMember sampleRoomId sampleAccountId sampleMet"
    by (simp only: isRoomMember_inRoom pgUuid_canonical [OF sample_room(2)] pgUuid_canonical [OF sample_ids(5)] m(3))
  then have "chatMessages sampleAccountId samplePage sampleMet = (Inr [], sampleMet)"
    unfolding samplePage_def
    by (subst chatMessages_newest) (simp_all add: sample_room_uuid timeline_def sampleMet_eval)
  then have run: "userRequest sampleQuietApi (sampleFrom sampleAccountId 3000 (sampleIds 3)) (ChatCall (ChatMessages samplePage)) sampleMet =
     (Inr (MessagesR []), sampleMet)"
    by (simp add: userRequest_resolves [OF sampleMet_guard] mapResult_def andThen_def)
  have "accessUser sampleQuietApi (sampleFrom sampleAccountId 3000 (sampleIds 3)) = Some sampleAccountId"
    using guard_user [OF sampleMet_guard] by blast
  from rooms_private [OF sampleMet_reachable run this, of sampleRoomId] run show ?thesis
    by (auto simp: samplePage_def eval_simps)
qed

theorem matched_can_chat_witness:
  "\<exists>p d'. userRequest sampleQuietApi (sampleFrom sampleAccountId 3000 (sampleIds 3)) (ChatCall (SendChatMessage
       \<lparr>si_roomId = sampleRoomId, si_text = js ''hi'', si_idempotencyKey = Some (js ''k1'')\<rparr>)) sampleMet =
     (Inr (MessageR p (Some \<lparr>ce_type = Added, ce_message = p\<rparr>)), d') \<and> cm_roomId p = sampleRoomId \<and> cm_text p = js ''hi'' \<and>
     (\<exists>ps. chatMessages samplePeerId samplePage d' = (Inr ps, d') \<and> p \<in> set ps)"
proof -
  have body: "trim (js ''hi'') = js ''hi''" "length (js ''hi'') = 2" "js ''hi'' \<noteq> []" "trim (js ''k1'') \<noteq> []"
    "length (trim (js ''k1'')) \<le> IDEMPOTENCY_KEY_MAX_LENGTH"
    by (simp_all add: eval_simps IDEMPOTENCY_KEY_MAX_LENGTH_def)
  have "\<not> keyTaken m_id (rq_id (sampleFrom sampleAccountId 3000 (sampleIds 3))) (messages sampleMet)"
    "keyUnused (Some (js ''k1'')) sampleRoomId sampleAccountId sampleMet" "activeMessageCount sampleRoomId sampleMet = 0"
    using body by (simp_all add: sampleMet_eval keyTaken_def existsRow_def keyUnused_def activeMessageCount_def countWhere_def)
  moreover have "sharedRoom (pgUuid sampleAccountId) (pgUuid samplePeerId) sampleMet = Some sampleRoomId"
    by (simp add: sampleMet_eval sample_ids sample_peer)
  ultimately show ?thesis
    using matched_can_chat [OF sampleMet_reachable sampleMet_guard [of "sampleIds 3"], of samplePeerId sampleRoomId "js ''hi''" "Some (js ''k1'')"]
      sampleMet_liked body
    by (auto simp: sample_room sample_room_uuid sample_ids sample_peer samplePage_def Let_def rowToMessage_def)
qed

end
