(* ===== verification/Deletion.thy ===== *)
theory Deletion
  imports Server
begin

text \<open>
  The deletion job of the maintenance process on the whole database: it erases every account whose time has come, unless
  more are due than a batch holds or somebody has taken the address that the account is to get. A sign-in before that
  time takes the account back.
\<close>

section \<open>The jobs of a batch\<close>

text \<open>What the job of a claimed account needs: the claim, the address the account is to get, and that matches have rooms.\<close>

definition deletable :: "timestamp \<Rightarrow> timestamp \<Rightarrow> uuid \<Rightarrow> db \<Rightarrow> bool" where
  "deletable now lease i d \<longleftrightarrow>
     existsRow (deletionClaimed now \<lparr>dj_userId = i, dj_deletionLeaseExpiresAt = lease\<rparr>) (users d) \<and>
     \<not> existsRow (\<lambda>u. u_userId u \<noteq> i \<and> u_email u = deletedEmail i) (users d) \<and>
     list_all (\<lambda>m. keyTaken r_id (mt_roomId m) (rooms d)) (matchesTable d)"

lemma deletedEmail_inj: "deletedEmail i = deletedEmail j \<longleftrightarrow> i = j"
  by (simp add: deletedEmail_def)

lemma deletable_update:
  assumes "deletable now lease i d" and "canonicalUuid i" and "users d' = updateWhere P f (users d)"
    and "\<And>u. P u \<Longrightarrow> u_userId u \<noteq> i \<and> u_userId (f u) = u_userId u \<and> (u_email (f u) = deletedEmail i \<longrightarrow> u_email u = deletedEmail i)"
    and "list_all (\<lambda>m. keyTaken r_id (mt_roomId m) (rooms d')) (matchesTable d')"
  shows "deletable now lease i d'"
proof -
  let ?job = "\<lparr>dj_userId = i, dj_deletionLeaseExpiresAt = lease\<rparr>"
  obtain w where w: "w \<in> set (users d)" "deletionClaimed now ?job w"
    using assms(1) by (auto simp: deletable_def existsRow_iff)
  have "\<not> P w" using w(2) assms(2,4) by (auto simp: deletionClaimed_def)
  with w have "existsRow (deletionClaimed now ?job) (users d')"
    unfolding assms(3) existsRow_iff set_updateWhere by force
  moreover have "\<not> existsRow (\<lambda>u. u_userId u \<noteq> i \<and> u_email u = deletedEmail i) (users d')"
    using assms(1,4) unfolding assms(3) by (auto simp: deletable_def existsRow_iff set_updateWhere)
  ultimately show ?thesis using assms(5) by (simp add: deletable_def)
qed

text \<open>The job of another account leaves that as it is, whether it succeeds or gives its lease back.\<close>

definition deletionStep :: "timestamp \<Rightarrow> deletionJob \<Rightarrow> db \<Rightarrow> db" where
  "deletionStep now job d = snd (tryCatch (andThen (anonymizeDeletedAccount now job) (\<lambda>_. ret True))
     (\<lambda>_. andThen (releaseDeletionLease now job) (\<lambda>_. ret False)) d)"

lemma deletionStep_cases:
  obtains "existsRow (deletionClaimed now job) (users d)"
      "\<not> existsRow (\<lambda>u. u_userId u \<noteq> pgUuid (dj_userId job) \<and> u_email u = deletedEmail (dj_userId job)) (users d)"
      "deletionStep now job d = anonymized now job d"
  | "\<not> existsRow (deletionClaimed now job) (users d) \<or>
      existsRow (\<lambda>u. u_userId u \<noteq> pgUuid (dj_userId job) \<and> u_email u = deletedEmail (dj_userId job)) (users d)"
      "deletionStep now job d = snd (releaseDeletionLease now job d)"
  by (cases "existsRow (deletionClaimed now job) (users d) \<and>
      \<not> existsRow (\<lambda>u. u_userId u \<noteq> pgUuid (dj_userId job) \<and> u_email u = deletedEmail (dj_userId job)) (users d)")
    (auto simp: deletionStep_def tryCatch_def andThen_def anonymizeDeletedAccount_eq releaseDeletionLease_def)

lemma runDeletionJobs_run: "snd (runDeletionJobs now jobs d) = foldl (\<lambda>d job. deletionStep now job d) d jobs"
proof (induction jobs arbitrary: d)
  case (Cons job jobs)
  have "neverThrows (tryCatch (andThen (anonymizeDeletedAccount now job) (\<lambda>_. ret True))
      (\<lambda>_. andThen (releaseDeletionLease now job) (\<lambda>_. ret False)))"
    unfolding releaseDeletionLease_def by (intro atomic_intros)
  then obtain ok d1 where step: "tryCatch (andThen (anonymizeDeletedAccount now job) (\<lambda>_. ret True))
      (\<lambda>_. andThen (releaseDeletionLease now job) (\<lambda>_. ret False)) d = (Inr ok, d1)"
    by (rule neverThrows_Inr)
  then have "snd (runDeletionJobs now (job # jobs) d) = snd (runDeletionJobs now jobs d1)"
    by (auto simp: andThen_def split: prod.split sum.split)
  with step show ?case by (simp add: Cons.IH deletionStep_def)
qed simp

lemma anonymized_users: "users (anonymized now job d) =
    updateWhere (\<lambda>r. u_userId r = pgUuid (dj_userId job)) (anonymousUser now (dj_userId job)) (users d)"
  by (simp add: anonymized_def Let_def)

lemma released_users: "snd (releaseDeletionLease now job d) = d\<lparr>users := updateWhere (\<lambda>u. u_userId u = pgUuid (dj_userId job) \<and>
        u_deletionLeaseExpiresAt u = Some (dj_deletionLeaseExpiresAt job) \<and> u_deletedAt u = None)
       (\<lambda>u. u\<lparr>u_deletionLeaseExpiresAt := None, u_updatedAt := now\<rparr>) (users d)\<rparr>"
  by (simp add: releaseDeletionLease_def)

lemma other_job_deletable:
  assumes "deletable now lease i d" and "canonicalUuid i" "canonicalUuid (dj_userId job)" and "dj_userId job \<noteq> i"
  shows "deletable now lease i (deletionStep now job d)"
proof (cases now job d rule: deletionStep_cases)
  case 1
  have "list_all (\<lambda>m. keyTaken r_id (mt_roomId m) (rooms (anonymized now job d))) (matchesTable (anonymized now job d))"
    using assms(1) by (auto simp: deletable_def list_all_iff anonymized_rooms(3) anonymized_likes(3))
  then show ?thesis
    unfolding 1(3) using assms
    by (intro deletable_update [OF assms(1,2) anonymized_users]) (auto simp: anonymousUser_def deletedEmail_inj)
next
  case 2
  let ?P = "\<lambda>u. u_userId u = pgUuid (dj_userId job) \<and> u_deletionLeaseExpiresAt u = Some (dj_deletionLeaseExpiresAt job) \<and>
    u_deletedAt u = None" and ?f = "\<lambda>u. u\<lparr>u_deletionLeaseExpiresAt := None, u_updatedAt := now\<rparr>"
  show ?thesis
    unfolding 2(2) released_users
  proof (rule deletable_update [OF assms(1,2)])
    show "users (d\<lparr>users := updateWhere ?P ?f (users d)\<rparr>) = updateWhere ?P ?f (users d)" by simp
  qed (use assms in \<open>auto simp: deletable_def\<close>)
qed

lemma own_job_erases:
  assumes "deletable now lease i d" and "canonicalUuid i"
  shows "erased i (deletionStep now \<lparr>dj_userId = i, dj_deletionLeaseExpiresAt = lease\<rparr> d)"
proof (cases now "\<lparr>dj_userId = i, dj_deletionLeaseExpiresAt = lease\<rparr>" d rule: deletionStep_cases)
  case 1
  have "list_all (\<lambda>m. keyTaken r_id (mt_roomId m) (rooms d)) (matchesTable d)"
    using assms(1) by (simp add: deletable_def)
  from anonymized_erases [OF _ this, of "\<lparr>dj_userId = i, dj_deletionLeaseExpiresAt = lease\<rparr>"] assms(2) show ?thesis
    unfolding 1(3) by simp
qed (use assms in \<open>simp add: deletable_def\<close>)

text \<open>What is erased stays erased.\<close>

lemma list_all_deleteRows: "list_all P t \<Longrightarrow> list_all P (deleteWhere Q t)"
  by (auto simp: list_all_iff)

lemma other_job_erased:
  assumes "erased i d" and "canonicalUuid (dj_userId job)" and "dj_userId job \<noteq> i"
  shows "erased i (deletionStep now job d)"
proof (cases now job d rule: deletionStep_cases)
  case 1
  note old = assms(1) [unfolded erased_def]
  show ?thesis
    unfolding 1(3) erased_def
  proof (intro conjI)
    show "list_all (\<lambda>r. u_userId r = i \<longrightarrow> u_deletedAt r \<noteq> None \<and> u_email r = deletedEmail i \<and> u_phone r = None \<and>
       u_password r = [] \<and> u_intro r = [] \<and> u_birthDate r = None \<and> u_region r = None) (users (anonymized now job d))"
      unfolding anonymized_users using old assms(2,3) by (intro list_all_updateWhere) (simp_all add: anonymousUser_def)
    have "profileUploads (anonymized now job d) = profileUploads (failUploads now (dj_userId job) d)"
      using assms(2) by (simp add: anonymized_def Let_def deleteRooms_def deletePersonalRows_def deletePushTokens_def deleteNotifications_def)
    with old assms(3) show "list_all (\<lambda>p. pu_userId p = i \<longrightarrow> pu_status p = Failed \<and>
       (pu_finalKey p \<noteq> None \<and> pu_finalDeletedAt p = None \<longrightarrow> pu_finalDeletionPendingAt p \<noteq> None))
       (profileUploads (anonymized now job d))"
      by (auto simp: failUploads_def failUpload_def requestFinalDeletion_def list_all_iff set_updateWhere)
  qed (simp_all add: anonymized_def Let_def deleteRooms_def deletePersonalRows_def failUploads_def
      deletePushTokens_def deleteNotifications_def list_all_deleteRows old)
next
  case 2
  show ?thesis
    using assms unfolding 2(2) released_users by (auto simp: erased_def list_all_iff set_updateWhere)
qed

lemma jobs_erase:
  assumes "deletable now lease i d" and "list_all canonicalUuid is" and "distinct is" and "i \<in> set is"
  shows "erased i (foldl (\<lambda>d job. deletionStep now job d) d (map (\<lambda>j. \<lparr>dj_userId = j, dj_deletionLeaseExpiresAt = lease\<rparr>) is))"
  using assms
proof (induction "is" arbitrary: d)
  case (Cons j js)
  show ?case
  proof (cases "j = i")
    case True
    have "erased i (foldl (\<lambda>d job. deletionStep now job d) d' (map (\<lambda>j. \<lparr>dj_userId = j, dj_deletionLeaseExpiresAt = lease\<rparr>) ks))"
      if "erased i d'" "list_all canonicalUuid ks" "i \<notin> set ks" for d' ks
      using that by (induction ks arbitrary: d') (auto simp: other_job_erased)
    with own_job_erases [OF Cons.prems(1)] Cons.prems(2,3) True show ?thesis by simp
  next
    case False
    have "canonicalUuid i" "canonicalUuid j" using Cons.prems(2,4) by (auto simp: list_all_iff)
    with Cons.prems(1) False have "deletable now lease i (deletionStep now \<lparr>dj_userId = j, dj_deletionLeaseExpiresAt = lease\<rparr> d)"
      by (intro other_job_deletable) simp_all
    with Cons.IH Cons.prems False show ?thesis by simp
  qed
qed simp

section \<open>What is due is deleted\<close>

lemma claimed_deletable:
  assumes "u \<in> set (users d)" "deletionDue now u" "u_userId u \<in> set ids" "canonicalUuid (u_userId u)" "now < lease"
    and "\<not> existsRow (\<lambda>w. u_userId w \<noteq> u_userId u \<and> u_email w = deletedEmail (u_userId u)) (users d)"
    and "list_all (\<lambda>m. keyTaken r_id (mt_roomId m) (rooms d)) (matchesTable d)"
  shows "deletable now lease (u_userId u) (d\<lparr>users := updateWhere (\<lambda>w. u_userId w \<in> set ids) (claimDeletion now lease) (users d)\<rparr>)"
proof -
  have "deletionClaimed now \<lparr>dj_userId = u_userId u, dj_deletionLeaseExpiresAt = lease\<rparr> (claimDeletion now lease u)"
    using assms(2,4,5) by (simp add: deletionClaimed_def claimDeletion_def deletionDue_def)
  moreover have "claimDeletion now lease u \<in> set (updateWhere (\<lambda>w. u_userId w \<in> set ids) (claimDeletion now lease) (users d))"
    using assms(1,3) unfolding set_updateWhere by force
  ultimately show ?thesis
    using assms(6,7) by (auto simp: deletable_def existsRow_iff set_updateWhere claimDeletion_def)
qed

lemma runDeletionJobs_total: "neverThrows (runDeletionJobs now jobs)"
  by (induction jobs) (simp_all only: runDeletionJobs.simps releaseDeletionLease_def, intro atomic_intros, intro atomic_intros)

lemma deletion_batch_run:
  assumes "claimDueDeletionBatch now (now + DELETION_LEASE_MS) 100 d = (Inr (jobs, hasMore), d1)"
  shows "snd (processDueAccountDeletionBatch now 100 d) = snd (runDeletionJobs now jobs d1)"
proof -
  obtain oks d2 where "runDeletionJobs now jobs d1 = (Inr oks, d2)"
    by (rule neverThrows_Inr [OF runDeletionJobs_total])
  with assms show ?thesis
    by (simp add: processDueAccountDeletionBatch_def validateDeletionLimit_def andThen_def)
qed

text \<open>C10. What is due is deleted: a round of the deletion job, on tables in order, erases every account whose grace
  period has ended and that no other worker holds, as long as no more than a hundred are due and no other account
  has the address that the deleted account gets; whatever becomes of the other accounts of the batch.\<close>

theorem due_account_erased:
  assumes "accountInv d" and "roomsInv d" and "list_all (\<lambda>w. canonicalUuid (u_userId w)) (users d)"
    and "u \<in> set (users d)" and "deletionDue now u" and "length (filter (deletionDue now) (users d)) \<le> 100"
    and "\<not> existsRow (\<lambda>w. u_userId w \<noteq> u_userId u \<and> u_email w = deletedEmail (u_userId u)) (users d)"
  shows "erased (u_userId u) (serverStep env d (JobE services now AccountDeletion))"
proof -
  let ?ids = "deletions.ids now 100 (users d)" and ?lease = "now + DELETION_LEASE_MS"
  let ?d = "d\<lparr>users := updateWhere (\<lambda>w. u_userId w \<in> set ?ids) (claimDeletion now ?lease) (users d)\<rparr>"
  have unique: "uniqueKey u_userId (users d)" using assms(1) by (simp add: accountInv_def authInv_defs)
  have ids: "?ids = map u_userId (sort_key deletionKey (filter (deletionDue now) (users d)))"
    using assms(6) by (simp add: deletions.ids_def)
  then have mem: "u_userId u \<in> set ?ids" using assms(4,5) by simp
  have "distinct (map u_userId (filter (deletionDue now) (users d)))"
    using unique by (auto simp: uniqueKey_def distinct_map_filter)
  then have dist: "distinct ?ids" unfolding ids by (auto simp: distinct_map)
  have canon: "list_all canonicalUuid ?ids" using assms(3) unfolding ids by (auto simp: list_all_iff)
  have "list_all (\<lambda>m. keyTaken r_id (mt_roomId m) (rooms d)) (matchesTable d)"
    using assms(2) by (auto simp: roomsInv_def matchingInv_def matchesOk_def list_all_iff matchOk_def)
  then have "deletable now ?lease (u_userId u) ?d"
    using assms(3-5,7) mem by (intro claimed_deletable) (auto simp: list_all_iff DELETION_LEASE_MS_def)
  from jobs_erase [OF this canon dist mem]
  have "erased (u_userId u) (snd (runDeletionJobs now (map (\<lambda>j. \<lparr>dj_userId = j, dj_deletionLeaseExpiresAt = ?lease\<rparr>) ?ids) ?d))"
    by (simp only: runDeletionJobs_run)
  moreover have "claimDueDeletionBatch now ?lease 100 d =
      (Inr (map (\<lambda>j. \<lparr>dj_userId = j, dj_deletionLeaseExpiresAt = ?lease\<rparr>) ?ids, existsRow (deletionDue now) (users ?d)), ?d)"
    using mem by (auto simp: claimDueDeletionBatch_eq deletions.batch_update Let_def)
  ultimately show ?thesis
    by (simp add: maintenanceJobs_def deletion_batch_run)
qed

text \<open>The account of the sample is deleted together with its like; another account stays.\<close>

definition sampleDueDb :: db where
  "sampleDueDb = emptyDb\<lparr>users := [(sampleUser sampleAccountId)\<lparr>u_hiddenAt := Some 0, u_deletionScheduledAt := Some 10\<rparr>,
     sampleUser samplePeerId]\<rparr>"

theorem due_account_erased_witness:
  "erased sampleAccountId (serverStep sampleApi sampleDueDb (JobE sampleServices 20 AccountDeletion))"
proof -
  let ?u = "(sampleUser sampleAccountId)\<lparr>u_hiddenAt := Some 0, u_deletionScheduledAt := Some 10\<rparr>"
  have email: "u_email (sampleUser samplePeerId) \<noteq> deletedEmail sampleAccountId"
    by (simp add: sampleUser_def samplePeerId_def sampleAccountId_def deletedEmail_def string_simps)
  have free: "\<not> existsRow (\<lambda>w. u_userId w \<noteq> u_userId ?u \<and> u_email w = deletedEmail (u_userId ?u)) (users sampleDueDb)"
    using email by (simp add: sampleDueDb_def existsRow_iff sampleUser_def)
  have "accountInv sampleDueDb" "roomsInv sampleDueDb"
    by (simp_all add: sampleDueDb_def emptyDb_def accountInv_def authInv_defs deletionOk_def sampleUser_def sample_peer sample_ids
        uniqueKey_def roomsInv_def matchingInv_def matchesOk_def mutualMatched_def actionsOk_def membersOk_def chatInv_def)
  moreover have "list_all (\<lambda>w. canonicalUuid (u_userId w)) (users sampleDueDb)" "length (filter (deletionDue 20) (users sampleDueDb)) \<le> 100"
    "?u \<in> set (users sampleDueDb)" "deletionDue 20 ?u"
    by (simp_all add: sampleDueDb_def sampleUser_def sample_ids sample_peer deletionDue_def)
  ultimately have "erased (u_userId ?u) (serverStep sampleApi sampleDueDb (JobE sampleServices 20 AccountDeletion))"
    using free by (intro due_account_erased)
  then show ?thesis by (simp only: sampleUser_def user.simps)
qed

section \<open>A sign-in takes the account back\<close>

text \<open>The account exists, is visible, and its deletion is not scheduled.\<close>

definition restored :: "uuid \<Rightarrow> db \<Rightarrow> bool" where
  "restored i d \<longleftrightarrow> existsRow (\<lambda>u. u_userId u = i) (users d) \<and>
     list_all (\<lambda>u. u_userId u = i \<longrightarrow> u_hiddenAt u = None \<and> u_deletionScheduledAt u = None \<and> u_deletedAt u = None) (users d)"

lemma restored_users:
  assumes "restored i d" and "users d' = updateWhere P f (users d)"
    and "\<And>u. P u \<Longrightarrow> u_userId (f u) = u_userId u"
    and "\<And>u. P u \<Longrightarrow> u_userId u = i \<Longrightarrow> u_hiddenAt u = None \<Longrightarrow> u_deletionScheduledAt u = None \<Longrightarrow> u_deletedAt u = None \<Longrightarrow>
      u_hiddenAt (f u) = None \<and> u_deletionScheduledAt (f u) = None \<and> u_deletedAt (f u) = None"
  shows "restored i d'"
proof -
  obtain w where "w \<in> set (users d)" "u_userId w = i" using assms(1) by (auto simp: restored_def existsRow_iff)
  then have "existsRow (\<lambda>u. u_userId u = i) (users d')"
    using assms(3) unfolding assms(2) existsRow_iff set_updateWhere by (cases "P w") force+
  with assms show ?thesis
    by (auto simp: restored_def list_all_iff set_updateWhere)
qed

lemma restored_frame: "users d' = users d \<Longrightarrow> restored i d' = restored i d"
  by (simp add: restored_def)

lemma restored_frames [simp]:
  "restored i (d\<lparr>refreshTokens := a\<rparr>) = restored i d" "restored i (d\<lparr>authIdentities := b\<rparr>) = restored i d"
  "restored i (d\<lparr>phoneVerifications := x\<rparr>) = restored i d" "restored i (d\<lparr>phoneVerificationTokens := y\<rparr>) = restored i d"
  "restored i (d\<lparr>kakaoPhoneVerificationTokens := z\<rparr>) = restored i d"
  "restored i (deletePushTokens P d) = restored i d" "restored i (cancelOpen now Q d) = restored i d"
  by (rule restored_frame; simp add: deletePushTokens_def cancelOpen_def)+

lemma restored_updates:
  "(\<And>u. P u \<Longrightarrow> u_userId (f u) = u_userId u) \<Longrightarrow>
   (\<And>u. P u \<Longrightarrow> u_userId u = i \<Longrightarrow> u_hiddenAt u = None \<Longrightarrow> u_deletionScheduledAt u = None \<Longrightarrow> u_deletedAt u = None \<Longrightarrow>
     u_hiddenAt (f u) = None \<and> u_deletionScheduledAt (f u) = None \<and> u_deletedAt (f u) = None) \<Longrightarrow>
   restored i d \<Longrightarrow> restored i (d\<lparr>users := updateWhere P f (users d)\<rparr>)"
  by (rule restored_users [where P = P and f = f]) simp_all

lemma restored_unclaimed:
  assumes "restored i d" and "pgUuid (dj_userId job) = i"
  shows "\<not> existsRow (deletionClaimed now job) (users d)"
  using assms by (auto simp: restored_def existsRow_iff list_all_iff deletionClaimed_def)

interpretation takenBack: quiet_accounts "restored i" for i
proof
  show "restored i d'" if "accountView d' = accountView d" "restored i d" for d d'
    using that restored_frame [of d' d] by (simp add: accountView_def)
  show "restored i (d\<lparr>users := updateWhere (\<lambda>u. u_userId u = j) (setProfile now v) (users d)\<rparr>)" if "restored i d" for d j now v
    by (rule restored_updates [OF _ _ that]) (simp_all add: setProfile_def)
  show "preserves (restored i) (claimDueDeletionBatch now lease n)" for now lease n
    unfolding claimDueDeletionBatch_def
    by (intro preserves_intros preserves_modify restored_updates) (simp_all add: claimDeletion_def)
  show "preserves (restored i) (releaseDeletionLease now job)" for now job
    unfolding releaseDeletionLease_def by (intro preserves_modify restored_updates) simp_all
  show "preserves (restored i) (anonymizeDeletedAccount now job)" for now job
  proof (rule preservesI)
    fix d assume inv: "restored i d"
    show "restored i (snd (anonymizeDeletedAccount now job d))"
    proof (cases "pgUuid (dj_userId job) = i")
      case False
      have "restored i (anonymized now job d)"
        by (rule restored_users [OF inv anonymized_users]) (use False in \<open>simp_all add: anonymousUser_def\<close>)
      with inv show ?thesis by (simp add: anonymizeDeletedAccount_eq)
    qed (use inv restored_unclaimed in \<open>simp add: anonymizeDeletedAccount_eq\<close>)
  qed
qed (unfold rotateRefreshToken_def deleteRefreshToken_def reserveVerification_def activateVerification_def
  deleteVerification_def updateVerifications_def Let_def, (intro preserves_intros preserves_modify; simp)+)

interpretation takenBack: staying_invariant "restored i" env i for i env
proof
  show "preserves (restored i) (scheduleDeletion now me until)" if "pgUuid me \<noteq> i" for now me until
    unfolding scheduleDeletion_def Let_def
    by (intro preserves_intros preserves_modify restored_updates) (use that in auto)
  show "preserves (restored i) (insertUser (newUser now j m p pw n g))" for now j m p pw n g
    unfolding insertUser_def
    by (intro preserves_intros preserves_modify) (auto simp: restored_def newUser_def existsRow_iff)
  show "preserves (restored i) (setPhone now u p)" for now u p
    unfolding setPhone_def Let_def by (intro preserves_intros preserves_modify restored_updates) simp_all
  show "preserves (restored i) (restoreScheduledDeletion now u)" for now u
    unfolding restoreScheduledDeletion_def Let_def by (intro preserves_intros preserves_modify restored_updates) simp_all
  show "preserves (restored i) (resetPasswordWithVerification now j p pw)" for now j p pw
    unfolding resetPasswordWithVerification_def updateVerifications_def Let_def
    by (intro preserves_intros preserves_modify restored_updates; simp)
qed (unfold repoConsumePhoneVerificationToken_def consumeKakaoPhoneVerificationToken_def
  repoCreatePhoneVerificationToken_def repoCreateKakaoPhoneVerificationToken_def insertIdentity_def repoSaveRefreshToken_def
  rotateRefreshToken_def deleteRefreshToken_def reserveVerification_def activateVerification_def deleteVerification_def
  claimVerificationAttempt_def markVerified_def updateVerifications_def Let_def,
  (intro preserves_intros preserves_modify; simp)+)

text \<open>The user a sign-in finds, with an email and a password or with an access token of Kakao.\<close>

definition signinUser :: "signinAuthInput \<Rightarrow> db \<Rightarrow> user option" where
  "signinUser input d = (case repoSignin (trim (in_email input)) d of
       Some u \<Rightarrow> Some u
     | None \<Rightarrow> if trim (in_email input) \<noteq> in_email input then repoSignin (in_email input) d else None)"

definition kakaoUser :: "authEnv \<Rightarrow> jsstring \<Rightarrow> db \<Rightarrow> user option" where
  "kakaoUser env accessToken d = (case fst (getKakaoProfile env accessToken d) of
       Inl e \<Rightarrow> None
     | Inr prof \<Rightarrow> findUserByIdentity (js ''kakao'') (kp_providerUserId prof) d)"

lemma restore_restores:
  assumes "accountInv d" and "users d1 = users d" and "u \<in> set (users d)" and "canonicalUuid (u_userId u)"
    and "u_deletionScheduledAt u = Some t" "now < t" and "restoreIfWithinGrace now (u_userId u) d1 = (Inr b, d2)"
  shows "restored (u_userId u) d2"
proof -
  let ?P = "\<lambda>w. u_userId w = u_userId u \<and> u_deletedAt w = None \<and> (case u_deletionScheduledAt w of None \<Rightarrow> False | Some t \<Rightarrow> now < t)"
  let ?f = "\<lambda>w. w\<lparr>u_hiddenAt := None, u_deletionScheduledAt := None, u_deletionLeaseExpiresAt := None, u_deletionAttempts := 0,
    u_updatedAt := now\<rparr>"
  have "uniqueKey u_userId (users d)" using assms(1) by (simp add: accountInv_def authInv_defs)
  then have only: "w = u" if "w \<in> set (users d)" "u_userId w = u_userId u" for w
    using uniqueKey_inj [where k = u_userId, OF _ that(1) assms(3)] that(2) by simp
  have "u_deletedAt u = None"
    using assms(1,3,5) by (auto simp: accountInv_def list_all_iff deletionOk_def)
  then have P: "?P u" using assms(5,6) by simp
  have d2: "users d2 = updateWhere ?P ?f (users d)"
    using assms(2,4,7) by (auto simp: restoreIfWithinGrace_def restoreScheduledDeletion_def validateUserUuid_def Let_def success_simps)
  have "?f u \<in> set (users d2)" unfolding d2 set_updateWhere using P assms(3) by force
  then have "existsRow (\<lambda>w. u_userId w = u_userId u) (users d2)"
    unfolding existsRow_iff by (rule bexI [rotated]) simp
  moreover have "u_hiddenAt w = None \<and> u_deletionScheduledAt w = None \<and> u_deletedAt w = None"
    if w: "w \<in> set (users d2)" "u_userId w = u_userId u" for w
  proof -
    obtain x where x: "x \<in> set (users d)" "w = (if ?P x then ?f x else x)"
      using w(1) unfolding d2 updateWhere_def set_map by (rule imageE)
    then have "x = u" using only [OF x(1)] that(2) by (auto split: if_splits)
    with x(2) P \<open>u_deletedAt u = None\<close> show ?thesis by simp
  qed
  ultimately show ?thesis by (simp add: restored_def list_all_iff)
qed

lemma signin_restores:
  fixes env :: apiEnv
  assumes "accountInv d" and "signin (ae_auth env) ids now input dev d = (Inr p, d')" and "signinUser input d = Some u"
    and "canonicalUuid (u_userId u)" and "u_deletionScheduledAt u = Some t" "now < t"
  shows "restored (u_userId u) d'"
proof -
  from assms(2,3) obtain tok y d1 b d2 where tok: "consumePhoneVerificationToken (ae_auth env) now (in_phoneVerificationToken input) d = (Inr y, d1)"
    and grace: "restoreIfWithinGrace now (u_userId u) d1 = (Inr b, d2)" and rest: "issueTokens (ae_auth env) (ids 2) now u dev d2 = (Inr p, d')"
    by (auto simp: signin_def signinUser_def success_simps split: option.splits if_splits)
  have "users d1 = users d"
    using tok by (auto simp: consumePhoneVerificationToken_def repoConsumePhoneVerificationToken_def success_simps Let_def)
  moreover have "u \<in> set (users d)"
    using assms(3) by (auto simp: signinUser_def repoSignin_def dest!: findFirst_SomeD split: option.splits if_splits)
  ultimately have kept: "restored (u_userId u) d2"
    using restore_restores assms(1,4-6) grace by blast
  have "preserves (restored (u_userId u)) (issueTokens (ae_auth env) (ids 2) now u dev)"
    by (rule takenBack.issueTokens_keeps)
  from preservesD [OF this kept rest] show ?thesis .
qed

lemma kakao_restores:
  fixes env :: apiEnv
  assumes "accountInv d" and "loginWithKakaoAccessToken (ae_auth env) ids now tok dev d = (Inr (KakaoLoginSuccess p), d')"
    and "kakaoUser (ae_auth env) tok d = Some u"
    and "canonicalUuid (u_userId u)" and "u_deletionScheduledAt u = Some t" "now < t"
  shows "restored (u_userId u) d'"
proof -
  from assms(2) obtain prof d0 where prof: "getKakaoProfile (ae_auth env) tok d = (Inr prof, d0)"
    by (auto simp: loginWithKakaoAccessToken_def success_simps)
  moreover have "d0 = d"
    using prof by (auto simp: getKakaoProfile_def success_simps Let_def split: option.splits)
  ultimately obtain b d2 where grace: "restoreIfWithinGrace now (u_userId u) d = (Inr b, d2)" and rest: "issueTokens (ae_auth env) (ids 2) now u dev d2 = (Inr p, d')"
    using assms(2,3) by (auto simp: loginWithKakaoAccessToken_def kakaoUser_def success_simps split: if_splits)
  have "u \<in> set (users d)"
    using assms(3) by (auto simp: kakaoUser_def findUserByIdentity_def findUserRow_def bind_eq_Some_conv
        dest!: findFirst_SomeD split: sum.splits option.splits)
  then have kept: "restored (u_userId u) d2"
    using restore_restores [OF assms(1) refl] assms(4-6) grace by blast
  have "preserves (restored (u_userId u)) (issueTokens (ae_auth env) (ids 2) now u dev)"
    by (rule takenBack.issueTokens_keeps)
  from preservesD [OF this kept rest] show ?thesis .
qed

text \<open>C31. Signing in with the password or with Kakao within the grace period takes the account back: from then on, whatever
  requests, webhooks and jobs of the maintenance process follow, as long as the user does not ask for the deletion again,
  the account is there and visible, and no worker can delete it, whatever claim the worker holds.\<close>

theorem signin_stops_deletion:
  assumes "accountInv d"
    and "signin (ae_auth env) ids now input dev d = (Inr p, d') \<and> signinUser input d = Some u \<or>
      loginWithKakaoAccessToken (ae_auth env) ids now tok dev d = (Inr (KakaoLoginSuccess p), d') \<and> kakaoUser (ae_auth env) tok d = Some u"
    and "canonicalUuid (u_userId u)" and "u_deletionScheduledAt u = Some t" and "now < t"
    and "list_all (\<lambda>e. \<not> asksDeletion env (u_userId u) e) es"
  shows "let d'' = foldl (serverStep env) d' es in
    (\<exists>w. findUserRow (u_userId u) d'' = Some w \<and> u_hiddenAt w = None \<and> u_deletionScheduledAt w = None \<and> u_deletedAt w = None) \<and>
    (\<forall>now' job. pgUuid (dj_userId job) = u_userId u \<longrightarrow>
      anonymizeDeletedAccount now' job d'' = (Inl (ErrorCode ''ACCOUNT_DELETION_CLAIM_REQUIRED''), d''))"
proof -
  let ?d = "foldl (serverStep env) d' es"
  have "restored (u_userId u) d'"
    using assms(2) signin_restores [OF assms(1) _ _ assms(3-5)] kakao_restores [OF assms(1) _ _ assms(3-5)] by blast
  then have inv: "restored (u_userId u) ?d"
    using assms(6) by (rule takenBack.staying.guarded_run)
  then obtain w where "findUserRow (u_userId u) ?d = Some w"
    using assms(3) by (cases "findUserRow (u_userId u) ?d")
      (auto simp: restored_def findUserRow_def findFirst_None_iff existsRow_iff)
  moreover from this have "w \<in> set (users ?d)" "u_userId w = u_userId u"
    using assms(3) by (auto simp: findUserRow_def dest!: findFirst_SomeD)
  ultimately show ?thesis
    using inv restored_unclaimed [OF inv] by (auto simp: restored_def list_all_iff anonymizeDeletedAccount_eq)
qed

text \<open>The user of the sample signs in three units before the deletion is due; the deletion job then finds nothing to do.\<close>

definition sampleLeavingDb :: db where
  "sampleLeavingDb = (sampleAuthDb (js ''login''))\<lparr>users := [sampleAccount\<lparr>u_hiddenAt := Some 0, u_deletionScheduledAt := Some 10\<rparr>]\<rparr>"

definition sampleBackDb :: db where
  "sampleBackDb = snd (signin (ae_auth sampleApi) (\<lambda>k. [k]) 7 sampleSignin (js ''d2'') sampleLeavingDb)"

lemma sampleBack_run: "\<exists>p. signin (ae_auth sampleApi) (\<lambda>k. [k]) 7 sampleSignin (js ''d2'') sampleLeavingDb = (Inr p, sampleBackDb)"
  by (simp add: sampleBackDb_def sampleLeavingDb_def signin_def sampleSignin_def sampleApi_def eval_simps cong: run_congs)

theorem signin_stops_deletion_witness:
  "let d = foldl (serverStep sampleApi) sampleBackDb [JobE sampleServices 20 AccountDeletion, LogoutE (sampleRequest 21)] in
   \<exists>w. findUserRow sampleAccountId d = Some w \<and> u_deletedAt w = None"
proof -
  let ?u = "sampleAccount\<lparr>u_hiddenAt := Some 0, u_deletionScheduledAt := Some 10\<rparr>"
  obtain p where run: "signin (ae_auth sampleApi) (\<lambda>k. [k]) 7 sampleSignin (js ''d2'') sampleLeavingDb = (Inr p, sampleBackDb)"
    using sampleBack_run by blast
  have inv: "accountInv sampleLeavingDb"
    by (simp add: sampleLeavingDb_def accountInv_def authInv_defs sampleAuthDb_def sampleAccount_def sampleUser_def emptyDb_def
        sampleVerification_def MAX_CODE_ATTEMPTS_def userExists_def existsRow_def uniqueKey_def deletionOk_def)
  have user: "signinUser sampleSignin sampleLeavingDb = Some ?u"
    by (simp add: signinUser_def repoSignin_def sampleSignin_def sampleLeavingDb_def sampleAuthDb_def sampleAccount_def eval_simps)
  have id: "canonicalUuid (u_userId ?u)" "u_userId ?u = sampleAccountId"
    by (simp_all add: sampleAccount_def sampleUser_def sample_ids)
  from signin_stops_deletion [OF inv disjI1 [OF conjI [OF run user]] id(1), of 10 "[JobE sampleServices 20 AccountDeletion, LogoutE (sampleRequest 21)]"]
  show ?thesis
    unfolding id(2) by (auto simp: Let_def)
qed

end
