(* ===== verification/Startup.thy ===== *)
theory Startup
  imports Environment Logging Api Maintenance
begin

text \<open>
  What the two processes set up from their environment (\<^verbatim>\<open>src/main.ts\<close>, \<^verbatim>\<open>src/modules/app.module.ts\<close>,
  \<^verbatim>\<open>src/modules/database/database-pool.ts\<close>, \<^verbatim>\<open>src/maintenance.ts\<close>, \<^verbatim>\<open>scripts/preflight.ts\<close>): the options they pass to the
  framework, to the connection pool and to Apollo. What these make of the options belongs to the packages. A process
  environment maps names to texts; the configuration service answers with the checked configuration.
\<close>

type_synonym processEnv = "string \<Rightarrow> jsstring option"

definition environmentOf :: "processEnv \<Rightarrow> envConfig" where
  "environmentOf process key = map_option EnvString (process key)"

section \<open>The connection pool\<close>

record poolOptions =
  po_host :: "envValue option"
  po_port :: "envValue option"
  po_user :: "envValue option"
  po_password :: "envValue option"
  po_database :: "envValue option"
  po_ssl :: "sslOptions option"

definition textOf :: "envValue option \<Rightarrow> jsstring option" where
  "textOf v = (case v of Some (EnvString s) \<Rightarrow> Some s | _ \<Rightarrow> None)"

definition databasePool :: "envConfig \<Rightarrow> app_error + poolOptions" where
  "databasePool config =
     (case createPostgresSslOptions (config ''POSTGRES_SSL'') (textOf (config ''POSTGRES_SSL_CA'')) of
        Inl e \<Rightarrow> Inl e
      | Inr ssl \<Rightarrow> Inr \<lparr>po_host = config ''POSTGRES_HOST'', po_port = config ''POSTGRES_PORT'',
          po_user = config ''POSTGRES_USERNAME'', po_password = config ''POSTGRES_PASSWORD'',
          po_database = config ''POSTGRES_DATABASE'', po_ssl = ssl\<rparr>)"

section \<open>GraphQL\<close>

record graphQLOptions =
  gq_autoSchemaFile :: bool
  gq_introspection :: bool
  gq_graphqlWs :: bool
  gq_validationRules :: "(nat \<Rightarrow> string list) list"

definition graphQLModule :: "processEnv \<Rightarrow> graphQLOptions" where
  "graphQLModule process = \<lparr>gq_autoSchemaFile = True,
     gq_introspection = (process ''NODE_ENV'' \<noteq> Some (js ''production'')),
     gq_graphqlWs = True, gq_validationRules = [graphqlDocumentFieldLimitRule]\<rparr>"

text \<open>The request of an operation: over a web socket (\<^verbatim>\<open>extra\<close> is there) the one that its connection parameters make.\<close>

definition graphQLContext :: "bool \<Rightarrow> jsstring option \<Rightarrow> apiRequest \<Rightarrow> apiRequest" where
  "graphQLContext extra authorization req = (if extra then wsConnectionRequest authorization req else req)"

section \<open>The HTTP server\<close>

datatype middleware = JsonBody | UrlencodedBody | CookieParser | PassportInit | HealthRoute | RequestLog

record corsOptions =
  co_origin :: "jsstring option"
  co_methods :: jsstring
  co_credentials :: bool

record httpServer =
  hs_bodyParser :: bool
  hs_signals :: "string list"
  hs_middleware :: "middleware list"
  hs_trustProxy :: trustProxy
  hs_cors :: corsOptions
  hs_port :: jsstring

definition enableApiShutdownHooks :: "string list" where
  "enableApiShutdownHooks = [''SIGINT'', ''SIGTERM'']"

text \<open>The middleware in the order of its registration; the parser of JSON bodies keeps the raw bytes for the webhook. The port is the text that \<^verbatim>\<open>Number\<close> reads; the proxies are those of
  the environment of the process, \<^verbatim>\<open>false\<close> if they cannot be read.\<close>

definition bootstrap :: "envRuntime \<Rightarrow> processEnv \<Rightarrow> httpServer" where
  "bootstrap rt process = \<lparr>hs_bodyParser = False, hs_signals = enableApiShutdownHooks,
     hs_middleware = [JsonBody, UrlencodedBody, CookieParser, PassportInit, HealthRoute, RequestLog],
     hs_trustProxy = (case parseTrustedProxy rt (environmentOf process ''TRUST_PROXY'') of Some t \<Rightarrow> t | None \<Rightarrow> TrustNone),
     hs_cors = \<lparr>co_origin = process ''CLIENT_URL'', co_methods = js ''GET,HEAD,PUT,PATCH,POST,DELETE,OPTIONS'',
       co_credentials = True\<rparr>,
     hs_port = (case process ''PORT'' of Some p \<Rightarrow> p | None \<Rightarrow> js ''4000'')\<rparr>"

section \<open>Starting\<close>

datatype startError = StartConfig envError | StartPool app_error

text \<open>The module of the application: its configuration is checked first, then its providers are built.\<close>

definition appModule :: "envRuntime \<Rightarrow> processEnv \<Rightarrow> startError + envConfig \<times> poolOptions \<times> graphQLOptions" where
  "appModule rt process =
     (case validateEnvironment rt (environmentOf process) of
        Inl e \<Rightarrow> Inl (StartConfig e)
      | Inr config \<Rightarrow>
          (case databasePool config of
             Inl e \<Rightarrow> Inl (StartPool e)
           | Inr pool \<Rightarrow> Inr (config, pool, graphQLModule process)))"

definition preflight :: "envRuntime \<Rightarrow> processEnv \<Rightarrow> envError option" where
  "preflight rt process = (case validateEnvironment rt (environmentOf process) of Inl e \<Rightarrow> Some e | Inr config \<Rightarrow> None)"

text \<open>The maintenance process: an error that leaves the application is logged and the process exits with 1. The text of the
  error is a parameter.\<close>

definition maintenanceProcess ::
  "loggerEnv \<Rightarrow> (app_error \<Rightarrow> jsstring) \<Rightarrow> timestamp \<Rightarrow> maintenanceServices \<Rightarrow> app_error option \<Rightarrow> app_error option \<Rightarrow>
   round list \<Rightarrow> maintenanceState \<Rightarrow> int option \<times> (logStream \<times> jsstring) list \<times> maintenanceState" where
  "maintenanceProcess env errorMessage now services contextFault resetFault rs s =
     (case runMaintenanceApplication services contextFault resetFault rs s of
        (Inl e, s') \<Rightarrow> (Some 1, [writeLog env now ErrorLevel (JString (lg_stringify env (JObject
            [(js ''event'', JString (js ''maintenance_process_failed'')), (js ''error'', JString (errorMessage e))])))
            None None], s')
      | (Inr x, s') \<Rightarrow> (None, [], s'))"

section \<open>What a start guarantees\<close>

lemma pool_of_bool:
  assumes "config ''POSTGRES_SSL'' = None \<or> (\<exists>b. config ''POSTGRES_SSL'' = Some (EnvBool b))"
  shows "\<exists>pool. databasePool config = Inr pool"
  using assms by (auto simp: databasePool_def createPostgresSslOptions_def)

lemma accepted_ssl:
  assumes "validateEnvironment rt config = Inr c"
  shows "c ''POSTGRES_SSL'' = None \<or> (\<exists>b. c ''POSTGRES_SSL'' = Some (EnvBool b))"
  using normalized_ssl [OF validateEnvironment_accepts(1) [OF assms]] validateEnvironment_accepts(2) [OF assms]
    normalized_absent [of config "''POSTGRES_SSL''" rt] by auto

text \<open>The preflight script refuses an environment exactly if the server does not start with it, for the same keys: nothing
  that the script lets through fails later, while the providers are built.\<close>

lemma preflight_complete: "appModule rt process = Inl e \<longleftrightarrow> (\<exists>err. preflight rt process = Some err \<and> e = StartConfig err)"
proof (cases "validateEnvironment rt (environmentOf process)")
  case (Inr config)
  from pool_of_bool [of config, OF accepted_ssl [OF Inr]] Inr show ?thesis
    by (auto simp: appModule_def preflight_def)
qed (auto simp: appModule_def preflight_def)

text \<open>A server that starts in production hides its schema, allows credentials to one HTTPS origin only, trusts the configured
  proxies and verifies the certificate of a database that is not local. The checks read the texts without the white space
  around them, the options take them as they are.\<close>

lemma production_checks:
  assumes "process ''NODE_ENV'' = Some (js ''production'')" and "validateEnvironment rt (environmentOf process) = Inr config"
  shows "key \<in> {''CLIENT_URL'', ''POSTGRES_SSL'', ''TRUST_PROXY''} \<Longrightarrow> \<exists>v. process key = Some v"
    and "isHttpsUrl rt (valueFor (environmentOf process) ''CLIENT_URL'')"
    and "parseTrustedProxy rt (environmentOf process ''TRUST_PROXY'') \<noteq> None"
    and "config ''POSTGRES_SSL'' \<noteq> Some (EnvBool False) \<or> valueFor (environmentOf process) ''POSTGRES_HOST'' = js ''postgres''"
proof -
  let ?env = "environmentOf process"
  have "?env ''NODE_ENV'' = Some (EnvString (js ''production''))" using assms(1) by (simp add: environmentOf_def)
  then have "unsafeForProduction rt ?env = []" "config = normalizedConfig rt ?env"
    using validateEnvironment_accepts [OF assms(2)] by blast+
  then have safe: "key \<notin> set (unsafeForProduction rt ?env)" "config = normalizedConfig rt ?env" for key by simp_all
  show "\<exists>v. process key = Some v" if "key \<in> {''CLIENT_URL'', ''POSTGRES_SSL'', ''TRUST_PROXY''}"
  proof -
    have "List.member REQUIRED_PRODUCTION_KEYS key" using that by (auto simp: REQUIRED_PRODUCTION_KEYS_def)
    with safe(1) [of key] have "valueFor ?env key \<noteq> []" unfolding in_unsafe by blast
    then show ?thesis by (cases "process key") (simp_all add: valueFor_def environmentOf_def)
  qed
  have "List.member HTTPS_URL_KEYS ''CLIENT_URL''" by (simp add: HTTPS_URL_KEYS_def)
  with safe(1) [of "''CLIENT_URL''"] show "isHttpsUrl rt (valueFor ?env ''CLIENT_URL'')" unfolding in_unsafe by blast
  show "parseTrustedProxy rt (?env ''TRUST_PROXY'') \<noteq> None" using safe(1) [of "''TRUST_PROXY''"]
    unfolding in_unsafe by simp
  show "config ''POSTGRES_SSL'' \<noteq> Some (EnvBool False) \<or> valueFor ?env ''POSTGRES_HOST'' = js ''postgres''"
    using safe(1) [of "''POSTGRES_SSL''"] unfolding in_unsafe safe(2) by blast
qed

lemma production_start:
  assumes "process ''NODE_ENV'' = Some (js ''production'')" and "appModule rt process = Inr (config, pool, graphql)"
  shows "\<not> gq_introspection graphql"
    and "\<exists>origin. co_origin (hs_cors (bootstrap rt process)) = Some origin \<and> isHttpsUrl rt (trim origin)"
    and "parseTrustedProxy rt (environmentOf process ''TRUST_PROXY'') = Some (hs_trustProxy (bootstrap rt process))"
    and "(\<exists>ssl. po_ssl pool = Some ssl \<and> ssl_rejectUnauthorized ssl) \<or>
      (\<exists>host. po_host pool = Some (EnvString host) \<and> trim host = js ''postgres'')"
proof -
  have valid: "validateEnvironment rt (environmentOf process) = Inr config" and pool: "databasePool config = Inr pool"
    and graphql: "graphql = graphQLModule process"
    using assms(2) by (auto simp: appModule_def split: sum.splits)
  note checks = production_checks [OF assms(1) valid]
  show "\<not> gq_introspection graphql" using assms(1) by (simp add: graphql graphQLModule_def)
  show "\<exists>origin. co_origin (hs_cors (bootstrap rt process)) = Some origin \<and> isHttpsUrl rt (trim origin)"
    using checks(1) [of "''CLIENT_URL''"] checks(2) by (auto simp: bootstrap_def valueFor_def environmentOf_def)
  show "parseTrustedProxy rt (environmentOf process ''TRUST_PROXY'') = Some (hs_trustProxy (bootstrap rt process))"
    using checks(3) by (auto simp: bootstrap_def)
  have given: "environmentOf process ''POSTGRES_SSL'' \<noteq> None"
    using checks(1) [of "''POSTGRES_SSL''"] by (auto simp: environmentOf_def)
  obtain b where b: "config ''POSTGRES_SSL'' = Some (EnvBool b)"
    using normalized_ssl [OF validateEnvironment_accepts(1) [OF valid] given] validateEnvironment_accepts(2) [OF valid] by auto
  have host: "config ''POSTGRES_HOST'' = environmentOf process ''POSTGRES_HOST''"
    using validateEnvironment_accepts(2) [OF valid] normalizedConfig_at(7) [of "''POSTGRES_HOST''" rt "environmentOf process"] by simp
  show "(\<exists>ssl. po_ssl pool = Some ssl \<and> ssl_rejectUnauthorized ssl) \<or>
      (\<exists>host. po_host pool = Some (EnvString host) \<and> trim host = js ''postgres'')"
  proof (cases b)
    case True
    with pool b show ?thesis by (auto simp: databasePool_def createPostgresSslOptions_def)
  next
    case False
    with checks(4) b have "valueFor (environmentOf process) ''POSTGRES_HOST'' = js ''postgres''" by simp
    then have "\<exists>h. config ''POSTGRES_HOST'' = Some (EnvString h) \<and> trim h = js ''postgres''"
      unfolding host by (auto simp: valueFor_def environmentOf_def js_def split: option.splits)
    with pool show ?thesis by (auto simp: databasePool_def split: sum.splits)
  qed
qed

end
