(* ===== verification/Spec2Isabelle.thy ===== *)
theory Spec2Isabelle
  imports Notification Billing User Matching Auth Phone Upload Chat Community Maintenance Environment Migrations
    Logging Api Rooms Server Conversation Deletion Startup
begin

text \<open>
  A verification development for the chattea backend, a NestJS server in TypeScript that keeps its
  state in PostgreSQL through drizzle-orm.

  \<^bold>\<open>The program.\<close> Each module under \<^verbatim>\<open>src/modules\<close> has a repository (SQL statements and transactions), a
  service (validation, errors, composition) and a resolver or controller (transport). The modules
  share one database: signing up and in (\<^verbatim>\<open>auth\<close>, \<^verbatim>\<open>phone\<close>) writes accounts and sessions, \<^verbatim>\<open>user\<close> keeps
  profiles and deletes accounts after a grace period, \<^verbatim>\<open>upload\<close> publishes profile photos from an object
  store, \<^verbatim>\<open>matching\<close> records likes and makes matches with their chat rooms, \<^verbatim>\<open>chat\<close> and \<^verbatim>\<open>community\<close> hold
  messages, posts and comments, \<^verbatim>\<open>billing\<close> turns the events of the payment provider into credits and
  subscriptions, \<^verbatim>\<open>notification\<close> queues push messages in an outbox that workers claim under leases. A
  second process (\<^verbatim>\<open>src/maintenance\<close>) delivers, cleans up and deletes; \<^verbatim>\<open>src/scripts/migrate.ts\<close> migrates the database.

  \<^bold>\<open>The model.\<close> Every operation of a repository or a service is one definition, named as in the
  source; an operation of a repository whose name a service also has carries the prefix \<open>repo\<close>.
  \<^item> \<open>Prelude\<close>: strings are lists of UTF-16 code units; a request is a state-passing program that ends
    in an error or a result, with \<^verbatim>\<open>try/catch\<close> and transactions that roll back; a table is a list of
    rows with the SQL statements on it. Its named collections (\<open>preserves_intros\<close>, \<open>atomic_intros\<close>,
    \<open>success_simps\<close>, \<open>eval_simps\<close>) carry the proofs of the components.
  \<^item> \<open>Schema\<close>: \<^verbatim>\<open>database/schema.ts\<close>, one record for each table, the database as the record of all tables,
    and the deletes with their cascades. Inserts check the primary keys, the unique and foreign keys
    and the check constraints and end in a \<open>PgError\<close> like the statement does.
  \<^item> \<open>Contracts\<close>: the locales the components share: \<open>guarded_machine\<close> and \<open>invariant_machine\<close> (a
    machine whose steps keep an invariant), \<open>lease_queue\<close> (rows claimed in batches under a lease),
    \<open>single_use_token\<close> (rows that are consumed once, before they expire) and \<open>keyed_create\<close> (rows that a
    client creates under a key of its own).
  \<^item> \<open>Dates\<close>: the calendar of \<^verbatim>\<open>Date\<close> as far as the services use it.
  \<^item> \<open>Notification\<close>, \<open>Billing\<close>, \<open>User\<close>, \<open>Matching\<close>, \<open>Phone\<close>, \<open>Upload\<close>, \<open>Chat\<close>, \<open>Community\<close>: the module of
    \<^verbatim>\<open>src/modules\<close> with that name; \<open>Auth\<close>: \<^verbatim>\<open>modules/auth\<close> and \<^verbatim>\<open>strategys\<close>; \<open>Maintenance\<close>: \<^verbatim>\<open>src/maintenance\<close>;
    \<open>Environment\<close>: \<^verbatim>\<open>common/config\<close>; \<open>Migrations\<close>: \<^verbatim>\<open>scripts/migrate.ts\<close>; \<open>Logging\<close>: \<^verbatim>\<open>common/logging\<close>;
    \<open>Api\<close>: the guards, resolvers, controllers and cookies; \<open>Startup\<close>: what the processes set up from their
    environment (\<^verbatim>\<open>main.ts\<close>, \<^verbatim>\<open>maintenance.ts\<close>, \<^verbatim>\<open>scripts/preflight.ts\<close>, the options of \<^verbatim>\<open>app.module.ts\<close> and the pool).
  \<^item> \<open>Rooms\<close>: what matching, chat and the deletion of accounts keep together on the tables they share.
  \<^item> \<open>Server\<close>: all of these on one database. \<open>serverStep\<close> is the machine of every request, webhook and
    maintenance job; the locales \<open>side_invariant\<close>, \<open>core_invariant\<close>, \<open>quiet_invariant\<close>, \<open>profile_invariant\<close>,
    \<open>session_invariant\<close>, \<open>quiet_accounts\<close>, \<open>account_invariant\<close>, \<open>public_invariant\<close> and \<open>server_invariant\<close>, with
    \<open>sign_writes\<close> and \<open>auth_writes\<close> of \<open>Phone\<close> and \<open>maintained\<close> of \<open>Maintenance\<close>, say which writes of the components an
    invariant must survive to be one of the server; \<open>staying_invariant\<close> does so for the runs in which one user does not
    ask for the deletion of the account.
  \<^item> \<open>Conversation\<close>: the states the server reaches by events of a kind (\<open>reachable\<close>), and what two users who like each
    other get there, as long as users act on each other under canonical identifiers.
  \<^item> \<open>Deletion\<close>: a round of the deletion job on the whole database, account by account, and the sign-in that takes an
    account back before its time.

  The clock, generated identifiers and random numbers are arguments. So is what packages and the
  network compute: bcrypt, SHA-256, HMAC, JSON web tokens, the Kakao endpoint, the push gateway, the
  object store, the image library, URL and JSON parsers, the delivery of text messages. Time is an
  integer number of milliseconds. A JavaScript string that meets a \<^verbatim>\<open>uuid\<close> column
  goes through \<open>pgUuid\<close>, the cast of the database to lower case, because several operations compare
  the uncast text before; the theorems that need it assume canonical identifiers and the findings
  show what happens without. Transactions run one at a time: the row and advisory locks the code
  takes serialise them, and the statements that interleave with I/O are separate steps.

  \<^bold>\<open>What is proved.\<close>
  \<^item> Server: a request reaches a service only with a verified token of a visible user; a user who asked for
    the deletion of the account is locked out at once; every sequence of events keeps the invariants of
    accounts, notifications, uploads, matches and messages.
  \<^item> Conversation: as long as users act on each other under canonical identifiers, the matches are the mutual likes in every reachable state, each with a room of its own, nobody but the
    two users of the match reads or writes there, and what one sends is told to the other only, who finds it in the room.
  \<^item> Deletion: a round of the job erases every account that is due, unless more than a hundred are due or another account
    has the address that the deleted one is to get, whatever becomes of the other accounts of the batch; a sign-in with the
    password or with Kakao within the grace period takes the account back for good, unless its user asks again.
  \<^item> Startup: the preflight script refuses exactly the environments with which the server does not start, and a server in
    production hides its schema, allows one HTTPS origin and verifies the certificate of a remote database.
  \<^item> Notification: a push job is only ever addressed to the owner of the token, no queued job is lost
    or delivered by two workers under one lease, a reported outcome is final and a late report is
    ignored, registering a token moves it between devices and users.
  \<^item> Billing: credits equal the sum over granted transactions, an event is applied once, the newest
    event of a subscription wins, the order in which the events of a purchase arrive does not matter,
    and a webhook is authenticated before it reads and changes nothing when it fails.
  \<^item> User: the deletion transaction erases what it promises, needs its lease and never deletes a
    restored account; profiles are of adults and their photos are the user's own uploads.
  \<^item> Matching: two users are matched exactly if each likes the other, undo restores the state before
    the action, repeated actions are idempotent, the daily and windowed limits hold, boosts cost one
    credit, and every listed candidate can be acted on, exactly as far as credits and the limit of the day allow.
  \<^item> Auth and Phone: a phone token pays for one request, accounts, identities and sessions stay
    unique under all requests, a sign-in checks the password and the phone, a code is used once, by the login or by
    the reset, is guessed at most five times and is sent within its quotas, a reset ends every session.
  \<^item> Upload: the quotas hold, a published upload keeps its object until its owner is deleted, an upload
    that the cleanup took is never published, and finalizing is idempotent, however statements of requests
    and workers interleave.
  \<^item> Chat and Community: sending, posting and commenting are idempotent under their keys (for a comment, with the identifier
    of the post in the spelling of the database), messages are
    written and changed by members and senders only, pages are slices of the timeline, and reading a room clears
    its unread count.
  \<^item> Maintenance: the jobs run in one process at a time, which holds the lock while they run, and no job stops another, the process refines the
    machine of the uploads, and the loop ends exactly when the signal is seen.
  \<^item> Environment: an accepted configuration is typed, within its bounds and safe for production, and a
    refused one is refused for the keys it names.
  \<^item> Migrations: however runs are cut off, every script is applied once and recorded with its checksum, and
    a run with enough statements completes the earlier ones. A run is given a number of statements after
    which its process is gone; three and eight for every script are enough for it to end by itself.
  \<^item> The findings are theorems too, where the model shows them: identifiers in upper case, an email
    that blocks the deletion of an account, refresh tokens that survive their rotation, and an index without
    its marker.

  Apart from that number of statements no definition has fuel: loops are recursions over lists, and the loop of the
  maintenance process runs over the rounds that have come. A theorem of the form ``the run returned \<open>Inr\<close>'' has
  a witness that runs the code on a concrete database and returns.

  \<^bold>\<open>Not modelled.\<close> The lists of providers of the modules that wire the services together: declarations that the
  framework interprets. The execution of GraphQL documents, the publishing of events to subscribers and the HTTP server belong to
  packages; the model starts at the resolver and ends at its result, its events and its cookies.
\<close>

end
